(* ===== verification/Prelude.thy ===== *)
theory Prelude
  imports Main "HOL-Library.State_Monad" "HOL-Library.Sublist"
begin

text \<open>
  What every theory of the development shares: the collections of rewrite rules, the
  conventions for errors, and a small logic for stateful operations.

  A Go function that returns \<^verbatim>\<open>(v, err)\<close> is a value of the sum type
  \<open>error + 'a\<close>: \<open>Inl\<close> the error, \<open>Inr\<close> the value. A function that talks to the
  backend or to the recorder is a value of the library's state monad,
  \<open>('w, error + 'a) state\<close>, run with \<open>run_state\<close>.
\<close>

named_theorems run_simps \<open>definitions of operations, for running them on a concrete state\<close>
named_theorems wp_intros \<open>rules that take a triple about an operation apart\<close>

section \<open>Results\<close>

abbreviation is_ok :: "'e + 'a \<Rightarrow> bool" where
  "is_ok r \<equiv> \<not> isl r"

lemma isl_iff [simp]: "isl r \<longleftrightarrow> (\<exists>e. r = Inl e)"
  by (cases r) auto

text \<open>Sequencing of results: the early return on an error.\<close>

fun bindR :: "'e + 'a \<Rightarrow> ('a \<Rightarrow> 'e + 'b) \<Rightarrow> 'e + 'b" where
  "bindR (Inl e) f = Inl e"
| "bindR (Inr a) f = f a"

lemma bindR_Inr_iff: "bindR m f = Inr b \<longleftrightarrow> (\<exists>a. m = Inr a \<and> f a = Inr b)"
  by (cases m) auto

lemma bindR_Inl_iff: "bindR m f = Inl e \<longleftrightarrow> m = Inl e \<or> (\<exists>a. m = Inr a \<and> f a = Inl e)"
  by (cases m) auto

fun mapR :: "('a \<Rightarrow> 'e + 'b) \<Rightarrow> 'a list \<Rightarrow> 'e + 'b list" where
  "mapR f [] = Inr []"
| "mapR f (x # xs) = bindR (f x) (\<lambda>y. bindR (mapR f xs) (\<lambda>ys. Inr (y # ys)))"

lemma mapR_id: "(\<And>x. x \<in> set xs \<Longrightarrow> f (g x) = Inr x) \<Longrightarrow> mapR f (map g xs) = Inr xs"
  by (induction xs) auto

text \<open>
  A Go slice or pointer that may be nil is an option: \<open>None\<close> is nil. \<open>items\<close> is what
  \<^verbatim>\<open>len\<close> and \<^verbatim>\<open>range\<close> see of a slice.
\<close>

type_synonym 'a slice = "'a list option"

definition items :: "'a slice \<Rightarrow> 'a list" where
  "items s = (case s of None \<Rightarrow> [] | Some xs \<Rightarrow> xs)"

lemma items_simps [simp]: "items None = []" "items (Some xs) = xs"
  by (simp_all add: items_def)

section \<open>Triples for operations of the state monad\<close>

text \<open>
  \<open>wp P m Q\<close>: started in a state with \<open>P\<close>, the operation \<open>m\<close> ends in a state and
  with a result that satisfy \<open>Q\<close>. Operations of the monad always end, so this is total
  correctness.
\<close>

definition wp :: "('w \<Rightarrow> bool) \<Rightarrow> ('w, 'a) state \<Rightarrow> ('a \<Rightarrow> 'w \<Rightarrow> bool) \<Rightarrow> bool" where
  "wp P m Q \<longleftrightarrow> (\<forall>w. P w \<longrightarrow> (case run_state m w of (r, w') \<Rightarrow> Q r w'))"

definition keeps :: "('w \<Rightarrow> bool) \<Rightarrow> ('w, 'a) state \<Rightarrow> bool" where
  "keeps P m \<longleftrightarrow> wp P m (\<lambda>_. P)"

lemma wpI: "(\<And>w r w'. P w \<Longrightarrow> run_state m w = (r, w') \<Longrightarrow> Q r w') \<Longrightarrow> wp P m Q"
  by (auto simp: wp_def split: prod.splits)

lemma wpD: "wp P m Q \<Longrightarrow> P w \<Longrightarrow> run_state m w = (r, w') \<Longrightarrow> Q r w'"
  by (auto simp: wp_def)

lemma keepsI: "(\<And>w r w'. P w \<Longrightarrow> run_state m w = (r, w') \<Longrightarrow> P w') \<Longrightarrow> keeps P m"
  by (auto simp: keeps_def intro: wpI)

lemma keepsD: "keeps P m \<Longrightarrow> P w \<Longrightarrow> run_state m w = (r, w') \<Longrightarrow> P w'"
  by (auto simp: keeps_def dest: wpD)

lemma wp_return [wp_intros]: "(\<And>w. P w \<Longrightarrow> Q x w) \<Longrightarrow> wp P (State_Monad.return x) Q"
  by (simp add: wp_def)

lemma wp_bind: "wp P m R \<Longrightarrow> (\<And>r. wp (R r) (f r) Q) \<Longrightarrow> wp P (State_Monad.bind m f) Q"
  by (fastforce simp: wp_def split: prod.splits)

lemma wp_conseq: "wp P m Q \<Longrightarrow> (\<And>w. P' w \<Longrightarrow> P w) \<Longrightarrow> (\<And>r w. Q r w \<Longrightarrow> Q' r w) \<Longrightarrow> wp P' m Q'"
  by (fastforce simp: wp_def split: prod.splits)

lemma wp_weaken_pre: "wp P m Q \<Longrightarrow> (\<And>w. P' w \<Longrightarrow> P w) \<Longrightarrow> wp P' m Q"
  by (rule wp_conseq)

lemma keeps_wp: "keeps P m \<Longrightarrow> wp P m (\<lambda>_. P)"
  by (simp add: keeps_def)

lemma keeps_return [wp_intros]: "keeps P (State_Monad.return x)"
  by (simp add: keeps_def wp_def)

lemma keeps_bind [wp_intros]:
  "keeps P m \<Longrightarrow> (\<And>r. keeps P (f r)) \<Longrightarrow> keeps P (State_Monad.bind m f)"
  unfolding keeps_def by (rule wp_bind)

lemma keeps_if [wp_intros]: "(b \<Longrightarrow> keeps P m) \<Longrightarrow> (\<not> b \<Longrightarrow> keeps P n) \<Longrightarrow> keeps P (if b then m else n)"
  by simp

lemma keeps_case_sum [wp_intros]:
  "(\<And>e. x = Inl e \<Longrightarrow> keeps P (f e)) \<Longrightarrow> (\<And>a. x = Inr a \<Longrightarrow> keeps P (g a)) \<Longrightarrow>
   keeps P (case x of Inl e \<Rightarrow> f e | Inr a \<Rightarrow> g a)"
  by (cases x) auto

lemma keeps_case_option [wp_intros]:
  "(x = None \<Longrightarrow> keeps P m) \<Longrightarrow> (\<And>a. x = Some a \<Longrightarrow> keeps P (g a)) \<Longrightarrow>
   keeps P (case x of None \<Rightarrow> m | Some a \<Rightarrow> g a)"
  by (cases x) auto

lemma keeps_case_prod [wp_intros]:
  "(\<And>a b. x = (a, b) \<Longrightarrow> keeps P (f a b)) \<Longrightarrow> keeps P (case x of (a, b) \<Rightarrow> f a b)"
  by (cases x) auto

lemma keeps_conj: "keeps P m \<Longrightarrow> keeps Q m \<Longrightarrow> keeps (\<lambda>w. P w \<and> Q w) m"
  by (auto simp: keeps_def wp_def split: prod.splits)

section \<open>Operations that return an error\<close>

text \<open>Sequencing with the early return on an error, and the recording of a state change.\<close>

definition okE :: "'a \<Rightarrow> ('w, 'e + 'a) state" where
  "okE x = State_Monad.return (Inr x)"

definition failE :: "'e \<Rightarrow> ('w, 'e + 'a) state" where
  "failE e = State_Monad.return (Inl e)"

definition bindE :: "('w, 'e + 'a) state \<Rightarrow> ('a \<Rightarrow> ('w, 'e + 'b) state) \<Rightarrow> ('w, 'e + 'b) state" where
  "bindE m f =
     State_Monad.bind m (\<lambda>r. case r of Inl e \<Rightarrow> State_Monad.return (Inl e) | Inr x \<Rightarrow> f x)"

definition liftE :: "'e + 'a \<Rightarrow> ('w, 'e + 'a) state" where
  "liftE r = State_Monad.return r"

definition thenM :: "('w, 'a) state \<Rightarrow> ('w, 'b) state \<Rightarrow> ('w, 'b) state" where
  "thenM m n = State_Monad.bind m (\<lambda>_. n)"

definition modify :: "('w \<Rightarrow> 'w) \<Rightarrow> ('w, unit) state" where
  "modify f = State_Monad.update f"

definition gets :: "('w \<Rightarrow> 'a) \<Rightarrow> ('w, 'a) state" where
  "gets f = State_Monad.bind State_Monad.get (\<lambda>w. State_Monad.return (f w))"

lemma run_okE [simp]: "run_state (okE x) w = (Inr x, w)"
  by (simp add: okE_def)

lemma run_failE [simp]: "run_state (failE e) w = (Inl e, w)"
  by (simp add: failE_def)

lemma run_liftE [simp]: "run_state (liftE r) w = (r, w)"
  by (simp add: liftE_def)

lemma run_modify [simp]: "run_state (modify f) w = ((), f w)"
  by (simp add: modify_def State_Monad.update_def State_Monad.get_def State_Monad.set_def)

lemma run_gets [simp]: "run_state (gets f) w = (f w, w)"
  by (simp add: gets_def State_Monad.get_def)

lemma run_thenM [simp]:
  "run_state (thenM m n) w = (case run_state m w of (r, w') \<Rightarrow> run_state n w')"
  by (simp add: thenM_def)

lemma run_bindE [simp]:
  "run_state (bindE m f) w =
     (case run_state m w of (r, w') \<Rightarrow> case r of Inl e \<Rightarrow> (Inl e, w') | Inr x \<Rightarrow> run_state (f x) w')"
  by (simp add: bindE_def split: prod.split sum.split)

lemma keeps_okE [wp_intros]: "keeps P (okE x)"
  by (simp add: okE_def keeps_return)

lemma keeps_failE [wp_intros]: "keeps P (failE e)"
  by (simp add: failE_def keeps_return)

lemma keeps_liftE [wp_intros]: "keeps P (liftE r)"
  by (simp add: liftE_def keeps_return)

lemma keeps_gets [wp_intros]: "keeps P (gets f)"
  by (rule keepsI) simp

lemma keeps_modify: "(\<And>w. P w \<Longrightarrow> P (f w)) \<Longrightarrow> keeps P (modify f)"
  by (rule keepsI) auto

lemma keeps_bindE [wp_intros]: "keeps P m \<Longrightarrow> (\<And>x. keeps P (f x)) \<Longrightarrow> keeps P (bindE m f)"
  unfolding bindE_def by (intro keeps_bind keeps_case_sum keeps_return) auto

lemma keeps_thenM [wp_intros]: "keeps P m \<Longrightarrow> keeps P n \<Longrightarrow> keeps P (thenM m n)"
  unfolding thenM_def by (rule keeps_bind)

lemma wp_bindE:
  assumes m: "wp P m S" and e: "\<And>e w. S (Inl e) w \<Longrightarrow> Q (Inl e) w" and f: "\<And>x. wp (S (Inr x)) (f x) Q"
  shows "wp P (bindE m f) Q"
proof (rule wpI)
  fix w r w'
  assume P: "P w" and run: "run_state (bindE m f) w = (r, w')"
  obtain r1 w1 where 1: "run_state m w = (r1, w1)" by fastforce
  have S: "S r1 w1" by (rule wpD [OF m P 1])
  show "Q r w'"
  proof (cases r1)
    case (Inl x)
    then show ?thesis using S e run 1 by auto
  next
    case (Inr x)
    then show ?thesis using S run 1 wpD [OF f [of x]] by auto
  qed
qed

lemma wp_thenM: "wp P m (\<lambda>_. S) \<Longrightarrow> wp S n Q \<Longrightarrow> wp P (thenM m n) Q"
  unfolding thenM_def by (rule wp_bind)

lemma wp_bind_keeps: "keeps P m \<Longrightarrow> (\<And>r. wp P (f r) Q) \<Longrightarrow> wp P (State_Monad.bind m f) Q"
  unfolding keeps_def by (rule wp_bind)

lemma wp_then_keeps: "keeps P m \<Longrightarrow> wp P n Q \<Longrightarrow> wp P (thenM m n) Q"
  unfolding keeps_def by (rule wp_thenM)

lemma wp_okE: "(\<And>w. P w \<Longrightarrow> Q (Inr x) w) \<Longrightarrow> wp P (okE x) Q"
  by (simp add: wp_def)

lemma wp_failE: "(\<And>w. P w \<Longrightarrow> Q (Inl e) w) \<Longrightarrow> wp P (failE e) Q"
  by (simp add: wp_def)

lemma wp_triv: "wp P m (\<lambda>_ _. True)"
  by (simp add: wp_def split: prod.split)

text \<open>Rules that follow the branches of a program.\<close>

lemma wp_if: "(b \<Longrightarrow> wp P m Q) \<Longrightarrow> (\<not> b \<Longrightarrow> wp P n Q) \<Longrightarrow> wp P (if b then m else n) Q"
  by simp

lemma wp_case_sum:
  "(\<And>e. x = Inl e \<Longrightarrow> wp P (f e) Q) \<Longrightarrow> (\<And>a. x = Inr a \<Longrightarrow> wp P (g a) Q) \<Longrightarrow>
   wp P (case x of Inl e \<Rightarrow> f e | Inr a \<Rightarrow> g a) Q"
  by (cases x) auto

lemma wp_case_option:
  "(x = None \<Longrightarrow> wp P m Q) \<Longrightarrow> (\<And>a. x = Some a \<Longrightarrow> wp P (g a) Q) \<Longrightarrow>
   wp P (case x of None \<Rightarrow> m | Some a \<Rightarrow> g a) Q"
  by (cases x) auto

lemma wp_case_list:
  "(x = [] \<Longrightarrow> wp P m Q) \<Longrightarrow> (\<And>a l. x = a # l \<Longrightarrow> wp P (g a l) Q) \<Longrightarrow>
   wp P (case x of [] \<Rightarrow> m | a # l \<Rightarrow> g a l) Q"
  by (cases x) auto

lemma wp_case_prod: "(\<And>a b. x = (a, b) \<Longrightarrow> wp P (f a b) Q) \<Longrightarrow> wp P (case x of (a, b) \<Rightarrow> f a b) Q"
  by (cases x) auto

lemmas wp_branches = wp_if wp_case_sum wp_case_option wp_case_list wp_case_prod

lemma wp_pre_conj: "(b \<Longrightarrow> wp P m Q) \<Longrightarrow> wp (\<lambda>w. b \<and> P w) m Q"
  by (auto simp: wp_def)

text \<open>With what is known of the value a step returned.\<close>

lemma keeps_bindE_wp:
  "wp P m (\<lambda>r w. P w \<and> (\<forall>x. r = Inr x \<longrightarrow> R x)) \<Longrightarrow> (\<And>x. R x \<Longrightarrow> keeps P (f x)) \<Longrightarrow> keeps P (bindE m f)"
proof (rule keepsI)
  fix w r w'
  assume m: "wp P m (\<lambda>r w. P w \<and> (\<forall>x. r = Inr x \<longrightarrow> R x))" and f: "\<And>x. R x \<Longrightarrow> keeps P (f x)"
    and P: "P w" and run: "run_state (bindE m f) w = (r, w')"
  obtain r1 w1 where 1: "run_state m w = (r1, w1)" by fastforce
  then have "P w1" "\<forall>x. r1 = Inr x \<longrightarrow> R x" using wpD [OF m P 1] by auto
  then show "P w'" using run 1 f keepsD by (cases r1) fastforce+
qed

section \<open>Lists\<close>

lemma drop_length_append [simp]: "drop (length xs) (xs @ ys) = ys"
  by simp

lemma take_append_prefix: "take (length p) s = p \<longleftrightarrow> (\<exists>r. s = p @ r)"
  by (metis append_eq_conv_conj append_take_drop_id)

end
