(* ===== verification/Go_Strings.thy ===== *)
theory Go_Strings
  imports Prelude
begin

text \<open>
  The functions of Go's \<^verbatim>\<open>strings\<close>, \<^verbatim>\<open>strconv\<close> and \<^verbatim>\<open>encoding/base64\<close> packages that the
  program calls, on byte strings: a Go string is a sequence of bytes, and so is a HOL
  \<open>string\<close>. The case mappings and the white space are those of ASCII; a byte above 127 is
  left alone (Go also maps the letters and spaces beyond ASCII).
\<close>

section \<open>Prefixes, substrings, cutting\<close>

definition HasPrefix :: "string \<Rightarrow> string \<Rightarrow> bool" where
  "HasPrefix s p \<longleftrightarrow> length p \<le> length s \<and> take (length p) s = p"

definition HasSuffix :: "string \<Rightarrow> string \<Rightarrow> bool" where
  "HasSuffix s p \<longleftrightarrow> length p \<le> length s \<and> drop (length s - length p) s = p"

fun Index :: "string \<Rightarrow> string \<Rightarrow> nat option" where
  "Index [] sub = (if sub = [] then Some 0 else None)"
| "Index (c # cs) sub =
     (if HasPrefix (c # cs) sub then Some 0 else map_option Suc (Index cs sub))"

fun LastIndex :: "string \<Rightarrow> string \<Rightarrow> nat option" where
  "LastIndex [] sub = (if sub = [] then Some 0 else None)"
| "LastIndex (c # cs) sub =
     (case LastIndex cs sub of
        Some i \<Rightarrow> Some (Suc i)
      | None \<Rightarrow> if HasPrefix (c # cs) sub then Some 0 else None)"

definition Contains :: "string \<Rightarrow> string \<Rightarrow> bool" where
  "Contains s sub \<longleftrightarrow> Index s sub \<noteq> None"

definition Cut :: "string \<Rightarrow> string \<Rightarrow> string \<times> string \<times> bool" where
  "Cut s sep =
     (case Index s sep of
        Some i \<Rightarrow> (take i s, drop (i + length sep) s, True)
      | None \<Rightarrow> (s, [], False))"

definition TrimPrefix :: "string \<Rightarrow> string \<Rightarrow> string" where
  "TrimPrefix s p = (if HasPrefix s p then drop (length p) s else s)"

lemma HasPrefix_iff: "HasPrefix s p \<longleftrightarrow> (\<exists>r. s = p @ r)"
  by (metis HasPrefix_def take_append_prefix append_eq_conv_conj length_append le_add1)

lemma HasPrefix_Nil [simp]: "HasPrefix s []"
  by (simp add: HasPrefix_def)

lemma HasPrefix_append [simp]: "HasPrefix (p @ r) p"
  by (auto simp: HasPrefix_iff)

lemma HasPrefix_Cons [simp]: "HasPrefix (c # s) (d # p) \<longleftrightarrow> c = d \<and> HasPrefix s p"
  by (auto simp: HasPrefix_iff)

lemma HasPrefix_of_Nil [simp]: "HasPrefix [] p \<longleftrightarrow> p = []"
  by (auto simp: HasPrefix_iff)

lemma HasSuffix_iff: "HasSuffix s p \<longleftrightarrow> (\<exists>r. s = r @ p)"
proof
  assume "HasSuffix s p"
  then show "\<exists>r. s = r @ p"
    by (metis HasSuffix_def append_take_drop_id)
qed (auto simp: HasSuffix_def)

lemma Index_Some_split: "Index s sub = Some i \<Longrightarrow> \<exists>r. s = take i s @ sub @ r \<and> i \<le> length s"
proof (induction s sub arbitrary: i rule: Index.induct)
  case (1 sub)
  then show ?case by (auto split: if_splits)
next
  case (2 c cs sub)
  show ?case
  proof (cases "HasPrefix (c # cs) sub")
    case True
    with "2.prems" show ?thesis by (auto simp: HasPrefix_iff)
  next
    case False
    with "2.prems" obtain j where "Index cs sub = Some j" and "i = Suc j" by auto
    with "2.IH" False show ?thesis by auto
  qed
qed

lemma Index_prefix: "HasPrefix s sub \<Longrightarrow> Index s sub = Some 0"
  by (cases s) auto

lemma Contains_iff: "Contains s sub \<longleftrightarrow> (\<exists>a b. s = a @ sub @ b)"
proof
  assume "Contains s sub"
  then show "\<exists>a b. s = a @ sub @ b"
    by (metis Contains_def Index_Some_split option.exhaust)
next
  assume "\<exists>a b. s = a @ sub @ b"
  then obtain a b where "s = a @ sub @ b" by blast
  moreover have "Index (a @ sub @ b) sub \<noteq> None"
  proof (induction a)
    case Nil
    show ?case by (simp add: Index_prefix)
  qed auto
  ultimately show "Contains s sub" by (simp add: Contains_def)
qed

lemma Contains_appendI1: "Contains s sub \<Longrightarrow> Contains (s @ t) sub"
  by (metis Contains_iff append.assoc)

lemma Contains_appendI2: "Contains t sub \<Longrightarrow> Contains (s @ t) sub"
  by (metis Contains_iff append.assoc)

lemma Contains_refl [simp]: "Contains s s"
  by (metis Contains_iff append_Nil append_Nil2)

lemma LastIndex_None_iff: "LastIndex s sub = None \<longleftrightarrow> \<not> Contains s sub"
proof (induction s sub rule: LastIndex.induct)
  case (1 sub)
  show ?case by (auto simp: Contains_def)
next
  case (2 c cs sub)
  then show ?case by (auto simp: Contains_def split: option.splits)
qed

lemma LastIndex_append:
  assumes "\<And>j. 0 < j \<Longrightarrow> j \<le> length sub + length r \<Longrightarrow> \<not> HasPrefix (drop j (sub @ r)) sub"
  shows "LastIndex (p @ sub @ r) sub = Some (length p)"
proof (induction p)
  case Nil
  have "LastIndex t sub = None" if "t = drop j (sub @ r)" "0 < j" "j \<le> length (sub @ r)" for t j
    using that
  proof (induction t arbitrary: j)
    case Nil
    with assms[of j] show ?case by auto
  next
    case (Cons c t)
    then have "j < length (sub @ r)"
      by (metis drop_eq_Nil leI list.distinct(1))
    moreover have "t = drop (Suc j) (sub @ r)"
      using Cons.prems(1) by (metis drop_Suc list.sel(3) tl_drop)
    ultimately have "LastIndex t sub = None"
      using Cons.IH [of "Suc j"] by simp
    moreover have "\<not> HasPrefix (c # t) sub"
      using assms[of j] Cons.prems by simp
    ultimately show ?case by simp
  qed
  then show ?case
  proof (cases "sub @ r")
    case (Cons c t)
    then have "LastIndex t sub = None" if "True"
      using \<open>\<And>t j. \<lbrakk>t = drop j (sub @ r); 0 < j; j \<le> length (sub @ r)\<rbrakk> \<Longrightarrow> LastIndex t sub = None\<close>
        [of t 1] by simp
    moreover have "HasPrefix (c # t) sub"
      using Cons by (metis HasPrefix_append)
    ultimately show ?thesis using Cons by simp
  qed (use assms in auto)
qed auto

lemma TrimPrefix_append [simp]: "TrimPrefix (p @ s) p = s"
  by (simp add: TrimPrefix_def)

section \<open>Splitting, joining, trimming\<close>

text \<open>\<^verbatim>\<open>strings.Split\<close>; every separator the program uses is a single character.\<close>

fun Split :: "string \<Rightarrow> char \<Rightarrow> string list" where
  "Split [] c = [[]]"
| "Split (x # xs) c =
     (if x = c then [] # Split xs c
      else (case Split xs c of [] \<Rightarrow> [[x]] | w # ws \<Rightarrow> (x # w) # ws))"

fun Join :: "string list \<Rightarrow> string \<Rightarrow> string" where
  "Join [] sep = []"
| "Join [w] sep = w"
| "Join (w # ws) sep = w @ sep @ Join ws sep"

definition is_space :: "char \<Rightarrow> bool" where
  "is_space c \<longleftrightarrow> c \<in> {CHR 0x09, CHR 0x0A, CHR 0x0B, CHR 0x0C, CHR 0x0D, CHR '' ''}"

definition TrimSpace :: "string \<Rightarrow> string" where
  "TrimSpace s = rev (dropWhile is_space (rev (dropWhile is_space s)))"

definition Trim :: "string \<Rightarrow> string \<Rightarrow> string" where
  "Trim s cutset =
     rev (dropWhile (\<lambda>c. c \<in> set cutset) (rev (dropWhile (\<lambda>c. c \<in> set cutset) s)))"

text \<open>\<^verbatim>\<open>strings.Fields\<close>: the maximal runs of non-space characters.\<close>

fun fields_acc :: "string \<Rightarrow> string \<Rightarrow> string list" where
  "fields_acc acc [] = (if acc = [] then [] else [rev acc])"
| "fields_acc acc (c # cs) =
     (if is_space c then (if acc = [] then fields_acc [] cs else rev acc # fields_acc [] cs)
      else fields_acc (c # acc) cs)"

definition Fields :: "string \<Rightarrow> string list" where
  "Fields s = fields_acc [] s"

lemma Split_nonempty [simp]: "Split s c \<noteq> []"
  by (induction s) (auto split: list.splits)

lemma Join_Split: "Join (Split s c) [c] = s"
proof (induction s)
  case (Cons x xs)
  then show ?case
    by (cases "Split xs c"; cases "tl (Split xs c)") (auto split: list.splits)
qed simp

lemma Split_no_sep: "w \<in> set (Split s c) \<Longrightarrow> c \<notin> set w"
proof (induction s arbitrary: w)
  case (Cons x xs)
  show ?case
  proof (cases "x = c")
    case True
    with Cons show ?thesis by auto
  next
    case False
    obtain v vs where "Split xs c = v # vs" by (meson Split_nonempty neq_Nil_conv)
    with False Cons show ?thesis by auto
  qed
qed simp

lemma Split_single [simp]: "c \<notin> set s \<Longrightarrow> Split s c = [s]"
  by (induction s) auto

lemma Split_append_sep: "c \<notin> set a \<Longrightarrow> Split (a @ c # b) c = a # Split b c"
  by (induction a) auto

definition word_ok :: "string \<Rightarrow> bool" where
  "word_ok w \<longleftrightarrow> w \<noteq> [] \<and> list_all (\<lambda>c. \<not> is_space c) w"

lemma fields_acc_words:
  "list_all (\<lambda>c. \<not> is_space c) acc \<Longrightarrow> list_all word_ok (fields_acc acc s)"
  by (induction acc s rule: fields_acc.induct) (simp_all add: word_ok_def)

lemma Fields_no_space: "w \<in> set (Fields s) \<Longrightarrow> w \<noteq> [] \<and> (\<forall>c \<in> set w. \<not> is_space c)"
  using fields_acc_words [of "[]" s] by (auto simp: Fields_def list_all_iff word_ok_def)

section \<open>Case mapping and replacement\<close>

definition lower_char :: "char \<Rightarrow> char" where
  "lower_char c =
     (if 65 \<le> (of_char c :: nat) \<and> (of_char c :: nat) \<le> 90 then char_of ((of_char c :: nat) + 32) else c)"

definition ToLower :: "string \<Rightarrow> string" where
  "ToLower s = map lower_char s"

lemma lower_char_idem [simp]: "lower_char (lower_char c) = lower_char c"
  by (auto simp: lower_char_def)

lemma ToLower_idem [simp]: "ToLower (ToLower s) = ToLower s"
  by (simp add: ToLower_def)

lemma ToLower_append [simp]: "ToLower (s @ t) = ToLower s @ ToLower t"
  by (simp add: ToLower_def)

text \<open>
  \<^verbatim>\<open>strings.ReplaceAll\<close>: leftmost, non-overlapping. An empty pattern matches before every
  character and at the end.
\<close>

function ReplaceAll :: "string \<Rightarrow> string \<Rightarrow> string \<Rightarrow> string" where
  "ReplaceAll [] old new = (if old = [] then new else [])"
| "ReplaceAll (c # cs) old new =
     (if old = [] then new @ c # ReplaceAll cs old new
      else if HasPrefix (c # cs) old then new @ ReplaceAll (drop (length old) (c # cs)) old new
      else c # ReplaceAll cs old new)"
  by pat_completeness auto
termination
  by (relation "measure (\<lambda>(s, old, new). length s)") (auto simp: neq_Nil_conv)

declare ReplaceAll.simps(2) [simp del]

end
