(* ===== verification/Go_Conv.thy ===== *)
theory Go_Conv
  imports Go_Strings
begin

text \<open>
  \<^verbatim>\<open>strconv\<close> (decimal integers at 64 bits), \<^verbatim>\<open>encoding/base64\<close> (the padded standard
  alphabet) and \<^verbatim>\<open>fmt\<close>'s hexadecimal verb.
\<close>

section \<open>Decimal integers\<close>

definition digit_char :: "nat \<Rightarrow> char" where
  "digit_char d = char_of (48 + d)"

definition digit_of :: "char \<Rightarrow> nat option" where
  "digit_of c = (let n = of_char c in if 48 \<le> n \<and> n \<le> 57 then Some (n - 48) else None)"

fun dec_of_nat :: "nat \<Rightarrow> string" where
  "dec_of_nat n = (if n < 10 then [digit_char n] else dec_of_nat (n div 10) @ [digit_char (n mod 10)])"

declare dec_of_nat.simps [simp del]

definition dec_of_int :: "int \<Rightarrow> string" where
  "dec_of_int i = (if i < 0 then ''-'' @ dec_of_nat (nat (- i)) else dec_of_nat (nat i))"

fun parse_digits :: "nat \<Rightarrow> string \<Rightarrow> nat option" where
  "parse_digits acc [] = Some acc"
| "parse_digits acc (c # cs) =
     (case digit_of c of None \<Rightarrow> None | Some d \<Rightarrow> parse_digits (acc * 10 + d) cs)"

text \<open>\<^verbatim>\<open>ParseUint(s, 10, 64)\<close>: no sign, at least one digit, at most \<open>2^64 - 1\<close>.\<close>

definition ParseUint :: "string \<Rightarrow> nat option" where
  "ParseUint s =
     (if s = [] then None
      else case parse_digits 0 s of
        None \<Rightarrow> None
      | Some n \<Rightarrow> if n < 2 ^ 64 then Some n else None)"

text \<open>\<^verbatim>\<open>ParseInt(s, 10, 64)\<close>, and \<^verbatim>\<open>Atoi\<close> on a 64-bit platform: an optional sign.\<close>

definition ParseInt :: "string \<Rightarrow> int option" where
  "ParseInt s =
     (let (neg, body) =
        (case s of [] \<Rightarrow> (False, [])
         | c # cs \<Rightarrow> if c = CHR ''-'' then (True, cs) else if c = CHR ''+'' then (False, cs) else (False, s))
      in case ParseUint body of
           None \<Rightarrow> None
         | Some n \<Rightarrow>
             if neg then (if n \<le> 2 ^ 63 then Some (- int n) else None)
             else (if n < 2 ^ 63 then Some (int n) else None))"

lemma digit_of_digit_char [simp]: "d < 10 \<Longrightarrow> digit_of (digit_char d) = Some d"
  by (simp add: digit_of_def digit_char_def)

lemma parse_digits_append:
  "parse_digits acc (s @ t) = (case parse_digits acc s of None \<Rightarrow> None | Some n \<Rightarrow> parse_digits n t)"
  by (induction acc s rule: parse_digits.induct) (auto split: option.splits)

lemma parse_dec_of_nat: "parse_digits 0 (dec_of_nat n) = Some n"
proof (induction n rule: dec_of_nat.induct)
  case (1 n)
  show ?case
  proof (cases "n < 10")
    case True
    then show ?thesis by (simp add: dec_of_nat.simps)
  next
    case False
    with "1" show ?thesis
      by (simp add: dec_of_nat.simps [of n] parse_digits_append)
  qed
qed

lemma dec_of_nat_not_Nil [simp]: "dec_of_nat n \<noteq> []"
  by (subst dec_of_nat.simps) simp

lemma dec_of_nat_inj: "dec_of_nat m = dec_of_nat n \<Longrightarrow> m = n"
  by (metis option.inject parse_dec_of_nat)

lemma ParseUint_dec_of_nat [simp]: "n < 2 ^ 64 \<Longrightarrow> ParseUint (dec_of_nat n) = Some n"
  by (simp add: ParseUint_def parse_dec_of_nat)

lemma ParseUint_bound: "ParseUint s = Some n \<Longrightarrow> n < 2 ^ 64"
  by (auto simp: ParseUint_def split: if_splits option.splits)

lemma ParseInt_bounds: "ParseInt s = Some i \<Longrightarrow> - (2 ^ 63) \<le> i \<and> i < 2 ^ 63"
  by (auto simp: ParseInt_def Let_def split: if_splits option.splits prod.splits)

section \<open>Hexadecimal\<close>

definition hex_digit :: "nat \<Rightarrow> char" where
  "hex_digit d = (if d < 10 then char_of (48 + d) else char_of (87 + d))"

definition hex_of_char :: "char \<Rightarrow> string" where
  "hex_of_char c = (let n = (of_char c :: nat) in [hex_digit (n div 16), hex_digit (n mod 16)])"

text \<open>\<^verbatim>\<open>fmt.Sprintf("%x", b)\<close> on a byte slice.\<close>

definition hex :: "string \<Rightarrow> string" where
  "hex b = concat (map hex_of_char b)"

lemma hex_of_char_length [simp]: "length (hex_of_char c) = 2"
  by (simp add: hex_of_char_def Let_def)

lemma length_hex [simp]: "length (hex b) = 2 * length b"
  by (induction b) (auto simp: hex_def)

lemma hex_eq_Nil [simp]: "hex b = [] \<longleftrightarrow> b = []"
  by (metis length_0_conv length_hex mult_is_0 zero_neq_numeral)

definition is_hex :: "char \<Rightarrow> bool" where
  "is_hex c \<longleftrightarrow> c \<in> set ''0123456789abcdef''"

lemma is_hex_hex_digit: "d < 16 \<Longrightarrow> is_hex (hex_digit d)"
proof -
  have "\<forall>d \<in> {0..<16}. is_hex (hex_digit d)" by code_simp
  then show "d < 16 \<Longrightarrow> is_hex (hex_digit d)" by simp
qed

lemma hex_chars: "c \<in> set (hex b) \<Longrightarrow> is_hex c"
proof (induction b)
  case (Cons x b)
  have "(of_char x :: nat) div 16 < 16"
    by (rule less_mult_imp_div_less) simp
  with Cons show ?case
    by (auto simp: hex_def hex_of_char_def Let_def is_hex_hex_digit)
qed (simp add: hex_def)

section \<open>Base64\<close>

definition b64_val :: "char \<Rightarrow> nat option" where
  "b64_val c =
     (let n = of_char c in
      if 65 \<le> n \<and> n \<le> 90 then Some (n - 65)
      else if 97 \<le> n \<and> n \<le> 122 then Some (n - 71)
      else if 48 \<le> n \<and> n \<le> 57 then Some (n + 4)
      else if c = CHR ''+'' then Some 62
      else if c = CHR ''/'' then Some 63
      else None)"

definition b64_char :: "nat \<Rightarrow> char" where
  "b64_char v =
     (if v < 26 then char_of (65 + v)
      else if v < 52 then char_of (71 + v)
      else if v < 62 then char_of (v - 4)
      else if v = 62 then CHR ''+'' else CHR ''/'')"

text \<open>
  \<^verbatim>\<open>base64.StdEncoding.DecodeString\<close>: line breaks are skipped, the input is quanta of four
  characters, only the last may be padded, and the bits a padded quantum does not use are
  not checked.
\<close>

fun b64_quanta :: "string \<Rightarrow> string option" where
  "b64_quanta [] = Some []"
| "b64_quanta (a # b # c # d # rest) =
     (case (b64_val a, b64_val b) of
        (Some w, Some x) \<Rightarrow>
          (if c = CHR ''='' then
             (if d = CHR ''='' \<and> rest = [] then Some [char_of (w * 4 + x div 16)] else None)
           else case b64_val c of
             None \<Rightarrow> None
           | Some y \<Rightarrow>
               (if d = CHR ''='' then
                  (if rest = [] then Some [char_of (w * 4 + x div 16), char_of (x mod 16 * 16 + y div 4)]
                   else None)
                else case b64_val d of
                  None \<Rightarrow> None
                | Some z \<Rightarrow>
                    map_option (\<lambda>bs. char_of (w * 4 + x div 16) # char_of (x mod 16 * 16 + y div 4)
                                     # char_of (y mod 4 * 64 + z) # bs) (b64_quanta rest)))
      | _ \<Rightarrow> None)"
| "b64_quanta _ = None"

definition b64_decode :: "string \<Rightarrow> string option" where
  "b64_decode s = b64_quanta (filter (\<lambda>c. c \<noteq> CHR 0x0A \<and> c \<noteq> CHR 0x0D) s)"

fun b64_encode :: "string \<Rightarrow> string" where
  "b64_encode [] = []"
| "b64_encode [a] =
     (let a = of_char a in [b64_char (a div 4), b64_char (a mod 4 * 16), CHR ''='', CHR ''=''])"
| "b64_encode [a, b] =
     (let a = of_char a; b = of_char b in
      [b64_char (a div 4), b64_char (a mod 4 * 16 + b div 16), b64_char (b mod 16 * 4), CHR ''=''])"
| "b64_encode (a # b # c # rest) =
     (let a = of_char a; b = of_char b; c = of_char c in
      b64_char (a div 4) # b64_char (a mod 4 * 16 + b div 16) # b64_char (b mod 16 * 4 + c div 64)
      # b64_char (c mod 64) # b64_encode rest)"

lemma b64_val_char [simp]: "v < 64 \<Longrightarrow> b64_val (b64_char v) = Some v"
  by (auto simp: b64_val_def b64_char_def Let_def)

lemma b64_char_special:
  assumes "v < 64"
  shows "b64_char v \<noteq> CHR ''=''" "b64_char v \<noteq> CHR 0x0A" "b64_char v \<noteq> CHR 0x0D" "b64_char v \<noteq> CHR '' ''"
proof -
  have "b64_char v \<noteq> c" if "b64_val c = None" for c
    using b64_val_char [OF assms] that by (metis option.distinct(1))
  then show "b64_char v \<noteq> CHR ''=''" "b64_char v \<noteq> CHR 0x0A" "b64_char v \<noteq> CHR 0x0D" "b64_char v \<noteq> CHR '' ''"
    by (simp_all add: b64_val_def Let_def)
qed

lemmas b64_char_table = b64_val_char b64_char_special

lemma byte_div:
  fixes n :: nat
  assumes "n < 256"
  shows "n div 4 < 64" "n div 16 < 16" "n div 64 < 4"
  using assms by auto

lemmas of_char_bounds [simp] = byte_div [OF nat_of_char_less_256]

lemma b64_mid_bounds [simp]:
  "(of_char a :: nat) mod 4 * 16 + of_char b div 16 < 64"
  "(of_char b :: nat) mod 16 * 4 + of_char c div 64 < 64"
  "(of_char b :: nat) mod 16 * 4 < 64" "(of_char a :: nat) mod 4 * 16 < 64"
  using of_char_bounds(2) [of b] of_char_bounds(3) [of c] by linarith+

lemma b64_quanta_encode: "b64_quanta (b64_encode s) = Some s"
  by (induction s rule: b64_encode.induct) (simp_all add: Let_def b64_char_table)

lemma b64_encode_chars:
  "x \<in> set (b64_encode s) \<Longrightarrow> x \<noteq> CHR 0x0A \<and> x \<noteq> CHR 0x0D \<and> x \<noteq> CHR '' ''"
proof (induction s rule: b64_encode.induct)
  case (4 a b c rest)
  from "4.prems" consider "x \<in> set (b64_encode rest)" | v where "x = b64_char v" "v < 64"
    by (auto simp: Let_def)
  then show ?case using "4.IH" by cases (auto simp: b64_char_table)
qed (auto simp: Let_def b64_char_table)

theorem b64_decode_encode [simp]: "b64_decode (b64_encode s) = Some s"
proof -
  have "filter (\<lambda>c. c \<noteq> CHR 0x0A \<and> c \<noteq> CHR 0x0D) (b64_encode s) = b64_encode s"
    using b64_encode_chars by (auto simp: filter_id_conv)
  then show ?thesis by (simp add: b64_decode_def b64_quanta_encode)
qed

section \<open>Quoted strings\<close>

text \<open>
  The verb \<^verbatim>\<open>%q\<close>, \<^verbatim>\<open>strconv.Quote\<close>: the escapes of a Go string literal. Bytes from 128 on are kept,
  as they are in a printable character; the bytes of an invalid or unprintable one would be escaped.
\<close>

definition quote_char :: "char \<Rightarrow> string" where
  "quote_char c =
     (let n = (of_char c :: nat) in
      if c = CHR 0x22 then [CHR 0x5C, CHR 0x22]
      else if c = CHR 0x5C then [CHR 0x5C, CHR 0x5C]
      else if n = 7 then CHR 0x5C # ''a'' else if n = 8 then CHR 0x5C # ''b''
      else if n = 9 then CHR 0x5C # ''t'' else if n = 10 then CHR 0x5C # ''n''
      else if n = 11 then CHR 0x5C # ''v'' else if n = 12 then CHR 0x5C # ''f''
      else if n = 13 then CHR 0x5C # ''r''
      else if n < 32 \<or> n = 127 then CHR 0x5C # ''x'' @ hex_of_char c
      else [c])"

definition Quote :: "string \<Rightarrow> string" where
  "Quote s = CHR 0x22 # concat (map quote_char s) @ [CHR 0x22]"

section \<open>Durations\<close>

text \<open>
  \<^verbatim>\<open>Duration.String\<close>: a fraction without its trailing zeros, the smallest unit that fits below a
  second, and hours, minutes and seconds without leading zero units above.
\<close>

definition frac_text :: "nat \<Rightarrow> nat \<Rightarrow> string" where
  "frac_text v prec =
     (let digits = dec_of_nat (10 ^ prec + v mod 10 ^ prec);
          kept = rev (dropWhile (\<lambda>c. c = CHR ''0'') (rev (tl digits)))
      in if kept = [] then [] else CHR ''.'' # kept)"

definition Duration_String :: "int \<Rightarrow> string" where
  "Duration_String d =
     (let u = nat (abs d); t = u div 10 ^ 9; m = t div 60 in
      (if d < 0 then ''-'' else []) @
      (if u = 0 then ''0s''
       else if u < 10 ^ 3 then dec_of_nat u @ ''ns''
       else if u < 10 ^ 6 then dec_of_nat (u div 10 ^ 3) @ frac_text u 3 @ [CHR 0xC2, CHR 0xB5, CHR ''s'']
       else if u < 10 ^ 9 then dec_of_nat (u div 10 ^ 6) @ frac_text u 6 @ ''ms''
       else (if m div 60 > 0 then dec_of_nat (m div 60) @ ''h'' else []) @
            (if m > 0 then dec_of_nat (m mod 60) @ ''m'' else []) @
            dec_of_nat (t mod 60) @ frac_text u 9 @ ''s''))"

text \<open>\<^verbatim>\<open>Duration.Round(time.Second).String()\<close> of a duration that is not negative: halves round up.\<close>

definition seconds_text :: "int \<Rightarrow> string" where
  "seconds_text d = Duration_String ((d + 500000000) div 10 ^ 9 * 10 ^ 9)"

end
