(* ===== verification/Json.thy ===== *)
theory Json
  imports Go_Conv
begin

text \<open>
  \<^verbatim>\<open>encoding/json\<close> at the level of JSON values: how a struct with tags becomes an object
  and how an object is read back into a struct. The text of a value, gzip and the RFC 3339
  form of a time are library code whose only relied-upon behaviour is the round trip; they
  are the fields of \<open>codec\<close>, and the laws are in the locale \<open>codec_laws\<close>.
\<close>

text \<open>A number is kept as its literal.\<close>

datatype json = JNull | JBool bool | JNum string | JStr string | JArr "json list" | JObj "(string \<times> json) list"

text \<open>A \<^verbatim>\<open>time.Time\<close>: nanoseconds since its zero value, and \<open>IsZero\<close>.\<close>

type_synonym time = int

definition IsZero :: "time \<Rightarrow> bool" where
  "IsZero t \<longleftrightarrow> t = 0"

text \<open>
  \<open>json_parse\<close> is \<^verbatim>\<open>Unmarshal\<close>, which takes the whole text; \<open>json_decode\<close> is a \<^verbatim>\<open>Decoder\<close>, which
  reads one value and leaves what follows it. \<open>gunzip\<close> fails on a bad header; otherwise it gives the bytes that can be read and the error
  the reading ends with, if any.
\<close>

record codec =
  json_text :: "json \<Rightarrow> string"
  json_parse :: "string \<Rightarrow> string + json"
  json_decode :: "string \<Rightarrow> string + json"
  gzip :: "string \<Rightarrow> string + string"
  gunzip :: "string \<Rightarrow> string + string \<times> string option"
  time_text :: "time \<Rightarrow> string + string"
  time_parse :: "string \<Rightarrow> string + time"

text \<open>
  The documented behaviour the program relies on: parsing undoes printing, decompression
  undoes compression, a gzip stream starts with its two magic bytes, a JSON text does not
  start with the first of them, and a time that can be printed is read back.
\<close>

locale codec_laws =
  fixes C :: codec
  assumes json_round: "json_parse C (json_text C v) = Inr v"
    and decode_round: "json_decode C (json_text C v) = Inr v"
    and json_first: "json_text C v = c # cs \<Longrightarrow> c \<noteq> CHR 0x1F"
    and gzip_round: "gzip C data = Inr z \<Longrightarrow> gunzip C z = Inr (data, None)"
    and gzip_magic: "gzip C data = Inr z \<Longrightarrow> take 2 z = [CHR 0x1F, CHR 0x8B]"
    and time_round: "time_text C t = Inr s \<Longrightarrow> time_parse C s = Inr t"

section \<open>Reading fields\<close>

text \<open>The value of a field: keys match up to case, and the last match wins.\<close>

definition jget :: "(string \<times> json) list \<Rightarrow> string \<Rightarrow> json option" where
  "jget kvs name = map_of (rev (map (\<lambda>(k, v). (ToLower k, v)) kvs)) (ToLower name)"

text \<open>
  A field of a plain type: absent or \<^verbatim>\<open>null\<close> leaves the zero value. A field whose type has
  its own \<^verbatim>\<open>UnmarshalJSON\<close> is handed \<^verbatim>\<open>null\<close> too (\<open>jfieldU\<close>).
\<close>

definition jfield :: "(string \<times> json) list \<Rightarrow> string \<Rightarrow> 'a \<Rightarrow> (json \<Rightarrow> string + 'a) \<Rightarrow> string + 'a" where
  "jfield kvs name zero dec =
     (case jget kvs name of None \<Rightarrow> Inr zero | Some JNull \<Rightarrow> Inr zero | Some v \<Rightarrow> dec v)"

definition jfieldU :: "(string \<times> json) list \<Rightarrow> string \<Rightarrow> 'a \<Rightarrow> (json \<Rightarrow> string + 'a) \<Rightarrow> string + 'a" where
  "jfieldU kvs name zero dec = (case jget kvs name of None \<Rightarrow> Inr zero | Some v \<Rightarrow> dec v)"

fun dec_str :: "json \<Rightarrow> string + string" where
  "dec_str (JStr s) = Inr s"
| "dec_str _ = Inl ''json: cannot unmarshal value into Go value of type string''"

fun dec_int :: "json \<Rightarrow> string + int" where
  "dec_int (JNum s) =
     (case ParseInt s of
        Some i \<Rightarrow> Inr i
      | None \<Rightarrow> Inl ''json: cannot unmarshal number into Go value of type int'')"
| "dec_int _ = Inl ''json: cannot unmarshal value into Go value of type int''"

fun dec_any :: "json \<Rightarrow> string + json" where
  "dec_any v = Inr v"

text \<open>The elements of an array; \<^verbatim>\<open>null\<close> among them is the zero value.\<close>

definition dec_elem :: "'a \<Rightarrow> (json \<Rightarrow> string + 'a) \<Rightarrow> json \<Rightarrow> string + 'a" where
  "dec_elem zero dec v = (case v of JNull \<Rightarrow> Inr zero | _ \<Rightarrow> dec v)"

fun dec_slice :: "(json \<Rightarrow> string + 'a) \<Rightarrow> json \<Rightarrow> string + 'a slice" where
  "dec_slice dec (JArr vs) = bindR (mapR dec vs) (\<lambda>xs. Inr (Some xs))"
| "dec_slice dec _ = Inl ''json: cannot unmarshal value into Go slice''"

fun dec_ptr :: "(json \<Rightarrow> string + 'a) \<Rightarrow> json \<Rightarrow> string + 'a option" where
  "dec_ptr dec v = bindR (dec v) (\<lambda>x. Inr (Some x))"

fun dec_time :: "codec \<Rightarrow> json \<Rightarrow> string + time" where
  "dec_time C (JStr s) = time_parse C s"
| "dec_time C _ = Inl ''Time.UnmarshalJSON: input is not a JSON string''"

section \<open>Writing fields\<close>

definition enc_slice :: "('a \<Rightarrow> json) \<Rightarrow> 'a slice \<Rightarrow> json" where
  "enc_slice enc s = (case s of None \<Rightarrow> JNull | Some xs \<Rightarrow> JArr (map enc xs))"

definition enc_ptr :: "('a \<Rightarrow> json) \<Rightarrow> 'a option \<Rightarrow> json" where
  "enc_ptr enc p = (case p of None \<Rightarrow> JNull | Some x \<Rightarrow> enc x)"

text \<open>The \<^verbatim>\<open>omitempty\<close> and \<^verbatim>\<open>omitzero\<close> tags: the field is left out when \<open>b\<close> holds.\<close>

definition omit :: "bool \<Rightarrow> string \<Rightarrow> json \<Rightarrow> (string \<times> json) list" where
  "omit b name v = (if b then [] else [(name, v)])"

lemma jget_Nil [simp]: "jget [] name = None"
  by (simp add: jget_def)

lemma jget_Cons:
  "jget ((k, v) # kvs) name =
     (case jget kvs name of Some w \<Rightarrow> Some w | None \<Rightarrow> if ToLower k = ToLower name then Some v else None)"
  by (auto simp: jget_def map_add_def map_of_append split: option.splits)

lemma jget_append:
  "jget (kvs @ kvs') name = (case jget kvs' name of Some w \<Rightarrow> Some w | None \<Rightarrow> jget kvs name)"
  by (simp add: jget_def map_add_def split: option.split)

lemma jget_omit:
  "jget (omit b k v) name = (if \<not> b \<and> ToLower k = ToLower name then Some v else None)"
  by (simp add: omit_def jget_Cons)

lemma dec_int_enc:
  "- (2 ^ 63) \<le> i \<Longrightarrow> i < 2 ^ 63 \<Longrightarrow> dec_int (JNum (dec_of_int i)) = Inr i"
proof -
  assume *: "- (2 ^ 63) \<le> i" "i < 2 ^ 63"
  show ?thesis
  proof (cases "i < 0")
    case True
    then show ?thesis using * by (simp add: dec_of_int_def ParseInt_def)
  next
    case False
    obtain c cs where c: "dec_of_nat (nat i) = c # cs"
      by (meson dec_of_nat_not_Nil neq_Nil_conv)
    have "parse_digits 0 (c # cs) = Some (nat i)"
      using parse_dec_of_nat [of "nat i"] c by simp
    then have "digit_of c \<noteq> None" by (auto split: option.splits)
    then have "c \<noteq> CHR ''-''" "c \<noteq> CHR ''+''" by (auto simp: digit_of_def)
    moreover have "ParseUint (c # cs) = Some (nat i)"
      using ParseUint_dec_of_nat [of "nat i"] * False c by simp
    ultimately show ?thesis using * False by (simp add: dec_of_int_def c ParseInt_def)
  qed
qed

end
