(* ===== verification/Api.thy ===== *)
theory Api
  imports Json
begin

text \<open>
  \<^verbatim>\<open>pkg/http/api/base_handler.go\<close>: MIME types, the error body, and what \<^verbatim>\<open>WriteJSON\<close>
  does to a response.
\<close>

section \<open>MIME types\<close>

text \<open>
  A \<^verbatim>\<open>map[string]string\<close> of parameters is its list of entries in the order an iteration
  meets them; the keys are distinct.
\<close>

type_synonym MimeTypeParams = "(string \<times> string) list"
type_synonym MediaType = string

record api_Error =
  HTTPCode :: int
  Message :: string

record MIMEType =
  Type :: string
  Subtype :: string
  Params :: MimeTypeParams

definition MimeTypeVersion :: MimeTypeParams where
  "MimeTypeVersion = [(''version'', ''1.0'')]"

definition MimeTypeOCIImageManifest :: MIMEType where
  "MimeTypeOCIImageManifest =
     \<lparr>Type = ''application'', Subtype = ''vnd.oci.image.manifest.v1+json'', Params = []\<rparr>"

definition MimeTypeDockerImageManifestV2 :: MIMEType where
  "MimeTypeDockerImageManifestV2 =
     \<lparr>Type = ''application'', Subtype = ''vnd.docker.distribution.manifest.v2+json'', Params = []\<rparr>"

definition MimeTypeScanResponse :: MIMEType where
  "MimeTypeScanResponse =
     \<lparr>Type = ''application'', Subtype = ''vnd.scanner.adapter.scan.response+json'',
      Params = MimeTypeVersion\<rparr>"

definition MimeTypeSecurityVulnerabilityReport :: MIMEType where
  "MimeTypeSecurityVulnerabilityReport =
     \<lparr>Type = ''application'', Subtype = ''vnd.security.vulnerability.report'',
      Params = [(''version'', ''1.1'')]\<rparr>"

definition MimeTypeSecuritySBOMReport :: MIMEType where
  "MimeTypeSecuritySBOMReport =
     \<lparr>Type = ''application'', Subtype = ''vnd.security.sbom.report+json'',
      Params = [(''version'', ''1.0'')]\<rparr>"

definition MimeTypeMetadata :: MIMEType where
  "MimeTypeMetadata =
     \<lparr>Type = ''application'', Subtype = ''vnd.scanner.adapter.metadata+json'',
      Params = MimeTypeVersion\<rparr>"

definition MimeTypeError :: MIMEType where
  "MimeTypeError =
     \<lparr>Type = ''application'', Subtype = ''vnd.scanner.adapter.error'', Params = MimeTypeVersion\<rparr>"

definition MediaTypeSPDX :: MediaType where
  "MediaTypeSPDX = ''application/spdx+json''"

definition MediaTypeCycloneDX :: MediaType where
  "MediaTypeCycloneDX = ''application/vnd.cyclonedx+json''"

definition MIMEType_String :: "MIMEType \<Rightarrow> string" where
  "MIMEType_String mt =
     (if Type mt = [] \<or> Subtype mt = [] then []
      else let s = Type mt @ ''/'' @ Subtype mt in
        if Params mt = [] then s
        else s @ ''; '' @ Join (map (\<lambda>(k, v). k @ ''='' @ v) (Params mt)) '';'')"

definition MIMEType_Parse :: "string \<Rightarrow> string + MIMEType" where
  "MIMEType_Parse value =
     (if value = [] \<or> value = ''*/*'' \<or> value = MIMEType_String MimeTypeSecurityVulnerabilityReport
      then Inr MimeTypeSecurityVulnerabilityReport
      else if value = MIMEType_String MimeTypeSecuritySBOMReport
      then Inr MimeTypeSecuritySBOMReport
      else Inl (''unsupported mime type: '' @ value))"

text \<open>Reading a missing key of a Go map gives the empty string.\<close>

definition param :: "MimeTypeParams \<Rightarrow> string \<Rightarrow> string" where
  "param ps k = (case map_of ps k of None \<Rightarrow> [] | Some v \<Rightarrow> v)"

definition MIMEType_Equal :: "MIMEType \<Rightarrow> MIMEType \<Rightarrow> bool" where
  "MIMEType_Equal mt other \<longleftrightarrow>
     Type mt = Type other \<and> Subtype mt = Subtype other \<and>
     length (Params mt) = length (Params other) \<and>
     list_all (\<lambda>(k, v). param (Params other) k = v) (Params mt)"

definition MIMEType_to_json :: "MIMEType \<Rightarrow> json" where
  "MIMEType_to_json mt = JStr (MIMEType_String mt)"

text \<open>\<^verbatim>\<open>UnmarshalJSON\<close>: \<^verbatim>\<open>null\<close> leaves the string empty, which \<^verbatim>\<open>Parse\<close> accepts.\<close>

fun MIMEType_of_json :: "json \<Rightarrow> string + MIMEType" where
  "MIMEType_of_json JNull = MIMEType_Parse []"
| "MIMEType_of_json v = bindR (dec_str v) MIMEType_Parse"

lemmas mime_defs = MimeTypeOCIImageManifest_def MimeTypeDockerImageManifestV2_def
  MimeTypeScanResponse_def MimeTypeSecurityVulnerabilityReport_def MimeTypeSecuritySBOMReport_def
  MimeTypeMetadata_def MimeTypeError_def MimeTypeVersion_def

text \<open>The MIME types a scan job can have: those \<^verbatim>\<open>Parse\<close> can produce.\<close>

definition supported_mime :: "MIMEType \<Rightarrow> bool" where
  "supported_mime mt \<longleftrightarrow>
     mt = MimeTypeSecurityVulnerabilityReport \<or> mt = MimeTypeSecuritySBOMReport"

lemma vuln_mime_String:
  "MIMEType_String MimeTypeSecurityVulnerabilityReport =
     ''application/vnd.security.vulnerability.report; version=1.1''"
  by (simp add: MIMEType_String_def mime_defs)

lemma sbom_mime_String:
  "MIMEType_String MimeTypeSecuritySBOMReport =
     ''application/vnd.security.sbom.report+json; version=1.0''"
  by (simp add: MIMEType_String_def mime_defs)

lemma MIMEType_Parse_supported: "MIMEType_Parse s = Inr mt \<Longrightarrow> supported_mime mt"
  by (auto simp: MIMEType_Parse_def supported_mime_def split: if_splits)

lemma MIMEType_Parse_String: "supported_mime mt \<Longrightarrow> MIMEType_Parse (MIMEType_String mt) = Inr mt"
  by (auto simp: supported_mime_def MIMEType_Parse_def vuln_mime_String sbom_mime_String)

lemma MIMEType_String_inj:
  "supported_mime m \<Longrightarrow> supported_mime n \<Longrightarrow> MIMEType_String m = MIMEType_String n \<Longrightarrow> m = n"
  by (metis MIMEType_Parse_String sum.inject(2))

lemma MIMEType_String_no_colon: "supported_mime m \<Longrightarrow> CHR '':'' \<notin> set (MIMEType_String m)"
  by (auto simp: supported_mime_def vuln_mime_String sbom_mime_String)

lemma MIMEType_json_round:
  "supported_mime mt \<Longrightarrow> MIMEType_of_json (MIMEType_to_json mt) = Inr mt"
  by (simp add: MIMEType_to_json_def MIMEType_Parse_String)

text \<open>\<^verbatim>\<open>Equal\<close> does not depend on the order in which a map's entries are met.\<close>

lemma param_of: "distinct (map fst ps) \<Longrightarrow> (k, v) \<in> set ps \<Longrightarrow> param ps k = v"
  by (simp add: param_def)

lemma MIMEType_Equal_iff:
  assumes "distinct (map fst (Params m))" "distinct (map fst (Params n))"
    "\<forall>(k, v) \<in> set (Params m). v \<noteq> []"
  shows "MIMEType_Equal m n \<longleftrightarrow>
    Type m = Type n \<and> Subtype m = Subtype n \<and> set (Params m) = set (Params n)"
proof -
  have sub: "list_all (\<lambda>(k, v). param (Params n) k = v) (Params m) \<longleftrightarrow> set (Params m) \<subseteq> set (Params n)"
    using assms(2,3) by (fastforce simp: list_all_iff param_def split: option.splits dest: map_of_SomeD)
  have "card (set (Params m)) = length (Params m)" "card (set (Params n)) = length (Params n)"
    using assms(1,2) by (metis distinct_card distinct_map)+
  then have "set (Params m) \<subseteq> set (Params n) \<and> length (Params m) = length (Params n) \<longleftrightarrow>
      set (Params m) = set (Params n)"
    by (metis List.finite_set card_subset_eq order_refl)
  then show ?thesis using sub unfolding MIMEType_Equal_def by blast
qed

section \<open>Responses\<close>

text \<open>
  An \<^verbatim>\<open>http.ResponseWriter\<close>: the headers set so far, the status and the headers that went
  out with the first \<^verbatim>\<open>WriteHeader\<close>, and the body written.
\<close>

record Response =
  headers :: "string \<Rightarrow> string list"
  status :: "int option"
  sent :: "string \<Rightarrow> string list"
  body :: string

definition empty_response :: Response where
  "empty_response = \<lparr>headers = (\<lambda>_. []), status = None, sent = (\<lambda>_. []), body = []\<rparr>"

definition Header_Set :: "string \<Rightarrow> string \<Rightarrow> Response \<Rightarrow> Response" where
  "Header_Set k v res = res\<lparr>headers := (headers res)(k := [v])\<rparr>"

definition Header_Add :: "string \<Rightarrow> string \<Rightarrow> Response \<Rightarrow> Response" where
  "Header_Add k v res = res\<lparr>headers := (headers res)(k := headers res k @ [v])\<rparr>"

definition WriteHeader :: "int \<Rightarrow> Response \<Rightarrow> Response" where
  "WriteHeader code res =
     (if status res = None then res\<lparr>status := Some code, sent := headers res\<rparr> else res)"

definition Write :: "string \<Rightarrow> Response \<Rightarrow> Response" where
  "Write p res = (let res = WriteHeader 200 res in res\<lparr>body := body res @ p\<rparr>)"

text \<open>\<^verbatim>\<open>http.Error\<close> as called by \<^verbatim>\<open>SendInternalServerError\<close>.\<close>

definition SendInternalServerError :: "Response \<Rightarrow> Response" where
  "SendInternalServerError res =
     Write (''Internal Server Error'' @ [CHR 0x0A])
       (WriteHeader 500 (Header_Set ''Content-Type'' ''text/plain; charset=utf-8'' res))"

text \<open>
  \<^verbatim>\<open>WriteJSON\<close>: the encoder either writes the whole value and a line break, or fails
  before it writes anything.
\<close>

definition WriteJSON :: "codec \<Rightarrow> string + json \<Rightarrow> MIMEType \<Rightarrow> int \<Rightarrow> Response \<Rightarrow> Response" where
  "WriteJSON C data mimeType statusCode res =
     (let res = WriteHeader statusCode (Header_Set ''Content-Type'' (MIMEType_String mimeType) res)
      in case data of
           Inr v \<Rightarrow> Write (json_text C v @ [CHR 0x0A]) res
         | Inl e \<Rightarrow> SendInternalServerError res)"

definition Error_to_json :: "api_Error \<Rightarrow> json" where
  "Error_to_json err = JObj [(''error'', JObj [(''message'', JStr (Message err))])]"

definition WriteJSONError :: "codec \<Rightarrow> api_Error \<Rightarrow> Response \<Rightarrow> Response" where
  "WriteJSONError C err res =
     WriteJSON C (Inr (Error_to_json err)) MimeTypeError (HTTPCode err) res"

lemma WriteHeader_status [simp]:
  "status (WriteHeader c res) = (case status res of None \<Rightarrow> Some c | Some d \<Rightarrow> Some d)"
  by (auto simp: WriteHeader_def split: option.splits)

lemma Header_Set_fields [simp]:
  "status (Header_Set k v res) = status res" "body (Header_Set k v res) = body res"
  "headers (Header_Set k v res) = (headers res)(k := [v])" "sent (Header_Set k v res) = sent res"
  by (simp_all add: Header_Set_def)

lemma Write_status [simp]:
  "status (Write p res) = (case status res of None \<Rightarrow> Some 200 | Some d \<Rightarrow> Some d)"
  by (simp add: Write_def Let_def)

lemma WriteJSON_status [simp]:
  "status (WriteJSON C d mt c res) = (case status res of None \<Rightarrow> Some c | Some d \<Rightarrow> Some d)"
  by (simp add: WriteJSON_def SendInternalServerError_def Let_def split: option.splits sum.splits)

lemma WriteJSON_sent:
  "status res = None \<Longrightarrow>
   sent (WriteJSON C d mt c res) ''Content-Type'' = [MIMEType_String mt]"
  by (simp add: WriteJSON_def SendInternalServerError_def Let_def Write_def WriteHeader_def
      Header_Set_def split: sum.splits)

lemma WriteJSONError_status [simp]:
  "status (WriteJSONError C e res) =
     (case status res of None \<Rightarrow> Some (HTTPCode e) | Some d \<Rightarrow> Some d)"
  by (simp add: WriteJSONError_def)

lemma empty_response_status [simp]: "status empty_response = None" "body empty_response = []"
  by (simp_all add: empty_response_def)

end
