(* ===== verification/Go_Url.thy ===== *)
theory Go_Url
  imports Go_Conv
begin

text \<open>
  \<^verbatim>\<open>net/url\<close>: parsing as far as the program reads the result (scheme, user information,
  host, port, path) and the escaping its redaction uses. What kind of error a parse gives is
  not modelled: every failure is \<open>None\<close>.
\<close>

record Userinfo =
  username :: string
  password :: "string option"

record URL =
  Scheme :: string
  User :: "Userinfo option"
  Host :: string
  Path :: string

definition is_letter :: "char \<Rightarrow> bool" where
  "is_letter c \<longleftrightarrow> (let n = of_char c :: nat in (65 \<le> n \<and> n \<le> 90) \<or> (97 \<le> n \<and> n \<le> 122))"

definition is_digit :: "char \<Rightarrow> bool" where
  "is_digit c \<longleftrightarrow> (let n = of_char c :: nat in 48 \<le> n \<and> n \<le> 57)"

definition is_ctl :: "char \<Rightarrow> bool" where
  "is_ctl c \<longleftrightarrow> (let n = of_char c :: nat in n < 32 \<or> n = 127)"

text \<open>\<^verbatim>\<open>getScheme\<close>: the scheme and the rest; \<open>None\<close> for a leading colon.\<close>

fun scheme_loop :: "string \<Rightarrow> string \<Rightarrow> string \<Rightarrow> (string \<times> string) option" where
  "scheme_loop whole acc [] = Some ([], whole)"
| "scheme_loop whole acc (c # cs) =
     (if is_letter c then scheme_loop whole (c # acc) cs
      else if is_digit c \<or> c \<in> set ''+-.''
        then (if acc = [] then Some ([], whole) else scheme_loop whole (c # acc) cs)
      else if c = CHR '':'' then (if acc = [] then None else Some (rev acc, cs))
      else Some ([], whole))"

definition getScheme :: "string \<Rightarrow> (string \<times> string) option" where
  "getScheme raw = scheme_loop raw [] raw"

definition unhex :: "char \<Rightarrow> nat option" where
  "unhex c =
     (let n = of_char c in
      if 48 \<le> n \<and> n \<le> 57 then Some (n - 48)
      else if 97 \<le> n \<and> n \<le> 102 then Some (n - 87)
      else if 65 \<le> n \<and> n \<le> 70 then Some (n - 55)
      else None)"

datatype encoding = encodeHost | encodeUserPassword | encodePath

text \<open>A host may hold only the characters of RFC 3986 and the few Go adds.\<close>

definition host_char :: "char \<Rightarrow> bool" where
  "host_char c \<longleftrightarrow>
     is_letter c \<or> is_digit c \<or> (of_char c :: nat) \<ge> 128 \<or>
     c \<in> set ''-_.~!$&()*+,;=:[]<>'' \<or> c = CHR 0x27 \<or> c = CHR 0x22"

fun unescape :: "encoding \<Rightarrow> string \<Rightarrow> string option" where
  "unescape m [] = Some []"
| "unescape m (c # cs) =
     (if c = CHR ''%'' then
        (case cs of
           x # y # rest \<Rightarrow>
             (case (unhex x, unhex y) of
                (Some hi, Some lo) \<Rightarrow>
                  if m = encodeHost \<and> hi < 8 \<and> \<not> (x = CHR ''2'' \<and> y = CHR ''5'') then None
                  else map_option (\<lambda>r. char_of (hi * 16 + lo) # r) (unescape m rest)
              | _ \<Rightarrow> None)
         | _ \<Rightarrow> None)
      else if m = encodeHost \<and> \<not> host_char c then None
      else map_option (\<lambda>r. c # r) (unescape m cs))"

definition validOptionalPort :: "string \<Rightarrow> bool" where
  "validOptionalPort port =
     (case port of [] \<Rightarrow> True | c # cs \<Rightarrow> c = CHR '':'' \<and> list_all is_digit cs)"

definition validUserinfo :: "string \<Rightarrow> bool" where
  "validUserinfo s =
     list_all (\<lambda>c. is_letter c \<or> is_digit c \<or> c \<in> set ''-._:~!$&()*+,;=%@'' \<or> c = CHR 0x27) s"

definition parseHost :: "string \<Rightarrow> string option" where
  "parseHost host =
     (if HasPrefix host ''['' then
        (case LastIndex host '']'' of
           None \<Rightarrow> None
         | Some i \<Rightarrow> if validOptionalPort (drop (i + 1) host) then unescape encodeHost host else None)
      else case LastIndex host '':'' of
        Some i \<Rightarrow> if validOptionalPort (drop i host) then unescape encodeHost host else None
      | None \<Rightarrow> unescape encodeHost host)"

definition parseUserinfo :: "string \<Rightarrow> Userinfo option" where
  "parseUserinfo userinfo =
     (if \<not> validUserinfo userinfo then None
      else if \<not> Contains userinfo '':'' then
        map_option (\<lambda>u. \<lparr>username = u, password = None\<rparr>) (unescape encodeUserPassword userinfo)
      else case Cut userinfo '':'' of (u, p, _) \<Rightarrow>
        (case (unescape encodeUserPassword u, unescape encodeUserPassword p) of
           (Some u, Some p) \<Rightarrow> Some \<lparr>username = u, password = Some p\<rparr>
         | _ \<Rightarrow> None))"

definition parseAuthority :: "string \<Rightarrow> (Userinfo option \<times> string) option" where
  "parseAuthority authority =
     (case LastIndex authority ''@'' of
        None \<Rightarrow> map_option (\<lambda>h. (None, h)) (parseHost authority)
      | Some i \<Rightarrow>
          (case (parseHost (drop (i + 1) authority), parseUserinfo (take i authority)) of
             (Some h, Some u) \<Rightarrow> Some (Some u, h)
           | _ \<Rightarrow> None))"

definition url_parse :: "string \<Rightarrow> bool \<Rightarrow> URL option" where
  "url_parse rawURL viaRequest =
     (if list_ex is_ctl rawURL \<or> (rawURL = [] \<and> viaRequest) then None
      else if rawURL = ''*'' then Some \<lparr>Scheme = [], User = None, Host = [], Path = ''*''\<rparr>
      else case getScheme rawURL of
        None \<Rightarrow> None
      | Some (scheme, rest) \<Rightarrow>
          let scheme = ToLower scheme; rest = fst (Cut rest ''?'') in
          if \<not> HasPrefix rest ''/'' \<and> scheme \<noteq> [] then
            Some \<lparr>Scheme = scheme, User = None, Host = [], Path = []\<rparr>
          else if \<not> HasPrefix rest ''/'' \<and> (viaRequest \<or> Contains (fst (Cut rest ''/'')) '':'') then None
          else if (scheme \<noteq> [] \<or> (\<not> viaRequest \<and> \<not> HasPrefix rest ''///'')) \<and> HasPrefix rest ''//'' then
            (let after = drop 2 rest;
                 (authority, path) = (case Index after ''/'' of Some i \<Rightarrow> (take i after, drop i after)
                                      | None \<Rightarrow> (after, []))
             in case parseAuthority authority of
                  None \<Rightarrow> None
                | Some (user, host) \<Rightarrow>
                    map_option (\<lambda>p. \<lparr>Scheme = scheme, User = user, Host = host, Path = p\<rparr>)
                      (unescape encodePath path))
          else map_option (\<lambda>p. \<lparr>Scheme = scheme, User = None, Host = [], Path = p\<rparr>)
                 (unescape encodePath rest))"

text \<open>\<^verbatim>\<open>url.Parse\<close> cuts off the fragment; \<^verbatim>\<open>url.ParseRequestURI\<close> knows none.\<close>

definition url_Parse :: "string \<Rightarrow> URL option" where
  "url_Parse rawURL =
     (case Cut rawURL ''#'' of (u, frag, _) \<Rightarrow>
        if unescape encodePath frag = None then None else url_parse u False)"

definition ParseRequestURI :: "string \<Rightarrow> URL option" where
  "ParseRequestURI rawURL = url_parse rawURL True"

definition splitHostPort :: "string \<Rightarrow> string \<times> string" where
  "splitHostPort hostPort =
     (let (host, port) =
        (case LastIndex hostPort '':'' of
           Some i \<Rightarrow> if validOptionalPort (drop i hostPort) then (take i hostPort, drop (i + 1) hostPort)
                     else (hostPort, [])
         | None \<Rightarrow> (hostPort, []))
      in (if HasPrefix host ''['' \<and> HasSuffix host '']'' then butlast (tl host) else host, port))"

definition Hostname :: "URL \<Rightarrow> string" where
  "Hostname u = fst (splitHostPort (Host u))"

definition Port :: "URL \<Rightarrow> string" where
  "Port u = snd (splitHostPort (Host u))"

section \<open>Escaping\<close>

definition upper_hex :: "nat \<Rightarrow> char" where
  "upper_hex d = (if d < 10 then char_of (48 + d) else char_of (55 + d))"

definition percent :: "char \<Rightarrow> string" where
  "percent c = (let n = of_char c :: nat in [CHR ''%'', upper_hex (n div 16), upper_hex (n mod 16)])"

text \<open>\<^verbatim>\<open>Userinfo.String\<close> escapes all but letters, digits, \<^verbatim>\<open>-_.~\<close> and \<^verbatim>\<open>$&+,;=\<close>.\<close>

definition escape_userinfo :: "string \<Rightarrow> string" where
  "escape_userinfo s =
     concat (map (\<lambda>c. if is_letter c \<or> is_digit c \<or> c \<in> set ''-_.~$&+,;='' then [c] else percent c) s)"

definition Userinfo_String :: "Userinfo \<Rightarrow> string" where
  "Userinfo_String u =
     (case password u of
        None \<Rightarrow> escape_userinfo (username u)
      | Some p \<Rightarrow> escape_userinfo (username u) @ '':'' @ escape_userinfo p)"

definition QueryEscape :: "string \<Rightarrow> string" where
  "QueryEscape s =
     concat (map (\<lambda>c. if c = CHR '' '' then ''+''
                       else if is_letter c \<or> is_digit c \<or> c \<in> set ''-_.~'' then [c] else percent c) s)"

end
