(* ===== verification/Harbor.thy ===== *)
theory Harbor
  imports Api Go_Url
begin

text \<open>
  \<^verbatim>\<open>pkg/harbor/model.go\<close>: the data exchanged with Harbor, with the JSON form its struct tags
  give it.
\<close>

section \<open>Severity\<close>

text \<open>\<^verbatim>\<open>Severity\<close> is an \<^verbatim>\<open>int64\<close>; 0 is the zero value and names nothing.\<close>

type_synonym Severity = int

definition SevUnknown :: Severity where "SevUnknown = 1"
definition SevLow :: Severity where "SevLow = 2"
definition SevMedium :: Severity where "SevMedium = 3"
definition SevHigh :: Severity where "SevHigh = 4"
definition SevCritical :: Severity where "SevCritical = 5"

lemmas sev_defs = SevUnknown_def SevLow_def SevMedium_def SevHigh_def SevCritical_def

definition severityToString :: "(Severity \<times> string) list" where
  "severityToString =
     [(SevUnknown, ''Unknown''), (SevLow, ''Low''), (SevMedium, ''Medium''), (SevHigh, ''High''),
      (SevCritical, ''Critical'')]"

definition stringToSeverity :: "(string \<times> Severity) list" where
  "stringToSeverity =
     [(''Unknown'', SevUnknown), (''Low'', SevLow), (''Medium'', SevMedium), (''High'', SevHigh),
      (''Critical'', SevCritical)]"

text \<open>Reading a key a map does not have gives the zero value.\<close>

definition Severity_String :: "Severity \<Rightarrow> string" where
  "Severity_String s = (case map_of severityToString s of None \<Rightarrow> [] | Some t \<Rightarrow> t)"

definition Severity_MarshalJSON :: "Severity \<Rightarrow> json" where
  "Severity_MarshalJSON s = JStr (Severity_String s)"

fun Severity_UnmarshalJSON :: "json \<Rightarrow> string + Severity" where
  "Severity_UnmarshalJSON v =
     bindR (case v of JNull \<Rightarrow> Inr [] | _ \<Rightarrow> dec_str v)
       (\<lambda>t. Inr (case map_of stringToSeverity t of None \<Rightarrow> 0 | Some s \<Rightarrow> s))"

definition valid_severity :: "Severity \<Rightarrow> bool" where
  "valid_severity s \<longleftrightarrow> 0 \<le> s \<and> s \<le> 5"

lemma valid_severity_cases:
  "valid_severity s \<Longrightarrow> s = 0 \<or> s = SevUnknown \<or> s = SevLow \<or> s = SevMedium \<or> s = SevHigh \<or> s = SevCritical"
  by (auto simp: valid_severity_def sev_defs)

lemma Severity_json_round:
  "valid_severity s \<Longrightarrow> Severity_UnmarshalJSON (Severity_MarshalJSON s) = Inr s"
  by (drule valid_severity_cases)
    (auto simp: Severity_MarshalJSON_def Severity_String_def severityToString_def
      stringToSeverity_def sev_defs)

section \<open>Requests\<close>

type_synonym CapabilityType = string

definition CapabilityTypeSBOM :: CapabilityType where
  "CapabilityTypeSBOM = ''sbom''"

definition CapabilityTypeVulnerability :: CapabilityType where
  "CapabilityTypeVulnerability = ''vulnerability''"

definition SupportedSBOMMediaTypes :: "MediaType list" where
  "SupportedSBOMMediaTypes = [MediaTypeSPDX, MediaTypeCycloneDX]"

record Registry =
  reg_URL :: string
  reg_Authorization :: string

record Artifact =
  art_Repository :: string
  art_Digest :: string
  art_MimeType :: string

record CapabilityAttributes =
  SBOMMediaTypes :: "MediaType slice"

record Capability =
  cap_Type :: CapabilityType
  ConsumesMIMETypes :: "string slice"
  ProducesMIMETypes :: "MIMEType slice"
  AdditionalAttributes :: "CapabilityAttributes option"
  Parameters :: "CapabilityAttributes option"

record ScanRequest =
  req_Registry :: Registry
  req_Artifact :: Artifact
  req_Capabilities :: "Capability slice"

text \<open>\<^verbatim>\<open>harbor.ScanReportQuery\<close>: the decoded query of a report fetch.\<close>

record ScanReportQuery =
  query_SBOMMediaType :: MediaType

definition GetImageRef :: "ScanRequest \<Rightarrow> string + string \<times> bool" where
  "GetImageRef c =
     (case url_Parse (reg_URL (req_Registry c)) of
        None \<Rightarrow> Inl ''parsing registry URL''
      | Some registryURL \<Rightarrow>
          let port = Port registryURL;
              port = (if port = [] \<and> Scheme registryURL = ''http'' then ''80'' else port);
              port = (if port = [] \<and> Scheme registryURL = ''https'' then ''443'' else port)
          in Inr (Hostname registryURL @ '':'' @ port @ ''/'' @ art_Repository (req_Artifact c)
                    @ ''@'' @ art_Digest (req_Artifact c),
                  Scheme registryURL = ''http''))"

section \<open>Reports\<close>

record Layer =
  lay_Digest :: string
  lay_DiffID :: string

text \<open>A \<^verbatim>\<open>float32\<close> is its JSON literal.\<close>

record CVSSDetails =
  ScoreV2 :: "string option"
  ScoreV3 :: "string option"
  VectorV2 :: string
  VectorV3 :: string

record VulnerabilityItem =
  vi_ID :: string
  vi_Pkg :: string
  vi_Version :: string
  vi_Status :: string
  vi_FixVersion :: string
  vi_Severity :: Severity
  vi_Description :: string
  vi_Links :: "string slice"
  vi_Layer :: "Layer option"
  vi_PreferredCVSS :: "CVSSDetails option"
  vi_CweIDs :: "string slice"
  vi_VendorAttributes :: "(string \<times> json) list"

record Scanner =
  Name :: string
  Vendor :: string
  Version :: string

text \<open>The \<^verbatim>\<open>any\<close> of an SBOM document is a JSON value, nil being \<open>JNull\<close>.\<close>

record ScanReport =
  rep_GeneratedAt :: time
  rep_Artifact :: Artifact
  rep_Scanner :: Scanner
  rep_Severity :: Severity
  rep_MediaType :: MediaType
  rep_SBOM :: json
  rep_Vulnerabilities :: "VulnerabilityItem slice"

record ScannerAdapterMetadata =
  meta_Scanner :: Scanner
  meta_Capabilities :: "Capability slice"
  meta_Properties :: "(string \<times> string) list"

definition zero_Artifact :: Artifact where
  "zero_Artifact = \<lparr>art_Repository = [], art_Digest = [], art_MimeType = []\<rparr>"

definition zero_Scanner :: Scanner where
  "zero_Scanner = \<lparr>Name = [], Vendor = [], Version = []\<rparr>"

definition zero_Report :: ScanReport where
  "zero_Report =
     \<lparr>rep_GeneratedAt = 0, rep_Artifact = zero_Artifact, rep_Scanner = zero_Scanner,
      rep_Severity = 0, rep_MediaType = [], rep_SBOM = JNull, rep_Vulnerabilities = None\<rparr>"

text \<open>\<^verbatim>\<open>GetScannerMetadata\<close>, given what the environment variable \<^verbatim>\<open>TRIVY_VERSION\<close> holds.\<close>

definition GetScannerMetadata :: "string option \<Rightarrow> Scanner" where
  "GetScannerMetadata TRIVY_VERSION =
     \<lparr>Name = ''Trivy'', Vendor = ''Aqua Security'',
      Version = (case TRIVY_VERSION of None \<Rightarrow> ''Unknown'' | Some v \<Rightarrow> v)\<rparr>"

end
