(* ===== verification/Harbor_Json.thy ===== *)
theory Harbor_Json
  imports Harbor
begin

text \<open>
  The JSON form of the data of \<^verbatim>\<open>pkg/harbor/model.go\<close>, field by field from the struct tags,
  and the round trip of each: reading back what was written gives the same value, up to what
  \<^verbatim>\<open>omitempty\<close> cannot tell apart (an empty and a nil slice), which the well-formedness
  predicates exclude.
\<close>

named_theorems json_simps \<open>what is needed to read back the fields of an object\<close>

lemma jget_Cons_lit [json_simps]:
  "jget ((k, v) # kvs) name =
     (case jget kvs name of Some w \<Rightarrow> Some w | None \<Rightarrow> if ToLower k = ToLower name then Some v else None)"
  by (rule jget_Cons)

declare jget_append [json_simps] jget_omit [json_simps]

lemma ToLower_Nil [json_simps]: "ToLower [] = []"
  by (simp add: ToLower_def)

lemma ToLower_Cons [json_simps]: "ToLower (c # cs) = lower_char c # ToLower cs"
  by (simp add: ToLower_def)

lemma lower_char_lit [json_simps]:
  "lower_char c =
     (let n = (of_char c :: nat) in if 65 \<le> n \<and> n \<le> 90 then char_of (n + 32) else c)"
  by (simp add: lower_char_def Let_def)

section \<open>Requests\<close>

definition Registry_to_json :: "Registry \<Rightarrow> json" where
  "Registry_to_json r =
     JObj [(''url'', JStr (reg_URL r)), (''authorization'', JStr (reg_Authorization r))]"

fun Registry_of_json :: "json \<Rightarrow> string + Registry" where
  "Registry_of_json (JObj o1) =
     bindR (jfield o1 ''url'' [] dec_str) (\<lambda>u.
     bindR (jfield o1 ''authorization'' [] dec_str) (\<lambda>a.
     Inr \<lparr>reg_URL = u, reg_Authorization = a\<rparr>))"
| "Registry_of_json _ = Inl ''json: cannot unmarshal value into Go struct Registry''"

definition Artifact_to_json :: "Artifact \<Rightarrow> json" where
  "Artifact_to_json a =
     JObj ([(''repository'', JStr (art_Repository a)), (''digest'', JStr (art_Digest a))]
           @ omit (art_MimeType a = []) ''mime_type'' (JStr (art_MimeType a)))"

fun Artifact_of_json :: "json \<Rightarrow> string + Artifact" where
  "Artifact_of_json (JObj o1) =
     bindR (jfield o1 ''repository'' [] dec_str) (\<lambda>r.
     bindR (jfield o1 ''digest'' [] dec_str) (\<lambda>d.
     bindR (jfield o1 ''mime_type'' [] dec_str) (\<lambda>m.
     Inr \<lparr>art_Repository = r, art_Digest = d, art_MimeType = m\<rparr>)))"
| "Artifact_of_json _ = Inl ''json: cannot unmarshal value into Go struct Artifact''"

definition CapabilityAttributes_to_json :: "CapabilityAttributes \<Rightarrow> json" where
  "CapabilityAttributes_to_json a =
     JObj (omit (items (SBOMMediaTypes a) = []) ''sbom_media_types'' (enc_slice JStr (SBOMMediaTypes a)))"

fun CapabilityAttributes_of_json :: "json \<Rightarrow> string + CapabilityAttributes" where
  "CapabilityAttributes_of_json (JObj o1) =
     bindR (jfield o1 ''sbom_media_types'' None (dec_slice (dec_elem [] dec_str))) (\<lambda>m.
     Inr \<lparr>SBOMMediaTypes = m\<rparr>)"
| "CapabilityAttributes_of_json _ = Inl ''json: cannot unmarshal value into Go struct CapabilityAttributes''"

definition Capability_to_json :: "Capability \<Rightarrow> json" where
  "Capability_to_json c =
     JObj ([(''type'', JStr (cap_Type c)),
            (''consumes_mime_types'', enc_slice JStr (ConsumesMIMETypes c)),
            (''produces_mime_types'', enc_slice MIMEType_to_json (ProducesMIMETypes c))]
           @ omit (AdditionalAttributes c = None) ''additional_attributes''
               (enc_ptr CapabilityAttributes_to_json (AdditionalAttributes c))
           @ omit (Parameters c = None) ''parameters''
               (enc_ptr CapabilityAttributes_to_json (Parameters c)))"

definition zero_Capability :: Capability where
  "zero_Capability = \<lparr>cap_Type = [], ConsumesMIMETypes = None, ProducesMIMETypes = None,
     AdditionalAttributes = None, Parameters = None\<rparr>"

fun Capability_of_json :: "json \<Rightarrow> string + Capability" where
  "Capability_of_json (JObj o1) =
     bindR (jfield o1 ''type'' [] dec_str) (\<lambda>t.
     bindR (jfield o1 ''consumes_mime_types'' None (dec_slice (dec_elem [] dec_str))) (\<lambda>c.
     bindR (jfield o1 ''produces_mime_types'' None (dec_slice MIMEType_of_json)) (\<lambda>p.
     bindR (jfield o1 ''additional_attributes'' None (dec_ptr CapabilityAttributes_of_json)) (\<lambda>a.
     bindR (jfield o1 ''parameters'' None (dec_ptr CapabilityAttributes_of_json)) (\<lambda>q.
     Inr \<lparr>cap_Type = t, ConsumesMIMETypes = c, ProducesMIMETypes = p, AdditionalAttributes = a,
          Parameters = q\<rparr>)))))"
| "Capability_of_json _ = Inl ''json: cannot unmarshal value into Go struct Capability''"

definition ScanRequest_to_json :: "ScanRequest \<Rightarrow> json" where
  "ScanRequest_to_json r =
     JObj [(''registry'', Registry_to_json (req_Registry r)),
           (''artifact'', Artifact_to_json (req_Artifact r)),
           (''enabled_capabilities'', enc_slice Capability_to_json (req_Capabilities r))]"

definition zero_Registry :: Registry where
  "zero_Registry = \<lparr>reg_URL = [], reg_Authorization = []\<rparr>"

fun ScanRequest_of_json :: "json \<Rightarrow> string + ScanRequest" where
  "ScanRequest_of_json (JObj o1) =
     bindR (jfield o1 ''registry'' zero_Registry Registry_of_json) (\<lambda>r.
     bindR (jfield o1 ''artifact'' zero_Artifact Artifact_of_json) (\<lambda>a.
     bindR (jfield o1 ''enabled_capabilities'' None
             (dec_slice (dec_elem zero_Capability Capability_of_json))) (\<lambda>c.
     Inr \<lparr>req_Registry = r, req_Artifact = a, req_Capabilities = c\<rparr>)))"
| "ScanRequest_of_json _ = Inl ''json: cannot unmarshal value into Go struct ScanRequest''"

lemma dec_elem_nonnull: "v \<noteq> JNull \<Longrightarrow> dec_elem z d v = d v"
  by (simp add: dec_elem_def split: json.split)

lemma dec_elem_JStr [simp]: "dec_elem z dec_str (JStr s) = Inr s"
  by (simp add: dec_elem_def)

lemma mapR_JStr [simp]: "mapR (dec_elem [] dec_str) (map JStr xs) = Inr xs"
  by (rule mapR_id) simp

lemma jfield_slice:
  "jget o1 n = Some (enc_slice enc s) \<Longrightarrow> (\<And>x. x \<in> set (items s) \<Longrightarrow> d (enc x) = Inr x) \<Longrightarrow>
   jfield o1 n None (dec_slice d) = Inr s"
  by (cases s) (auto simp: jfield_def enc_slice_def mapR_id)

lemma jfield_slice_omit:
  "jget o1 n = (if items s \<noteq> [] then Some (enc_slice enc s) else None) \<Longrightarrow> s \<noteq> Some [] \<Longrightarrow>
   (\<And>x. x \<in> set (items s) \<Longrightarrow> d (enc x) = Inr x) \<Longrightarrow> jfield o1 n None (dec_slice d) = Inr s"
  by (cases s) (auto simp: jfield_def enc_slice_def mapR_id)

lemma jfield_ptr_omit:
  "jget o1 n = (if p \<noteq> None then Some (enc_ptr enc p) else None) \<Longrightarrow>
   (\<And>x. p = Some x \<Longrightarrow> d (enc x) = Inr x \<and> enc x \<noteq> JNull) \<Longrightarrow>
   jfield o1 n None (dec_ptr d) = Inr p"
  by (cases p) (auto simp: jfield_def enc_ptr_def split: json.split)

lemma jfield_ptr:
  "jget o1 n = Some (enc_ptr enc p) \<Longrightarrow>
   (\<And>x. p = Some x \<Longrightarrow> d (enc x) = Inr x \<and> enc x \<noteq> JNull) \<Longrightarrow>
   jfield o1 n None (dec_ptr d) = Inr p"
  by (cases p) (auto simp: jfield_def enc_ptr_def split: json.split)

lemma jfield_str: "jget o1 n = Some (JStr s) \<Longrightarrow> jfield o1 n z dec_str = Inr s"
  by (simp add: jfield_def)

lemma jfield_str_omit:
  "jget o1 n = (if s \<noteq> [] then Some (JStr s) else None) \<Longrightarrow> jfield o1 n [] dec_str = Inr s"
  by (cases "s = []") (simp_all add: jfield_def)

lemma jfield_obj: "jget o1 n = Some v \<Longrightarrow> v \<noteq> JNull \<Longrightarrow> d v = Inr x \<Longrightarrow> jfield o1 n z d = Inr x"
  by (cases v) (simp_all add: jfield_def)

lemmas jfield_intros = jfield_str jfield_str_omit jfield_slice jfield_slice_omit jfield_ptr jfield_ptr_omit

lemma Registry_round [simp]: "Registry_of_json (Registry_to_json r) = Inr r"
  by (simp add: Registry_to_json_def jfield_def json_simps)

lemma Artifact_round [simp]: "Artifact_of_json (Artifact_to_json a) = Inr a"
  by (cases "art_MimeType a = []") (simp_all add: Artifact_to_json_def jfield_def json_simps omit_def)

definition wf_attributes :: "CapabilityAttributes \<Rightarrow> bool" where
  "wf_attributes a \<longleftrightarrow> SBOMMediaTypes a \<noteq> Some []"

definition wf_capability :: "Capability \<Rightarrow> bool" where
  "wf_capability c \<longleftrightarrow>
     list_all supported_mime (items (ProducesMIMETypes c)) \<and>
     pred_option wf_attributes (AdditionalAttributes c) \<and> pred_option wf_attributes (Parameters c)"

definition wf_request :: "ScanRequest \<Rightarrow> bool" where
  "wf_request r \<longleftrightarrow> list_all wf_capability (items (req_Capabilities r))"

lemma CapabilityAttributes_round:
  "wf_attributes a \<Longrightarrow>
   CapabilityAttributes_of_json (CapabilityAttributes_to_json a) = Inr a"
proof -
  assume wf: "wf_attributes a"
  have "jfield (omit (items (SBOMMediaTypes a) = []) ''sbom_media_types'' (enc_slice JStr (SBOMMediaTypes a)))
      ''sbom_media_types'' None (dec_slice (dec_elem [] dec_str)) = Inr (SBOMMediaTypes a)"
    using wf by (intro jfield_slice_omit [where enc = JStr]) (auto simp: jget_omit wf_attributes_def)
  then show ?thesis by (simp add: CapabilityAttributes_to_json_def)
qed

lemma attributes_not_null [simp]: "CapabilityAttributes_to_json a \<noteq> JNull"
  by (simp add: CapabilityAttributes_to_json_def)

lemma Capability_round: "wf_capability c \<Longrightarrow> Capability_of_json (Capability_to_json c) = Inr c"
proof -
  assume wf: "wf_capability c"
  obtain o1 where o1: "Capability_to_json c = JObj o1"
    by (simp add: Capability_to_json_def)
  have g: "jget o1 ''type'' = Some (JStr (cap_Type c))"
    "jget o1 ''consumes_mime_types'' = Some (enc_slice JStr (ConsumesMIMETypes c))"
    "jget o1 ''produces_mime_types'' = Some (enc_slice MIMEType_to_json (ProducesMIMETypes c))"
    "jget o1 ''additional_attributes'' = (if AdditionalAttributes c \<noteq> None
       then Some (enc_ptr CapabilityAttributes_to_json (AdditionalAttributes c)) else None)"
    "jget o1 ''parameters'' = (if Parameters c \<noteq> None
       then Some (enc_ptr CapabilityAttributes_to_json (Parameters c)) else None)"
    using o1 by (auto simp: Capability_to_json_def json_simps)
  have "jfield o1 ''produces_mime_types'' None (dec_slice MIMEType_of_json) = Inr (ProducesMIMETypes c)"
    using wf by (intro jfield_slice [OF g(3)]) (auto simp: wf_capability_def list_all_iff MIMEType_json_round)
  moreover have "jfield o1 ''consumes_mime_types'' None (dec_slice (dec_elem [] dec_str)) = Inr (ConsumesMIMETypes c)"
    by (intro jfield_slice [OF g(2)]) simp
  moreover have "jfield o1 ''additional_attributes'' None (dec_ptr CapabilityAttributes_of_json) = Inr (AdditionalAttributes c)"
    using wf by (intro jfield_ptr_omit [OF g(4)]) (simp add: wf_capability_def CapabilityAttributes_round)
  moreover have "jfield o1 ''parameters'' None (dec_ptr CapabilityAttributes_of_json) = Inr (Parameters c)"
    using wf by (intro jfield_ptr_omit [OF g(5)]) (simp add: wf_capability_def CapabilityAttributes_round)
  ultimately show ?thesis
    using g(1) by (simp add: o1 jfield_str)
qed

lemma Capability_not_null [simp]: "Capability_to_json c \<noteq> JNull"
  by (simp add: Capability_to_json_def)

lemma ScanRequest_round: "wf_request r \<Longrightarrow> ScanRequest_of_json (ScanRequest_to_json r) = Inr r"
proof -
  assume wf: "wf_request r"
  obtain o1 where o1: "ScanRequest_to_json r = JObj o1"
    by (simp add: ScanRequest_to_json_def)
  have g: "jget o1 ''registry'' = Some (Registry_to_json (req_Registry r))"
    "jget o1 ''artifact'' = Some (Artifact_to_json (req_Artifact r))"
    "jget o1 ''enabled_capabilities'' = Some (enc_slice Capability_to_json (req_Capabilities r))"
    using o1 by (auto simp: ScanRequest_to_json_def json_simps)
  have "jfield o1 ''registry'' zero_Registry Registry_of_json = Inr (req_Registry r)"
    by (rule jfield_obj [OF g(1)]) (simp add: Registry_to_json_def, simp)
  moreover have "jfield o1 ''artifact'' zero_Artifact Artifact_of_json = Inr (req_Artifact r)"
    by (rule jfield_obj [OF g(2)]) (simp add: Artifact_to_json_def, simp)
  moreover have "jfield o1 ''enabled_capabilities'' None
      (dec_slice (dec_elem zero_Capability Capability_of_json)) = Inr (req_Capabilities r)"
    using wf by (intro jfield_slice [OF g(3)])
      (simp add: wf_request_def list_all_iff Capability_round dec_elem_nonnull)
  ultimately show ?thesis by (simp add: o1)
qed

section \<open>Reports\<close>

definition Scanner_to_json :: "Scanner \<Rightarrow> json" where
  "Scanner_to_json s =
     JObj [(''name'', JStr (Name s)), (''vendor'', JStr (Vendor s)), (''version'', JStr (Version s))]"

fun Scanner_of_json :: "json \<Rightarrow> string + Scanner" where
  "Scanner_of_json (JObj o1) =
     bindR (jfield o1 ''name'' [] dec_str) (\<lambda>n.
     bindR (jfield o1 ''vendor'' [] dec_str) (\<lambda>v.
     bindR (jfield o1 ''version'' [] dec_str) (\<lambda>w.
     Inr \<lparr>Name = n, Vendor = v, Version = w\<rparr>)))"
| "Scanner_of_json _ = Inl ''json: cannot unmarshal value into Go struct Scanner''"

definition Layer_to_json :: "Layer \<Rightarrow> json" where
  "Layer_to_json l =
     JObj (omit (lay_Digest l = []) ''digest'' (JStr (lay_Digest l))
           @ omit (lay_DiffID l = []) ''diff_id'' (JStr (lay_DiffID l)))"

fun Layer_of_json :: "json \<Rightarrow> string + Layer" where
  "Layer_of_json (JObj o1) =
     bindR (jfield o1 ''digest'' [] dec_str) (\<lambda>d.
     bindR (jfield o1 ''diff_id'' [] dec_str) (\<lambda>i.
     Inr \<lparr>lay_Digest = d, lay_DiffID = i\<rparr>))"
| "Layer_of_json _ = Inl ''json: cannot unmarshal value into Go struct Layer''"

fun dec_num :: "json \<Rightarrow> string + string" where
  "dec_num (JNum s) = Inr s"
| "dec_num _ = Inl ''json: cannot unmarshal value into Go value of type float32''"

definition CVSSDetails_to_json :: "CVSSDetails \<Rightarrow> json" where
  "CVSSDetails_to_json c =
     JObj (omit (ScoreV2 c = None) ''score_v2'' (enc_ptr JNum (ScoreV2 c))
           @ omit (ScoreV3 c = None) ''score_v3'' (enc_ptr JNum (ScoreV3 c))
           @ [(''vector_v2'', JStr (VectorV2 c)), (''vector_v3'', JStr (VectorV3 c))])"

fun CVSSDetails_of_json :: "json \<Rightarrow> string + CVSSDetails" where
  "CVSSDetails_of_json (JObj o1) =
     bindR (jfield o1 ''score_v2'' None (dec_ptr dec_num)) (\<lambda>a.
     bindR (jfield o1 ''score_v3'' None (dec_ptr dec_num)) (\<lambda>b.
     bindR (jfield o1 ''vector_v2'' [] dec_str) (\<lambda>c.
     bindR (jfield o1 ''vector_v3'' [] dec_str) (\<lambda>d.
     Inr \<lparr>ScoreV2 = a, ScoreV3 = b, VectorV2 = c, VectorV3 = d\<rparr>))))"
| "CVSSDetails_of_json _ = Inl ''json: cannot unmarshal value into Go struct CVSSDetails''"

text \<open>A \<^verbatim>\<open>map[string]any\<close>: of entries with the same key the last one stays.\<close>

fun last_wins :: "(string \<times> 'a) list \<Rightarrow> (string \<times> 'a) list" where
  "last_wins [] = []"
| "last_wins (kv # kvs) =
     (if fst kv \<in> fst ` set kvs then last_wins kvs else kv # last_wins kvs)"

fun dec_map :: "json \<Rightarrow> string + (string \<times> json) list" where
  "dec_map (JObj kvs) = Inr (last_wins kvs)"
| "dec_map _ = Inl ''json: cannot unmarshal value into Go map''"

lemma last_wins_distinct [simp]: "distinct (map fst kvs) \<Longrightarrow> last_wins kvs = kvs"
  by (induction kvs) auto

definition VulnerabilityItem_to_json :: "VulnerabilityItem \<Rightarrow> json" where
  "VulnerabilityItem_to_json v =
     JObj ([(''id'', JStr (vi_ID v)), (''package'', JStr (vi_Pkg v)), (''version'', JStr (vi_Version v))]
           @ omit (vi_Status v = []) ''status'' (JStr (vi_Status v))
           @ omit (vi_FixVersion v = []) ''fix_version'' (JStr (vi_FixVersion v))
           @ [(''severity'', Severity_MarshalJSON (vi_Severity v)),
              (''description'', JStr (vi_Description v)),
              (''links'', enc_slice JStr (vi_Links v)),
              (''layer'', enc_ptr Layer_to_json (vi_Layer v))]
           @ omit (vi_PreferredCVSS v = None) ''preferred_cvss'' (enc_ptr CVSSDetails_to_json (vi_PreferredCVSS v))
           @ omit (items (vi_CweIDs v) = []) ''cwe_ids'' (enc_slice JStr (vi_CweIDs v))
           @ omit (vi_VendorAttributes v = []) ''vendor_attributes'' (JObj (vi_VendorAttributes v)))"

fun VulnerabilityItem_of_json :: "json \<Rightarrow> string + VulnerabilityItem" where
  "VulnerabilityItem_of_json (JObj o1) =
     bindR (jfield o1 ''id'' [] dec_str) (\<lambda>i.
     bindR (jfield o1 ''package'' [] dec_str) (\<lambda>p.
     bindR (jfield o1 ''version'' [] dec_str) (\<lambda>v.
     bindR (jfield o1 ''status'' [] dec_str) (\<lambda>st.
     bindR (jfield o1 ''fix_version'' [] dec_str) (\<lambda>f.
     bindR (jfieldU o1 ''severity'' 0 Severity_UnmarshalJSON) (\<lambda>s.
     bindR (jfield o1 ''description'' [] dec_str) (\<lambda>d.
     bindR (jfield o1 ''links'' None (dec_slice (dec_elem [] dec_str))) (\<lambda>l.
     bindR (jfield o1 ''layer'' None (dec_ptr Layer_of_json)) (\<lambda>y.
     bindR (jfield o1 ''preferred_cvss'' None (dec_ptr CVSSDetails_of_json)) (\<lambda>c.
     bindR (jfield o1 ''cwe_ids'' None (dec_slice (dec_elem [] dec_str))) (\<lambda>w.
     bindR (jfield o1 ''vendor_attributes'' [] dec_map) (\<lambda>a.
     Inr \<lparr>vi_ID = i, vi_Pkg = p, vi_Version = v, vi_Status = st, vi_FixVersion = f, vi_Severity = s,
          vi_Description = d, vi_Links = l, vi_Layer = y, vi_PreferredCVSS = c, vi_CweIDs = w,
          vi_VendorAttributes = a\<rparr>))))))))))))"
| "VulnerabilityItem_of_json _ = Inl ''json: cannot unmarshal value into Go struct VulnerabilityItem''"

definition zero_VulnerabilityItem :: VulnerabilityItem where
  "zero_VulnerabilityItem =
     \<lparr>vi_ID = [], vi_Pkg = [], vi_Version = [], vi_Status = [], vi_FixVersion = [], vi_Severity = 0,
      vi_Description = [], vi_Links = None, vi_Layer = None, vi_PreferredCVSS = None, vi_CweIDs = None,
      vi_VendorAttributes = []\<rparr>"

text \<open>The \<^verbatim>\<open>any\<close> of the SBOM is left out when it is nil.\<close>

definition ScanReport_to_json :: "codec \<Rightarrow> ScanReport \<Rightarrow> string + json" where
  "ScanReport_to_json C r =
     bindR (time_text C (rep_GeneratedAt r)) (\<lambda>t.
     Inr (JObj ([(''generated_at'', JStr t), (''artifact'', Artifact_to_json (rep_Artifact r)),
                 (''scanner'', Scanner_to_json (rep_Scanner r))]
           @ omit (rep_Severity r = 0) ''severity'' (Severity_MarshalJSON (rep_Severity r))
           @ omit (rep_MediaType r = []) ''media_type'' (JStr (rep_MediaType r))
           @ omit (rep_SBOM r = JNull) ''sbom'' (rep_SBOM r)
           @ omit (items (rep_Vulnerabilities r) = []) ''vulnerabilities''
               (enc_slice VulnerabilityItem_to_json (rep_Vulnerabilities r)))))"

fun ScanReport_of_json :: "codec \<Rightarrow> json \<Rightarrow> string + ScanReport" where
  "ScanReport_of_json C (JObj o1) =
     bindR (jfield o1 ''generated_at'' 0 (dec_time C)) (\<lambda>t.
     bindR (jfield o1 ''artifact'' zero_Artifact Artifact_of_json) (\<lambda>a.
     bindR (jfield o1 ''scanner'' zero_Scanner Scanner_of_json) (\<lambda>s.
     bindR (jfieldU o1 ''severity'' 0 Severity_UnmarshalJSON) (\<lambda>v.
     bindR (jfield o1 ''media_type'' [] dec_str) (\<lambda>m.
     bindR (jfield o1 ''sbom'' JNull dec_any) (\<lambda>d.
     bindR (jfield o1 ''vulnerabilities'' None
             (dec_slice (dec_elem zero_VulnerabilityItem VulnerabilityItem_of_json))) (\<lambda>l.
     Inr \<lparr>rep_GeneratedAt = t, rep_Artifact = a, rep_Scanner = s, rep_Severity = v, rep_MediaType = m,
          rep_SBOM = d, rep_Vulnerabilities = l\<rparr>)))))))"
| "ScanReport_of_json C JNull = Inr zero_Report"
| "ScanReport_of_json C _ = Inl ''json: cannot unmarshal value into Go struct ScanReport''"


text \<open>
  What the tags can write and read back: severities that have a name, no empty slice where
  \<^verbatim>\<open>omitempty\<close> would drop it, a map with distinct keys.
\<close>

definition wf_item :: "VulnerabilityItem \<Rightarrow> bool" where
  "wf_item v \<longleftrightarrow>
     valid_severity (vi_Severity v) \<and> vi_CweIDs v \<noteq> Some [] \<and> distinct (map fst (vi_VendorAttributes v))"

definition wf_report :: "ScanReport \<Rightarrow> bool" where
  "wf_report r \<longleftrightarrow>
     valid_severity (rep_Severity r) \<and> rep_Vulnerabilities r \<noteq> Some [] \<and>
     list_all wf_item (items (rep_Vulnerabilities r))"

lemma Scanner_round [simp]: "Scanner_of_json (Scanner_to_json s) = Inr s"
  by (simp add: Scanner_to_json_def jfield_def json_simps)

lemma Layer_round [simp]: "Layer_of_json (Layer_to_json l) = Inr l"
  by (cases "lay_Digest l = []"; cases "lay_DiffID l = []")
    (simp_all add: Layer_to_json_def jfield_def json_simps omit_def)

lemma CVSSDetails_round [simp]: "CVSSDetails_of_json (CVSSDetails_to_json c) = Inr c"
  by (cases "ScoreV2 c"; cases "ScoreV3 c")
    (simp_all add: CVSSDetails_to_json_def jfield_def json_simps omit_def enc_ptr_def)

lemma details_not_null [simp]: "Layer_to_json l \<noteq> JNull" "CVSSDetails_to_json c \<noteq> JNull"
  by (simp_all add: Layer_to_json_def CVSSDetails_to_json_def)

lemma jfieldU_severity:
  "jget o1 n = (if s \<noteq> 0 then Some (Severity_MarshalJSON s) else None) \<Longrightarrow> valid_severity s \<Longrightarrow>
   jfieldU o1 n 0 Severity_UnmarshalJSON = Inr s"
  by (cases "s = 0") (simp_all add: jfieldU_def Severity_json_round del: Severity_UnmarshalJSON.simps)

lemma jfieldU_severity_always:
  "jget o1 n = Some (Severity_MarshalJSON s) \<Longrightarrow> valid_severity s \<Longrightarrow>
   jfieldU o1 n 0 Severity_UnmarshalJSON = Inr s"
  by (simp add: jfieldU_def Severity_json_round del: Severity_UnmarshalJSON.simps)

lemma jfield_map_omit:
  "jget o1 n = (if a \<noteq> [] then Some (JObj a) else None) \<Longrightarrow> distinct (map fst a) \<Longrightarrow>
   jfield o1 n [] dec_map = Inr a"
  by (cases "a = []") (simp_all add: jfield_def)

lemma jfield_any_omit:
  "jget o1 n = (if v \<noteq> JNull then Some v else None) \<Longrightarrow> jfield o1 n JNull dec_any = Inr v"
  by (cases v) (simp_all add: jfield_def)

lemma VulnerabilityItem_round:
  "wf_item v \<Longrightarrow> VulnerabilityItem_of_json (VulnerabilityItem_to_json v) = Inr v"
proof -
  assume wf: "wf_item v"
  obtain o1 where o1: "VulnerabilityItem_to_json v = JObj o1"
    by (simp add: VulnerabilityItem_to_json_def)
  have g: "jget o1 ''id'' = Some (JStr (vi_ID v))"
    "jget o1 ''package'' = Some (JStr (vi_Pkg v))"
    "jget o1 ''version'' = Some (JStr (vi_Version v))"
    "jget o1 ''status'' = (if vi_Status v \<noteq> [] then Some (JStr (vi_Status v)) else None)"
    "jget o1 ''fix_version'' = (if vi_FixVersion v \<noteq> [] then Some (JStr (vi_FixVersion v)) else None)"
    "jget o1 ''severity'' = Some (Severity_MarshalJSON (vi_Severity v))"
    "jget o1 ''description'' = Some (JStr (vi_Description v))"
    "jget o1 ''links'' = Some (enc_slice JStr (vi_Links v))"
    "jget o1 ''layer'' = Some (enc_ptr Layer_to_json (vi_Layer v))"
    "jget o1 ''preferred_cvss'' = (if vi_PreferredCVSS v \<noteq> None
       then Some (enc_ptr CVSSDetails_to_json (vi_PreferredCVSS v)) else None)"
    "jget o1 ''cwe_ids'' = (if items (vi_CweIDs v) \<noteq> [] then Some (enc_slice JStr (vi_CweIDs v)) else None)"
    "jget o1 ''vendor_attributes'' =
       (if vi_VendorAttributes v \<noteq> [] then Some (JObj (vi_VendorAttributes v)) else None)"
    using o1 by (auto simp: VulnerabilityItem_to_json_def json_simps)
  have "jfield o1 ''layer'' None (dec_ptr Layer_of_json) = Inr (vi_Layer v)"
    by (rule jfield_ptr [OF g(9)]) simp
  moreover have "jfield o1 ''preferred_cvss'' None (dec_ptr CVSSDetails_of_json) = Inr (vi_PreferredCVSS v)"
    by (rule jfield_ptr_omit [OF g(10)]) simp
  moreover have "jfield o1 ''links'' None (dec_slice (dec_elem [] dec_str)) = Inr (vi_Links v)"
    by (rule jfield_slice [OF g(8)]) simp
  moreover have "jfield o1 ''cwe_ids'' None (dec_slice (dec_elem [] dec_str)) = Inr (vi_CweIDs v)"
    using wf by (intro jfield_slice_omit [OF g(11)]) (simp_all add: wf_item_def)
  moreover have "jfieldU o1 ''severity'' 0 Severity_UnmarshalJSON = Inr (vi_Severity v)"
    using wf by (intro jfieldU_severity_always [OF g(6)]) (simp add: wf_item_def)
  moreover have "jfield o1 ''vendor_attributes'' [] dec_map = Inr (vi_VendorAttributes v)"
    using wf by (intro jfield_map_omit [OF g(12)]) (simp add: wf_item_def)
  ultimately show ?thesis
    using jfield_str [OF g(1)] jfield_str [OF g(2)] jfield_str [OF g(3)] jfield_str [OF g(7)]
      jfield_str_omit [OF g(4)] jfield_str_omit [OF g(5)]
    by (simp add: o1 del: Severity_UnmarshalJSON.simps)
qed

lemma item_not_null [simp]: "VulnerabilityItem_to_json v \<noteq> JNull"
  by (simp add: VulnerabilityItem_to_json_def)

context codec_laws begin

lemma ScanReport_round:
  assumes enc: "ScanReport_to_json C r = Inr v" and wf: "wf_report r"
  shows "ScanReport_of_json C v = Inr r"
proof -
  obtain t where t: "time_text C (rep_GeneratedAt r) = Inr t"
    using enc by (auto simp: ScanReport_to_json_def bindR_Inr_iff)
  obtain o1 where o1: "v = JObj o1"
    using enc by (auto simp: ScanReport_to_json_def bindR_Inr_iff)
  have g: "jget o1 ''generated_at'' = Some (JStr t)"
    "jget o1 ''artifact'' = Some (Artifact_to_json (rep_Artifact r))"
    "jget o1 ''scanner'' = Some (Scanner_to_json (rep_Scanner r))"
    "jget o1 ''severity'' = (if rep_Severity r \<noteq> 0 then Some (Severity_MarshalJSON (rep_Severity r)) else None)"
    "jget o1 ''media_type'' = (if rep_MediaType r \<noteq> [] then Some (JStr (rep_MediaType r)) else None)"
    "jget o1 ''sbom'' = (if rep_SBOM r \<noteq> JNull then Some (rep_SBOM r) else None)"
    "jget o1 ''vulnerabilities'' = (if items (rep_Vulnerabilities r) \<noteq> []
       then Some (enc_slice VulnerabilityItem_to_json (rep_Vulnerabilities r)) else None)"
    using enc o1 t by (auto simp: ScanReport_to_json_def json_simps)
  have "jfield o1 ''generated_at'' 0 (dec_time C) = Inr (rep_GeneratedAt r)"
    by (rule jfield_obj [OF g(1)]) (simp_all add: time_round [OF t])
  moreover have "jfield o1 ''artifact'' zero_Artifact Artifact_of_json = Inr (rep_Artifact r)"
    by (rule jfield_obj [OF g(2)]) (simp add: Artifact_to_json_def, simp)
  moreover have "jfield o1 ''scanner'' zero_Scanner Scanner_of_json = Inr (rep_Scanner r)"
    by (rule jfield_obj [OF g(3)]) (simp add: Scanner_to_json_def, simp)
  moreover have "jfieldU o1 ''severity'' 0 Severity_UnmarshalJSON = Inr (rep_Severity r)"
    using wf by (intro jfieldU_severity [OF g(4)]) (simp add: wf_report_def)
  moreover have "jfield o1 ''vulnerabilities'' None
      (dec_slice (dec_elem zero_VulnerabilityItem VulnerabilityItem_of_json)) = Inr (rep_Vulnerabilities r)"
    using wf by (intro jfield_slice_omit [OF g(7)])
      (auto simp: wf_report_def list_all_iff dec_elem_nonnull VulnerabilityItem_round)
  ultimately show ?thesis
    using jfield_str_omit [OF g(5)] jfield_any_omit [OF g(6)]
    by (simp add: o1 del: Severity_UnmarshalJSON.simps)
qed

end

end
