(* ===== verification/Job.thy ===== *)
theory Job
  imports Harbor_Json
begin

text \<open>
  \<^verbatim>\<open>pkg/job/model.go\<close>: the key, the state and the record of a scan job, and the JSON form
  under which the store keeps it.
\<close>

type_synonym ScanJobStatus = int

definition Queued :: ScanJobStatus where "Queued = 0"
definition Pending :: ScanJobStatus where "Pending = 1"
definition Finished :: ScanJobStatus where "Finished = 2"
definition Failed :: ScanJobStatus where "Failed = 3"

lemmas status_defs = Queued_def Pending_def Finished_def Failed_def

definition ScanJobStatus_String :: "ScanJobStatus \<Rightarrow> string" where
  "ScanJobStatus_String s =
     (if s < 0 \<or> s > 3 then ''Unknown''
      else [''Queued'', ''Pending'', ''Finished'', ''Failed''] ! nat s)"

record ScanJobKey =
  key_ID :: string
  key_MIMEType :: MIMEType
  key_MediaType :: MediaType

definition ScanJobKey_String :: "ScanJobKey \<Rightarrow> string" where
  "ScanJobKey_String k =
     (if key_MediaType k \<noteq> []
      then key_ID k @ '':'' @ MIMEType_String (key_MIMEType k) @ '':'' @ key_MediaType k
      else key_ID k @ '':'' @ MIMEType_String (key_MIMEType k))"

record ScanJob =
  FinishedAt :: time
  Attempts :: int
  job_Key :: ScanJobKey
  job_Status :: ScanJobStatus
  job_Error :: string
  job_Report :: ScanReport

definition ScanJob_ID :: "ScanJob \<Rightarrow> string" where
  "ScanJob_ID s = ScanJobKey_String (job_Key s)"

definition zero_ScanJobKey :: ScanJobKey where
  "zero_ScanJobKey = \<lparr>key_ID = [], key_MIMEType = \<lparr>Type = [], Subtype = [], Params = []\<rparr>, key_MediaType = []\<rparr>"

definition zero_ScanJob :: ScanJob where
  "zero_ScanJob =
     \<lparr>FinishedAt = 0, Attempts = 0, job_Key = zero_ScanJobKey, job_Status = Queued, job_Error = [],
      job_Report = zero_Report\<rparr>"

section \<open>JSON\<close>

definition ScanJobKey_to_json :: "ScanJobKey \<Rightarrow> json" where
  "ScanJobKey_to_json k =
     JObj [(''id'', JStr (key_ID k)), (''mime_type'', MIMEType_to_json (key_MIMEType k)),
           (''media_type'', JStr (key_MediaType k))]"

fun ScanJobKey_of_json :: "json \<Rightarrow> string + ScanJobKey" where
  "ScanJobKey_of_json (JObj o1) =
     bindR (jfield o1 ''id'' [] dec_str) (\<lambda>i.
     bindR (jfieldU o1 ''mime_type'' (key_MIMEType zero_ScanJobKey) MIMEType_of_json) (\<lambda>m.
     bindR (jfield o1 ''media_type'' [] dec_str) (\<lambda>t.
     Inr \<lparr>key_ID = i, key_MIMEType = m, key_MediaType = t\<rparr>)))"
| "ScanJobKey_of_json _ = Inl ''json: cannot unmarshal value into Go struct ScanJobKey''"

definition ScanJob_to_json :: "codec \<Rightarrow> ScanJob \<Rightarrow> string + json" where
  "ScanJob_to_json C j =
     bindR (if FinishedAt j = 0 then Inr [] else time_text C (FinishedAt j)) (\<lambda>t.
     bindR (ScanReport_to_json C (job_Report j)) (\<lambda>r.
     Inr (JObj (omit (FinishedAt j = 0) ''finished_at'' (JStr t)
           @ omit (Attempts j = 0) ''attempts'' (JNum (dec_of_int (Attempts j)))
           @ [(''key'', ScanJobKey_to_json (job_Key j)),
              (''status'', JNum (dec_of_int (job_Status j))),
              (''error'', JStr (job_Error j)),
              (''report'', r)]))))"

fun ScanJob_of_json :: "codec \<Rightarrow> json \<Rightarrow> string + ScanJob" where
  "ScanJob_of_json C (JObj o1) =
     bindR (jfield o1 ''finished_at'' 0 (dec_time C)) (\<lambda>t.
     bindR (jfield o1 ''attempts'' 0 dec_int) (\<lambda>a.
     bindR (jfield o1 ''key'' zero_ScanJobKey ScanJobKey_of_json) (\<lambda>k.
     bindR (jfield o1 ''status'' 0 dec_int) (\<lambda>s.
     bindR (jfield o1 ''error'' [] dec_str) (\<lambda>e.
     bindR (jfield o1 ''report'' zero_Report (ScanReport_of_json C)) (\<lambda>r.
     Inr \<lparr>FinishedAt = t, Attempts = a, job_Key = k, job_Status = s, job_Error = e,
          job_Report = r\<rparr>))))))"
| "ScanJob_of_json C JNull = Inr zero_ScanJob"
| "ScanJob_of_json C _ = Inl ''json: cannot unmarshal value into Go struct ScanJob''"

definition wf_key :: "ScanJobKey \<Rightarrow> bool" where
  "wf_key k \<longleftrightarrow> supported_mime (key_MIMEType k)"

definition int64 :: "int \<Rightarrow> bool" where
  "int64 i \<longleftrightarrow> - (2 ^ 63) \<le> i \<and> i < 2 ^ 63"

definition wf_job :: "ScanJob \<Rightarrow> bool" where
  "wf_job j \<longleftrightarrow> wf_key (job_Key j) \<and> int64 (Attempts j) \<and> int64 (job_Status j) \<and> wf_report (job_Report j)"

lemma key_not_null [simp]: "ScanJobKey_to_json k \<noteq> JNull"
  by (simp add: ScanJobKey_to_json_def)

lemma jget_singles [simp]:
  "jget [(k, v)] n = (if ToLower k = ToLower n then Some v else None)"
  by (simp add: jget_Cons)

lemma ScanJobKey_json_round: "wf_key k \<Longrightarrow> ScanJobKey_of_json (ScanJobKey_to_json k) = Inr k"
  by (simp add: ScanJobKey_to_json_def jfield_def jfieldU_def json_simps wf_key_def MIMEType_json_round)

lemma jfield_int_omit:
  "jget o1 n = (if i \<noteq> 0 then Some (JNum (dec_of_int i)) else None) \<Longrightarrow> int64 i \<Longrightarrow>
   jfield o1 n 0 dec_int = Inr i"
  by (cases "i = 0") (simp_all add: jfield_def int64_def dec_int_enc del: dec_int.simps)

lemma ScanReport_not_null: "ScanReport_to_json C r = Inr v \<Longrightarrow> v \<noteq> JNull"
  by (auto simp: ScanReport_to_json_def bindR_Inr_iff)

lemma zero_report_json_wf: "wf_report zero_Report"
  by (simp add: wf_report_def zero_Report_def valid_severity_def)

context codec_laws begin

lemma ScanJob_json_round:
  assumes enc: "ScanJob_to_json C j = Inr v" and wf: "wf_job j"
  shows "ScanJob_of_json C v = Inr j"
proof -
  obtain t where t: "(if FinishedAt j = 0 then Inr [] else time_text C (FinishedAt j)) = Inr t"
    using enc by (auto simp: ScanJob_to_json_def bindR_Inr_iff)
  obtain r where r: "ScanReport_to_json C (job_Report j) = Inr r"
    using enc by (auto simp: ScanJob_to_json_def bindR_Inr_iff)
  obtain o1 where o1: "v = JObj o1"
    using enc by (auto simp: ScanJob_to_json_def bindR_Inr_iff)
  have g: "jget o1 ''finished_at'' = (if FinishedAt j \<noteq> 0 then Some (JStr t) else None)"
    "jget o1 ''attempts'' = (if Attempts j \<noteq> 0 then Some (JNum (dec_of_int (Attempts j))) else None)"
    "jget o1 ''key'' = Some (ScanJobKey_to_json (job_Key j))"
    "jget o1 ''status'' = Some (JNum (dec_of_int (job_Status j)))"
    "jget o1 ''error'' = Some (JStr (job_Error j))"
    "jget o1 ''report'' = Some r"
    using enc t r o1 by (auto simp: ScanJob_to_json_def json_simps split: if_splits)
  have "jfield o1 ''finished_at'' 0 (dec_time C) = Inr (FinishedAt j)"
    using t by (cases "FinishedAt j = 0") (simp_all add: jfield_def g(1) time_round)
  moreover have "jfield o1 ''attempts'' 0 dec_int = Inr (Attempts j)"
    using wf by (intro jfield_int_omit [OF g(2)]) (simp add: wf_job_def)
  moreover have "jfield o1 ''key'' zero_ScanJobKey ScanJobKey_of_json = Inr (job_Key j)"
    using wf by (intro jfield_obj [OF g(3)]) (simp_all add: wf_job_def ScanJobKey_json_round)
  moreover have "jfield o1 ''status'' 0 dec_int = Inr (job_Status j)"
    using wf by (intro jfield_obj [OF g(4)]) (simp_all add: wf_job_def int64_def dec_int_enc del: dec_int.simps)
  moreover have "jfield o1 ''report'' zero_Report (ScanReport_of_json C) = Inr (job_Report j)"
    using wf by (intro jfield_obj [OF g(6) ScanReport_not_null [OF r]] ScanReport_round [OF r])
      (simp add: wf_job_def)
  ultimately show ?thesis
    by (simp add: o1 jfield_str [OF g(5)])
qed

end

section \<open>Keys\<close>

text \<open>The identifier of a job has no colon: it is a hexadecimal number.\<close>

lemma append_sep_inj: "c \<notin> set a \<Longrightarrow> c \<notin> set b \<Longrightarrow> a @ c # s = b @ c # t \<longleftrightarrow> a = b \<and> s = t"
  by (induction a arbitrary: b) (case_tac b; auto)+

lemma append_sep_neq: "c \<notin> set a \<Longrightarrow> b @ c # s \<noteq> a" "c \<notin> set a \<Longrightarrow> a \<noteq> b @ c # s"
  by auto

lemma ScanJobKey_String_inj:
  assumes "CHR '':'' \<notin> set (key_ID k)" "CHR '':'' \<notin> set (key_ID k')" "wf_key k" "wf_key k'"
    and eq: "ScanJobKey_String k = ScanJobKey_String k'"
  shows "k = k'"
proof -
  let ?tail = "\<lambda>k. MIMEType_String (key_MIMEType k)
      @ (if key_MediaType k \<noteq> [] then '':'' @ key_MediaType k else [])"
  have "ScanJobKey_String k = key_ID k @ CHR '':'' # ?tail k" for k
    by (simp add: ScanJobKey_String_def)
  then have id: "key_ID k = key_ID k'" and tail: "?tail k = ?tail k'"
    using eq append_sep_inj [OF assms(1,2), of "?tail k" "?tail k'"] by auto
  have nc: "CHR '':'' \<notin> set (MIMEType_String (key_MIMEType k))"
    "CHR '':'' \<notin> set (MIMEType_String (key_MIMEType k'))"
    using assms(3,4) by (auto simp: wf_key_def MIMEType_String_no_colon)
  have "MIMEType_String (key_MIMEType k) = MIMEType_String (key_MIMEType k') \<and>
      key_MediaType k = key_MediaType k'"
    using tail nc append_sep_inj [OF nc, of "key_MediaType k" "key_MediaType k'"]
    by (auto split: if_splits simp: append_sep_neq)
  then have "key_MIMEType k = key_MIMEType k'" "key_MediaType k = key_MediaType k'"
    using assms(3,4) MIMEType_String_inj by (auto simp: wf_key_def)
  with id show ?thesis by simp
qed

end
