(* ===== verification/Errors.thy ===== *)
theory Errors
  imports Job
begin

text \<open>
  The errors the operations return: the program's own types (\<^verbatim>\<open>trivy.ScanError\<close>,
  \<^verbatim>\<open>scan.persistenceError\<close>, \<^verbatim>\<open>redis.missingJobError\<close>, \<^verbatim>\<open>trivy.redactedError\<close>) and the
  library errors it looks for with \<^verbatim>\<open>errors.Is\<close> and \<^verbatim>\<open>errors.As\<close>; and the classification
  of \<^verbatim>\<open>pkg/trivy/errors.go\<close>.
\<close>

section \<open>Error values\<close>

text \<open>
  \<open>Wrap\<close> is \<^verbatim>\<open>Errorf("p: %w", err)\<close>; an \<^verbatim>\<open>Errorf\<close> with \<^verbatim>\<open>%v\<close> is an \<open>ErrText\<close> of the
  formatted text. A \<open>RegistryError\<close> is the registry client's \<^verbatim>\<open>transport.Error\<close>: status, path
  of the request if it is known, and text. \<open>Joined\<close> is any library error that unwraps to
  several.
\<close>

datatype goerr =
    ErrText string
  | Wrap string goerr
  | MissingJobError ScanJobKey
  | PersistenceError goerr
  | ScanError (Retryable: bool) (Category: string) (ImageRef: string) (Detail: string) (Cause: "goerr option")
  | RedactedError goerr string
  | RegistryError int "string option" string
  | Errno nat
  | Canceled
  | DeadlineExceeded
  | Joined "goerr list"

text \<open>A call may return, fail, or panic with a message.\<close>

datatype 'a outcome_of = Returned 'a | Err goerr | Panic string

definition ENOSPC :: nat where "ENOSPC = 28"
definition EIO :: nat where "EIO = 5"

fun Error_text :: "goerr \<Rightarrow> string" where
  "Error_text (ErrText t) = t"
| "Error_text (Wrap p e) = p @ '': '' @ Error_text e"
| "Error_text (MissingJobError k) = ''scan job ('' @ ScanJobKey_String k @ '') not found''"
| "Error_text (PersistenceError e) = Error_text e"
| "Error_text (ScanError r c i d x) =
     (case x of
        None \<Rightarrow> ''['' @ c @ ''] '' @ d
      | Some e \<Rightarrow> ''['' @ c @ ''] '' @ d @ '': '' @ Error_text e)"
| "Error_text (RedactedError e m) = m"
| "Error_text (RegistryError s p t) = t"
| "Error_text (Errno n) =
     (if n = ENOSPC then ''no space left on device''
      else if n = EIO then ''input/output error'' else ''errno '' @ dec_of_nat n)"
| "Error_text Canceled = ''context canceled''"
| "Error_text DeadlineExceeded = ''context deadline exceeded''"
| "Error_text (Joined es) = Join (map Error_text es) [CHR 0x0A]"

text \<open>What \<^verbatim>\<open>Unwrap\<close> gives, and the errors \<^verbatim>\<open>errors.As\<close> visits, in its order.\<close>

fun Unwrap :: "goerr \<Rightarrow> goerr option" where
  "Unwrap (Wrap p e) = Some e"
| "Unwrap (PersistenceError e) = Some e"
| "Unwrap (ScanError r c i d x) = x"
| "Unwrap (RedactedError e m) = Some e"
| "Unwrap _ = None"

fun err_chain :: "goerr \<Rightarrow> goerr list" where
  "err_chain (Wrap p e) = Wrap p e # err_chain e"
| "err_chain (PersistenceError e) = PersistenceError e # err_chain e"
| "err_chain (ScanError r c i d x) =
     ScanError r c i d x # (case x of None \<Rightarrow> [] | Some e \<Rightarrow> err_chain e)"
| "err_chain (RedactedError e m) = RedactedError e m # err_chain e"
| "err_chain (Joined es) = Joined es # concat (map err_chain es)"
| "err_chain e = [e]"

definition errors_Is :: "goerr \<Rightarrow> goerr \<Rightarrow> bool" where
  "errors_Is e target \<longleftrightarrow> target \<in> set (err_chain e)"

fun is_missing :: "goerr \<Rightarrow> bool" where
  "is_missing (MissingJobError k) = True"
| "is_missing _ = False"

fun is_persistence :: "goerr \<Rightarrow> bool" where
  "is_persistence (PersistenceError e) = True"
| "is_persistence _ = False"

definition As_missing :: "goerr \<Rightarrow> bool" where
  "As_missing e \<longleftrightarrow> list_ex is_missing (err_chain e)"

definition As_persistence :: "goerr \<Rightarrow> bool" where
  "As_persistence e \<longleftrightarrow> list_ex is_persistence (err_chain e)"

definition As_ScanError :: "goerr \<Rightarrow> goerr option" where
  "As_ScanError e = find is_ScanError (err_chain e)"

definition As_RegistryError :: "goerr \<Rightarrow> (int \<times> string option) option" where
  "As_RegistryError e =
     (case find is_RegistryError (err_chain e) of
        Some (RegistryError s p t) \<Rightarrow> Some (s, p)
      | _ \<Rightarrow> None)"

text \<open>\<^verbatim>\<open>missingJob\<close> of the store.\<close>

definition missingJob :: "ScanJobKey \<Rightarrow> goerr" where
  "missingJob key = MissingJobError key"

section \<open>Categories\<close>

type_synonym ScanErrorCategory = string

definition ErrCategoryImageFetch :: ScanErrorCategory where "ErrCategoryImageFetch = ''image_fetch''"
definition ErrCategoryManifest :: ScanErrorCategory where "ErrCategoryManifest = ''manifest''"
definition ErrCategoryAuth :: ScanErrorCategory where "ErrCategoryAuth = ''auth''"
definition ErrCategoryUnscannable :: ScanErrorCategory where "ErrCategoryUnscannable = ''unscannable_layer''"
definition ErrCategoryTrivyExec :: ScanErrorCategory where "ErrCategoryTrivyExec = ''trivy_execution''"
definition ErrCategoryNetwork :: ScanErrorCategory where "ErrCategoryNetwork = ''network''"
definition ErrCategoryTimeout :: ScanErrorCategory where "ErrCategoryTimeout = ''timeout''"
definition ErrCategoryReportParse :: ScanErrorCategory where "ErrCategoryReportParse = ''report_parse''"
definition ErrCategoryCache :: ScanErrorCategory where "ErrCategoryCache = ''cache''"
definition ErrCategoryRateLimit :: ScanErrorCategory where "ErrCategoryRateLimit = ''rate_limit''"
definition ErrCategoryDBDownload :: ScanErrorCategory where "ErrCategoryDBDownload = ''db_download''"
definition ErrCategoryDBSchema :: ScanErrorCategory where "ErrCategoryDBSchema = ''db_schema''"
definition ErrCategoryUnsupportedArtifact :: ScanErrorCategory where
  "ErrCategoryUnsupportedArtifact = ''unsupported_artifact''"
definition ErrCategoryArtifactNotFound :: ScanErrorCategory where
  "ErrCategoryArtifactNotFound = ''artifact_not_found''"

lemmas category_defs = ErrCategoryImageFetch_def ErrCategoryManifest_def ErrCategoryAuth_def
  ErrCategoryUnscannable_def ErrCategoryTrivyExec_def ErrCategoryNetwork_def ErrCategoryTimeout_def
  ErrCategoryReportParse_def ErrCategoryCache_def ErrCategoryRateLimit_def ErrCategoryDBDownload_def
  ErrCategoryDBSchema_def ErrCategoryUnsupportedArtifact_def ErrCategoryArtifactNotFound_def

definition retryable :: "ScanErrorCategory \<Rightarrow> bool" where
  "retryable category \<longleftrightarrow>
     category \<notin> {ErrCategoryAuth, ErrCategoryUnscannable, ErrCategoryDBSchema,
       ErrCategoryUnsupportedArtifact, ErrCategoryArtifactNotFound}"

section \<open>Messages\<close>

definition tokenPunctuation :: string where
  "tokenPunctuation = [CHR 0x22, CHR 0x27] @ '':;,()[]''"

definition auth_word :: "string list \<Rightarrow> nat \<Rightarrow> bool" where
  "auth_word words i =
     (let token = (\<lambda>i. Trim (words ! i) tokenPunctuation); word = token i; n = length words in
      (word = ''401'' \<or> word = ''403'') \<and>
        (i + 1 < n \<and> (word = ''401'' \<and> token (i + 1) = ''unauthorized''
                      \<or> word = ''403'' \<and> token (i + 1) = ''forbidden'')
         \<or> i > 0 \<and> (token (i - 1) = ''status''
                     \<or> token (i - 1) = ''code'' \<and> i > 1 \<and> token (i - 2) = ''status''))
      \<or> (word = ''unauthorized'' \<or> word = ''forbidden'')
        \<and> (i = 0 \<or> HasSuffix (words ! (i - 1)) '':'')
        \<and> (HasSuffix (words ! i) '':'' \<or> i + 1 = n))"

definition isAuthenticationErrorMessage :: "string \<Rightarrow> bool" where
  "isAuthenticationErrorMessage message =
     (let words = Fields (ToLower message) in list_ex (auth_word words) [0..<length words])"

definition isArtifactNotFoundMessage :: "string \<Rightarrow> bool" where
  "isArtifactNotFoundMessage message =
     list_ex (\<lambda>word. word = ''not_found:'' \<or> word = ''manifest_unknown:'' \<or> word = ''name_unknown:'')
       (Fields (ToLower message))"

lemma isAuth_lower [simp]:
  "isAuthenticationErrorMessage (ToLower m) = isAuthenticationErrorMessage m"
  by (simp add: isAuthenticationErrorMessage_def)

lemma isArtifactNotFound_lower [simp]:
  "isArtifactNotFoundMessage (ToLower m) = isArtifactNotFoundMessage m"
  by (simp add: isArtifactNotFoundMessage_def)

section \<open>Registry errors\<close>

text \<open>\<^verbatim>\<open>classifyRemoteError\<close> of \<^verbatim>\<open>pkg/trivy/target.go\<close>.\<close>

definition classifyRemoteError :: "goerr \<Rightarrow> ScanErrorCategory" where
  "classifyRemoteError err =
     (let msg = ToLower (Error_text err);
          general = (\<lambda>authFailure notFound.
            if notFound then ErrCategoryArtifactNotFound
            else if authFailure then ErrCategoryAuth
            else if Contains msg ''connection refused'' \<or> Contains msg ''no such host'' \<or> Contains msg ''dial tcp''
            then ErrCategoryNetwork
            else if Contains msg ''timeout'' \<or> Contains msg ''deadline exceeded'' then ErrCategoryTimeout
            else ErrCategoryImageFetch)
      in case As_RegistryError err of
           None \<Rightarrow> general (isAuthenticationErrorMessage msg) (isArtifactNotFoundMessage msg)
         | Some (statusCode, path) \<Rightarrow>
             if statusCode = 429 then ErrCategoryRateLimit
             else general (statusCode = 401 \<or> statusCode = 403)
               (if statusCode = 404
                then (case path of None \<Rightarrow> True | Some p \<Rightarrow> Contains p ''/manifests/'')
                else isArtifactNotFoundMessage msg))"

lemma err_chain_self: "\<exists>es. err_chain e = e # es"
  by (cases e) auto

lemma As_persistence_simps [simp]:
  "As_persistence (PersistenceError e)" "As_persistence (Wrap p e) = As_persistence e"
  "As_persistence (RedactedError e m) = As_persistence e"
  "\<not> As_persistence (ErrText t)" "\<not> As_persistence (MissingJobError k)"
  by (simp_all add: As_persistence_def)

lemma As_missing_simps [simp]:
  "As_missing (MissingJobError k)" "As_missing (Wrap p e) = As_missing e" "\<not> As_missing (ErrText t)"
  "As_missing (PersistenceError e) = As_missing e"
  by (simp_all add: As_missing_def)

lemma As_ScanError_simps [simp]:
  "As_ScanError (ScanError r c i d x) = Some (ScanError r c i d x)"
  "As_ScanError (Wrap p e) = As_ScanError e" "As_ScanError (PersistenceError e) = As_ScanError e"
  "As_ScanError (ErrText t) = None"
  by (simp_all add: As_ScanError_def)

lemma As_ScanError_is: "As_ScanError e = Some s \<Longrightarrow> is_ScanError s"
  by (auto simp: As_ScanError_def find_Some_iff)

end
