(* ===== verification/Metrics.thy ===== *)
theory Metrics
  imports Errors "HOL-Library.Word"
begin

text \<open>
  \<^verbatim>\<open>pkg/metrics/recorder.go\<close> and \<^verbatim>\<open>process.go\<close>: the metric catalog, the normalization of
  labels, the recorder and its cache of the engine's version.

  The Prometheus registry is a sink: a \<open>Recorder\<close> keeps the sequence of writes it received.
  Go panics when a metric is used with the wrong kind or number of labels; here that sets
  \<open>panicked\<close>, and the lemma \<open>record_ok\<close> shows when it stays unset.
\<close>

section \<open>The catalog\<close>

definition label_values :: "(string \<times> string list) list" where
  "label_values =
     [(''backend'', [''filesystem'', ''redis'', ''memory'', ''unknown'', ''other'']),
      (''capability'', [''vulnerability'', ''sbom'', ''other'']),
      (''format'', [''json'', ''spdx-json'', ''cyclonedx'', ''other'']),
      (''outcome'', [''success'', ''failed'', ''error'', ''not_found'', ''not_applied'',
        ''other'']),
      (''command'', [''image'', ''sbom'', ''version'', ''other'']),
      (''stage'', [''status'', ''target'', ''auth'', ''scan'', ''transform'', ''report'',
        ''internal'', ''other'']),
      (''category'', [''image_fetch'', ''manifest'', ''auth'', ''unscannable_layer'',
        ''trivy_execution'', ''network'', ''timeout'', ''report_parse'', ''storage_full'',
        ''storage_io'', ''persistence'', ''cache'', ''rate_limit'', ''db_download'',
        ''db_schema'', ''unsupported_artifact'', ''artifact_not_found'', ''internal'',
        ''unknown'', ''other'']),
      (''encoding'', [''raw'', ''compressed'', ''other'']),
      (''record'', [''job'', ''report'', ''other'']),
      (''operation'', [''enqueue'', ''status'', ''read'', ''report'', ''acknowledge'',
        ''other'']),
      (''database'', [''vulnerability'', ''java'', ''other'']),
      (''kind'', [''analysis'', ''vulnerability_db'', ''java_db'', ''tmp_trivy'', ''other'']),
      (''area'', [''cache'', ''reports'', ''tmp'', ''other'']),
      (''collector'', [''cache_size'', ''cache_filesystem'', ''reports_filesystem'',
        ''tmp_filesystem'', ''other'']),
      (''event'', [''lookup_hit'', ''lookup_miss'', ''lookup_error'', ''reuse_success'',
        ''fallback'', ''other'']),
      (''reason'', [''success'', ''nonzero_exit'', ''signal'', ''timeout'', ''canceled'',
        ''start_error'', ''other'']),
      (''result'', [''lock_acquired'', ''lock_busy'', ''lock_error'', ''decode_error'', ''ok'',
        ''pending'', ''failed'', ''not_found'', ''error'', ''invalid_request'', ''not_applied'',
        ''success'', ''other'']),
      (''method'', [''GET'', ''POST'', ''PUT'', ''PATCH'', ''DELETE'', ''HEAD'', ''OPTIONS'',
        ''other'']),
      (''route'', [''/api/v1/scan'', ''/api/v1/scan/{scan_request_id}/report'',
        ''/api/v1/metadata'', ''unmatched'', ''other'']),
      (''query'', [''quarantine'', ''length'', ''oldest'', ''group'', ''other'']),
      (''check'', [''queue'', ''worker'', ''binary'', ''other'']),
      (''subprocess_exit_code_total.code'', [''0'', ''1'', ''2'', ''137'', ''143'', ''other''])]"

datatype kind = Counter | Gauge | Histogram

definition catalog :: "(string \<times> kind \<times> string list) list" where
  "catalog =
     [(''scan_retries_total'', Counter, []),
      (''lease_losses_total'', Counter, []),
      (''queue_unacknowledged_jobs'', Gauge, []),
      (''queue_quarantined_jobs'', Gauge, []),
      (''queue_collection_success'', Gauge, []),
      (''queue_collection_errors_total'', Counter, [''query'']),
      (''queue_group_recreated_total'', Counter, []),
      (''queue_collection_last_success_timestamp_seconds'', Gauge, []),
      (''queue_oldest_age_seconds'', Gauge, []),
      (''build_info'', Gauge, [''adapter_version'', ''trivy_version'']),
      (''http_requests_total'', Counter, [''route'', ''method'', ''code'']),
      (''http_request_duration_seconds'', Histogram, [''route'', ''method'']),
      (''jobs_enqueued_total'', Counter, [''capability'', ''format'']),
      (''job_dispatch_total'', Counter, [''result'']),
      (''publish_no_subscribers_total'', Counter, []),
      (''job_attempts_total'', Counter, [''capability'', ''format'', ''outcome'']),
      (''job_failures_total'', Counter, [''stage'', ''category'']),
      (''job_duration_seconds'', Histogram, [''capability'', ''outcome'']),
      (''queue_wait_duration_seconds'', Histogram, [''capability'']),
      (''jobs_in_progress'', Gauge, []),
      (''worker_concurrency'', Gauge, []),
      (''ready'', Gauge, [''check'']),
      (''last_scan_success_timestamp_seconds'', Gauge, []),
      (''scan_timeout_seconds'', Gauge, []),
      (''subprocess_duration_seconds'', Histogram, [''command'', ''outcome'']),
      (''subprocess_exits_total'', Counter, [''command'', ''reason'']),
      (''subprocess_exit_code_total'', Counter, [''command'', ''code'']),
      (''subprocess_max_rss_bytes'', Histogram, [''command'']),
      (''sbom_accessory_events_total'', Counter, [''event'']),
      (''report_size_bytes'', Histogram, [''capability'', ''format'', ''encoding'']),
      (''store_bytes_written_total'', Counter, [''record'', ''encoding'']),
      (''store_operations_total'', Counter, [''operation'', ''outcome'']),
      (''store_operation_duration_seconds'', Histogram, [''operation'']),
      (''report_fetch_total'', Counter, [''result'']),
      (''report_fetch_age_seconds'', Histogram, [''capability'', ''format'']),
      (''scan_job_ttl_seconds'', Gauge, []),
      (''db_present'', Gauge, [''database'']),
      (''db_updated_timestamp_seconds'', Gauge, [''database'']),
      (''db_next_update_timestamp_seconds'', Gauge, [''database'']),
      (''db_downloaded_timestamp_seconds'', Gauge, [''database'']),
      (''db_updates_enabled'', Gauge, [''database'']),
      (''db_schema_version'', Gauge, [''database'']),
      (''analysis_cache_backend_info'', Gauge, [''backend'']),
      (''metadata_collection_success'', Gauge, []),
      (''metadata_last_success_timestamp_seconds'', Gauge, []),
      (''cache_size_bytes'', Gauge, [''kind'']),
      (''storage_capacity_bytes'', Gauge, [''area'']),
      (''storage_available_bytes'', Gauge, [''area'']),
      (''storage_inodes_available'', Gauge, [''area'']),
      (''storage_collection_success'', Gauge, [''collector'']),
      (''storage_collection_duration_seconds'', Histogram, [''collector'']),
      (''storage_last_success_timestamp_seconds'', Gauge, [''collector'']),
      (''temp_dirs_reaped_total'', Counter, []),
      (''temp_dirs_present'', Gauge, [])]"

section \<open>Labels\<close>

definition validCode :: "string \<Rightarrow> bool" where
  "validCode s \<longleftrightarrow>
     (case s of
        [a, b, c] \<Rightarrow> a \<in> set ''12345'' \<and> b \<in> set ''0123456789'' \<and> c \<in> set ''0123456789''
      | _ \<Rightarrow> False)"

text \<open>The allowed values of a label of a metric: the entry qualified by the metric wins.\<close>

definition allowed_values :: "string \<Rightarrow> string \<Rightarrow> string list option" where
  "allowed_values name label =
     (case map_of label_values (name @ ''.'' @ label) of
        Some vs \<Rightarrow> Some vs
      | None \<Rightarrow> map_of label_values label)"

definition normalize_label :: "string \<Rightarrow> string \<Rightarrow> string \<Rightarrow> string" where
  "normalize_label name label v =
     (case allowed_values name label of
        Some allowed \<Rightarrow> if v \<in> set allowed then v else ''other''
      | None \<Rightarrow> if label = ''code'' \<and> \<not> validCode v then ''other'' else v)"

text \<open>\<^verbatim>\<open>normalize\<close>: \<open>None\<close> is the panic on a wrong number of labels.\<close>

definition normalize :: "string \<Rightarrow> string list \<Rightarrow> string list option" where
  "normalize name labels =
     (let ls = (case map_of catalog name of None \<Rightarrow> [] | Some (k, ls) \<Rightarrow> ls) in
      if length labels \<noteq> length ls then None
      else Some (map2 (normalize_label name) ls labels))"

definition JobLabels :: "ScanJobKey \<Rightarrow> string \<times> string" where
  "JobLabels key =
     (if MIMEType_Equal (key_MIMEType key) MimeTypeSecurityVulnerabilityReport
      then (''vulnerability'', ''json'')
      else if MIMEType_Equal (key_MIMEType key) MimeTypeSecuritySBOMReport
      then (if key_MediaType key = MediaTypeSPDX then (''sbom'', ''spdx-json'')
            else if key_MediaType key = MediaTypeCycloneDX then (''sbom'', ''cyclonedx'')
            else (''sbom'', ''other''))
      else (''other'', ''other''))"

section \<open>The recorder\<close>

text \<open>A written value: a number, or a duration that is written in seconds.\<close>

datatype mvalue = Num int | Secs int

datatype metric_op = OpAdd | OpSet | OpDelete | OpObserve

type_synonym sample = "metric_op \<times> string \<times> string list \<times> mvalue"

record Recorder =
  registry :: "sample list"
  running :: "(nat \<times> time) list"
  next_run :: nat
  ver_output :: string
  ver_at :: time
  ver_ttl :: int
  ver_generation :: "64 word"
  panicked :: bool

fun op_kind :: "metric_op \<Rightarrow> kind" where
  "op_kind OpAdd = Counter"
| "op_kind OpSet = Gauge"
| "op_kind OpDelete = Gauge"
| "op_kind OpObserve = Histogram"

definition record_op :: "metric_op \<Rightarrow> string \<Rightarrow> mvalue \<Rightarrow> string list \<Rightarrow> Recorder \<Rightarrow> Recorder" where
  "record_op mop name v labels r =
     (case normalize name labels of
        None \<Rightarrow> r\<lparr>panicked := True\<rparr>
      | Some ls \<Rightarrow>
          if map_option fst (map_of catalog name) = Some (op_kind mop)
          then r\<lparr>registry := registry r @ [(mop, name, ls, v)]\<rparr>
          else r\<lparr>panicked := True\<rparr>)"

definition Add :: "string \<Rightarrow> mvalue \<Rightarrow> string list \<Rightarrow> Recorder \<Rightarrow> Recorder" where
  "Add name n labels = record_op OpAdd name n labels"

definition Inc :: "string \<Rightarrow> string list \<Rightarrow> Recorder \<Rightarrow> Recorder" where
  "Inc name labels = Add name (Num 1) labels"

definition SetTo :: "string \<Rightarrow> mvalue \<Rightarrow> string list \<Rightarrow> Recorder \<Rightarrow> Recorder" where
  "SetTo name n labels = record_op OpSet name n labels"

definition Delete :: "string \<Rightarrow> string list \<Rightarrow> Recorder \<Rightarrow> Recorder" where
  "Delete name labels = record_op OpDelete name (Num 0) labels"

definition Observe :: "string \<Rightarrow> mvalue \<Rightarrow> string list \<Rightarrow> Recorder \<Rightarrow> Recorder" where
  "Observe name n labels = record_op OpObserve name n labels"

lemmas recorder_ops = Add_def Inc_def SetTo_def Delete_def Observe_def

definition empty_recorder :: Recorder where
  "empty_recorder =
     \<lparr>registry = [], running = [], next_run = 0, ver_output = [], ver_at = 0, ver_ttl = 0,
      ver_generation = 0, panicked = False\<rparr>"

text \<open>\<^verbatim>\<open>New\<close>: the series that exist from the start, at zero.\<close>

definition initial_series :: "(string \<times> string list) list" where
  "initial_series =
     concat (map (\<lambda>c. concat (map (\<lambda>f. (''jobs_enqueued_total'', [c, f])
        # map (\<lambda>x. (''job_attempts_total'', [c, f, x])) [''success'', ''failed''])
        [''json'', ''spdx-json'', ''cyclonedx''])) [''vulnerability'', ''sbom''])
     @ map (\<lambda>x. (''report_fetch_total'', [x])) [''ok'', ''pending'', ''failed'', ''not_found'', ''error'', ''invalid_request'']
     @ map (\<lambda>x. (''job_dispatch_total'', [x])) [''lock_acquired'', ''lock_busy'', ''lock_error'', ''decode_error'', ''not_found'']
     @ map (\<lambda>x. (''queue_collection_errors_total'', [x])) [''quarantine'', ''length'', ''oldest'', ''group'']
     @ map (\<lambda>x. (''sbom_accessory_events_total'', [x]))
         (filter (\<lambda>x. x \<noteq> ''other'') (the (map_of label_values ''event'')))
     @ concat (map (\<lambda>c. map (\<lambda>x. (''store_bytes_written_total'', [c, x])) [''raw'', ''compressed'']) [''job'', ''report''])
     @ concat (map (\<lambda>c. map (\<lambda>x. (''store_operations_total'', [c, x])) [''success'', ''error'', ''not_found'', ''not_applied''])
         (filter (\<lambda>x. x \<noteq> ''other'') (the (map_of label_values ''operation''))))"

definition NewRecorder :: "bool \<Rightarrow> Recorder option" where
  "NewRecorder enabled =
     (if \<not> enabled then None
      else Some (fold (\<lambda>(n, ls). Add n (Num 0) ls) initial_series
             (SetTo ''jobs_in_progress'' (Num 0) [] empty_recorder)))"

section \<open>Executions\<close>

text \<open>\<^verbatim>\<open>BeginExecution\<close> returns the finish function; here its closure is the handle of the run.\<close>

definition BeginExecution :: "time \<Rightarrow> Recorder \<Rightarrow> nat \<times> Recorder" where
  "BeginExecution now r =
     (let i = next_run r; run = running r @ [(i, now)] in
      (i, SetTo ''jobs_in_progress'' (Num (int (length run))) [] (r\<lparr>running := run, next_run := i + 1\<rparr>)))"

definition Unix :: "time \<Rightarrow> int" where
  "Unix t = t div 10 ^ 9 - 62135596800"

definition FinishExecution ::
    "ScanJobKey \<Rightarrow> nat \<Rightarrow> time \<Rightarrow> bool \<Rightarrow> string \<Rightarrow> string \<Rightarrow> time \<Rightarrow> Recorder \<Rightarrow> Recorder" where
  "FinishExecution key i started success stage category now r =
     (let run = filter (\<lambda>(j, t). j \<noteq> i) (running r);
          (capability, format) = JobLabels key;
          r = SetTo ''jobs_in_progress'' (Num (int (length run))) [] (r\<lparr>running := run\<rparr>);
          outcome = (if success then ''success'' else ''failed'');
          r = (if success then SetTo ''last_scan_success_timestamp_seconds'' (Num (Unix now)) [] r
               else Inc ''job_failures_total'' [stage, category] r);
          r = Inc ''job_attempts_total'' [capability, format, outcome] r
      in Observe ''job_duration_seconds'' (Secs (now - started)) [capability, outcome] r)"

text \<open>\<^verbatim>\<open>oldest\<close>: the age of the longest running execution.\<close>

definition oldest :: "time \<Rightarrow> Recorder \<Rightarrow> int" where
  "oldest now r = fold (\<lambda>(i, started) age. max age (now - started)) (running r) 0"

section \<open>The cached version\<close>

definition cacheVersion :: "string \<Rightarrow> time \<Rightarrow> Recorder \<Rightarrow> Recorder" where
  "cacheVersion out now r = r\<lparr>ver_output := out, ver_at := now, ver_generation := ver_generation r + 1\<rparr>"

definition InvalidateVersion :: "Recorder \<Rightarrow> Recorder" where
  "InvalidateVersion r = r\<lparr>ver_output := [], ver_at := 0, ver_generation := ver_generation r + 1\<rparr>"

definition DiscardVersion :: "64 word \<Rightarrow> Recorder \<Rightarrow> Recorder" where
  "DiscardVersion generation r =
     (if ver_generation r \<noteq> generation then r
      else r\<lparr>ver_output := [], ver_at := 0, ver_generation := ver_generation r + 1\<rparr>)"

definition CachedVersion :: "time \<Rightarrow> Recorder \<Rightarrow> (string \<times> 64 word) option" where
  "CachedVersion now r =
     (if ver_ttl r \<le> 0 \<or> ver_output r = [] \<or> now - ver_at r > ver_ttl r then None
      else Some (ver_output r, ver_generation r))"

section \<open>Child processes\<close>

text \<open>
  What \<^verbatim>\<open>exec.Cmd\<close> says after a run: no state if the child never started, otherwise whether a
  signal ended it and its exit code (-1 for a signal), and its peak resident set in bytes where
  the platform reports one.
\<close>

record ProcessState =
  ExitCode :: int
  signal :: "int option"
  maxRSS :: "int option"

text \<open>\<^verbatim>\<open>signalExitCode\<close> of \<^verbatim>\<open>platform_unix.go\<close>, and \<^verbatim>\<open>exitStatus\<close>.\<close>

definition exitStatus :: "ProcessState \<Rightarrow> string" where
  "exitStatus state =
     (case signal state of
        Some n \<Rightarrow> dec_of_int (128 + n)
      | None \<Rightarrow> dec_of_int (ExitCode state))"

definition run_reason :: "goerr option \<Rightarrow> ProcessState option \<Rightarrow> bool \<Rightarrow> string" where
  "run_reason ctx_err state failed =
     (if \<not> failed then ''success''
      else case state of
        None \<Rightarrow> ''start_error''
      | Some p \<Rightarrow>
          let killed = (ExitCode p = -1) in
          if killed \<and> (case ctx_err of None \<Rightarrow> False | Some e \<Rightarrow> errors_Is e Canceled) then ''canceled''
          else if killed \<and> (case ctx_err of None \<Rightarrow> False | Some e \<Rightarrow> errors_Is e DeadlineExceeded) then ''timeout''
          else if killed then ''signal''
          else if ExitCode p \<noteq> 0 then ''nonzero_exit''
          else ''other'')"

text \<open>What \<^verbatim>\<open>Run\<close> records about a run that took \<open>elapsed\<close>.\<close>

definition Run_record ::
    "goerr option \<Rightarrow> string \<Rightarrow> ProcessState option \<Rightarrow> bool \<Rightarrow> int \<Rightarrow> Recorder \<Rightarrow> Recorder" where
  "Run_record ctx_err command state failed elapsed r =
     (let r = Observe ''subprocess_duration_seconds'' (Secs elapsed)
                [command, if failed then ''failed'' else ''success''] r;
          r = Inc ''subprocess_exits_total'' [command, run_reason ctx_err state failed] r
      in case state of
           None \<Rightarrow> r
         | Some p \<Rightarrow>
             (let r = Inc ''subprocess_exit_code_total'' [command, exitStatus p] r in
              case maxRSS p of
                None \<Rightarrow> r
              | Some rss \<Rightarrow> Observe ''subprocess_max_rss_bytes'' (Num rss) [command] r))"

section \<open>Lemmas\<close>

text \<open>A write is in the catalog when the metric has its kind and its number of labels.\<close>

definition in_catalog :: "metric_op \<Rightarrow> string \<Rightarrow> nat \<Rightarrow> bool" where
  "in_catalog mop name n \<longleftrightarrow>
     (case map_of catalog name of None \<Rightarrow> False | Some (k, ls) \<Rightarrow> k = op_kind mop \<and> length ls = n)"

definition label_ok :: "string \<Rightarrow> string \<Rightarrow> string \<Rightarrow> bool" where
  "label_ok name label v \<longleftrightarrow>
     (case allowed_values name label of
        Some allowed \<Rightarrow> v \<in> set allowed
      | None \<Rightarrow> label = ''code'' \<longrightarrow> v = ''other'' \<or> validCode v)"

definition sample_ok :: "sample \<Rightarrow> bool" where
  "sample_ok s \<longleftrightarrow>
     (case s of (mop, name, ls, v) \<Rightarrow>
        case map_of catalog name of
          None \<Rightarrow> False
        | Some (k, labels) \<Rightarrow> k = op_kind mop \<and> length ls = length labels \<and>
            list_all2 (label_ok name) labels ls)"

lemma label_values_other: "map_of label_values l = Some vs \<Longrightarrow> ''other'' \<in> set vs"
proof -
  have "list_all (\<lambda>(l, vs). ''other'' \<in> set vs) label_values"
    by code_simp
  then show "map_of label_values l = Some vs \<Longrightarrow> ''other'' \<in> set vs"
    by (auto simp: list_all_iff dest: map_of_SomeD)
qed

lemma allowed_values_other: "allowed_values n l = Some vs \<Longrightarrow> ''other'' \<in> set vs"
  by (auto simp: allowed_values_def label_values_other split: option.splits)

lemma normalize_label_ok [simp]: "label_ok n l (normalize_label n l v)"
  by (auto simp: label_ok_def normalize_label_def allowed_values_other split: option.splits)

lemma normalize_Some:
  "in_catalog mop n (length ls) \<Longrightarrow> \<exists>out. normalize n ls = Some out"
  by (auto simp: in_catalog_def normalize_def split: option.splits)

lemma record_op_eq:
  "in_catalog mop n (length ls) \<Longrightarrow>
   record_op mop n v ls r = r\<lparr>registry := registry r @ [(mop, n, the (normalize n ls), v)]\<rparr>"
  by (auto simp: record_op_def in_catalog_def normalize_def split: option.splits)

lemma record_op_sample_ok:
  "in_catalog mop n (length ls) \<Longrightarrow> sample_ok (mop, n, the (normalize n ls), v)"
  by (auto simp: sample_ok_def in_catalog_def normalize_def list_all2_conv_all_nth
      split: option.splits)

definition recorder_ok :: "Recorder \<Rightarrow> bool" where
  "recorder_ok r \<longleftrightarrow> \<not> panicked r \<and> list_all sample_ok (registry r)"

lemma record_ok: "recorder_ok r \<Longrightarrow> in_catalog mop n (length ls) \<Longrightarrow> recorder_ok (record_op mop n v ls r)"
  by (auto simp: recorder_ok_def record_op_eq record_op_sample_ok)

lemma record_samples_ok: "list_all sample_ok (registry r) \<Longrightarrow> list_all sample_ok (registry (record_op mop n v ls r))"
proof (cases "in_catalog mop n (length ls)")
  case True
  then show "list_all sample_ok (registry r) \<Longrightarrow> ?thesis" by (simp add: record_op_eq record_op_sample_ok)
next
  case False
  then have "registry (record_op mop n v ls r) = registry r"
    by (auto simp: record_op_def in_catalog_def normalize_def split: option.splits)
  then show "list_all sample_ok (registry r) \<Longrightarrow> ?thesis" by simp
qed

lemma record_op_fields [simp]:
  "running (record_op mop n v ls r) = running r" "next_run (record_op mop n v ls r) = next_run r"
  "ver_output (record_op mop n v ls r) = ver_output r" "ver_at (record_op mop n v ls r) = ver_at r"
  "ver_ttl (record_op mop n v ls r) = ver_ttl r"
  "ver_generation (record_op mop n v ls r) = ver_generation r"
  by (simp_all add: record_op_def split: option.splits)

lemma in_catalog_list_1:
  "list_all (\<lambda>(mop, n, k). in_catalog mop n k)
     [(OpAdd, ''scan_retries_total'', 0), (OpSet, ''queue_collection_success'', 0), (OpSet,
      ''queue_oldest_age_seconds'', 0), (OpAdd, ''jobs_enqueued_total'', (Suc (Suc 0))),
      (OpObserve, ''queue_wait_duration_seconds'', (Suc 0)), (OpObserve,
      ''subprocess_duration_seconds'', (Suc (Suc 0))), (OpAdd, ''store_bytes_written_total'',
      (Suc (Suc 0))), (OpSet, ''db_present'', (Suc 0)), (OpSet,
      ''db_downloaded_timestamp_seconds'', (Suc 0)), (OpSet, ''analysis_cache_backend_info'',
      (Suc 0)), (OpDelete, ''storage_capacity_bytes'', (Suc 0)), (OpDelete,
      ''storage_collection_success'', (Suc 0))]"
  by code_simp

lemma in_catalog_list_2:
  "list_all (\<lambda>(mop, n, k). in_catalog mop n k)
     [(OpAdd, ''lease_losses_total'', 0), (OpDelete, ''queue_collection_success'', 0),
      (OpDelete, ''queue_oldest_age_seconds'', 0), (OpAdd, ''job_dispatch_total'', (Suc 0)),
      (OpSet, ''jobs_in_progress'', 0), (OpAdd, ''subprocess_exits_total'', (Suc (Suc 0))),
      (OpAdd, ''store_operations_total'', (Suc (Suc 0))), (OpDelete, ''db_present'', (Suc 0)),
      (OpDelete, ''db_downloaded_timestamp_seconds'', (Suc 0)), (OpSet,
      ''metadata_collection_success'', 0), (OpSet, ''storage_available_bytes'', (Suc 0)),
      (OpObserve, ''storage_collection_duration_seconds'', (Suc 0))]"
  by code_simp

lemma in_catalog_list_3:
  "list_all (\<lambda>(mop, n, k). in_catalog mop n k)
     [(OpSet, ''queue_unacknowledged_jobs'', 0), (OpAdd, ''queue_collection_errors_total'', (Suc
      0)), (OpSet, ''build_info'', (Suc (Suc 0))), (OpAdd, ''publish_no_subscribers_total'', 0),
      (OpSet, ''worker_concurrency'', 0), (OpAdd, ''subprocess_exit_code_total'', (Suc (Suc
      0))), (OpObserve, ''store_operation_duration_seconds'', (Suc 0)), (OpSet,
      ''db_updated_timestamp_seconds'', (Suc 0)), (OpSet, ''db_updates_enabled'', (Suc 0)),
      (OpSet, ''metadata_last_success_timestamp_seconds'', 0), (OpDelete,
      ''storage_available_bytes'', (Suc 0)), (OpSet, ''storage_last_success_timestamp_seconds'',
      (Suc 0))]"
  by code_simp

lemma in_catalog_list_4:
  "list_all (\<lambda>(mop, n, k). in_catalog mop n k)
     [(OpDelete, ''queue_unacknowledged_jobs'', 0), (OpAdd, ''queue_group_recreated_total'', 0),
      (OpDelete, ''build_info'', (Suc (Suc 0))), (OpAdd, ''job_attempts_total'', (Suc (Suc (Suc
      0)))), (OpSet, ''ready'', (Suc 0)), (OpObserve, ''subprocess_max_rss_bytes'', (Suc 0)),
      (OpAdd, ''report_fetch_total'', (Suc 0)), (OpDelete, ''db_updated_timestamp_seconds'',
      (Suc 0)), (OpDelete, ''db_updates_enabled'', (Suc 0)), (OpSet, ''cache_size_bytes'', (Suc
      0)), (OpSet, ''storage_inodes_available'', (Suc 0)), (OpDelete,
      ''storage_last_success_timestamp_seconds'', (Suc 0))]"
  by code_simp

lemma in_catalog_list_5:
  "list_all (\<lambda>(mop, n, k). in_catalog mop n k)
     [(OpSet, ''queue_quarantined_jobs'', 0), (OpSet,
      ''queue_collection_last_success_timestamp_seconds'', 0), (OpAdd, ''http_requests_total'',
      (Suc (Suc (Suc 0)))), (OpAdd, ''job_failures_total'', (Suc (Suc 0))), (OpSet,
      ''last_scan_success_timestamp_seconds'', 0), (OpAdd, ''sbom_accessory_events_total'', (Suc
      0)), (OpObserve, ''report_fetch_age_seconds'', (Suc (Suc 0))), (OpSet,
      ''db_next_update_timestamp_seconds'', (Suc 0)), (OpSet, ''db_schema_version'', (Suc 0)),
      (OpDelete, ''cache_size_bytes'', (Suc 0)), (OpDelete, ''storage_inodes_available'', (Suc
      0)), (OpAdd, ''temp_dirs_reaped_total'', 0)]"
  by code_simp

lemma in_catalog_list_6:
  "list_all (\<lambda>(mop, n, k). in_catalog mop n k)
     [(OpDelete, ''queue_quarantined_jobs'', 0), (OpDelete,
      ''queue_collection_last_success_timestamp_seconds'', 0), (OpObserve,
      ''http_request_duration_seconds'', (Suc (Suc 0))), (OpObserve, ''job_duration_seconds'',
      (Suc (Suc 0))), (OpSet, ''scan_timeout_seconds'', 0), (OpObserve, ''report_size_bytes'',
      (Suc (Suc (Suc 0)))), (OpSet, ''scan_job_ttl_seconds'', 0), (OpDelete,
      ''db_next_update_timestamp_seconds'', (Suc 0)), (OpDelete, ''db_schema_version'', (Suc
      0)), (OpSet, ''storage_capacity_bytes'', (Suc 0)), (OpSet, ''storage_collection_success'',
      (Suc 0)), (OpSet, ''temp_dirs_present'', 0)]"
  by code_simp

lemmas in_catalog_facts [simp] =
  in_catalog_list_1 [simplified] in_catalog_list_2 [simplified] in_catalog_list_3 [simplified] in_catalog_list_4 [simplified] in_catalog_list_5 [simplified] in_catalog_list_6 [simplified]

text \<open>What a gauge shows: the last value set and not deleted since.\<close>

fun gauge_value :: "string \<Rightarrow> string list \<Rightarrow> sample list \<Rightarrow> mvalue option" where
  "gauge_value name ls [] = None"
| "gauge_value name ls ((mop, n, l, v) # rest) =
     (case gauge_value name ls rest of
        Some x \<Rightarrow> Some x
      | None \<Rightarrow>
          if n = name \<and> l = ls \<and> mop = OpSet
             \<and> \<not> list_ex (\<lambda>(mop', n', l', v'). mop' = OpDelete \<and> n' = name \<and> l' = ls) rest
          then Some v else None)"

lemma gauge_value_append:
  "gauge_value name ls (ss @ [(mop, n, l, v)]) =
     (if n = name \<and> l = ls \<and> mop = OpSet then Some v
      else if n = name \<and> l = ls \<and> mop = OpDelete then None
      else gauge_value name ls ss)"
  by (induction name ls ss rule: gauge_value.induct) auto

definition runs_ok :: "Recorder \<Rightarrow> bool" where
  "runs_ok r \<longleftrightarrow>
     distinct (map fst (running r)) \<and> (\<forall>i \<in> fst ` set (running r). i < next_run r) \<and>
     gauge_value ''jobs_in_progress'' [] (registry r) = Some (Num (int (length (running r))))"

lemma gauge_record_other:
  "n \<noteq> name \<Longrightarrow> gauge_value name ls (registry (record_op mop n v l r)) = gauge_value name ls (registry r)"
  by (auto simp: record_op_def gauge_value_append split: option.splits)

lemma normalize_none [simp]: "normalize ''jobs_in_progress'' [] = Some []"
  by code_simp

lemma gauge_in_progress [simp]:
  "gauge_value ''jobs_in_progress'' [] (registry (SetTo ''jobs_in_progress'' v [] r)) = Some v"
  by (simp add: SetTo_def record_op_eq gauge_value_append)

lemmas gauge_in_progress_op [simp] = gauge_in_progress [unfolded SetTo_def]

lemma recorder_ok_upd [simp]:
  "recorder_ok (r\<lparr>running := x\<rparr>) = recorder_ok r" "recorder_ok (r\<lparr>next_run := y\<rparr>) = recorder_ok r"
  "recorder_ok (r\<lparr>ver_output := a\<rparr>) = recorder_ok r" "recorder_ok (r\<lparr>ver_at := b\<rparr>) = recorder_ok r"
  "recorder_ok (r\<lparr>ver_generation := c\<rparr>) = recorder_ok r" "recorder_ok (r\<lparr>ver_ttl := d\<rparr>) = recorder_ok r"
  by (simp_all add: recorder_ok_def)

lemma BeginExecution_ok: "recorder_ok r \<Longrightarrow> recorder_ok (snd (BeginExecution now r))"
  by (simp add: BeginExecution_def Let_def SetTo_def record_ok)

lemma FinishExecution_ok: "recorder_ok r \<Longrightarrow> recorder_ok (FinishExecution key i st s stage cat now r)"
  by (cases "JobLabels key") (simp add: FinishExecution_def Let_def recorder_ops record_ok)

lemma BeginExecution_runs: "runs_ok r \<Longrightarrow> runs_ok (snd (BeginExecution now r))"
  unfolding runs_ok_def BeginExecution_def by (auto simp: Let_def SetTo_def simp del: gauge_value.simps)

lemma FinishExecution_runs: "runs_ok r \<Longrightarrow> runs_ok (FinishExecution key i st s stage cat now r)"
proof -
  assume ok: "runs_ok r"
  let ?run = "filter (\<lambda>(j, t). j \<noteq> i) (running r)"
  have "distinct (map fst ?run)"
    using ok unfolding runs_ok_def by (metis distinct_map_filter)
  moreover have "\<forall>j \<in> fst ` set ?run. j < next_run r"
    using ok by (auto simp: runs_ok_def)
  ultimately show ?thesis
    by (cases "JobLabels key")
      (auto simp: runs_ok_def FinishExecution_def Let_def Inc_def Observe_def Add_def SetTo_def
        gauge_record_other simp del: gauge_value.simps)
qed

lemma DiscardVersion_keeps_newer:
  "CachedVersion now r = Some (out, g) \<Longrightarrow>
   DiscardVersion g (cacheVersion out' now' r) = cacheVersion out' now' r"
  by (auto simp: CachedVersion_def DiscardVersion_def cacheVersion_def split: if_splits)

lemma DiscardVersion_drops:
  "CachedVersion now r = Some (out, g) \<Longrightarrow> CachedVersion now' (DiscardVersion g r) = None"
  by (auto simp: CachedVersion_def DiscardVersion_def split: if_splits)

end
