(* ===== verification/Redis_Api.thy ===== *)
theory Redis_Api
  imports Errors
begin

text \<open>
  The Redis server as the program sees it. The server and its client library are not part of
  the repository, so the commands are the fields of a record \<open>redis\<close>, a parameter of every
  definition that talks to the server, and what their documentation promises is stated on a
  view of the server's keyspace: the locale \<open>redis_server\<close>. A small executable server,
  \<open>ref_redis\<close>, satisfies the laws; the examples run on it.
\<close>

section \<open>The keyspace\<close>

type_synonym entry = "string \<times> (string \<times> string) list"

record group =
  grp_name :: string
  grp_pending :: "(string \<times> string) list"

text \<open>A stream's group lists the pending deliveries with the consumer that holds each.\<close>

datatype rvalue = Str string | Strm "entry list" "group list" | Hsh "(string \<times> string) list"

record view =
  ks :: "string \<Rightarrow> rvalue option"
  ttl :: "string \<Rightarrow> int option"

definition put_value :: "string \<Rightarrow> rvalue \<Rightarrow> view \<Rightarrow> view" where
  "put_value k x v = v\<lparr>ks := (ks v)(k := Some x)\<rparr>"

definition put_ttl :: "string \<Rightarrow> int option \<Rightarrow> view \<Rightarrow> view" where
  "put_ttl k t v = v\<lparr>ttl := (ttl v)(k := t)\<rparr>"

definition remove_key :: "string \<Rightarrow> view \<Rightarrow> view" where
  "remove_key k v = v\<lparr>ks := (ks v)(k := None), ttl := (ttl v)(k := None)\<rparr>"

text \<open>Reading a key as a string, a stream or a hash: \<open>None\<close> is a value of another type.\<close>

fun as_string :: "rvalue option \<Rightarrow> string option option" where
  "as_string None = Some None"
| "as_string (Some (Str s)) = Some (Some s)"
| "as_string (Some _) = None"

fun as_stream :: "rvalue option \<Rightarrow> (entry list \<times> group list) option" where
  "as_stream None = Some ([], [])"
| "as_stream (Some (Strm es gs)) = Some (es, gs)"
| "as_stream (Some _) = None"

fun as_hash :: "rvalue option \<Rightarrow> (string \<times> string) list option" where
  "as_hash None = Some []"
| "as_hash (Some (Hsh h)) = Some h"
| "as_hash (Some _) = None"

section \<open>What the commands promise\<close>

text \<open>Each relation holds of the view before, the reply and the view after a command that succeeded.\<close>

definition get_spec :: "string \<Rightarrow> view \<Rightarrow> string option \<Rightarrow> view \<Rightarrow> bool" where
  "get_spec k v r v' \<longleftrightarrow> v' = v \<and> as_string (ks v k) = Some r"

definition set_spec :: "string \<Rightarrow> string \<Rightarrow> view \<Rightarrow> unit \<Rightarrow> view \<Rightarrow> bool" where
  "set_spec k x v r v' \<longleftrightarrow> v' = put_ttl k None (put_value k (Str x) v)"

definition setnx_spec :: "string \<Rightarrow> string \<Rightarrow> int \<Rightarrow> view \<Rightarrow> bool \<Rightarrow> view \<Rightarrow> bool" where
  "setnx_spec k x ms v r v' \<longleftrightarrow>
     (if ks v k = None then r \<and> v' = put_ttl k (Some ms) (put_value k (Str x) v) else \<not> r \<and> v' = v)"

definition exists_spec :: "string \<Rightarrow> view \<Rightarrow> int \<Rightarrow> view \<Rightarrow> bool" where
  "exists_spec k v r v' \<longleftrightarrow> v' = v \<and> r = (if ks v k = None then 0 else 1)"

definition del_spec :: "string \<Rightarrow> view \<Rightarrow> int \<Rightarrow> view \<Rightarrow> bool" where
  "del_spec k v r v' \<longleftrightarrow> v' = remove_key k v \<and> r = (if ks v k = None then 0 else 1)"

definition pexpire_spec :: "string \<Rightarrow> int \<Rightarrow> view \<Rightarrow> int \<Rightarrow> view \<Rightarrow> bool" where
  "pexpire_spec k ms v r v' \<longleftrightarrow>
     (if ks v k = None then r = 0 \<and> v' = v
      else r = 1 \<and> v' = (if ms \<le> 0 then remove_key k v else put_ttl k (Some ms) v))"

definition persist_spec :: "string \<Rightarrow> view \<Rightarrow> int \<Rightarrow> view \<Rightarrow> bool" where
  "persist_spec k v r v' \<longleftrightarrow> (r = (if ks v k = None \<or> ttl v k = None then 0 else 1) \<and> v' = put_ttl k None v)"

definition xadd_spec :: "string \<Rightarrow> (string \<times> string) list \<Rightarrow> view \<Rightarrow> string \<Rightarrow> view \<Rightarrow> bool" where
  "xadd_spec k fs v r v' \<longleftrightarrow>
     (\<exists>es gs. as_stream (ks v k) = Some (es, gs) \<and> r \<notin> fst ` set es \<and>
        v' = put_value k (Strm (es @ [(r, fs)]) gs) v)"

definition drop_pending :: "string \<Rightarrow> string \<Rightarrow> group list \<Rightarrow> group list" where
  "drop_pending g i gs =
     map (\<lambda>x. if grp_name x = g then x\<lparr>grp_pending := filter (\<lambda>(j, c). j \<noteq> i) (grp_pending x)\<rparr> else x) gs"

definition xack_spec :: "string \<Rightarrow> string \<Rightarrow> string \<Rightarrow> view \<Rightarrow> int \<Rightarrow> view \<Rightarrow> bool" where
  "xack_spec k g i v r v' \<longleftrightarrow>
     (case ks v k of
        None \<Rightarrow> v' = v
      | Some (Strm es gs) \<Rightarrow> v' = put_value k (Strm es (drop_pending g i gs)) v
      | _ \<Rightarrow> False)"

definition xdel_spec :: "string \<Rightarrow> string \<Rightarrow> view \<Rightarrow> int \<Rightarrow> view \<Rightarrow> bool" where
  "xdel_spec k i v r v' \<longleftrightarrow>
     (case ks v k of
        None \<Rightarrow> v' = v
      | Some (Strm es gs) \<Rightarrow> v' = put_value k (Strm (filter (\<lambda>e. fst e \<noteq> i) es) gs) v
      | _ \<Rightarrow> False)"

text \<open>\<^verbatim>\<open>XCLAIM ... JUSTID\<close> moves a pending delivery to a consumer.\<close>

definition claim_pending :: "string \<Rightarrow> string \<Rightarrow> string \<Rightarrow> group list \<Rightarrow> group list" where
  "claim_pending g c i gs =
     map (\<lambda>x. if grp_name x = g
              then x\<lparr>grp_pending := map (\<lambda>(j, d). if j = i then (j, c) else (j, d)) (grp_pending x)\<rparr> else x) gs"

definition xclaim_spec :: "string \<Rightarrow> string \<Rightarrow> string \<Rightarrow> string \<Rightarrow> view \<Rightarrow> unit \<Rightarrow> view \<Rightarrow> bool" where
  "xclaim_spec k g c i v r v' \<longleftrightarrow>
     (\<exists>es gs. as_stream (ks v k) = Some (es, gs) \<and> ks v k \<noteq> None \<and>
        v' = put_value k (Strm es (claim_pending g c i gs)) v)"

definition xlen_spec :: "string \<Rightarrow> view \<Rightarrow> int \<Rightarrow> view \<Rightarrow> bool" where
  "xlen_spec k v r v' \<longleftrightarrow> v' = v \<and> (\<exists>es gs. as_stream (ks v k) = Some (es, gs) \<and> r = int (length es))"

text \<open>\<^verbatim>\<open>XRANGE k id id COUNT 1\<close>, and \<^verbatim>\<open>XRANGE k - + COUNT 1\<close>.\<close>

definition xfind_spec :: "string \<Rightarrow> string \<Rightarrow> view \<Rightarrow> entry list \<Rightarrow> view \<Rightarrow> bool" where
  "xfind_spec k i v r v' \<longleftrightarrow> v' = v \<and>
     (\<exists>es gs. as_stream (ks v k) = Some (es, gs) \<and> r = take 1 (filter (\<lambda>e. fst e = i) es))"

definition xfirst_spec :: "string \<Rightarrow> view \<Rightarrow> entry list \<Rightarrow> view \<Rightarrow> bool" where
  "xfirst_spec k v r v' \<longleftrightarrow> v' = v \<and> (\<exists>es gs. as_stream (ks v k) = Some (es, gs) \<and> r = take 1 es)"

definition hset_spec :: "string \<Rightarrow> string \<Rightarrow> string \<Rightarrow> view \<Rightarrow> int \<Rightarrow> view \<Rightarrow> bool" where
  "hset_spec k f x v r v' \<longleftrightarrow>
     (\<exists>h. as_hash (ks v k) = Some h \<and> v' = put_value k (Hsh ((f, x) # filter (\<lambda>p. fst p \<noteq> f) h)) v)"

definition hlen_spec :: "string \<Rightarrow> view \<Rightarrow> int \<Rightarrow> view \<Rightarrow> bool" where
  "hlen_spec k v r v' \<longleftrightarrow> v' = v \<and> (\<exists>h. as_hash (ks v k) = Some h \<and> r = int (length h))"

definition xgroups_spec :: "string \<Rightarrow> view \<Rightarrow> string list \<Rightarrow> view \<Rightarrow> bool" where
  "xgroups_spec k v r v' \<longleftrightarrow> v' = v \<and> (\<exists>es gs. ks v k = Some (Strm es gs) \<and> r = map grp_name gs)"

definition xgroup_create_spec :: "string \<Rightarrow> string \<Rightarrow> view \<Rightarrow> unit \<Rightarrow> view \<Rightarrow> bool" where
  "xgroup_create_spec k g v r v' \<longleftrightarrow>
     (\<exists>es gs. as_stream (ks v k) = Some (es, gs) \<and> g \<notin> grp_name ` set gs \<and>
        v' = put_value k (Strm es (gs @ [\<lparr>grp_name = g, grp_pending = []\<rparr>])) v)"

text \<open>
  A delivery by \<^verbatim>\<open>XREADGROUP\<close> or \<^verbatim>\<open>XAUTOCLAIM\<close>: entries of the stream, which become
  pending for the consumer; the entries stay. \<^verbatim>\<open>XREADGROUP\<close> answers nil when there is none.
\<close>

definition deliver_pending :: "string \<Rightarrow> string \<Rightarrow> entry list \<Rightarrow> group list \<Rightarrow> group list" where
  "deliver_pending g c ms gs =
     map (\<lambda>x. if grp_name x = g
              then x\<lparr>grp_pending := filter (\<lambda>p. fst p \<notin> fst ` set ms) (grp_pending x)
                       @ map (\<lambda>m. (fst m, c)) ms\<rparr> else x) gs"

definition deliver_spec :: "string \<Rightarrow> string \<Rightarrow> string \<Rightarrow> view \<Rightarrow> entry list \<Rightarrow> view \<Rightarrow> bool" where
  "deliver_spec k g c v ms v' \<longleftrightarrow>
     (\<exists>es gs. ks v k = Some (Strm es gs) \<and> g \<in> grp_name ` set gs \<and> set ms \<subseteq> set es \<and>
        v' = put_value k (Strm es (deliver_pending g c ms gs)) v)"

definition consumers_spec :: "string \<Rightarrow> string \<Rightarrow> view \<Rightarrow> (string \<times> int \<times> int) list \<Rightarrow> view \<Rightarrow> bool" where
  "consumers_spec k g v r v' \<longleftrightarrow> v' = v \<and>
     (\<exists>es gs. ks v k = Some (Strm es gs) \<and>
        (\<forall>(c, pending, idle) \<in> set r. \<forall>x \<in> set gs. grp_name x = g \<longrightarrow>
           pending = int (length (filter (\<lambda>p. snd p = c) (grp_pending x)))))"

text \<open>Deleting a consumer drops its pending deliveries.\<close>

definition delconsumer_spec :: "string \<Rightarrow> string \<Rightarrow> string \<Rightarrow> view \<Rightarrow> int \<Rightarrow> view \<Rightarrow> bool" where
  "delconsumer_spec k g c v r v' \<longleftrightarrow>
     (\<exists>es gs. ks v k = Some (Strm es gs) \<and>
        v' = put_value k (Strm es (map (\<lambda>x. if grp_name x = g
               then x\<lparr>grp_pending := filter (\<lambda>p. snd p \<noteq> c) (grp_pending x)\<rparr> else x) gs)) v)"

section \<open>The commands\<close>

text \<open>A command ends with an error reply or a value.\<close>

type_synonym ('s, 'a) cmd = "('s, string + 'a) state"

record 's redis =
  GET :: "string \<Rightarrow> ('s, string option) cmd"
  SET :: "string \<Rightarrow> string \<Rightarrow> ('s, unit) cmd"
  SETNX :: "string \<Rightarrow> string \<Rightarrow> int \<Rightarrow> ('s, bool) cmd"
  EXISTS :: "string \<Rightarrow> ('s, int) cmd"
  DEL :: "string \<Rightarrow> ('s, int) cmd"
  PEXPIRE :: "string \<Rightarrow> int \<Rightarrow> ('s, int) cmd"
  PERSIST :: "string \<Rightarrow> ('s, int) cmd"
  XADD :: "string \<Rightarrow> (string \<times> string) list \<Rightarrow> ('s, string) cmd"
  XACK :: "string \<Rightarrow> string \<Rightarrow> string \<Rightarrow> ('s, int) cmd"
  XDEL :: "string \<Rightarrow> string \<Rightarrow> ('s, int) cmd"
  XCLAIM :: "string \<Rightarrow> string \<Rightarrow> string \<Rightarrow> string \<Rightarrow> ('s, unit) cmd"
  XLEN :: "string \<Rightarrow> ('s, int) cmd"
  XRANGE_id :: "string \<Rightarrow> string \<Rightarrow> ('s, entry list) cmd"
  XRANGE_first :: "string \<Rightarrow> ('s, entry list) cmd"
  HSET :: "string \<Rightarrow> string \<Rightarrow> string \<Rightarrow> ('s, int) cmd"
  HLEN :: "string \<Rightarrow> ('s, int) cmd"
  XINFO_GROUPS :: "string \<Rightarrow> ('s, string list) cmd"
  XGROUP_CREATE :: "string \<Rightarrow> string \<Rightarrow> ('s, unit) cmd"
  XREADGROUP :: "string \<Rightarrow> string \<Rightarrow> string \<Rightarrow> ('s, entry list option) cmd"
  XAUTOCLAIM :: "string \<Rightarrow> string \<Rightarrow> string \<Rightarrow> int \<Rightarrow> string \<Rightarrow> ('s, entry list \<times> string) cmd"
  XINFO_CONSUMERS :: "string \<Rightarrow> string \<Rightarrow> ('s, (string \<times> int \<times> int) list) cmd"
  DELCONSUMER :: "string \<Rightarrow> string \<Rightarrow> string \<Rightarrow> ('s, int) cmd"
  COMMAND_INFO :: "string \<Rightarrow> ('s, bool list) cmd"

text \<open>
  \<open>refines V spec m\<close>: an error reply leaves the view as it was, a value and the view after
  are as promised.
\<close>

definition refines :: "('s \<Rightarrow> view) \<Rightarrow> (view \<Rightarrow> 'a \<Rightarrow> view \<Rightarrow> bool) \<Rightarrow> ('s, 'a) cmd \<Rightarrow> bool" where
  "refines V spec m \<longleftrightarrow>
     (\<forall>s. case run_state m s of
        (Inl e, s') \<Rightarrow> V s' = V s
      | (Inr r, s') \<Rightarrow> spec (V s) r (V s'))"

locale redis_server =
  fixes R :: "'s redis" and V :: "'s \<Rightarrow> view"
  assumes GET: "refines V (get_spec k) (GET R k)"
    and SET: "refines V (set_spec k x) (SET R k x)"
    and SETNX: "refines V (setnx_spec k x ms) (SETNX R k x ms)"
    and EXISTS: "refines V (exists_spec k) (EXISTS R k)"
    and DEL: "refines V (del_spec k) (DEL R k)"
    and PEXPIRE: "refines V (pexpire_spec k ms) (PEXPIRE R k ms)"
    and PERSIST: "refines V (persist_spec k) (PERSIST R k)"
    and XADD: "refines V (xadd_spec k fs) (XADD R k fs)"
    and XACK: "refines V (xack_spec k g i) (XACK R k g i)"
    and XDEL: "refines V (xdel_spec k i) (XDEL R k i)"
    and XCLAIM: "refines V (xclaim_spec k g c i) (XCLAIM R k g c i)"
    and XLEN: "refines V (xlen_spec k) (XLEN R k)"
    and XRANGE_id: "refines V (xfind_spec k i) (XRANGE_id R k i)"
    and XRANGE_first: "refines V (xfirst_spec k) (XRANGE_first R k)"
    and HSET: "refines V (hset_spec k f x) (HSET R k f x)"
    and HLEN: "refines V (hlen_spec k) (HLEN R k)"
    and XINFO_GROUPS: "refines V (xgroups_spec k) (XINFO_GROUPS R k)"
    and XGROUP_CREATE: "refines V (xgroup_create_spec k g) (XGROUP_CREATE R k g)"
    and XREADGROUP: "refines V (\<lambda>v r v'. case r of None \<Rightarrow> v' = v
                                | Some ms \<Rightarrow> deliver_spec k g c v ms v') (XREADGROUP R k g c)"
    and XAUTOCLAIM: "refines V (\<lambda>v r v'. deliver_spec k g c v (fst r) v') (XAUTOCLAIM R k g c ms cur)"
    and XINFO_CONSUMERS: "refines V (consumers_spec k g) (XINFO_CONSUMERS R k g)"
    and DELCONSUMER: "refines V (delconsumer_spec k g c) (DELCONSUMER R k g c)"
    and COMMAND_INFO: "refines V (\<lambda>v r v'. v' = v) (COMMAND_INFO R cname)"

lemma refinesD:
  "refines V spec m \<Longrightarrow> run_state m s = (Inr r, s') \<Longrightarrow> spec (V s) r (V s')"
  "refines V spec m \<Longrightarrow> run_state m s = (Inl e, s') \<Longrightarrow> V s' = V s"
proof -
  assume "refines V spec m"
  then have *: "case run_state m s of (Inl e, s') \<Rightarrow> V s' = V s | (Inr r, s') \<Rightarrow> spec (V s) r (V s')"
    by (simp add: refines_def)
  show "run_state m s = (Inr r, s') \<Longrightarrow> spec (V s) r (V s')"
    "run_state m s = (Inl e, s') \<Longrightarrow> V s' = V s"
    using * by simp_all
qed

text \<open>A triple about a command, from its promise.\<close>

lemma refines_wp:
  assumes "refines V spec m"
    and "\<And>e. P v \<Longrightarrow> Q (Inl e) v" and "\<And>r v'. P v \<Longrightarrow> spec v r v' \<Longrightarrow> Q (Inr r) v'"
  shows "wp (\<lambda>s. V s = v \<and> P v) m (\<lambda>r s. Q r (V s))"
proof (rule wpI)
  fix s r s'
  assume s: "V s = v \<and> P v" and run: "run_state m s = (r, s')"
  show "Q r (V s')"
    using s assms(2,3) refinesD [OF assms(1)] run by (cases r) auto
qed

lemma refines_keeps:
  assumes "refines V spec m" and "\<And>v r v'. P v \<Longrightarrow> spec v r v' \<Longrightarrow> P v'"
  shows "keeps (\<lambda>s. P (V s)) m"
proof (rule keepsI)
  fix s r s'
  assume P: "P (V s)" and run: "run_state m s = (r, s')"
  show "P (V s')"
  proof (cases r)
    case (Inl e)
    then show ?thesis using P refinesD(2) [OF assms(1)] run by simp
  next
    case (Inr x)
    then show ?thesis using assms(2) [OF P] refinesD(1) [OF assms(1)] run by blast
  qed
qed

section \<open>A reference server\<close>

text \<open>
  The state is the view and the keys on which \<^verbatim>\<open>SET\<close> is refused for want of memory. A new
  entry's identifier is longer than those of the stream; \<^verbatim>\<open>XREADGROUP\<close> delivers the first
  entry that is not pending, \<^verbatim>\<open>XAUTOCLAIM\<close> the first pending one another consumer holds.
\<close>

record ref =
  rv :: view
  oom :: "string list"

definition change :: "(view \<Rightarrow> string + ('a \<times> view)) \<Rightarrow> (ref, 'a) cmd" where
  "change f =
     State (\<lambda>s. case f (rv s) of Inl e \<Rightarrow> (Inl e, s) | Inr (r, v) \<Rightarrow> (Inr r, s\<lparr>rv := v\<rparr>))"

definition wrongtype :: string where
  "wrongtype = ''WRONGTYPE Operation against a key holding the wrong kind of value''"

definition of_opt :: "'a option \<Rightarrow> string + 'a" where
  "of_opt x = (case x of None \<Rightarrow> Inl wrongtype | Some y \<Rightarrow> Inr y)"

definition with_stream ::
    "string \<Rightarrow> (entry list \<Rightarrow> group list \<Rightarrow> view \<Rightarrow> 'a \<times> view) \<Rightarrow> view \<Rightarrow> string + ('a \<times> view)" where
  "with_stream k f v = bindR (of_opt (as_stream (ks v k))) (\<lambda>(es, gs). Inr (f es gs v))"

definition with_group ::
    "string \<Rightarrow> string \<Rightarrow> (entry list \<Rightarrow> group list \<Rightarrow> view \<Rightarrow> 'a \<times> view) \<Rightarrow> view \<Rightarrow> string + ('a \<times> view)" where
  "with_group k g f v =
     (case ks v k of
        Some (Strm es gs) \<Rightarrow>
          if g \<in> set (map grp_name gs) then Inr (f es gs v) else Inl ''NOGROUP No such consumer group''
      | _ \<Rightarrow> Inl ''NOGROUP No such key'')"

definition fresh_id :: "entry list \<Rightarrow> string" where
  "fresh_id es = replicate (Suc (fold max (map (\<lambda>e. length (fst e)) es) 0)) (CHR ''1'') @ ''-0''"

definition pending_of :: "string \<Rightarrow> group list \<Rightarrow> (string \<times> string) list" where
  "pending_of g gs = concat (map grp_pending (filter (\<lambda>x. grp_name x = g) gs))"

definition ref_redis :: "ref redis" where
  "ref_redis =
     \<lparr>GET = (\<lambda>k. change (\<lambda>v. bindR (of_opt (as_string (ks v k))) (\<lambda>r. Inr (r, v)))),
      SET = (\<lambda>k x. State (\<lambda>s. if k \<in> set (oom s) then (Inl ''OOM command not allowed'', s)
               else (Inr (), s\<lparr>rv := put_ttl k None (put_value k (Str x) (rv s))\<rparr>))),
      SETNX = (\<lambda>k x ms. change (\<lambda>v. Inr (if ks v k = None
               then (True, put_ttl k (Some ms) (put_value k (Str x) v)) else (False, v)))),
      EXISTS = (\<lambda>k. change (\<lambda>v. Inr (if ks v k = None then 0 else 1, v))),
      DEL = (\<lambda>k. change (\<lambda>v. Inr (if ks v k = None then 0 else 1, remove_key k v))),
      PEXPIRE = (\<lambda>k ms. change (\<lambda>v. Inr (if ks v k = None then (0, v)
               else (1, if ms \<le> 0 then remove_key k v else put_ttl k (Some ms) v)))),
      PERSIST = (\<lambda>k. change (\<lambda>v. Inr (if ks v k = None \<or> ttl v k = None then 0 else 1, put_ttl k None v))),
      XADD = (\<lambda>k fs. change (with_stream k (\<lambda>es gs v.
               (fresh_id es, put_value k (Strm (es @ [(fresh_id es, fs)]) gs) v)))),
      XACK = (\<lambda>k g i. change (\<lambda>v. if ks v k = None then Inr (0, v) else with_stream k (\<lambda>es gs v.
               (1, put_value k (Strm es (drop_pending g i gs)) v)) v)),
      XDEL = (\<lambda>k i. change (\<lambda>v. if ks v k = None then Inr (0, v) else with_stream k (\<lambda>es gs v.
               (1, put_value k (Strm (filter (\<lambda>e. fst e \<noteq> i) es) gs) v)) v)),
      XCLAIM = (\<lambda>k g c i. change (with_group k g (\<lambda>es gs v.
               ((), put_value k (Strm es (claim_pending g c i gs)) v)))),
      XLEN = (\<lambda>k. change (with_stream k (\<lambda>es gs v. (int (length es), v)))),
      XRANGE_id = (\<lambda>k i. change (with_stream k (\<lambda>es gs v. (take 1 (filter (\<lambda>e. fst e = i) es), v)))),
      XRANGE_first = (\<lambda>k. change (with_stream k (\<lambda>es gs v. (take 1 es, v)))),
      HSET = (\<lambda>k f x. change (\<lambda>v. bindR (of_opt (as_hash (ks v k)))
               (\<lambda>h. Inr (1, put_value k (Hsh ((f, x) # filter (\<lambda>p. fst p \<noteq> f) h)) v)))),
      HLEN = (\<lambda>k. change (\<lambda>v. bindR (of_opt (as_hash (ks v k))) (\<lambda>h. Inr (int (length h), v)))),
      XINFO_GROUPS = (\<lambda>k. change (\<lambda>v. case ks v k of
               Some (Strm es gs) \<Rightarrow> Inr (map grp_name gs, v) | _ \<Rightarrow> Inl ''ERR no such key'')),
      XGROUP_CREATE = (\<lambda>k g. change (\<lambda>v. bindR (of_opt (as_stream (ks v k))) (\<lambda>(es, gs).
               if g \<in> set (map grp_name gs) then Inl ''BUSYGROUP Consumer Group name already exists''
               else Inr ((), put_value k (Strm es (gs @ [\<lparr>grp_name = g, grp_pending = []\<rparr>])) v)))),
      XREADGROUP = (\<lambda>k g c. change (with_group k g (\<lambda>es gs v.
               let new = take 1 (filter (\<lambda>e. fst e \<notin> fst ` set (pending_of g gs)) es) in
               if new = [] then (None, v)
               else (Some new, put_value k (Strm es (deliver_pending g c new gs)) v)))),
      XAUTOCLAIM = (\<lambda>k g c ms cur. change (with_group k g (\<lambda>es gs v.
               let mine = take 1 (filter (\<lambda>e. \<exists>(i, d) \<in> set (pending_of g gs). i = fst e \<and> d \<noteq> c) es)
               in ((mine, ''0-0''), put_value k (Strm es (deliver_pending g c mine gs)) v)))),
      XINFO_CONSUMERS = (\<lambda>k g. change (\<lambda>v. case ks v k of
               Some (Strm es gs) \<Rightarrow> Inr ([], v) | _ \<Rightarrow> Inl ''ERR no such key'')),
      DELCONSUMER = (\<lambda>k g c. change (with_group k g (\<lambda>es gs v.
               (0, put_value k (Strm es (map (\<lambda>x. if grp_name x = g
                 then x\<lparr>grp_pending := filter (\<lambda>p. snd p \<noteq> c) (grp_pending x)\<rparr> else x) gs)) v)))),
      COMMAND_INFO = (\<lambda>n. change (\<lambda>v. Inr ([True], v)))\<rparr>"

lemma change_refines: "(\<And>v r v'. f v = Inr (r, v') \<Longrightarrow> spec v r v') \<Longrightarrow> refines rv spec (change f)"
  by (auto simp: refines_def change_def split: sum.splits)

lemma fold_max_ge: "x \<le> fold max ns (x :: nat)" "n \<in> set ns \<Longrightarrow> n \<le> fold max ns x"
proof -
  have ge: "x \<le> fold max ns x" for x :: nat and ns
  proof (induction ns arbitrary: x)
    case (Cons m ns)
    have "max m x \<le> fold max ns (max m x)" by (rule Cons)
    then show ?case by simp
  qed simp
  show "x \<le> fold max ns x" by (rule ge)
  show "n \<in> set ns \<Longrightarrow> n \<le> fold max ns x"
  proof (induction ns arbitrary: x)
    case (Cons m ns)
    have "n \<le> fold max ns (max n x)" using ge [of "max n x"] by simp
    with Cons show ?case by auto
  qed simp
qed

lemma fresh_id_fresh: "fresh_id es \<notin> fst ` set es"
proof
  assume "fresh_id es \<in> fst ` set es"
  then have "length (fresh_id es) \<le> fold max (map (\<lambda>e. length (fst e)) es) 0"
    by (intro fold_max_ge(2)) force
  then show False by (simp add: fresh_id_def)
qed

lemma with_stream_Inr:
  "with_stream k f v = Inr (r, v') \<longleftrightarrow> (\<exists>es gs. as_stream (ks v k) = Some (es, gs) \<and> f es gs v = (r, v'))"
  by (auto simp: with_stream_def of_opt_def bindR_Inr_iff split: option.splits)

lemma with_group_Inr:
  "with_group k g f v = Inr (r, v') \<longleftrightarrow>
     (\<exists>es gs. ks v k = Some (Strm es gs) \<and> g \<in> grp_name ` set gs \<and> f es gs v = (r, v'))"
  by (auto simp: with_group_def split: option.splits rvalue.splits if_splits)

lemma as_stream_Some: "x \<noteq> None \<Longrightarrow> as_stream x = Some (es, gs) \<longleftrightarrow> x = Some (Strm es gs)"
  by (cases x; cases "the x") auto

lemma of_opt_Inr [simp]: "of_opt x = Inr y \<longleftrightarrow> x = Some y"
  by (simp add: of_opt_def split: option.split)

lemmas cmd_specs = get_spec_def set_spec_def setnx_spec_def exists_spec_def del_spec_def pexpire_spec_def
  persist_spec_def xadd_spec_def xack_spec_def xdel_spec_def xclaim_spec_def xlen_spec_def xfind_spec_def
  xfirst_spec_def hset_spec_def hlen_spec_def xgroups_spec_def xgroup_create_spec_def deliver_spec_def
  consumers_spec_def delconsumer_spec_def

lemma set_take_filter: "set (take n (filter Q es)) \<subseteq> set es"
  using set_take_subset by fastforce

lemmas ref_simps = cmd_specs bindR_Inr_iff with_stream_Inr with_group_Inr as_stream_Some fresh_id_fresh

lemma ref_XAUTOCLAIM:
  "refines rv (\<lambda>v r v'. deliver_spec k g c v (fst r) v') (XAUTOCLAIM ref_redis k g c ms cur)"
  by (simp add: ref_redis_def, rule change_refines)
    (auto simp: ref_simps Let_def dest: set_take_filter [THEN subsetD])

lemma ref_XREADGROUP:
  "refines rv (\<lambda>v r v'. case r of None \<Rightarrow> v' = v | Some ms \<Rightarrow> deliver_spec k g c v ms v')
     (XREADGROUP ref_redis k g c)"
  by (simp add: ref_redis_def, rule change_refines)
    (auto simp: ref_simps Let_def split: if_splits dest: set_take_filter [THEN subsetD])

lemma ref_XGROUP_CREATE: "refines rv (xgroup_create_spec k g) (XGROUP_CREATE ref_redis k g)"
  by (simp add: ref_redis_def, rule change_refines) (auto simp: ref_simps split: if_splits)

lemma ref_XACK: "refines rv (xack_spec k g i) (XACK ref_redis k g i)"
  by (simp add: ref_redis_def, rule change_refines) (auto simp: ref_simps split: if_splits option.splits)

lemma ref_XDEL: "refines rv (xdel_spec k i) (XDEL ref_redis k i)"
  by (simp add: ref_redis_def, rule change_refines) (auto simp: ref_simps split: if_splits option.splits)

lemma ref_SET: "refines rv (set_spec k x) (SET ref_redis k x)"
  by (simp add: refines_def ref_redis_def set_spec_def)

interpretation ref: redis_server ref_redis rv
  by (unfold_locales; (intro ref_XAUTOCLAIM ref_XREADGROUP ref_XGROUP_CREATE ref_XACK ref_XDEL ref_SET)?)
    (simp add: ref_redis_def, rule change_refines,
      auto simp: ref_simps split: if_splits option.splits rvalue.splits)+

end
