(* ===== verification/World.thy ===== *)
theory World
  imports Metrics Redis_Api
begin

text \<open>
  The world an operation of the adapter runs in: the Redis server, the clock, the context that
  may be cancelled, the recorder and the source of random bytes; and how a call to the server
  may go. Between two calls of an operation the other clients, the expiry of keys and the
  other goroutines act: a \<open>turn\<close> is one such interval and the fate of the call after it.
\<close>

datatype delivery = Delivered | NotDelivered goerr | ReplyLost goerr

text \<open>
  In a turn the others change the server, time passes, the parent context may end with an
  error, and the lease heartbeat may give up and cancel the job's context.
\<close>

record 's turn =
  others :: "'s \<Rightarrow> 's"
  elapsed :: nat
  stops :: "goerr option"
  loses :: bool
  outcome :: delivery

text \<open>
  \<open>hist\<close> is what this process did to the server: the server before and after each of its own
  commands and scripts, in order.
\<close>

record 's world =
  srv :: 's
  clock :: time
  stopped :: "goerr option"
  lost :: bool
  turns :: "'s turn list"
  recorder :: "Recorder option"
  entropy :: "string list"
  hist :: "('s \<times> 's) list"

type_synonym ('s, 'z, 'a) op = "(('s, 'z) world_scheme, goerr + 'a) state"

section \<open>Calls\<close>

definition take_turn :: "'s turn \<Rightarrow> ('s, 'z) world_scheme \<Rightarrow> ('s, 'z) world_scheme" where
  "take_turn t w =
     w\<lparr>srv := others t (srv w), clock := clock w + int (elapsed t),
       stopped := (if stopped w = None then stops t else stopped w), lost := lost w \<or> loses t\<rparr>"

definition serve :: "delivery \<Rightarrow> ('s, 'a) cmd \<Rightarrow> ('s, 'z, 'a) op" where
  "serve d m =
     State (\<lambda>w. case d of
       NotDelivered e \<Rightarrow> (Inl e, w)
     | Delivered \<Rightarrow>
         (case run_state m (srv w) of (r, s) \<Rightarrow>
            (map_sum ErrText (\<lambda>x. x) r, w\<lparr>srv := s, hist := hist w @ [(srv w, s)]\<rparr>))
     | ReplyLost e \<Rightarrow>
         (case run_state m (srv w) of (r, s) \<Rightarrow>
            (Inl e, w\<lparr>srv := s, hist := hist w @ [(srv w, s)]\<rparr>)))"

definition call :: "('s, 'a) cmd \<Rightarrow> ('s, 'z, 'a) op" where
  "call m =
     State (\<lambda>w. case turns w of
       [] \<Rightarrow> run_state (serve Delivered m) w
     | t # ts \<Rightarrow> run_state (serve (outcome t) m) (take_turn t (w\<lparr>turns := ts\<rparr>)))"

section \<open>The context, the clock, the recorder\<close>

text \<open>\<^verbatim>\<open>ctx.Err()\<close> of the parent context, and of the context of the job being processed.\<close>

definition parent_Err :: "('s, 'z) world_scheme \<Rightarrow> goerr option" where
  "parent_Err w = stopped w"

definition ctx_Err :: "('s, 'z) world_scheme \<Rightarrow> goerr option" where
  "ctx_Err w = (case stopped w of Some e \<Rightarrow> Some e | None \<Rightarrow> if lost w then Some Canceled else None)"

definition Now :: "(('s, 'z) world_scheme, time) state" where
  "Now = State (\<lambda>w. (clock w, w))"

definition metric :: "(Recorder \<Rightarrow> Recorder) \<Rightarrow> (('s, 'z) world_scheme, unit) state" where
  "metric f = modify (\<lambda>w. w\<lparr>recorder := map_option f (recorder w)\<rparr>)"

text \<open>
  \<^verbatim>\<open>makeIdentifier\<close> of \<^verbatim>\<open>pkg/queue/enqueuer.go\<close>: twelve random bytes in hexadecimal, or the
  empty string when the source fails.
\<close>

definition makeIdentifier :: "(('s, 'z) world_scheme, string) state" where
  "makeIdentifier =
     State (\<lambda>w. case entropy w of
       [] \<Rightarrow> ([], w)
     | b # bs \<Rightarrow> (if length b < 12 then [] else hex (take 12 b), w\<lparr>entropy := bs\<rparr>))"

section \<open>What an operation does to the server\<close>

text \<open>\<open>own G w\<close>: every change this process has made to the server is in \<open>G\<close>.\<close>

definition own :: "('s \<Rightarrow> 's \<Rightarrow> bool) \<Rightarrow> ('s, 'z) world_scheme \<Rightarrow> bool" where
  "own G w \<longleftrightarrow> (\<forall>(s, s') \<in> set (hist w). G s s')"

text \<open>\<open>changes G m\<close>: a command or script changes the server within \<open>G\<close>, whatever it replies.\<close>

definition changes :: "('s \<Rightarrow> 's \<Rightarrow> bool) \<Rightarrow> ('s, 'a) cmd \<Rightarrow> bool" where
  "changes G m \<longleftrightarrow> (\<forall>s. G s (snd (run_state m s)))"

lemma own_upd [simp]:
  "own G (w\<lparr>srv := a\<rparr>) = own G w" "own G (w\<lparr>clock := b\<rparr>) = own G w" "own G (w\<lparr>stopped := c\<rparr>) = own G w"
  "own G (w\<lparr>lost := d\<rparr>) = own G w" "own G (w\<lparr>turns := e\<rparr>) = own G w" "own G (w\<lparr>recorder := f\<rparr>) = own G w"
  "own G (w\<lparr>entropy := g\<rparr>) = own G w"
  by (simp_all add: own_def)

lemma own_take_turn [simp]: "own G (take_turn t w) = own G w"
  by (simp add: take_turn_def)

lemma own_snoc [simp]: "own G (w\<lparr>hist := hist w @ [p]\<rparr>) \<longleftrightarrow> own G w \<and> (case p of (s, s') \<Rightarrow> G s s')"
  by (auto simp: own_def)

lemma own_hist_upd: "own G (w\<lparr>hist := h\<rparr>) \<longleftrightarrow> (\<forall>(s, s') \<in> set h. G s s')"
  by (simp add: own_def)

lemma changesD: "changes G m \<Longrightarrow> run_state m s = (r, s') \<Longrightarrow> G s s'"
  by (metis changes_def snd_conv)

lemma keeps_serve: "changes G m \<Longrightarrow> keeps (own G) (serve d m)"
  by (rule keepsI) (cases d; auto simp: serve_def own_hist_upd own_def dest: changesD split: prod.splits)

lemma keeps_call [wp_intros]: "changes G m \<Longrightarrow> keeps (own G) (call m)"
proof (rule keepsI)
  fix w r w'
  assume G: "changes G m" and w: "own G w" and run: "run_state (call m) w = (r, w')"
  show "own G w'"
  proof (cases "turns w")
    case Nil
    then show ?thesis using run w keepsD [OF keeps_serve [OF G, of Delivered] w] by (simp add: call_def)
  next
    case (Cons t ts)
    then have "run_state (serve (outcome t) m) (take_turn t (w\<lparr>turns := ts\<rparr>)) = (r, w')"
      using run by (simp add: call_def)
    then show ?thesis using keepsD [OF keeps_serve [OF G]] w by (metis own_take_turn own_upd(5))
  qed
qed

lemma keeps_own_metric [wp_intros]: "keeps (own G) (metric f)"
  by (simp add: metric_def keeps_modify)

lemma keeps_own_Now [wp_intros]: "keeps (own G) Now"
  by (rule keepsI) (simp add: Now_def)

lemma keeps_own_makeIdentifier [wp_intros]: "keeps (own G) makeIdentifier"
  by (rule keepsI) (auto simp: makeIdentifier_def split: list.splits)

text \<open>The recorder is never misused, and its samples have labels of the catalog.\<close>

definition rec_ok :: "('s, 'z) world_scheme \<Rightarrow> bool" where
  "rec_ok w \<longleftrightarrow> pred_option recorder_ok (recorder w)"

lemma rec_ok_upd [simp]:
  "rec_ok (w\<lparr>srv := a\<rparr>) = rec_ok w" "rec_ok (w\<lparr>clock := b\<rparr>) = rec_ok w" "rec_ok (w\<lparr>stopped := c\<rparr>) = rec_ok w"
  "rec_ok (w\<lparr>lost := d\<rparr>) = rec_ok w" "rec_ok (w\<lparr>turns := e\<rparr>) = rec_ok w" "rec_ok (w\<lparr>hist := f\<rparr>) = rec_ok w"
  "rec_ok (w\<lparr>entropy := g\<rparr>) = rec_ok w" "rec_ok (take_turn t w) = rec_ok w"
  by (simp_all add: rec_ok_def take_turn_def)

lemma keeps_rec_serve: "keeps rec_ok (serve d m)"
  by (rule keepsI) (cases d; auto simp: serve_def split: prod.splits)

lemma keeps_rec_call [wp_intros]: "keeps rec_ok (call m)"
proof (rule keepsI)
  fix w r w'
  assume w: "rec_ok w" and run: "run_state (call m) w = (r, w')"
  show "rec_ok w'"
  proof (cases "turns w")
    case Nil
    then show ?thesis using run w keepsD [OF keeps_rec_serve [of Delivered]] by (simp add: call_def)
  next
    case (Cons t ts)
    then have "run_state (serve (outcome t) m) (take_turn t (w\<lparr>turns := ts\<rparr>)) = (r, w')"
      using run by (simp add: call_def)
    then show ?thesis using keepsD [OF keeps_rec_serve] w by (metis rec_ok_upd(5,8))
  qed
qed

lemma keeps_rec_metric: "(\<And>r. recorder_ok r \<Longrightarrow> recorder_ok (f r)) \<Longrightarrow> keeps rec_ok (metric f)"
  unfolding metric_def by (rule keeps_modify) (auto simp: rec_ok_def option.pred_map pred_option_def)

lemma keeps_rec_Inc [wp_intros]: "in_catalog OpAdd n (length ls) \<Longrightarrow> keeps rec_ok (metric (Inc n ls))"
  by (rule keeps_rec_metric) (simp add: recorder_ops record_ok)

lemma keeps_rec_Add [wp_intros]: "in_catalog OpAdd n (length ls) \<Longrightarrow> keeps rec_ok (metric (Add n v ls))"
  by (rule keeps_rec_metric) (simp add: recorder_ops record_ok)

lemma keeps_rec_Set [wp_intros]: "in_catalog OpSet n (length ls) \<Longrightarrow> keeps rec_ok (metric (SetTo n v ls))"
  by (rule keeps_rec_metric) (simp add: recorder_ops record_ok)

lemma keeps_rec_Delete [wp_intros]: "in_catalog OpDelete n (length ls) \<Longrightarrow> keeps rec_ok (metric (Delete n ls))"
  by (rule keeps_rec_metric) (simp add: recorder_ops record_ok)

lemma keeps_rec_Observe [wp_intros]: "in_catalog OpObserve n (length ls) \<Longrightarrow> keeps rec_ok (metric (Observe n v ls))"
  by (rule keeps_rec_metric) (simp add: recorder_ops record_ok)

lemma keeps_rec_Now [wp_intros]: "keeps rec_ok Now"
  by (rule keepsI) (simp add: Now_def)

lemma keeps_rec_makeIdentifier [wp_intros]: "keeps rec_ok makeIdentifier"
  by (rule keepsI) (auto simp: makeIdentifier_def split: list.splits)

text \<open>A call that goes through, on a server left alone.\<close>

lemma call_quiet:
  "turns w = [] \<Longrightarrow>
   run_state (call m) w =
     (case run_state m (srv w) of (r, s) \<Rightarrow>
        (map_sum ErrText (\<lambda>x. x) r, w\<lparr>srv := s, hist := hist w @ [(srv w, s)]\<rparr>))"
  by (simp add: call_def serve_def)

end
