(* ===== verification/Store.thy ===== *)
theory Store
  imports World
begin

text \<open>
  \<^verbatim>\<open>pkg/persistence/redis/store.go\<close> and \<^verbatim>\<open>pkg/persistence/store.go\<close>: the job store. The Lua
  scripts are commands of the server, run as a whole; the operations call them through the
  client and keep the operation metrics.
\<close>

section \<open>Scripts\<close>

definition acknowledgeScript ::
    "'s redis \<Rightarrow> string \<Rightarrow> string \<Rightarrow> string \<Rightarrow> string \<Rightarrow> string \<Rightarrow> string \<Rightarrow> string \<Rightarrow> int \<Rightarrow> ('s, int) cmd" where
  "acknowledgeScript R jobk repk stream leasek token grp deliveryID ttlms =
     bindE (GET R leasek) (\<lambda>owner. if owner \<noteq> Some token then okE 0 else
     bindE (EXISTS R jobk) (\<lambda>n. if n = 0 then okE 0 else
     bindE (XACK R stream grp deliveryID) (\<lambda>_.
     bindE (XDEL R stream deliveryID) (\<lambda>_.
     bindE (if ttlms > 0 then bindE (PEXPIRE R jobk ttlms) (\<lambda>_. PEXPIRE R repk ttlms) else okE 0) (\<lambda>_.
     bindE (DEL R leasek) (\<lambda>_. okE 1))))))"

text \<open>\<^verbatim>\<open>redis.pcall\<close> hands the error of \<^verbatim>\<open>SET\<close> to the script instead of ending it.\<close>

definition enqueueScript ::
    "'s redis \<Rightarrow> string \<Rightarrow> string \<Rightarrow> string \<Rightarrow> string \<Rightarrow> ('s, int) cmd" where
  "enqueueScript R jobk stream value payload =
     bindE (EXISTS R jobk) (\<lambda>n. if n = 1 then okE 0 else
     bindE (XADD R stream [(''job'', payload)]) (\<lambda>delivery.
     State_Monad.bind (SET R jobk value) (\<lambda>stored.
       case stored of
         Inl e \<Rightarrow> bindE (XDEL R stream delivery) (\<lambda>_. failE e)
       | Inr _ \<Rightarrow> okE 1)))"

definition updateJobScript ::
    "'s redis \<Rightarrow> string \<Rightarrow> string \<Rightarrow> string \<Rightarrow> string \<Rightarrow> string \<Rightarrow> ('s, int) cmd" where
  "updateJobScript R jobk repk leasek value token =
     bindE (GET R leasek) (\<lambda>owner. if owner \<noteq> Some token then okE (- 1) else
     bindE (EXISTS R jobk) (\<lambda>n. if n = 0 then okE 0 else
     bindE (SET R jobk value) (\<lambda>_.
     bindE (PERSIST R repk) (\<lambda>_. okE 1))))"

definition updateReportScript ::
    "'s redis \<Rightarrow> string \<Rightarrow> string \<Rightarrow> string \<Rightarrow> string \<Rightarrow> string \<Rightarrow> ('s, int) cmd" where
  "updateReportScript R jobk repk leasek value token =
     bindE (GET R leasek) (\<lambda>owner. if owner \<noteq> Some token then okE (- 1) else
     bindE (EXISTS R jobk) (\<lambda>n. if n = 0 then okE 0 else
     bindE (SET R repk value) (\<lambda>_.
     bindE (PERSIST R jobk) (\<lambda>_. okE 1))))"

section \<open>Values\<close>

text \<open>\<^verbatim>\<open>etc.RedisStore\<close>: the namespace of the keys and the retention, in nanoseconds.\<close>

record store_config =
  st_Namespace :: string
  ScanJobTTL :: int

text \<open>\<^verbatim>\<open>persistence.Lease\<close>, carried by the context; a context without one has empty fields.\<close>

record Lease =
  lease_Key :: string
  lease_Token :: string

definition no_lease :: Lease where
  "no_lease = \<lparr>lease_Key = [], lease_Token = []\<rparr>"

definition marshalSized :: "codec \<Rightarrow> string + json \<Rightarrow> goerr + (string \<times> nat)" where
  "marshalSized C v =
     (case v of
        Inl e \<Rightarrow> Inl (ErrText e)
      | Inr j \<Rightarrow>
          let data = json_text C j in
          case gzip C data of
            Inl e \<Rightarrow> Inl (Wrap ''compressing value'' (ErrText e))
          | Inr z \<Rightarrow> Inr (z, length data))"

definition maxDecompressedSize :: nat where
  "maxDecompressedSize = 64 * 1024 * 1024"

definition decompress :: "codec \<Rightarrow> string \<Rightarrow> goerr + string" where
  "decompress C value =
     (if length value < 2 \<or> value ! 0 \<noteq> CHR 0x1F \<or> value ! 1 \<noteq> CHR 0x8B then Inr value
      else case gunzip C value of
        Inl e \<Rightarrow> Inl (ErrText e)
      | Inr (data, err) \<Rightarrow>
          if length data > maxDecompressedSize
          then Inl (ErrText (''decompressed value exceeds '' @ dec_of_nat maxDecompressedSize @ '' bytes''))
          else (case err of Some e \<Rightarrow> Inl (ErrText e) | None \<Rightarrow> Inr data))"

text \<open>\<^verbatim>\<open>Duration.Milliseconds\<close> truncates towards zero.\<close>

definition Milliseconds :: "int \<Rightarrow> int" where
  "Milliseconds d = (if d < 0 then - (- d div 1000000) else d div 1000000)"

definition ttlMillis :: "store_config \<Rightarrow> int" where
  "ttlMillis cfg =
     (let ms = Milliseconds (ScanJobTTL cfg) in if ms = 0 \<and> ScanJobTTL cfg > 0 then 1 else ms)"

definition keyForScanJob :: "store_config \<Rightarrow> ScanJobKey \<Rightarrow> string" where
  "keyForScanJob cfg k = st_Namespace cfg @ '':scan-job:'' @ ScanJobKey_String k"

definition keyForScanReport :: "store_config \<Rightarrow> ScanJobKey \<Rightarrow> string" where
  "keyForScanReport cfg k = st_Namespace cfg @ '':scan-report:'' @ ScanJobKey_String k"

definition unmarshal_job :: "codec \<Rightarrow> string \<Rightarrow> string + ScanJob" where
  "unmarshal_job C data = bindR (json_parse C data) (ScanJob_of_json C)"

definition unmarshal_report :: "codec \<Rightarrow> string \<Rightarrow> string + ScanReport" where
  "unmarshal_report C data = bindR (json_parse C data) (ScanReport_of_json C)"

section \<open>Operations\<close>

definition operation ::
    "string \<Rightarrow> (('s, 'z) world_scheme, (goerr + 'a) \<times> string) state \<Rightarrow> ('s, 'z, 'a) op" where
  "operation name m =
     State_Monad.bind Now (\<lambda>started.
     State_Monad.bind m (\<lambda>(r, result).
       let label = (case r of Inl e \<Rightarrow> if As_missing e then ''not_found'' else ''error'' | Inr _ \<Rightarrow> result) in
       thenM (metric (Inc ''store_operations_total'' [name, label]))
       (State_Monad.bind Now (\<lambda>finished.
        thenM (metric (Observe ''store_operation_duration_seconds'' (Secs (finished - started)) [name]))
        (State_Monad.return r)))))"

text \<open>The outcome label of an operation that succeeds as it stands.\<close>

definition labelled :: "string \<Rightarrow> ('s, 'z, 'a) op \<Rightarrow> (('s, 'z) world_scheme, (goerr + 'a) \<times> string) state" where
  "labelled l m = State_Monad.bind m (\<lambda>r. State_Monad.return (r, l))"

definition store_written :: "string \<Rightarrow> nat \<Rightarrow> nat \<Rightarrow> (('s, 'z) world_scheme, unit) state" where
  "store_written rc raw compressed =
     thenM (metric (Add ''store_bytes_written_total'' (Num (int raw)) [rc, ''raw'']))
       (metric (Add ''store_bytes_written_total'' (Num (int compressed)) [rc, ''compressed'']))"

definition store_Enqueue ::
    "'s redis \<Rightarrow> codec \<Rightarrow> store_config \<Rightarrow> ScanJob \<Rightarrow> string \<Rightarrow> string \<Rightarrow> ('s, 'z, unit) op" where
  "store_Enqueue R C cfg scanJob stream payload =
     operation ''enqueue''
       (case marshalSized C (ScanJob_to_json C scanJob) of
          Inl e \<Rightarrow> State_Monad.return (Inl e, ''success'')
        | Inr (value, rawSize) \<Rightarrow>
            State_Monad.bind (call (enqueueScript R (keyForScanJob cfg (job_Key scanJob)) stream value payload))
              (\<lambda>r. case r of
                 Inl e \<Rightarrow> State_Monad.return (Inl e, ''success'')
               | Inr applied \<Rightarrow>
                   if applied = 0 then State_Monad.return (Inr (), ''not_applied'')
                   else thenM (store_written ''job'' rawSize (length value))
                          (State_Monad.return (Inr (), ''success''))))"

definition getJob :: "'s redis \<Rightarrow> codec \<Rightarrow> store_config \<Rightarrow> ScanJobKey \<Rightarrow> ('s, 'z, ScanJob option) op" where
  "getJob R C cfg key =
     bindE (call (GET R (keyForScanJob cfg key))) (\<lambda>value.
       case value of
         None \<Rightarrow> okE None
       | Some v \<Rightarrow>
           (case decompress C v of
              Inl e \<Rightarrow> failE (Wrap ''decompressing scan job'' e)
            | Inr data \<Rightarrow>
                (case unmarshal_job C data of
                   Inl e \<Rightarrow> failE (Wrap ''unmarshaling scan job'' (ErrText e))
                 | Inr j \<Rightarrow> okE (Some j))))"

definition store_Get_body ::
    "'s redis \<Rightarrow> codec \<Rightarrow> store_config \<Rightarrow> ScanJobKey \<Rightarrow> ('s, 'z, ScanJob option) op" where
  "store_Get_body R C cfg key =
     bindE (getJob R C cfg key) (\<lambda>scanJob.
       case scanJob of
         None \<Rightarrow> okE None
       | Some j \<Rightarrow>
           bindE (call (GET R (keyForScanReport cfg key))) (\<lambda>value.
             case value of
               None \<Rightarrow> okE (Some j)
             | Some v \<Rightarrow>
                 (case decompress C v of
                    Inl e \<Rightarrow> failE (Wrap ''decompressing scan report'' e)
                  | Inr data \<Rightarrow>
                      (case unmarshal_report C data of
                         Inl e \<Rightarrow> failE (Wrap ''unmarshaling scan report'' (ErrText e))
                       | Inr rep \<Rightarrow> okE (Some (j\<lparr>job_Report := rep\<rparr>))))))"

definition store_Get ::
    "'s redis \<Rightarrow> codec \<Rightarrow> store_config \<Rightarrow> ScanJobKey \<Rightarrow> ('s, 'z, ScanJob option) op" where
  "store_Get R C cfg key =
     operation ''read''
       (State_Monad.bind (store_Get_body R C cfg key) (\<lambda>r.
          State_Monad.return (r, if r = Inr None then ''not_found'' else ''success'')))"

definition store_update ::
    "'s redis \<Rightarrow> codec \<Rightarrow> store_config \<Rightarrow> Lease \<Rightarrow> ScanJob \<Rightarrow> ('s, 'z, unit) op" where
  "store_update R C cfg lease scanJob =
     (case marshalSized C (ScanJob_to_json C scanJob) of
        Inl e \<Rightarrow> failE (Wrap ''marshaling scan job'' e)
      | Inr (value, rawSize) \<Rightarrow>
          if lease_Key lease = [] \<or> lease_Token lease = []
          then failE (ErrText ''scan job update requires ownership'')
          else State_Monad.bind
            (call (updateJobScript R (keyForScanJob cfg (job_Key scanJob))
                     (keyForScanReport cfg (job_Key scanJob)) (lease_Key lease) value (lease_Token lease)))
            (\<lambda>r. case r of
               Inl e \<Rightarrow> failE (Wrap ''updating scan job'' e)
             | Inr applied \<Rightarrow>
                 if applied = 0 then failE (missingJob (job_Key scanJob))
                 else if applied = - 1 then failE (ErrText ''scan job ownership lost'')
                 else thenM (store_written ''job'' rawSize (length value)) (okE ())))"

text \<open>The job with its new status, at time \<open>now\<close>.\<close>

definition with_status :: "ScanJobStatus \<Rightarrow> string list \<Rightarrow> time \<Rightarrow> ScanJob \<Rightarrow> ScanJob" where
  "with_status newStatus messages now j =
     (let j = j\<lparr>job_Status := newStatus\<rparr>;
          j = (if newStatus = Pending then j\<lparr>Attempts := Attempts j + 1\<rparr> else j);
          j = j\<lparr>job_Error := (case messages of [] \<Rightarrow> [] | m # _ \<Rightarrow> m)\<rparr>
      in if newStatus = Finished then j\<lparr>FinishedAt := now\<rparr> else j)"

definition store_UpdateStatus ::
    "'s redis \<Rightarrow> codec \<Rightarrow> store_config \<Rightarrow> Lease \<Rightarrow> ScanJobKey \<Rightarrow> ScanJobStatus \<Rightarrow> string list \<Rightarrow> ('s, 'z, unit) op" where
  "store_UpdateStatus R C cfg lease key newStatus messages =
     operation ''status'' (labelled ''success''
       (bindE (getJob R C cfg key) (\<lambda>scanJob.
          case scanJob of
            None \<Rightarrow> failE (missingJob key)
          | Some j \<Rightarrow>
              State_Monad.bind Now (\<lambda>now.
                store_update R C cfg lease (with_status newStatus messages now j)))))"

definition store_UpdateReport ::
    "'s redis \<Rightarrow> codec \<Rightarrow> store_config \<Rightarrow> Lease \<Rightarrow> ScanJobKey \<Rightarrow> ScanReport \<Rightarrow> ('s, 'z, unit) op" where
  "store_UpdateReport R C cfg lease key report =
     operation ''report'' (labelled ''success''
       (case marshalSized C (ScanReport_to_json C report) of
          Inl e \<Rightarrow> failE (Wrap ''marshaling scan report'' e)
        | Inr (value, rawSize) \<Rightarrow>
            if lease_Key lease = [] \<or> lease_Token lease = []
            then failE (ErrText ''scan report update requires ownership'')
            else State_Monad.bind
              (call (updateReportScript R (keyForScanJob cfg key) (keyForScanReport cfg key)
                       (lease_Key lease) value (lease_Token lease)))
              (\<lambda>r. case r of
                 Inl e \<Rightarrow> failE (Wrap ''updating scan report'' e)
               | Inr applied \<Rightarrow>
                   if applied = 0 then failE (missingJob key)
                   else if applied = - 1 then failE (ErrText ''scan job ownership lost'')
                   else
                     (let (capability, format) = JobLabels key in
                      thenM (store_written ''report'' rawSize (length value))
                      (thenM (metric (Observe ''report_size_bytes'' (Num (int rawSize)) [capability, format, ''raw'']))
                      (thenM (metric (Observe ''report_size_bytes'' (Num (int (length value))) [capability, format, ''compressed'']))
                       (okE ())))))))"

definition store_Acknowledge ::
    "'s redis \<Rightarrow> codec \<Rightarrow> store_config \<Rightarrow> Lease \<Rightarrow> ScanJobKey \<Rightarrow> string \<Rightarrow> string \<Rightarrow> string \<Rightarrow> ('s, 'z, unit) op" where
  "store_Acknowledge R C cfg lease key stream grp deliveryID =
     operation ''acknowledge'' (labelled ''success''
       (bindE (getJob R C cfg key) (\<lambda>state.
          if (case state of None \<Rightarrow> True | Some j \<Rightarrow> job_Status j \<noteq> Finished \<and> job_Status j \<noteq> Failed)
          then failE (ErrText ''cannot acknowledge a non-terminal scan job'')
          else if lease_Key lease = [] \<or> lease_Token lease = []
          then failE (ErrText ''acknowledgement requires job ownership'')
          else bindE
            (call (acknowledgeScript R (keyForScanJob cfg key) (keyForScanReport cfg key) stream
                     (lease_Key lease) (lease_Token lease) grp deliveryID (ttlMillis cfg)))
            (\<lambda>ack. if ack \<noteq> 1
                then failE (ErrText ''scan job ownership lost before acknowledgement'') else okE ()))))"

section \<open>What the scripts do to the keyspace\<close>

text \<open>The changes as functions on the view; a script that fails half-way has done a prefix of them.\<close>

definition xack_effect :: "string \<Rightarrow> string \<Rightarrow> string \<Rightarrow> view \<Rightarrow> view" where
  "xack_effect k g i v =
     (case ks v k of Some (Strm es gs) \<Rightarrow> put_value k (Strm es (drop_pending g i gs)) v | _ \<Rightarrow> v)"

definition xdel_effect :: "string \<Rightarrow> string \<Rightarrow> view \<Rightarrow> view" where
  "xdel_effect k i v =
     (case ks v k of Some (Strm es gs) \<Rightarrow> put_value k (Strm (filter (\<lambda>e. fst e \<noteq> i) es) gs) v | _ \<Rightarrow> v)"

definition pexpire_effect :: "string \<Rightarrow> int \<Rightarrow> view \<Rightarrow> view" where
  "pexpire_effect k ms v =
     (if ks v k = None then v else if ms \<le> 0 then remove_key k v else put_ttl k (Some ms) v)"

definition set_effect :: "string \<Rightarrow> string \<Rightarrow> view \<Rightarrow> view" where
  "set_effect k x v = put_ttl k None (put_value k (Str x) v)"

definition apply_some :: "(view \<Rightarrow> view) list \<Rightarrow> view \<Rightarrow> view \<Rightarrow> bool" where
  "apply_some fs v v' \<longleftrightarrow> (\<exists>n \<le> length fs. v' = fold (\<lambda>f. f) (take n fs) v)"

definition held :: "Lease \<Rightarrow> view \<Rightarrow> bool" where
  "held l v \<longleftrightarrow> ks v (lease_Key l) = Some (Str (lease_Token l))"

definition ack_steps :: "string \<Rightarrow> string \<Rightarrow> string \<Rightarrow> string \<Rightarrow> string \<Rightarrow> string \<Rightarrow> int \<Rightarrow> (view \<Rightarrow> view) list" where
  "ack_steps jobk repk stream leasek grp i ms =
     [xack_effect stream grp i, xdel_effect stream i]
     @ (if ms > 0 then [pexpire_effect jobk ms, pexpire_effect repk ms] else [])
     @ [remove_key leasek]"

definition ack_rel ::
    "string \<Rightarrow> string \<Rightarrow> string \<Rightarrow> Lease \<Rightarrow> string \<Rightarrow> string \<Rightarrow> int \<Rightarrow> view \<Rightarrow> view \<Rightarrow> bool" where
  "ack_rel jobk repk stream l grp i ms v v' \<longleftrightarrow>
     v' = v \<or> held l v \<and> ks v jobk \<noteq> None \<and> apply_some (ack_steps jobk repk stream (lease_Key l) grp i ms) v v'"

definition update_job_rel :: "string \<Rightarrow> string \<Rightarrow> Lease \<Rightarrow> string \<Rightarrow> view \<Rightarrow> view \<Rightarrow> bool" where
  "update_job_rel jobk repk l value v v' \<longleftrightarrow>
     v' = v \<or> held l v \<and> ks v jobk \<noteq> None \<and> apply_some [set_effect jobk value, put_ttl repk None] v v'"

definition update_report_rel :: "string \<Rightarrow> string \<Rightarrow> Lease \<Rightarrow> string \<Rightarrow> view \<Rightarrow> view \<Rightarrow> bool" where
  "update_report_rel jobk repk l value v v' \<longleftrightarrow>
     v' = v \<or> held l v \<and> ks v jobk \<noteq> None \<and> apply_some [set_effect repk value, put_ttl jobk None] v v'"

text \<open>A command is refused at a view: on some state of the server that shows it, it ends with an error.\<close>

definition refused :: "('s \<Rightarrow> view) \<Rightarrow> ('s, 'a) cmd \<Rightarrow> view \<Rightarrow> bool" where
  "refused V m v \<longleftrightarrow> (\<exists>s e. V s = v \<and> fst (run_state m s) = Inl e)"

text \<open>
  An enqueue changes nothing, because the job exists or the server refuses to add a delivery; or it
  both adds the delivery and writes the job; or the write is refused, and then the delivery is taken
  back, and only if that is refused too does it stay without a job.
\<close>

definition enqueue_outcome ::
    "'s redis \<Rightarrow> ('s \<Rightarrow> view) \<Rightarrow> string \<Rightarrow> string \<Rightarrow> string \<Rightarrow> string \<Rightarrow> view \<Rightarrow> view \<Rightarrow> bool" where
  "enqueue_outcome R V jobk stream value payload v v' \<longleftrightarrow>
     v' = v \<and> (ks v jobk \<noteq> None \<or> refused V (EXISTS R jobk) v \<or> refused V (XADD R stream [(''job'', payload)]) v) \<or>
     ks v jobk = None \<and>
     (\<exists>es gs i. as_stream (ks v stream) = Some (es, gs) \<and> i \<notin> fst ` set es \<and>
        (let added = put_value stream (Strm (es @ [(i, [(''job'', payload)])]) gs) v in
         v' = set_effect jobk value added \<or>
         refused V (SET R jobk value) added \<and>
           (v' = xdel_effect stream i added \<or> refused V (XDEL R stream i) added \<and> v' = added)))"

text \<open>The same, without the reasons.\<close>

definition enqueue_rel :: "string \<Rightarrow> string \<Rightarrow> string \<Rightarrow> string \<Rightarrow> view \<Rightarrow> view \<Rightarrow> bool" where
  "enqueue_rel jobk stream value payload v v' \<longleftrightarrow>
     v' = v \<or>
     ks v jobk = None \<and>
     (\<exists>es gs i. as_stream (ks v stream) = Some (es, gs) \<and> i \<notin> fst ` set es \<and>
        (let added = put_value stream (Strm (es @ [(i, [(''job'', payload)])]) gs) v in
         v' = set_effect jobk value added \<or> v' = xdel_effect stream i added \<or> v' = added))"

lemma enqueue_outcome_rel: "enqueue_outcome R V jobk stream value payload v v' \<Longrightarrow> enqueue_rel jobk stream value payload v v'"
  by (auto simp: enqueue_outcome_def enqueue_rel_def Let_def)

lemma xack_spec_effect: "xack_spec k g i v r v' \<Longrightarrow> v' = xack_effect k g i v"
  by (auto simp: xack_spec_def xack_effect_def split: option.splits rvalue.splits)

lemma xdel_spec_effect: "xdel_spec k i v r v' \<Longrightarrow> v' = xdel_effect k i v"
  by (auto simp: xdel_spec_def xdel_effect_def split: option.splits rvalue.splits)

lemma pexpire_spec_effect: "pexpire_spec k ms v r v' \<Longrightarrow> v' = pexpire_effect k ms v"
  by (auto simp: pexpire_spec_def pexpire_effect_def split: if_splits)

lemma apply_some_Nil [simp]: "apply_some fs v v"
  unfolding apply_some_def by (rule exI [of _ 0]) simp

lemma apply_some_empty [simp]: "apply_some [] v v' \<longleftrightarrow> v' = v"
  by (simp add: apply_some_def)

lemma apply_some_Cons: "apply_some (f # fs) v v' \<longleftrightarrow> v' = v \<or> apply_some fs (f v) v'"
proof
  assume "apply_some (f # fs) v v'"
  then obtain n where n: "n \<le> Suc (length fs)" "v' = fold (\<lambda>f. f) (take n (f # fs)) v"
    by (auto simp: apply_some_def)
  then show "v' = v \<or> apply_some fs (f v) v'"
    by (cases n) (auto simp: apply_some_def)
next
  assume "v' = v \<or> apply_some fs (f v) v'"
  then show "apply_some (f # fs) v v'"
  proof
    assume "apply_some fs (f v) v'"
    then obtain n where "n \<le> length fs" "v' = fold (\<lambda>f. f) (take n fs) (f v)"
      by (auto simp: apply_some_def)
    then show ?thesis unfolding apply_some_def by (intro exI [of _ "Suc n"]) simp
  qed simp
qed

lemma as_string_Some: "as_string x = Some (Some t) \<longleftrightarrow> x = Some (Str t)"
  by (cases x; cases "the x") auto

text \<open>
  A script's change as a sequence of its commands: \<open>trail V fs m\<close> says that \<open>m\<close> makes a prefix
  of the changes \<open>fs\<close>, and all of them when it succeeds.
\<close>

definition trail :: "('s \<Rightarrow> view) \<Rightarrow> (view \<Rightarrow> view) list \<Rightarrow> ('s, 'a) cmd \<Rightarrow> bool" where
  "trail V fs m \<longleftrightarrow>
     (\<forall>s. case run_state m s of
        (Inl e, s') \<Rightarrow> apply_some fs (V s) (V s')
      | (Inr x, s') \<Rightarrow> V s' = fold (\<lambda>f. f) fs (V s))"

lemma trail_okE: "trail V [] (okE x)"
  by (simp add: trail_def)

lemma trail_refines: "refines V spec m \<Longrightarrow> (\<And>v r v'. spec v r v' \<Longrightarrow> v' = f v) \<Longrightarrow> trail V [f] m"
  unfolding trail_def
proof
  fix s
  assume m: "refines V spec m" and f: "\<And>v r v'. spec v r v' \<Longrightarrow> v' = f v"
  obtain r s1 where run: "run_state m s = (r, s1)" by fastforce
  show "case run_state m s of (Inl e, s') \<Rightarrow> apply_some [f] (V s) (V s') | (Inr x, s') \<Rightarrow> V s' = fold (\<lambda>f. f) [f] (V s)"
    using run refinesD(2) [OF m] f [OF refinesD(1) [OF m]] by (cases r) simp_all
qed

lemma apply_some_append: "apply_some fs v v' \<Longrightarrow> apply_some (fs @ gs) v v'"
proof -
  assume "apply_some fs v v'"
  then obtain n where "n \<le> length fs" "v' = fold (\<lambda>f. f) (take n fs) v"
    by (auto simp: apply_some_def)
  then show ?thesis unfolding apply_some_def by (intro exI [of _ n]) simp
qed

lemma apply_some_after: "apply_some gs (fold (\<lambda>f. f) fs v) v' \<Longrightarrow> apply_some (fs @ gs) v v'"
  by (induction fs arbitrary: v) (auto simp: apply_some_Cons)

lemma trailD:
  "trail V fs m \<Longrightarrow> run_state m s = (Inl e, s') \<Longrightarrow> apply_some fs (V s) (V s')"
  "trail V fs m \<Longrightarrow> run_state m s = (Inr x, s') \<Longrightarrow> V s' = fold (\<lambda>f. f) fs (V s)"
proof -
  assume "trail V fs m"
  then have *: "case run_state m s of (Inl e, s') \<Rightarrow> apply_some fs (V s) (V s') | (Inr x, s') \<Rightarrow> V s' = fold (\<lambda>f. f) fs (V s)"
    by (simp add: trail_def)
  show "run_state m s = (Inl e, s') \<Longrightarrow> apply_some fs (V s) (V s')"
    "run_state m s = (Inr x, s') \<Longrightarrow> V s' = fold (\<lambda>f. f) fs (V s)"
    using * by simp_all
qed

lemma trail_bindE:
  assumes m: "trail V fs m" and f: "\<And>x. trail V gs (f x)"
  shows "trail V (fs @ gs) (bindE m f)"
  unfolding trail_def
proof
  fix s
  obtain r s1 where run: "run_state m s = (r, s1)" by fastforce
  show "case run_state (bindE m f) s of
      (Inl e, s') \<Rightarrow> apply_some (fs @ gs) (V s) (V s')
    | (Inr x, s') \<Rightarrow> V s' = fold (\<lambda>f. f) (fs @ gs) (V s)"
  proof (cases r)
    case (Inl e)
    then show ?thesis using run trailD(1) [OF m] by (simp add: apply_some_append)
  next
    case (Inr x)
    then have V1: "V s1 = fold (\<lambda>f. f) fs (V s)" using run trailD(2) [OF m] by simp
    show ?thesis
      using trailD [OF f [of x], of s1] V1 run Inr
      by (auto split: prod.splits sum.splits intro: apply_some_after)
  qed
qed

lemma trail_changes: "trail V fs m \<Longrightarrow> changes (\<lambda>s s'. apply_some fs (V s) (V s')) m"
  unfolding changes_def
proof
  fix s
  assume t: "trail V fs m"
  obtain r s' where run: "run_state m s = (r, s')" by fastforce
  have all: "apply_some fs v (fold (\<lambda>f. f) fs v)" for v
    unfolding apply_some_def by (rule exI [of _ "length fs"]) simp
  show "apply_some fs (V s) (V (snd (run_state m s)))"
    using run all trailD [OF t, of s] by (cases r) auto
qed

text \<open>A script that first reads and goes on only under a condition on what it read.\<close>

lemma changes_read:
  assumes g: "refines V spec m" and spec: "\<And>v x v'. spec v x v' \<Longrightarrow> v' = v"
    and e: "\<And>s s'. V s' = V s \<Longrightarrow> G s s'"
    and f: "\<And>x s. spec (V s0) x (V s0) \<Longrightarrow> V s = V s0 \<Longrightarrow> G s0 (snd (run_state (f x) s))"
  shows "G s0 (snd (run_state (bindE m f) s0))"
proof -
  obtain r s1 where run: "run_state m s0 = (r, s1)" by fastforce
  show ?thesis
  proof (cases r)
    case (Inl x)
    then show ?thesis using run e refinesD(2) [OF g] by simp
  next
    case (Inr x)
    then have sp: "spec (V s0) x (V s1)" using refinesD(1) [OF g] run by simp
    then have eq: "V s1 = V s0" by (rule spec)
    have "G s0 (snd (run_state (f x) s1))" by (rule f) (use sp eq in simp_all)
    then show ?thesis using run Inr by simp
  qed
qed

context redis_server begin

lemma trail_XACK: "trail V [xack_effect k g i] (XACK R k g i)"
  by (rule trail_refines [OF XACK]) (rule xack_spec_effect)

lemma trail_XDEL: "trail V [xdel_effect k i] (XDEL R k i)"
  by (rule trail_refines [OF XDEL]) (rule xdel_spec_effect)

lemma trail_PEXPIRE: "trail V [pexpire_effect k ms] (PEXPIRE R k ms)"
  by (rule trail_refines [OF PEXPIRE]) (rule pexpire_spec_effect)

lemma trail_DEL: "trail V [remove_key k] (DEL R k)"
  by (rule trail_refines [OF DEL]) (simp add: del_spec_def)

lemma trail_SET: "trail V [set_effect k x] (SET R k x)"
  by (rule trail_refines [OF SET]) (simp add: set_spec_def set_effect_def)

lemma trail_PERSIST: "trail V [put_ttl k None] (PERSIST R k)"
  by (rule trail_refines [OF PERSIST]) (simp add: persist_spec_def)

text \<open>The scripts that are fenced: a read of the lease, a check that the job exists, the changes.\<close>

lemma changes_fenced:
  assumes t: "\<And>n. trail V fs (rest n)" and G: "\<And>v v'. Q v v' \<longleftrightarrow>
      v' = v \<or> ks v leasek = Some (Str token) \<and> ks v jobk \<noteq> None \<and> apply_some fs v v'"
  shows "changes (\<lambda>s s'. Q (V s) (V s'))
    (bindE (GET R leasek) (\<lambda>owner. if owner \<noteq> Some token then okE bad else
     bindE (EXISTS R jobk) (\<lambda>n. if n = 0 then okE 0 else rest n)))"
  unfolding changes_def
proof
  fix s0
  show "Q (V s0) (V (snd (run_state (bindE (GET R leasek) (\<lambda>owner. if owner \<noteq> Some token then okE bad else
     bindE (EXISTS R jobk) (\<lambda>n. if n = 0 then okE 0 else rest n))) s0)))"
  proof (rule changes_read [OF GET, where G = "\<lambda>s s'. Q (V s) (V s')"])
    fix owner s
    assume o: "get_spec leasek (V s0) owner (V s0)" and s: "V s = V s0"
    show "Q (V s0) (V (snd (run_state (if owner \<noteq> Some token then okE bad else
       bindE (EXISTS R jobk) (\<lambda>n. if n = 0 then okE 0 else rest n)) s)))"
    proof (cases "owner = Some token")
      case True
      then have held: "ks (V s) leasek = Some (Str token)"
        using o s by (simp add: get_spec_def as_string_Some)
      have "Q (V s) (V (snd (run_state (bindE (EXISTS R jobk) (\<lambda>n. if n = 0 then okE 0 else rest n)) s)))"
      proof (rule changes_read [OF EXISTS, where G = "\<lambda>s s'. Q (V s) (V s')"])
        fix n s1
        assume n: "exists_spec jobk (V s) n (V s)" and s1: "V s1 = V s"
        show "Q (V s) (V (snd (run_state (if n = 0 then okE 0 else rest n) s1)))"
        proof (cases "n = 0")
          case False
          then have "ks (V s) jobk \<noteq> None" using n by (auto simp: exists_spec_def split: if_splits)
          then show ?thesis
            using changesD [OF trail_changes [OF t [of n]], of s1] s1 held False
            by (cases "run_state (rest n) s1") (simp add: G)
        qed (simp add: G s1)
      qed (simp_all add: G exists_spec_def)
      then show ?thesis using True s by simp
    qed (simp add: G s)
  qed (simp_all add: G get_spec_def)
qed

lemma changes_acknowledgeScript:
  "changes (\<lambda>s s'. ack_rel jobk repk stream l grp i ms (V s) (V s'))
     (acknowledgeScript R jobk repk stream (lease_Key l) (lease_Token l) grp i ms)"
proof -
  have pex: "trail V (if ms > 0 then [pexpire_effect jobk ms, pexpire_effect repk ms] else [])
      (if ms > 0 then bindE (PEXPIRE R jobk ms) (\<lambda>_. PEXPIRE R repk ms) else okE 0)"
    using trail_bindE [OF trail_PEXPIRE trail_PEXPIRE] by (simp add: trail_okE)
  have "trail V (ack_steps jobk repk stream (lease_Key l) grp i ms)
     (bindE (XACK R stream grp i) (\<lambda>_. bindE (XDEL R stream i) (\<lambda>_.
      bindE (if ms > 0 then bindE (PEXPIRE R jobk ms) (\<lambda>_. PEXPIRE R repk ms) else okE 0) (\<lambda>_.
      bindE (DEL R (lease_Key l)) (\<lambda>_. okE 1)))))"
    unfolding ack_steps_def
    using trail_bindE [OF trail_XACK trail_bindE [OF trail_XDEL trail_bindE [OF pex trail_bindE [OF trail_DEL trail_okE]]]]
    by (simp only: append.simps append_Nil2)
  then show ?thesis
    unfolding acknowledgeScript_def by (intro changes_fenced) (simp_all add: ack_rel_def held_def)
qed

lemma changes_updateJobScript:
  "changes (\<lambda>s s'. update_job_rel jobk repk l value (V s) (V s'))
     (updateJobScript R jobk repk (lease_Key l) value (lease_Token l))"
proof -
  have "trail V ([set_effect jobk value] @ [put_ttl repk None] @ [])
     (bindE (SET R jobk value) (\<lambda>_. bindE (PERSIST R repk) (\<lambda>_. okE 1)))"
    by (intro trail_bindE trail_SET trail_PERSIST trail_okE)
  then show ?thesis
    unfolding updateJobScript_def by (intro changes_fenced) (simp_all add: update_job_rel_def held_def)
qed

lemma changes_updateReportScript:
  "changes (\<lambda>s s'. update_report_rel jobk repk l value (V s) (V s'))
     (updateReportScript R jobk repk (lease_Key l) value (lease_Token l))"
proof -
  have "trail V ([set_effect repk value] @ [put_ttl jobk None] @ [])
     (bindE (SET R repk value) (\<lambda>_. bindE (PERSIST R jobk) (\<lambda>_. okE 1)))"
    by (intro trail_bindE trail_SET trail_PERSIST trail_okE)
  then show ?thesis
    unfolding updateReportScript_def by (intro changes_fenced) (simp_all add: update_report_rel_def held_def)
qed

lemma enqueueScript_outcome:
  assumes run: "run_state (enqueueScript R jobk stream value payload) s0 = (r0, s')"
  shows "enqueue_outcome R V jobk stream value payload (V s0) (V s')"
proof -
  note refusal = refused_def enqueue_outcome_def
  obtain r1 s1 where 1: "run_state (EXISTS R jobk) s0 = (r1, s1)" by fastforce
  show ?thesis
  proof (cases r1)
    case (Inl e)
    then show ?thesis using run 1 refinesD(2) [OF EXISTS 1 [unfolded Inl]]
      by (auto simp: enqueueScript_def refusal intro!: exI [of _ s0] exI [of _ e])
  next
    case (Inr n)
    have V1: "V s1 = V s0" and n: "n = (if ks (V s0) jobk = None then 0 else 1)"
      using refinesD(1) [OF EXISTS 1 [unfolded Inr]] by (simp_all add: exists_spec_def)
    show ?thesis
    proof (cases "ks (V s0) jobk = None")
      case False
      then show ?thesis using run 1 Inr n V1 by (auto simp: enqueueScript_def enqueue_outcome_def)
    next
      case absent: True
      obtain r2 s2 where 2: "run_state (XADD R stream [(''job'', payload)]) s1 = (r2, s2)" by fastforce
      show ?thesis
      proof (cases r2)
        case (Inl e)
        then have "refused V (XADD R stream [(''job'', payload)]) (V s0)" "V s2 = V s0"
          using 2 V1 refinesD(2) [OF XADD 2 [unfolded Inl]] by (auto simp: refused_def intro!: exI [of _ s1])
        then show ?thesis using run 1 2 Inr n absent Inl by (simp add: enqueueScript_def enqueue_outcome_def)
      next
        case i: (Inr i)
        obtain es gs where es: "as_stream (ks (V s0) stream) = Some (es, gs)" "i \<notin> fst ` set es"
          "V s2 = put_value stream (Strm (es @ [(i, [(''job'', payload)])]) gs) (V s0)"
          using refinesD(1) [OF XADD 2 [unfolded i]] V1 by (auto simp: xadd_spec_def)
        obtain r3 s3 where 3: "run_state (SET R jobk value) s2 = (r3, s3)" by fastforce
        have "V s' = set_effect jobk value (V s2) \<or> refused V (SET R jobk value) (V s2) \<and>
          (V s' = xdel_effect stream i (V s2) \<or> refused V (XDEL R stream i) (V s2) \<and> V s' = V s2)"
        proof (cases r3)
          case (Inr u)
          then have "V s3 = set_effect jobk value (V s2)"
            using refinesD(1) [OF SET 3 [unfolded Inr]] by (simp add: set_spec_def set_effect_def)
          then show ?thesis using run 1 2 3 \<open>r1 = Inr n\<close> n absent i Inr by (simp add: enqueueScript_def)
        next
          case (Inl e)
          have V3: "V s3 = V s2" using refinesD(2) [OF SET 3 [unfolded Inl]] .
          have set: "refused V (SET R jobk value) (V s2)" using 3 Inl by (auto simp: refused_def intro!: exI [of _ s2])
          obtain r4 where 4: "run_state (XDEL R stream i) s3 = (r4, s')"
            using run 1 2 3 \<open>r1 = Inr n\<close> n absent i Inl by (auto simp: enqueueScript_def split: prod.splits sum.splits)
          show ?thesis
          proof (cases r4)
            case (Inl e)
            then have "refused V (XDEL R stream i) (V s2)" using 4 V3 by (auto simp: refused_def intro!: exI [of _ s3])
            then show ?thesis using set refinesD(2) [OF XDEL 4 [unfolded Inl]] V3 by simp
          next
            case (Inr m)
            then show ?thesis using set xdel_spec_effect [OF refinesD(1) [OF XDEL 4 [unfolded Inr]]] V3 by simp
          qed
        qed
        then show ?thesis using absent es by (auto simp: enqueue_outcome_def Let_def)
      qed
    qed
  qed
qed

lemma changes_enqueueScript:
  "changes (\<lambda>s s'. enqueue_outcome R V jobk stream value payload (V s) (V s')) (enqueueScript R jobk stream value payload)"
  unfolding changes_def by (metis enqueueScript_outcome prod.collapse)

lemma changes_GET: "(\<And>v. G v v) \<Longrightarrow> changes (\<lambda>s s'. G (V s) (V s')) (GET R k)"
proof -
  assume G: "\<And>v. G v v"
  have "V s' = V s" if "run_state (GET R k) s = (r, s')" for s r s'
    using that refinesD [OF GET [of k]] by (cases r) (auto simp: get_spec_def)
  then show ?thesis unfolding changes_def by (metis G eq_snd_iff)
qed

end

section \<open>What the operations do to the keyspace\<close>

lemma keeps_operation:
  assumes "keeps P m" "\<And>f. keeps P (metric f)" "keeps P Now"
  shows "keeps P (operation name m)"
  unfolding operation_def using assms by (intro wp_intros) (auto simp: Let_def intro!: wp_intros)

lemma keeps_own_operation [wp_intros]: "keeps (own G) m \<Longrightarrow> keeps (own G) (operation name m)"
  by (intro keeps_operation keeps_own_metric keeps_own_Now)

lemma keeps_labelled [wp_intros]: "keeps P m \<Longrightarrow> keeps P (labelled l m)"
  unfolding labelled_def by (intro wp_intros)

lemma keeps_own_written [wp_intros]: "keeps (own G) (store_written rc a b)"
  unfolding store_written_def by (intro wp_intros)

context redis_server begin

lemma own_getJob: "(\<And>v. G v v) \<Longrightarrow> keeps (own (\<lambda>s s'. G (V s) (V s'))) (getJob R C cfg key)"
  unfolding getJob_def by (intro wp_intros changes_GET)

lemma changes_weaken: "changes G m \<Longrightarrow> (\<And>s s'. G s s' \<Longrightarrow> H s s') \<Longrightarrow> changes H m"
  by (simp add: changes_def)

lemma own_store_update:
  "(\<And>v. G v v) \<Longrightarrow>
   (\<And>value v v'. update_job_rel (keyForScanJob cfg (job_Key j)) (keyForScanReport cfg (job_Key j)) l value v v' \<Longrightarrow> G v v') \<Longrightarrow>
   keeps (own (\<lambda>s s'. G (V s) (V s'))) (store_update R C cfg l j)"
  unfolding store_update_def
  by (intro wp_intros changes_weaken [OF changes_updateJobScript]) auto

lemma own_UpdateStatus:
  "(\<And>v. G v v) \<Longrightarrow>
   (\<And>k value v v'. update_job_rel (keyForScanJob cfg k) (keyForScanReport cfg k) l value v v' \<Longrightarrow> G v v') \<Longrightarrow>
   keeps (own (\<lambda>s s'. G (V s) (V s'))) (store_UpdateStatus R C cfg l key st ms)"
  unfolding store_UpdateStatus_def by (intro wp_intros own_getJob own_store_update)

lemma own_UpdateReport:
  "(\<And>v. G v v) \<Longrightarrow>
   (\<And>value v v'. update_report_rel (keyForScanJob cfg key) (keyForScanReport cfg key) l value v v' \<Longrightarrow> G v v') \<Longrightarrow>
   keeps (own (\<lambda>s s'. G (V s) (V s'))) (store_UpdateReport R C cfg l key rep)"
  unfolding store_UpdateReport_def Let_def
  by (intro wp_intros changes_weaken [OF changes_updateReportScript]) auto

lemma own_Acknowledge:
  "(\<And>v. G v v) \<Longrightarrow>
   (\<And>v v'. ack_rel (keyForScanJob cfg key) (keyForScanReport cfg key) stream l grp i (ttlMillis cfg) v v' \<Longrightarrow> G v v') \<Longrightarrow>
   keeps (own (\<lambda>s s'. G (V s) (V s'))) (store_Acknowledge R C cfg l key stream grp i)"
  unfolding store_Acknowledge_def
  by (intro wp_intros own_getJob changes_weaken [OF changes_acknowledgeScript]) auto

lemma own_Enqueue_outcome:
  "(\<And>value n v v'. marshalSized C (ScanJob_to_json C j) = Inr (value, n) \<Longrightarrow>
      enqueue_outcome R V (keyForScanJob cfg (job_Key j)) stream value payload v v' \<Longrightarrow> G v v') \<Longrightarrow>
   keeps (own (\<lambda>s s'. G (V s) (V s'))) (store_Enqueue R C cfg j stream payload)"
  unfolding store_Enqueue_def
  by (intro wp_intros changes_weaken [OF changes_enqueueScript]) auto

lemma own_Enqueue:
  "(\<And>v. G v v) \<Longrightarrow>
   (\<And>value v v'. enqueue_rel (keyForScanJob cfg (job_Key j)) stream value payload v v' \<Longrightarrow> G v v') \<Longrightarrow>
   keeps (own (\<lambda>s s'. G (V s) (V s'))) (store_Enqueue R C cfg j stream payload)"
  by (rule own_Enqueue_outcome) (auto dest: enqueue_outcome_rel)

lemma own_Get: "(\<And>v. G v v) \<Longrightarrow> keeps (own (\<lambda>s s'. G (V s) (V s'))) (store_Get R C cfg key)"
  unfolding store_Get_def store_Get_body_def by (intro wp_intros own_getJob changes_GET)

end

text \<open>What a fenced change leaves alone, and what starts the retention.\<close>

definition stream_ids :: "string \<Rightarrow> view \<Rightarrow> string list" where
  "stream_ids k v = (case ks v k of Some (Strm es gs) \<Rightarrow> map fst es | _ \<Rightarrow> [])"

definition no_new_expiry :: "view \<Rightarrow> view \<Rightarrow> bool" where
  "no_new_expiry v v' \<longleftrightarrow> (\<forall>k. ttl v' k = ttl v k \<or> ttl v' k = None)"

lemma ttl_effects [simp]:
  "ttl (put_value k x v) = ttl v" "ttl (put_ttl k t v) = (ttl v)(k := t)" "ttl (remove_key k v) = (ttl v)(k := None)"
  "ttl (set_effect k y v) = (ttl v)(k := None)"
  by (simp_all add: put_value_def put_ttl_def remove_key_def set_effect_def)

lemma ks_effects [simp]:
  "ks (put_value k x v) = (ks v)(k := Some x)" "ks (put_ttl k t v) = ks v" "ks (remove_key k v) = (ks v)(k := None)"
  "ks (set_effect k y v) = (ks v)(k := Some (Str y))"
  by (simp_all add: put_value_def put_ttl_def remove_key_def set_effect_def)

lemma ttl_stream_effects [simp]: "ttl (xack_effect k g i v) = ttl v" "ttl (xdel_effect k i v) = ttl v"
  by (simp_all add: xack_effect_def xdel_effect_def split: option.split rvalue.split)

lemma no_new_expiry_refl [simp]: "no_new_expiry v v"
  by (simp add: no_new_expiry_def)

lemma update_job_no_expiry: "update_job_rel jk rk l value v v' \<Longrightarrow> no_new_expiry v v'"
  by (auto simp: update_job_rel_def apply_some_Cons no_new_expiry_def split: if_splits)

lemma update_report_no_expiry: "update_report_rel jk rk l value v v' \<Longrightarrow> no_new_expiry v v'"
  by (auto simp: update_report_rel_def apply_some_Cons no_new_expiry_def split: if_splits)

lemma enqueue_no_expiry: "enqueue_rel jk stream value payload v v' \<Longrightarrow> no_new_expiry v v'"
  by (auto simp: enqueue_rel_def Let_def no_new_expiry_def split: if_splits)

text \<open>The acknowledgement starts an expiry only after the delivery has left the stream.\<close>

definition retired_first :: "string \<Rightarrow> string \<Rightarrow> view \<Rightarrow> view \<Rightarrow> bool" where
  "retired_first stream i v v' \<longleftrightarrow> no_new_expiry v v' \<or> i \<notin> set (stream_ids stream v')"

lemma retired_first_refl [simp]: "retired_first stream i v v"
  by (simp add: retired_first_def)

lemma stream_ids_xdel: "i \<notin> set (stream_ids stream (xdel_effect stream i v))"
  by (auto simp: stream_ids_def xdel_effect_def split: option.splits rvalue.splits)

lemma stream_ids_pexpire: "set (stream_ids stream (pexpire_effect k ms v)) \<subseteq> set (stream_ids stream v)"
  by (auto simp: stream_ids_def pexpire_effect_def)

lemma stream_ids_remove: "set (stream_ids stream (remove_key k v)) \<subseteq> set (stream_ids stream v)"
  by (auto simp: stream_ids_def)

lemma ack_retired_first: "ack_rel jobk repk stream l grp i ms v v' \<Longrightarrow> retired_first stream i v v'"
proof -
  assume ack: "ack_rel jobk repk stream l grp i ms v v'"
  let ?v2 = "xdel_effect stream i (xack_effect stream grp i v)"
  have gone: "apply_some fs u v' \<Longrightarrow> (\<And>f x. f \<in> set fs \<Longrightarrow> set (stream_ids stream (f x)) \<subseteq> set (stream_ids stream x)) \<Longrightarrow>
      i \<notin> set (stream_ids stream u) \<Longrightarrow> i \<notin> set (stream_ids stream v')" for fs u
  proof (induction fs arbitrary: u)
    case (Cons f fs)
    then have "set (stream_ids stream (f u)) \<subseteq> set (stream_ids stream u)" by simp
    with Cons show ?case by (auto simp: apply_some_Cons)
  qed simp
  have "v' = v \<or> v' = xack_effect stream grp i v \<or>
      apply_some ((if ms > 0 then [pexpire_effect jobk ms, pexpire_effect repk ms] else []) @ [remove_key (lease_Key l)]) ?v2 v'"
    using ack by (auto simp: ack_rel_def ack_steps_def apply_some_Cons)
  then show ?thesis
  proof (elim disjE)
    assume a: "apply_some ((if ms > 0 then [pexpire_effect jobk ms, pexpire_effect repk ms] else []) @ [remove_key (lease_Key l)]) ?v2 v'"
    have "i \<notin> set (stream_ids stream v')"
      by (rule gone [OF a _ stream_ids_xdel])
        (auto split: if_splits dest: subsetD [OF stream_ids_pexpire] subsetD [OF stream_ids_remove])
    then show ?thesis by (simp add: retired_first_def)
  qed (simp_all add: retired_first_def no_new_expiry_def)
qed

section \<open>The metrics of the store\<close>

lemma keeps_rec_operation [wp_intros]:
  assumes m: "keeps rec_ok m" and name: "name \<in> {''enqueue'', ''status'', ''read'', ''report'', ''acknowledge''}"
  shows "keeps rec_ok (operation name m)"
  unfolding operation_def Let_def using m name by (intro wp_intros) auto

lemma keeps_rec_written [wp_intros]: "keeps rec_ok (store_written rc a b)"
  unfolding store_written_def by (auto intro!: wp_intros)

lemma rec_getJob [wp_intros]: "keeps rec_ok (getJob R C cfg key)"
  unfolding getJob_def by (intro wp_intros)

lemma rec_store_update [wp_intros]: "keeps rec_ok (store_update R C cfg l j)"
  unfolding store_update_def by (intro wp_intros)

lemma rec_UpdateStatus [wp_intros]: "keeps rec_ok (store_UpdateStatus R C cfg l key st ms)"
  unfolding store_UpdateStatus_def by (intro wp_intros) simp

lemma rec_UpdateReport [wp_intros]: "keeps rec_ok (store_UpdateReport R C cfg l key rep)"
  unfolding store_UpdateReport_def Let_def by (intro wp_intros) simp_all

lemma rec_Acknowledge [wp_intros]: "keeps rec_ok (store_Acknowledge R C cfg l key stream grp i)"
  unfolding store_Acknowledge_def by (intro wp_intros) simp

lemma rec_Enqueue [wp_intros]: "keeps rec_ok (store_Enqueue R C cfg j stream payload)"
  unfolding store_Enqueue_def by (intro wp_intros) simp

lemma rec_Get [wp_intros]: "keeps rec_ok (store_Get R C cfg key)"
  unfolding store_Get_def store_Get_body_def by (intro wp_intros) simp

section \<open>Stored values are read back\<close>

lemma decompress_plain:
  "(case value of c # cs \<Rightarrow> c \<noteq> CHR 0x1F | [] \<Rightarrow> True) \<Longrightarrow> decompress C value = Inr value"
  by (cases "value") (auto simp: decompress_def)

context codec_laws begin

lemma decompress_gzip:
  assumes "gzip C data = Inr z" "length data \<le> maxDecompressedSize"
  shows "decompress C z = Inr data"
proof -
  obtain rest where "z = CHR 0x1F # CHR 0x8B # rest"
    using gzip_magic [OF assms(1)] by (cases z; cases "tl z") auto
  then show ?thesis
    using gzip_round [OF assms(1)] assms(2) by (simp add: decompress_def)
qed

lemma decompress_json: "decompress C (json_text C v) = Inr (json_text C v)"
  by (rule decompress_plain) (auto split: list.split dest: json_first)

lemma marshalSized_read:
  assumes "marshalSized C x = Inr (z, n)" "n \<le> maxDecompressedSize"
  obtains v where "x = Inr v" "decompress C z = Inr (json_text C v)" "n = length (json_text C v)"
proof -
  obtain v where x: "x = Inr v" using assms(1) by (cases x) (auto simp: marshalSized_def)
  then have z: "gzip C (json_text C v) = Inr z" and n: "n = length (json_text C v)"
    using assms(1) by (auto simp: marshalSized_def Let_def split: sum.splits)
  show thesis by (rule that [OF x decompress_gzip [OF z] n]) (use assms(2) n in simp)
qed

lemma stored_job_read:
  assumes "marshalSized C (ScanJob_to_json C j) = Inr (z, n)" "n \<le> maxDecompressedSize" "wf_job j"
  obtains data where "decompress C z = Inr data" "unmarshal_job C data = Inr j"
proof -
  obtain v where v: "ScanJob_to_json C j = Inr v" and d: "decompress C z = Inr (json_text C v)"
    using marshalSized_read [OF assms(1,2)] by blast
  show thesis
    by (rule that [OF d]) (simp add: unmarshal_job_def json_round ScanJob_json_round [OF v assms(3)])
qed

lemma stored_report_read:
  assumes "marshalSized C (ScanReport_to_json C r) = Inr (z, n)" "n \<le> maxDecompressedSize" "wf_report r"
  obtains data where "decompress C z = Inr data" "unmarshal_report C data = Inr r"
proof -
  obtain v where v: "ScanReport_to_json C r = Inr v" and d: "decompress C z = Inr (json_text C v)"
    using marshalSized_read [OF assms(1,2)] by blast
  show thesis
    by (rule that [OF d]) (simp add: unmarshal_report_def json_round ScanReport_round [OF v assms(3)])
qed

end

end
