(* ===== verification/Ref_Codec.thy ===== *)
theory Ref_Codec
  imports Json
begin

text \<open>
  An executable codec that satisfies the laws of \<open>codec_laws\<close>, for the examples: values are
  printed in postfix form and read by a stack machine, compression only adds the two magic
  bytes, a time is printed as a decimal number.
\<close>

datatype item = IStr string | IVal json | IArr "json list" | IObj "(string \<times> json) list"

definition ref_chars :: "string \<Rightarrow> string" where
  "ref_chars s = CHR 0x22 # concat (map (\<lambda>c. [CHR 0x27, c]) s)"

fun ref_text :: "json \<Rightarrow> string" where
  "ref_text JNull = ''n''"
| "ref_text (JBool b) = (if b then ''t'' else ''f'')"
| "ref_text (JNum s) = ref_chars s @ ''#''"
| "ref_text (JStr s) = ref_chars s @ ''s''"
| "ref_text (JArr vs) = ''['' @ concat (map (\<lambda>v. ref_text v @ '','') vs) @ '']''"
| "ref_text (JObj kvs) = ''{'' @ concat (map (\<lambda>kv. ref_chars (fst kv) @ ref_text (snd kv) @ '':'') kvs) @ ''}''"

fun ref_token :: "char \<Rightarrow> item list \<Rightarrow> item list option" where
  "ref_token c (IStr s # st) =
     (if c = CHR ''s'' then Some (IVal (JStr s) # st)
      else if c = CHR ''#'' then Some (IVal (JNum s) # st)
      else if c = CHR ''n'' then Some (IVal JNull # IStr s # st)
      else if c = CHR ''t'' then Some (IVal (JBool True) # IStr s # st)
      else if c = CHR ''f'' then Some (IVal (JBool False) # IStr s # st)
      else if c = CHR 0x22 then Some (IStr [] # IStr s # st)
      else if c = CHR ''['' then Some (IArr [] # IStr s # st)
      else if c = CHR ''{'' then Some (IObj [] # IStr s # st)
      else None)"
| "ref_token c (IVal v # IArr vs # st) =
     (if c = CHR '','' then Some (IArr (vs @ [v]) # st) else None)"
| "ref_token c (IVal v # IStr k # IObj kvs # st) =
     (if c = CHR '':'' then Some (IObj (kvs @ [(k, v)]) # st) else None)"
| "ref_token c st =
     (if c = CHR ''n'' then Some (IVal JNull # st)
      else if c = CHR ''t'' then Some (IVal (JBool True) # st)
      else if c = CHR ''f'' then Some (IVal (JBool False) # st)
      else if c = CHR 0x22 then Some (IStr [] # st)
      else if c = CHR ''['' then Some (IArr [] # st)
      else if c = CHR ''{'' then Some (IObj [] # st)
      else case st of
        IArr vs # st' \<Rightarrow> if c = CHR '']'' then Some (IVal (JArr vs) # st') else None
      | IObj kvs # st' \<Rightarrow> if c = CHR ''}'' then Some (IVal (JObj kvs) # st') else None
      | _ \<Rightarrow> None)"

fun ref_run :: "string \<Rightarrow> item list \<Rightarrow> item list option" where
  "ref_run [] st = Some st"
| "ref_run [c] st = ref_token c st"
| "ref_run (c # d # cs) st =
     (if c = CHR 0x27 then
        (case st of IStr s # st' \<Rightarrow> ref_run cs (IStr (s @ [d]) # st') | _ \<Rightarrow> None)
      else case ref_token c st of Some st' \<Rightarrow> ref_run (d # cs) st' | None \<Rightarrow> None)"

definition ref_parse :: "string \<Rightarrow> string + json" where
  "ref_parse s = (case ref_run s [] of Some [IVal v] \<Rightarrow> Inr v | _ \<Rightarrow> Inl ''invalid character'')"

lemma ref_run_Cons:
  "c \<noteq> CHR 0x27 \<Longrightarrow>
   ref_run (c # cs) st = (case ref_token c st of Some st' \<Rightarrow> ref_run cs st' | None \<Rightarrow> None)"
  by (cases cs) (auto split: option.split)

lemma ref_run_chars: "ref_run (concat (map (\<lambda>c. [CHR 0x27, c]) s) @ r) (IStr p # st) = ref_run r (IStr (p @ s) # st)"
  by (induction s arbitrary: p) auto

text \<open>A value may start anywhere but right after a complete one.\<close>

definition ready :: "item list \<Rightarrow> bool" where
  "ready st \<longleftrightarrow> (case st of IVal v # _ \<Rightarrow> False | _ \<Rightarrow> True)"

lemma ready_simps [simp]:
  "ready []" "ready (IStr s # st)" "ready (IArr vs # st)" "ready (IObj kvs # st)"
  by (simp_all add: ready_def)

lemma ref_token_start:
  "ready st \<Longrightarrow> ref_token CHR ''n'' st = Some (IVal JNull # st)"
  "ready st \<Longrightarrow> ref_token CHR ''t'' st = Some (IVal (JBool True) # st)"
  "ready st \<Longrightarrow> ref_token CHR ''f'' st = Some (IVal (JBool False) # st)"
  "ready st \<Longrightarrow> ref_token CHR 0x22 st = Some (IStr [] # st)"
  "ready st \<Longrightarrow> ref_token CHR ''['' st = Some (IArr [] # st)"
  "ready st \<Longrightarrow> ref_token CHR ''{'' st = Some (IObj [] # st)"
  by (cases st rule: list.exhaust; cases "hd st"; simp add: ready_def)+

lemma ref_run_key: "ready st \<Longrightarrow> ref_run (ref_chars s @ r) st = ref_run r (IStr s # st)"
  by (simp add: ref_chars_def ref_run_Cons ref_token_start ref_run_chars)

lemma ref_run_text: "ready st \<Longrightarrow> ref_run (ref_text v @ r) st = ref_run r (IVal v # st)"
proof (induction v arbitrary: st r)
  case (JArr vs)
  have "(\<And>v st r. v \<in> set us \<Longrightarrow> ready st \<Longrightarrow> ref_run (ref_text v @ r) st = ref_run r (IVal v # st)) \<Longrightarrow>
      ref_run (concat (map (\<lambda>v. ref_text v @ '','') us) @ r) (IArr ws # st) = ref_run r (IArr (ws @ us) # st)" for us ws r
    by (induction us arbitrary: ws) (simp_all add: ref_run_Cons)
  from this [of vs "CHR '']'' # r" "[]"] JArr show ?case
    by (simp add: ref_run_Cons ref_token_start)
next
  case (JObj kvs)
  have "(\<And>kv st r. kv \<in> set us \<Longrightarrow> ready st \<Longrightarrow> ref_run (ref_text (snd kv) @ r) st = ref_run r (IVal (snd kv) # st)) \<Longrightarrow>
      ref_run (concat (map (\<lambda>kv. ref_chars (fst kv) @ ref_text (snd kv) @ '':'') us) @ r) (IObj ws # st)
        = ref_run r (IObj (ws @ us) # st)" for us ws r
    by (induction us arbitrary: ws) (simp_all add: ref_run_Cons ref_run_key)
  from this [of kvs "CHR ''}'' # r" "[]"] JObj show ?case
    by (simp add: ref_run_Cons ref_token_start snds.simps)
qed (simp_all add: ref_run_Cons ref_token_start ref_run_key)

definition ref_codec :: codec where
  "ref_codec =
     \<lparr>json_text = ref_text,
      json_parse = ref_parse,
      json_decode = ref_parse,
      gzip = (\<lambda>d. Inr ([CHR 0x1F, CHR 0x8B] @ d)),
      gunzip = (\<lambda>z. if take 2 z = [CHR 0x1F, CHR 0x8B] then Inr (drop 2 z, None)
                    else Inl ''gzip: invalid header''),
      time_text = (\<lambda>t. if 0 \<le> t \<and> t < 2 ^ 63 then Inr (dec_of_int t) else Inl ''Time.MarshalJSON: year outside of range''),
      time_parse = (\<lambda>s. case ParseInt s of Some t \<Rightarrow> Inr t | None \<Rightarrow> Inl ''parsing time'')\<rparr>"

lemma ref_text_first: "ref_text v = c # cs \<Longrightarrow> c \<noteq> CHR 0x1F"
  by (cases v) (auto simp: ref_chars_def split: if_splits)

interpretation refc: codec_laws ref_codec
proof unfold_locales
  show "json_parse ref_codec (json_text ref_codec v) = Inr v" for v
    using ref_run_text [of "[]" v "[]"] by (simp add: ref_codec_def ref_parse_def)
  show "json_decode ref_codec (json_text ref_codec v) = Inr v" for v
    using ref_run_text [of "[]" v "[]"] by (simp add: ref_codec_def ref_parse_def)
  show "json_text ref_codec v = c # cs \<Longrightarrow> c \<noteq> CHR 0x1F" for v c cs
    using ref_text_first by (simp add: ref_codec_def)
  show "gzip ref_codec data = Inr z \<Longrightarrow> gunzip ref_codec z = Inr (data, None)" for data z
    by (auto simp: ref_codec_def)
  show "gzip ref_codec data = Inr z \<Longrightarrow> take 2 z = [CHR 0x1F, CHR 0x8B]" for data z
    by (auto simp: ref_codec_def)
  show "time_text ref_codec t = Inr s \<Longrightarrow> time_parse ref_codec s = Inr t" for t s
    using dec_int_enc [of t] by (auto simp: ref_codec_def split: if_splits option.splits)
qed

end
