(* ===== verification/Store_Spec.thy ===== *)
theory Store_Spec
  imports Store Ref_Codec
begin

text \<open>
  What the store promises its clients: which changes it may make and under which lease, when a
  record may start to expire, and that what was written is read back.
\<close>

section \<open>Successful scripts\<close>

definition succeeds :: "('s \<Rightarrow> view) \<Rightarrow> (view \<Rightarrow> 'a \<Rightarrow> view \<Rightarrow> bool) \<Rightarrow> ('s, 'a) cmd \<Rightarrow> bool" where
  "succeeds V spec m \<longleftrightarrow> (\<forall>s x s'. run_state m s = (Inr x, s') \<longrightarrow> spec (V s) x (V s'))"

lemma succeeds_refines: "refines V spec m \<Longrightarrow> succeeds V spec m"
  by (simp add: succeeds_def refinesD)

lemma succeeds_okE: "succeeds V (\<lambda>v y v'. v' = v \<and> y = x) (okE x)"
  by (simp add: succeeds_def)

lemma succeeds_bindE:
  "succeeds V A m \<Longrightarrow> (\<And>x. succeeds V (B x) (f x)) \<Longrightarrow>
   succeeds V (\<lambda>v y v''. \<exists>x v'. A v x v' \<and> B x v' y v'') (bindE m f)"
  unfolding succeeds_def by (fastforce split: prod.splits sum.splits)

lemma succeeds_weaken: "succeeds V A m \<Longrightarrow> (\<And>v x v'. A v x v' \<Longrightarrow> B v x v') \<Longrightarrow> succeeds V B m"
  by (simp add: succeeds_def)

lemma succeeds_if:
  "(c \<Longrightarrow> succeeds V A m) \<Longrightarrow> (\<not> c \<Longrightarrow> succeeds V B n) \<Longrightarrow>
   succeeds V (\<lambda>v x v'. if c then A v x v' else B v x v') (if c then m else n)"
  by simp

definition enqueue_done :: "string \<Rightarrow> string \<Rightarrow> string \<Rightarrow> string \<Rightarrow> view \<Rightarrow> int \<Rightarrow> view \<Rightarrow> bool" where
  "enqueue_done jobk stream value payload v x v' \<longleftrightarrow>
     (if ks v jobk = None
      then x = 1 \<and> (\<exists>es gs i. as_stream (ks v stream) = Some (es, gs) \<and> i \<notin> fst ` set es \<and>
             v' = set_effect jobk value (put_value stream (Strm (es @ [(i, [(''job'', payload)])]) gs) v))
      else x = 0 \<and> v' = v)"

definition update_done :: "string \<Rightarrow> string \<Rightarrow> string \<Rightarrow> Lease \<Rightarrow> string \<Rightarrow> view \<Rightarrow> int \<Rightarrow> view \<Rightarrow> bool" where
  "update_done jobk written kept l value v x v' \<longleftrightarrow>
     (if \<not> held l v then x = - 1 \<and> v' = v
      else if ks v jobk = None then x = 0 \<and> v' = v
      else x = 1 \<and> v' = put_ttl kept None (set_effect written value v))"

definition ack_done ::
    "string \<Rightarrow> string \<Rightarrow> string \<Rightarrow> Lease \<Rightarrow> string \<Rightarrow> string \<Rightarrow> int \<Rightarrow> view \<Rightarrow> int \<Rightarrow> view \<Rightarrow> bool" where
  "ack_done jobk repk stream l grp i ms v x v' \<longleftrightarrow>
     (if held l v \<and> ks v jobk \<noteq> None
      then x = 1 \<and> v' = fold (\<lambda>f. f) (ack_steps jobk repk stream (lease_Key l) grp i ms) v
      else x = 0 \<and> v' = v)"

context redis_server begin

lemma succeeds_enqueueScript:
  "succeeds V (enqueue_done jobk stream value payload) (enqueueScript R jobk stream value payload)"
  unfolding succeeds_def
proof (intro allI impI)
  fix s x s'
  assume run: "run_state (enqueueScript R jobk stream value payload) s = (Inr x, s')"
  obtain r1 s1 where 1: "run_state (EXISTS R jobk) s = (r1, s1)" by fastforce
  obtain n where n: "r1 = Inr n" using run 1 by (cases r1) (auto simp: enqueueScript_def)
  have ex: "V s1 = V s" "n = (if ks (V s) jobk = None then 0 else 1)"
    using refinesD(1) [OF EXISTS] 1 n by (auto simp: exists_spec_def)
  show "enqueue_done jobk stream value payload (V s) x (V s')"
  proof (cases "n = 1")
    case True
    then show ?thesis using run 1 n ex by (auto simp: enqueueScript_def enqueue_done_def split: if_splits)
  next
    case False
    obtain r2 s2 where 2: "run_state (XADD R stream [(''job'', payload)]) s1 = (r2, s2)" by fastforce
    obtain i where i: "r2 = Inr i" using run 1 n False 2 by (cases r2) (auto simp: enqueueScript_def)
    have add: "xadd_spec stream [(''job'', payload)] (V s1) i (V s2)"
      using refinesD(1) [OF XADD] 2 i by simp
    obtain r3 s3 where 3: "run_state (SET R jobk value) s2 = (r3, s3)" by fastforce
    obtain u where u: "r3 = Inr u"
      using run 1 n False 2 i 3 by (cases r3) (auto simp: enqueueScript_def split: prod.splits sum.splits)
    have V3: "V s3 = set_effect jobk value (V s2)"
      using refinesD(1) [OF SET] 3 u by (simp add: set_spec_def set_effect_def)
    have "x = 1" "s' = s3"
      using run 1 n False 2 i 3 u by (auto simp: enqueueScript_def)
    moreover have "ks (V s) jobk = None" using ex False by (simp split: if_splits)
    ultimately show ?thesis
      using add V3 ex by (fastforce simp: enqueue_done_def xadd_spec_def)
  qed
qed

lemma succeeds_fenced:
  assumes t: "\<And>n. trail V fs (rest n)" and one: "\<And>n. succeeds V (\<lambda>v x v'. x = 1) (rest n)"
    and D: "\<And>v x v'. D v x v' \<longleftrightarrow>
      (if ks v leasek \<noteq> Some (Str token) then x = bad \<and> v' = v
       else if ks v jobk = None then x = 0 \<and> v' = v
       else x = 1 \<and> v' = fold (\<lambda>f. f) fs v)"
  shows "succeeds V D
    (bindE (GET R leasek) (\<lambda>owner. if owner \<noteq> Some token then okE bad else
     bindE (EXISTS R jobk) (\<lambda>n. if n = 0 then okE 0 else rest n)))"
  unfolding succeeds_def
proof (intro allI impI)
  fix s x s'
  assume run: "run_state (bindE (GET R leasek) (\<lambda>owner. if owner \<noteq> Some token then okE bad else
     bindE (EXISTS R jobk) (\<lambda>n. if n = 0 then okE 0 else rest n))) s = (Inr x, s')"
  obtain r1 s1 where 1: "run_state (GET R leasek) s = (r1, s1)" by fastforce
  obtain own where o: "r1 = Inr own" using run 1 by (cases r1) auto
  have g: "V s1 = V s" "as_string (ks (V s) leasek) = Some own"
    using refinesD(1) [OF GET] 1 o by (auto simp: get_spec_def)
  show "D (V s) x (V s')"
  proof (cases "own = Some token")
    case False
    then show ?thesis using run 1 o g by (auto simp: D as_string_Some)
  next
    case True
    then have held: "ks (V s) leasek = Some (Str token)" using g by (simp add: as_string_Some)
    obtain r2 s2 where 2: "run_state (EXISTS R jobk) s1 = (r2, s2)" by fastforce
    obtain n where n: "r2 = Inr n" using run 1 o True 2 by (cases r2) auto
    have ex: "V s2 = V s" "n = (if ks (V s) jobk = None then 0 else 1)"
      using refinesD(1) [OF EXISTS 2 [unfolded n]] g by (auto simp: exists_spec_def)
    show ?thesis
    proof (cases "n = 0")
      case True
      then show ?thesis using run 1 o \<open>own = Some token\<close> 2 n ex held by (auto simp: D split: if_splits)
    next
      case False
      then have r: "run_state (rest n) s2 = (Inr x, s')" using run 1 o True 2 n by simp
      then have "V s' = fold (\<lambda>f. f) fs (V s)" "x = 1"
        using trailD(2) [OF t r] one ex by (auto simp: succeeds_def)
      then show ?thesis using False ex held by (auto simp: D)
    qed
  qed
qed

lemma succeeds_updateJobScript:
  "succeeds V (update_done jobk jobk repk l value) (updateJobScript R jobk repk (lease_Key l) value (lease_Token l))"
proof -
  have t: "trail V ([set_effect jobk value] @ [put_ttl repk None] @ [])
     (bindE (SET R jobk value) (\<lambda>_. bindE (PERSIST R repk) (\<lambda>_. okE 1)))"
    by (intro trail_bindE trail_SET trail_PERSIST trail_okE)
  show ?thesis
    unfolding updateJobScript_def
    by (rule succeeds_fenced [OF t])
      (auto simp: update_done_def held_def succeeds_def split: prod.splits sum.splits)
qed

lemma succeeds_updateReportScript:
  "succeeds V (update_done jobk repk jobk l value) (updateReportScript R jobk repk (lease_Key l) value (lease_Token l))"
proof -
  have t: "trail V ([set_effect repk value] @ [put_ttl jobk None] @ [])
     (bindE (SET R repk value) (\<lambda>_. bindE (PERSIST R jobk) (\<lambda>_. okE 1)))"
    by (intro trail_bindE trail_SET trail_PERSIST trail_okE)
  show ?thesis
    unfolding updateReportScript_def
    by (rule succeeds_fenced [OF t])
      (auto simp: update_done_def held_def succeeds_def split: prod.splits sum.splits)
qed

end

section \<open>Operations on a server left alone\<close>

definition quiet :: "('s \<Rightarrow> view) \<Rightarrow> view \<Rightarrow> ('s, 'z) world_scheme \<Rightarrow> bool" where
  "quiet V v w \<longleftrightarrow> turns w = [] \<and> V (srv w) = v"

lemma quiet_upd [simp]:
  "quiet V v (w\<lparr>recorder := a\<rparr>) = quiet V v w" "quiet V v (w\<lparr>hist := b\<rparr>) = quiet V v w"
  by (simp_all add: quiet_def)

lemma map_sum_Inr [simp]: "map_sum f (\<lambda>x. x) r = Inr x \<longleftrightarrow> r = Inr x"
  by (cases r) auto

lemma quiet_call:
  "succeeds V spec m \<Longrightarrow>
   wp (quiet V v) (call m) (\<lambda>r w. \<forall>x. r = Inr x \<longrightarrow> (\<exists>v'. spec v x v' \<and> quiet V v' w))"
  by (rule wpI) (auto simp: quiet_def call_quiet succeeds_def split: prod.splits sum.splits)

lemma quiet_metric: "keeps (quiet V v) (metric f)"
  unfolding metric_def by (rule keeps_modify) simp

lemma quiet_Now: "keeps (quiet V v) Now"
  by (rule keepsI) (simp add: Now_def)

text \<open>An operation wrapped with its metrics gives what it gives.\<close>

lemma operation_result:
  assumes "run_state (operation name m) w = (r, w')"
  obtains w1 x where "run_state m w = ((r, x), w1)" "turns w' = turns w1" "srv w' = srv w1" "clock w' = clock w1"
    "hist w' = hist w1" "lost w' = lost w1" "stopped w' = stopped w1"
proof -
  obtain r1 x1 w1 where m: "run_state m w = ((r1, x1), w1)" by (metis surj_pair)
  show thesis
    by (rule that [of x1 w1]) (use assms m in \<open>auto simp: operation_def Now_def metric_def Let_def\<close>)
qed

lemma wp_operation:
  assumes m: "wp P m (\<lambda>(r, x). Q r)" and ins: "\<And>r w f. Q r w \<Longrightarrow> Q r (w\<lparr>recorder := f\<rparr>)"
  shows "wp P (operation name m) Q"
proof (rule wpI)
  fix w r w'
  assume P: "P w" and run: "run_state (operation name m) w = (r, w')"
  obtain r1 x1 w1 where 1: "run_state m w = ((r1, x1), w1)" by (metis surj_pair)
  have "Q r1 w1" using wpD [OF m P 1] by simp
  then have "Q r1 (w1\<lparr>recorder := recorder w'\<rparr>)" by (rule ins)
  moreover have "r = r1" "w' = w1\<lparr>recorder := recorder w'\<rparr>"
    using run 1 by (auto simp: operation_def Now_def metric_def Let_def)
  ultimately show "Q r w'" by simp
qed

text \<open>The job and the report a view holds under a key.\<close>

definition job_stored :: "codec \<Rightarrow> view \<Rightarrow> string \<Rightarrow> ScanJob \<Rightarrow> bool" where
  "job_stored C v k j \<longleftrightarrow>
     (\<exists>z data. ks v k = Some (Str z) \<and> decompress C z = Inr data \<and> unmarshal_job C data = Inr j)"

definition report_stored :: "codec \<Rightarrow> view \<Rightarrow> string \<Rightarrow> ScanReport \<Rightarrow> bool" where
  "report_stored C v k r \<longleftrightarrow>
     (\<exists>z data. ks v k = Some (Str z) \<and> decompress C z = Inr data \<and> unmarshal_report C data = Inr r)"

lemma job_key_neq_report_key [simp]:
  "keyForScanJob cfg k \<noteq> keyForScanReport cfg k'" "keyForScanReport cfg k \<noteq> keyForScanJob cfg k'"
  by (simp_all add: keyForScanJob_def keyForScanReport_def)

context redis_server begin

lemma wp_getJob:
  assumes "job_stored C v (keyForScanJob cfg key) j"
  shows "wp (quiet V v) (getJob R C cfg key) (\<lambda>r w. \<forall>x. r = Inr x \<longrightarrow> x = Some j \<and> quiet V v w)"
  unfolding getJob_def
proof (rule wp_bindE [OF quiet_call [OF succeeds_refines [OF GET]]], goal_cases)
  case (2 val)
  obtain z data where z: "ks v (keyForScanJob cfg key) = Some (Str z)" "decompress C z = Inr data"
    "unmarshal_job C data = Inr j"
    using assms by (auto simp: job_stored_def)
  show ?case
    by (rule wpI) (use z in \<open>auto simp: get_spec_def split: option.splits sum.splits\<close>)
qed simp

lemma wp_getJob_absent:
  assumes "ks v (keyForScanJob cfg key) = None"
  shows "wp (quiet V v) (getJob R C cfg key) (\<lambda>r w. \<forall>x. r = Inr x \<longrightarrow> x = None \<and> quiet V v w)"
  unfolding getJob_def
proof (rule wp_bindE [OF quiet_call [OF succeeds_refines [OF GET]]], goal_cases)
  case (2 val)
  show ?case
    by (rule wpI) (use assms in \<open>auto simp: get_spec_def split: option.splits sum.splits\<close>)
qed simp

text \<open>What \<open>Get\<close> finds: the job with the report stored apart, or the one it carries itself.\<close>

lemma wp_Get:
  assumes j: "job_stored C v (keyForScanJob cfg key) j"
    and r: "case ks v (keyForScanReport cfg key) of
        None \<Rightarrow> j' = j | Some _ \<Rightarrow> (\<exists>rep. report_stored C v (keyForScanReport cfg key) rep \<and> j' = j\<lparr>job_Report := rep\<rparr>)"
  shows "wp (quiet V v) (store_Get R C cfg key) (\<lambda>r w. \<forall>x. r = Inr x \<longrightarrow> x = Some j' \<and> quiet V v w)"
proof -
  have b: "wp (quiet V v) (store_Get_body R C cfg key) (\<lambda>r w. \<forall>x. r = Inr x \<longrightarrow> x = Some j' \<and> quiet V v w)"
    unfolding store_Get_body_def
  proof (rule wp_bindE [OF wp_getJob [OF j]], goal_cases)
    case (2 scanJob)
    have "wp (quiet V v) (bindE (call (GET R (keyForScanReport cfg key))) (\<lambda>value.
             case value of
               None \<Rightarrow> okE (Some j)
             | Some v \<Rightarrow>
                 (case decompress C v of
                    Inl e \<Rightarrow> failE (Wrap ''decompressing scan report'' e)
                  | Inr data \<Rightarrow>
                      (case unmarshal_report C data of
                         Inl e \<Rightarrow> failE (Wrap ''unmarshaling scan report'' (ErrText e))
                       | Inr rep \<Rightarrow> okE (Some (j\<lparr>job_Report := rep\<rparr>))))))
        (\<lambda>r w. \<forall>x. r = Inr x \<longrightarrow> x = Some j' \<and> quiet V v w)"
    proof (rule wp_bindE [OF quiet_call [OF succeeds_refines [OF GET]]], goal_cases)
      case (2 val)
      show ?case
        by (rule wpI) (use r in \<open>auto simp: get_spec_def report_stored_def split: option.splits sum.splits\<close>)
    qed simp
    then show ?case by (auto simp: wp_def split: option.splits prod.splits)
  qed simp
  show ?thesis
    unfolding store_Get_def
    by (rule wp_operation, rule wp_bind [OF b], rule wp_return) auto
qed

end

lemma quiet_rec: "quiet V v w \<Longrightarrow> quiet V v (w\<lparr>recorder := f\<rparr>)"
  by simp

lemma quiet_written: "keeps (quiet V v) (store_written rc a b)"
  unfolding store_written_def by (intro wp_intros quiet_metric)

context redis_server begin

lemma wp_Enqueue:
  assumes m: "marshalSized C (ScanJob_to_json C j) = Inr (z, n)"
  shows "wp (quiet V v) (store_Enqueue R C cfg j stream payload)
    (\<lambda>r w. \<forall>u. r = Inr u \<longrightarrow> (\<exists>x v'. enqueue_done (keyForScanJob cfg (job_Key j)) stream z payload v x v' \<and> quiet V v' w))"
  (is "wp _ _ ?Q")
proof -
  have b: "wp (quiet V v)
     (State_Monad.bind (call (enqueueScript R (keyForScanJob cfg (job_Key j)) stream z payload))
              (\<lambda>r. case r of
                 Inl e \<Rightarrow> State_Monad.return (Inl e, ''success'')
               | Inr applied \<Rightarrow>
                   if applied = 0 then State_Monad.return (Inr (), ''not_applied'')
                   else thenM (store_written ''job'' n (length z))
                          (State_Monad.return (Inr (), ''success''))))
     (\<lambda>(r, x). ?Q r)"
  proof (rule wp_bind [OF quiet_call [OF succeeds_enqueueScript]])
    fix r
    show "wp (\<lambda>w. \<forall>x. r = Inr x \<longrightarrow>
                 (\<exists>v'. enqueue_done (keyForScanJob cfg (job_Key j)) stream z payload v x v' \<and> quiet V v' w))
        (case r of
                 Inl e \<Rightarrow> State_Monad.return (Inl e, ''success'')
               | Inr applied \<Rightarrow>
                   if applied = 0 then State_Monad.return (Inr (), ''not_applied'')
                   else thenM (store_written ''job'' n (length z))
                          (State_Monad.return (Inr (), ''success'')))
        (\<lambda>(r, x). ?Q r)"
      by (cases r; rule wpI) (auto simp: store_written_def metric_def split: if_splits, blast+)
  qed
  show ?thesis
    unfolding store_Enqueue_def m sum.case prod.case by (rule wp_operation [OF b]) auto
qed

lemma enqueue_stores:
  assumes laws: "codec_laws C"
    and wf: "wf_job j" and m: "marshalSized C (ScanJob_to_json C j) = Inr (z, n)" "n \<le> maxDecompressedSize"
    and quiet: "turns w = []"
    and fresh: "ks (V (srv w)) (keyForScanJob cfg (job_Key j)) = None"
      "ks (V (srv w)) (keyForScanReport cfg (job_Key j)) = None"
    and distinct: "stream \<noteq> keyForScanReport cfg (job_Key j)"
    and enq: "run_state (store_Enqueue R C cfg j stream payload) w = (Inr (), w1)"
  shows "\<exists>v'. quiet V v' w1 \<and> job_stored C v' (keyForScanJob cfg (job_Key j)) j \<and>
    ks v' (keyForScanReport cfg (job_Key j)) = None"
proof -
  have "quiet V (V (srv w)) w" using quiet by (simp add: quiet_def)
  from wpD [OF wp_Enqueue [OF m(1)] this enq]
  obtain y v' where ed: "enqueue_done (keyForScanJob cfg (job_Key j)) stream z payload (V (srv w)) y v'"
    and q1: "quiet V v' w1" by auto
  obtain data where d: "decompress C z = Inr data" "unmarshal_job C data = Inr j"
    using codec_laws.stored_job_read [OF laws m wf] .
  have "job_stored C v' (keyForScanJob cfg (job_Key j)) j" "ks v' (keyForScanReport cfg (job_Key j)) = None"
    using ed fresh distinct d by (auto simp: enqueue_done_def job_stored_def)
  then show ?thesis using q1 by blast
qed

lemma wp_UpdateStatus:
  assumes j: "job_stored C v (keyForScanJob cfg key) j" and k: "job_Key j = key"
  shows "wp (quiet V v) (store_UpdateStatus R C cfg l key st ms :: ('s, 'z, unit) op)
    (\<lambda>r w. \<forall>u. r = Inr u \<longrightarrow> (\<exists>now z n v'.
       marshalSized C (ScanJob_to_json C (with_status st ms now j)) = Inr (z, n) \<and>
       held l v \<and> ks v (keyForScanJob cfg key) \<noteq> None \<and>
       v' = put_ttl (keyForScanReport cfg key) None (set_effect (keyForScanJob cfg key) z v) \<and> quiet V v' w))"
  (is "wp _ _ ?Q")
proof -
  have key: "job_Key (with_status st ms now j) = key" for now
    using k by (simp add: with_status_def Let_def)
  have up: "wp (quiet V v) (store_update R C cfg l (with_status st ms now j) :: ('s, 'z, unit) op) ?Q" for now
  proof (cases "marshalSized C (ScanJob_to_json C (with_status st ms now j))")
    case (Inl e)
    then show ?thesis by (simp add: store_update_def wp_failE)
  next
    case (Inr p)
    obtain z n where p: "p = (z, n)" by fastforce
    show ?thesis
    proof (cases "lease_Key l = [] \<or> lease_Token l = []")
      case True
      then show ?thesis using Inr p by (auto simp: store_update_def intro!: wp_failE)
    next
      case False
      have upd: "(store_update R C cfg l (with_status st ms now j) :: ('s, 'z, unit) op) =
         State_Monad.bind
            (call (updateJobScript R (keyForScanJob cfg key) (keyForScanReport cfg key) (lease_Key l) z (lease_Token l)))
            (\<lambda>r. case r of
               Inl e \<Rightarrow> failE (Wrap ''updating scan job'' e)
             | Inr applied \<Rightarrow>
                 if applied = 0 then failE (missingJob key)
                 else if applied = - 1 then failE (ErrText ''scan job ownership lost'')
                 else thenM (store_written ''job'' n (length z)) (okE ()))"
        unfolding store_update_def key Inr p using False by simp
      show ?thesis
        unfolding upd
      proof (rule wp_bind [OF quiet_call [OF succeeds_updateJobScript]], rule wpI)
        fix r r' and w w' :: "('s, 'z) world_scheme"
        assume pre: "\<forall>x. r = Inr x \<longrightarrow> (\<exists>v'. update_done (keyForScanJob cfg key) (keyForScanJob cfg key)
             (keyForScanReport cfg key) l z v x v' \<and> quiet V v' w)"
          and run: "run_state (case r of
               Inl e \<Rightarrow> failE (Wrap ''updating scan job'' e)
             | Inr applied \<Rightarrow>
                 if applied = 0 then failE (missingJob key)
                 else if applied = - 1 then failE (ErrText ''scan job ownership lost'')
                 else thenM (store_written ''job'' n (length z)) (okE ())) w = (r', w')"
        show "?Q r' w'"
          using pre run Inr p
          by (cases r) (force simp: update_done_def store_written_def metric_def split: if_splits)+
      qed
    qed
  qed
  have inner: "wp (quiet V v)
       (bindE (getJob R C cfg key) (\<lambda>scanJob. case scanJob of
            None \<Rightarrow> failE (missingJob key)
          | Some j \<Rightarrow> State_Monad.bind Now (\<lambda>now. store_update R C cfg l (with_status st ms now j)))) ?Q"
  proof (rule wp_bindE [OF wp_getJob [OF j]], goal_cases)
    case (2 x)
    have "wp (quiet V v) (State_Monad.bind Now (\<lambda>now. store_update R C cfg l (with_status st ms now j))) ?Q"
      by (rule wp_bind [OF keeps_wp [OF quiet_Now] up])
    then show ?case by (auto simp: wp_def)
  qed simp
  show ?thesis
    unfolding store_UpdateStatus_def labelled_def
    by (rule wp_operation, rule wp_bind [OF inner], rule wp_return) auto
qed

end

text \<open>
  \<open>status_written\<close>: among the changes this process made there is one, under the lease, that
  stored a job with the status \<open>st\<close>.
\<close>

definition status_written ::
    "('s \<Rightarrow> view) \<Rightarrow> codec \<Rightarrow> store_config \<Rightarrow> Lease \<Rightarrow> ScanJobStatus \<Rightarrow> ('s, 'z) world_scheme \<Rightarrow> bool" where
  "status_written V C cfg l st w \<longleftrightarrow>
     (\<exists>(s, s') \<in> set (hist w). held l (V s) \<and>
        (\<exists>j z n. marshalSized C (ScanJob_to_json C j) = Inr (z, n) \<and> job_Status j = st \<and>
           ks (V s') (keyForScanJob cfg (job_Key j)) = Some (Str z)))"

lemma status_written_rec [simp]: "status_written V C cfg l st (w\<lparr>recorder := f\<rparr>) = status_written V C cfg l st w"
  by (simp add: status_written_def)

lemma call_hist:
  "succeeds V spec m \<Longrightarrow>
   wp (\<lambda>_. True) (call m) (\<lambda>r w. \<forall>x. r = Inr x \<longrightarrow> (\<exists>(s, s') \<in> set (hist w). spec (V s) x (V s')))"
proof (rule wpI, intro allI impI)
  fix w r w' x
  assume m: "succeeds V spec m" and run: "run_state (call m) w = (r, w')" and r: "r = Inr x"
  have d: "\<exists>(s, s') \<in> set (hist w2). spec (V s) x (V s')"
    if "run_state (serve d m) w1 = (Inr x, w2)" for d w1 w2
    using that m by (cases d) (auto simp: serve_def succeeds_def split: prod.splits)
  show "\<exists>(s, s') \<in> set (hist w'). spec (V s) x (V s')"
    using run r d by (cases "turns w") (auto simp: call_def)
qed

context redis_server begin

lemma wp_status_written:
  "wp (\<lambda>_. True) (store_UpdateStatus R C cfg l key st ms :: ('s, 'z, unit) op)
     (\<lambda>r w. r = Inr () \<longrightarrow> status_written V C cfg l st w)"
  (is "wp _ _ ?Q")
proof -
  have up: "wp (\<lambda>_. True) (store_update R C cfg l (with_status st ms now j) :: ('s, 'z, unit) op) ?Q" for now j
  proof (rule wpI, rule impI)
    fix r and w w' :: "('s, 'z) world_scheme"
    assume run: "run_state (store_update R C cfg l (with_status st ms now j)) w = (r, w')" and r: "r = Inr ()"
    let ?j = "with_status st ms now j"
    obtain z n where m: "marshalSized C (ScanJob_to_json C ?j) = Inr (z, n)"
      using run r by (cases "marshalSized C (ScanJob_to_json C ?j)") (auto simp: store_update_def)
    obtain x w1 where c: "run_state (call (updateJobScript R (keyForScanJob cfg (job_Key ?j))
         (keyForScanReport cfg (job_Key ?j)) (lease_Key l) z (lease_Token l))) w = (Inr x, w1)"
      and x: "x \<noteq> 0" "x \<noteq> - 1" and h: "hist w' = hist w1"
      using run r m by (auto simp: store_update_def store_written_def metric_def split: if_splits prod.splits sum.splits)
    obtain s s' where s: "(s, s') \<in> set (hist w1)" "update_done (keyForScanJob cfg (job_Key ?j)) (keyForScanJob cfg (job_Key ?j))
         (keyForScanReport cfg (job_Key ?j)) l z (V s) x (V s')"
      using wpD [OF call_hist [OF succeeds_updateJobScript] TrueI c] by auto
    then have "held l (V s)" "ks (V s') (keyForScanJob cfg (job_Key ?j)) = Some (Str z)"
      using x by (auto simp: update_done_def split: if_splits)
    moreover have "job_Status ?j = st" by (simp add: with_status_def Let_def)
    ultimately show "status_written V C cfg l st w'"
      using s(1) m h unfolding status_written_def by fastforce
  qed
  have inner: "wp (\<lambda>_. True)
       (bindE (getJob R C cfg key) (\<lambda>scanJob. case scanJob of
            None \<Rightarrow> failE (missingJob key)
          | Some j \<Rightarrow> State_Monad.bind Now (\<lambda>now. store_update R C cfg l (with_status st ms now j))) :: ('s, 'z, unit) op) ?Q"
  proof (rule wp_bindE [OF wp_triv], goal_cases)
    case (2 x)
    have "wp (\<lambda>_. True) (State_Monad.bind Now (\<lambda>now. store_update R C cfg l (with_status st ms now j)) :: ('s, 'z, unit) op) ?Q" for j
      by (rule wp_bind [OF wp_triv up])
    then show ?case by (cases x) (simp_all add: wp_failE)
  qed simp
  show ?thesis
    unfolding store_UpdateStatus_def labelled_def
    by (rule wp_operation, rule wp_bind [OF inner], rule wp_return) auto
qed

end

section \<open>An example\<close>

text \<open>A server that holds nothing yet, and one job; the examples below run on them.\<close>

definition ex_key :: ScanJobKey where
  "ex_key = \<lparr>key_ID = ''a1'', key_MIMEType = MimeTypeSecurityVulnerabilityReport, key_MediaType = []\<rparr>"

definition ex_job :: ScanJob where
  "ex_job = zero_ScanJob\<lparr>job_Key := ex_key\<rparr>"

definition ex_cfg :: store_config where
  "ex_cfg = \<lparr>st_Namespace = ''ns'', ScanJobTTL = 3600 * 10 ^ 9\<rparr>"

definition ex_lease :: Lease where
  "ex_lease = \<lparr>lease_Key = ''st:lease:1'', lease_Token = ''t''\<rparr>"

definition world_of :: "ref \<Rightarrow> ref world" where
  "world_of s =
     \<lparr>srv = s, clock = 10 ^ 9, stopped = None, lost = False, turns = [], recorder = None,
      entropy = [replicate 12 CHR ''a''], hist = []\<rparr>"

definition ex_server :: ref where
  "ex_server = \<lparr>rv = \<lparr>ks = (\<lambda>_. None), ttl = (\<lambda>_. None)\<rparr>, oom = []\<rparr>"

definition ex_world :: "ref world" where
  "ex_world = world_of ex_server"

definition stored_value :: "ScanJob \<Rightarrow> string" where
  "stored_value j = (case marshalSized ref_codec (ScanJob_to_json ref_codec j) of Inr (z, n) \<Rightarrow> z | Inl e \<Rightarrow> [])"

text \<open>The server once the job is stored and a worker holds its lease.\<close>

definition ex_owned :: "ref world" where
  "ex_owned = world_of (ex_server\<lparr>rv := put_value ''st:lease:1'' (Str ''t'')
     (put_value ''ns:scan-job:a1:application/vnd.security.vulnerability.report; version=1.1''
        (Str (stored_value ex_job)) (rv ex_server))\<rparr>)"

text \<open>The length of a list as an integer, which evaluates in binary.\<close>

fun ilen :: "'a list \<Rightarrow> int" where
  "ilen [] = 0"
| "ilen (x # xs) = 1 + ilen xs"

lemma ilen_length: "ilen xs = int (length xs)"
  by (induction xs) auto

lemma ex_job_wf: "wf_job ex_job" "wf_key ex_key"
  by (auto simp: wf_job_def ex_job_def ex_key_def wf_key_def zero_ScanJob_def int64_def Queued_def
      supported_mime_def zero_report_json_wf)

section \<open>Properties\<close>


definition fenced :: "('s \<Rightarrow> view) \<Rightarrow> Lease \<Rightarrow> 's \<Rightarrow> 's \<Rightarrow> bool" where
  "fenced V l s s' \<longleftrightarrow> V s' = V s \<or> held l (V s)"

lemmas rs_own = redis_server.own_UpdateStatus redis_server.own_UpdateReport redis_server.own_Acknowledge
  redis_server.own_Enqueue

lemma fenced_ops:
  assumes "redis_server R V"
  shows "keeps (own (fenced V l)) (store_UpdateStatus R C cfg l key st ms)"
    "keeps (own (fenced V l)) (store_UpdateReport R C cfg l key rep)"
    "keeps (own (fenced V l)) (store_Acknowledge R C cfg l key stream grp i)"
  unfolding fenced_def
  by (intro rs_own [OF assms]; auto simp: update_job_rel_def update_report_rel_def ack_rel_def)+

text \<open>
  C1. Fencing: whatever the replies, faults and interleavings, \<^verbatim>\<open>UpdateStatus\<close>,
  \<^verbatim>\<open>UpdateReport\<close> and \<^verbatim>\<open>Acknowledge\<close> change the server only at a moment when the lease
  key holds the token of the caller; a worker that lost its lease writes nothing.
\<close>

theorem store_writes_need_lease:
  assumes "redis_server R V"
  shows "keeps (own (fenced V l)) (store_UpdateStatus R C cfg l key st ms) \<and>
    keeps (own (fenced V l)) (store_UpdateReport R C cfg l key rep) \<and>
    keeps (own (fenced V l)) (store_Acknowledge R C cfg l key stream grp i)"
  using fenced_ops [OF assms] by blast

theorem store_writes_need_lease_witness:
  "keeps (own (fenced rv ex_lease))
     (store_UpdateStatus ref_redis ref_codec ex_cfg ex_lease ex_key Failed [''x''] :: (ref, unit, unit) op)"
  using store_writes_need_lease [OF ref.redis_server_axioms] by blast

text \<open>
  C2. Retention: \<^verbatim>\<open>Enqueue\<close>, \<^verbatim>\<open>UpdateStatus\<close> and \<^verbatim>\<open>UpdateReport\<close> never give a key an
  expiry, and \<^verbatim>\<open>Acknowledge\<close> starts one only when the delivery is no longer in the stream,
  even if its script stops half-way.
\<close>

theorem retention_starts_at_acknowledge:
  assumes "redis_server R V"
  shows "keeps (own (\<lambda>s s'. no_new_expiry (V s) (V s'))) (store_Enqueue R C cfg j stream payload) \<and>
    keeps (own (\<lambda>s s'. no_new_expiry (V s) (V s'))) (store_UpdateStatus R C cfg l key st ms) \<and>
    keeps (own (\<lambda>s s'. no_new_expiry (V s) (V s'))) (store_UpdateReport R C cfg l key rep) \<and>
    keeps (own (\<lambda>s s'. retired_first stream i (V s) (V s'))) (store_Acknowledge R C cfg l key stream grp i)"
  by (intro conjI rs_own [OF assms])
    (auto intro: update_job_no_expiry update_report_no_expiry enqueue_no_expiry ack_retired_first)

theorem retention_starts_at_acknowledge_witness:
  "keeps (own (\<lambda>s s'. retired_first ''st'' ''1-0'' (rv s) (rv s')))
     (store_Acknowledge ref_redis ref_codec ex_cfg ex_lease ex_key ''st'' ''scanner'' ''1-0'' :: (ref, unit, unit) op)"
  using retention_starts_at_acknowledge [OF ref.redis_server_axioms] by blast

text \<open>
  C3. An \<^verbatim>\<open>Enqueue\<close> that succeeds on a new key is followed by a \<^verbatim>\<open>Get\<close> that gives back the
  very job, whatever server and codec keep their laws.
\<close>

theorem enqueue_then_get:
  assumes server: "redis_server R V" and laws: "codec_laws C"
    and wf: "wf_job j" and m: "marshalSized C (ScanJob_to_json C j) = Inr (z, n)" "n \<le> maxDecompressedSize"
    and quiet: "turns w = []"
    and fresh: "ks (V (srv w)) (keyForScanJob cfg (job_Key j)) = None"
      "ks (V (srv w)) (keyForScanReport cfg (job_Key j)) = None"
    and distinct: "stream \<noteq> keyForScanReport cfg (job_Key j)"
    and enq: "run_state (store_Enqueue R C cfg j stream payload) w = (Inr (), w1)"
    and get: "run_state (store_Get R C cfg (job_Key j)) w1 = (Inr x, w2)"
  shows "x = Some j"
  using wpD [OF redis_server.wp_Get [OF server, of C _ cfg "job_Key j" j j] _ get]
    redis_server.enqueue_stores [OF server laws wf m quiet fresh distinct enq] by fastforce

lemma ex_enqueue_runs:
  "fst (run_state (store_Enqueue ref_redis ref_codec ex_cfg ex_job ''st'' ''p'') ex_world) = Inr ()"
  by code_simp

lemma ex_job_size: "case marshalSized ref_codec (ScanJob_to_json ref_codec ex_job) of
    Inr (z, n) \<Rightarrow> int n \<le> 1000 | Inl e \<Rightarrow> False"
proof -
  have "case ScanJob_to_json ref_codec ex_job of Inr v \<Rightarrow> ilen (json_text ref_codec v) \<le> 1000 | Inl e \<Rightarrow> False"
    by code_simp
  then show ?thesis
    by (auto simp: marshalSized_def Let_def ilen_length ref_codec_def split: sum.splits)
qed

lemma ref_Get_ok:
  assumes "quiet rv v w" "job_stored C v (keyForScanJob cfg key) j" "ks v (keyForScanReport cfg key) = None"
  shows "fst (run_state (store_Get ref_redis C cfg key) w) = Inr (Some j)"
  using assms
  by (auto simp: store_Get_def store_Get_body_def getJob_def operation_def Now_def metric_def Let_def
      call_quiet quiet_def job_stored_def ref_redis_def change_def of_opt_def)

theorem enqueue_then_get_witness:
  "\<exists>w1 w2. run_state (store_Enqueue ref_redis ref_codec ex_cfg ex_job ''st'' ''p'') ex_world = (Inr (), w1) \<and>
     run_state (store_Get ref_redis ref_codec ex_cfg (job_Key ex_job)) w1 = (Inr (Some ex_job), w2)"
proof -
  obtain w1 where w1: "run_state (store_Enqueue ref_redis ref_codec ex_cfg ex_job ''st'' ''p'') ex_world = (Inr (), w1)"
    using ex_enqueue_runs by (metis prod.collapse)
  obtain z n where z: "marshalSized ref_codec (ScanJob_to_json ref_codec ex_job) = Inr (z, n)" "n \<le> maxDecompressedSize"
    using ex_job_size by (auto simp: maxDecompressedSize_def split: sum.splits)
  have w: "turns ex_world = []" "ks (rv (srv ex_world)) k = None" for k
    by (simp_all add: ex_world_def world_of_def ex_server_def)
  have d: "''st'' \<noteq> keyForScanReport ex_cfg (job_Key ex_job)"
    by (simp add: keyForScanReport_def ex_cfg_def)
  obtain x w2 where w2: "run_state (store_Get ref_redis ref_codec ex_cfg (job_Key ex_job)) w1 = (Inr x, w2)"
    using redis_server.enqueue_stores [OF ref.redis_server_axioms refc.codec_laws_axioms ex_job_wf(1) z w(1) w(2) w(2) d w1]
      ref_Get_ok by (metis prod.collapse)
  have "x = Some ex_job"
    by (rule enqueue_then_get [OF ref.redis_server_axioms refc.codec_laws_axioms ex_job_wf(1) z w(1) w(2) w(2) d w1 w2])
  then show ?thesis using w1 w2 by blast
qed

text \<open>
  C4. A status update that succeeds was made under the lease, and a \<^verbatim>\<open>Get\<close> after it finds the
  job with the new status and message, one more attempt if it became pending, the report as
  it was, and no expiry on the job.
\<close>

lemma with_status_wf:
  "wf_job j \<Longrightarrow> int64 st \<Longrightarrow> int64 (Attempts j + 1) \<Longrightarrow> wf_job (with_status st ms now j)"
  by (auto simp: wf_job_def with_status_def Let_def)

lemma with_status_fields [simp]:
  "job_Status (with_status st ms now j) = st" "job_Report (with_status st ms now j) = job_Report j"
  "Attempts (with_status st ms now j) = Attempts j + (if st = Pending then 1 else 0)"
  "job_Error (with_status st ms now j) = (case ms of [] \<Rightarrow> [] | m # _ \<Rightarrow> m)"
  "job_Key (with_status st ms now j) = job_Key j"
  by (simp_all add: with_status_def Let_def)

theorem status_update_then_get:
  assumes server: "redis_server R V" and laws: "codec_laws C"
    and wf: "wf_job j" "int64 st" "int64 (Attempts j + 1)"
    and sizes: "\<And>now. case marshalSized C (ScanJob_to_json C (with_status st ms now j)) of
        Inr (z, n) \<Rightarrow> n \<le> maxDecompressedSize | Inl e \<Rightarrow> True"
    and stored: "job_stored C (V (srv w)) (keyForScanJob cfg key) j" "job_Key j = key"
      "ks (V (srv w)) (keyForScanReport cfg key) = None"
    and quiet: "turns w = []"
    and upd: "run_state (store_UpdateStatus R C cfg l key st ms) w = (Inr (), w1)"
    and get: "run_state (store_Get R C cfg key) w1 = (Inr x, w2)"
  shows "held l (V (srv w)) \<and> ttl (V (srv w2)) (keyForScanJob cfg key) = None \<and>
    (\<exists>j'. x = Some j' \<and> job_Status j' = st \<and> job_Error j' = (case ms of [] \<Rightarrow> [] | m # _ \<Rightarrow> m) \<and>
       Attempts j' = Attempts j + (if st = Pending then 1 else 0) \<and> job_Report j' = job_Report j)"
proof -
  have "quiet V (V (srv w)) w" using quiet by (simp add: quiet_def)
  from wpD [OF redis_server.wp_UpdateStatus [OF server stored(1,2)] this upd]
  obtain now z n v' where m: "marshalSized C (ScanJob_to_json C (with_status st ms now j)) = Inr (z, n)"
    and held: "held l (V (srv w))"
    and v': "v' = put_ttl (keyForScanReport cfg key) None (set_effect (keyForScanJob cfg key) z (V (srv w)))"
    and q: "quiet V v' w1" by auto
  obtain data where d: "decompress C z = Inr data" "unmarshal_job C data = Inr (with_status st ms now j)"
    using codec_laws.stored_job_read [OF laws m _ with_status_wf [OF wf]] sizes [of now] m by auto
  have "job_stored C v' (keyForScanJob cfg key) (with_status st ms now j)"
    "ks v' (keyForScanReport cfg key) = None" "ttl v' (keyForScanJob cfg key) = None"
    using v' d stored(3) by (auto simp: job_stored_def)
  then show ?thesis
    using wpD [OF redis_server.wp_Get [OF server, of C v' cfg key "with_status st ms now j" "with_status st ms now j"] q get] held
    by (simp add: quiet_def)
qed

lemma ex_marshal: "marshalSized ref_codec (ScanJob_to_json ref_codec ex_job) = Inr (stored_value ex_job, length (stored_value ex_job) - 2)"
  by (auto simp: stored_value_def marshalSized_def ref_codec_def Let_def ScanJob_to_json_def
      ScanReport_to_json_def ex_job_def zero_ScanJob_def zero_Report_def)

lemma ex_owned_stored: "job_stored ref_codec (rv (srv ex_owned)) (keyForScanJob ex_cfg ex_key) ex_job"
proof -
  obtain data where "decompress ref_codec (stored_value ex_job) = Inr data" "unmarshal_job ref_codec data = Inr ex_job"
    using codec_laws.stored_job_read [OF refc.codec_laws_axioms ex_marshal _ ex_job_wf(1)] ex_job_size ex_marshal
    by (auto simp: maxDecompressedSize_def)
  moreover have "keyForScanJob ex_cfg ex_key = ''ns:scan-job:a1:application/vnd.security.vulnerability.report; version=1.1''"
    by (simp add: keyForScanJob_def ex_cfg_def ex_key_def ScanJobKey_String_def vuln_mime_String)
  ultimately show ?thesis
    by (simp add: job_stored_def ex_owned_def world_of_def)
qed

lemma ref_UpdateStatus_ok:
  assumes "turns w = []" "job_stored C (rv (srv w)) (keyForScanJob cfg key) j" "job_Key j = key"
    "held l (rv (srv w))" "lease_Key l \<noteq> []" "lease_Token l \<noteq> []" "oom (srv w) = []"
    and m: "\<And>now. \<exists>z n. marshalSized C (ScanJob_to_json C (with_status st ms now j)) = Inr (z, n)"
  shows "fst (run_state (store_UpdateStatus ref_redis C cfg l key st ms) w) = Inr ()"
proof -
  obtain z n where "marshalSized C (ScanJob_to_json C (with_status st ms (clock w) j)) = Inr (z, n)"
    using m by blast
  then show ?thesis
    using assms(1-7)
    by (auto simp: store_UpdateStatus_def labelled_def getJob_def operation_def Now_def metric_def Let_def
        store_update_def updateJobScript_def store_written_def
        call_quiet job_stored_def ref_redis_def change_def of_opt_def held_def)
qed

lemma ex_failed: "with_status Failed [''x''] now ex_job = ex_job\<lparr>job_Status := 3, job_Error := ''x''\<rparr>"
  by (simp add: with_status_def ex_job_def zero_ScanJob_def status_defs)

lemma ex_failed_size:
  "\<exists>z n. marshalSized ref_codec (ScanJob_to_json ref_codec (with_status Failed [''x''] now ex_job)) = Inr (z, n) \<and>
     n \<le> maxDecompressedSize"
proof -
  have "case ScanJob_to_json ref_codec (ex_job\<lparr>job_Status := 3, job_Error := ''x''\<rparr>) of
      Inr v \<Rightarrow> ilen (json_text ref_codec v) \<le> 1000 | Inl e \<Rightarrow> False"
    by code_simp
  then show ?thesis
    by (auto simp: marshalSized_def Let_def ilen_length ref_codec_def ex_failed maxDecompressedSize_def split: sum.splits)
qed

theorem status_update_then_get_witness:
  "\<exists>w1 x w2. run_state (store_UpdateStatus ref_redis ref_codec ex_cfg ex_lease ex_key Failed [''x'']) ex_owned = (Inr (), w1) \<and>
     run_state (store_Get ref_redis ref_codec ex_cfg ex_key) w1 = (Inr (Some x), w2) \<and> job_Status x = Failed"
proof -
  have s: "turns ex_owned = []" "oom (srv ex_owned) = []" "held ex_lease (rv (srv ex_owned))"
    "ks (rv (srv ex_owned)) (keyForScanReport ex_cfg ex_key) = None"
    by (simp_all add: ex_owned_def world_of_def ex_server_def held_def ex_lease_def keyForScanReport_def ex_cfg_def)
  have k: "job_Key ex_job = ex_key" "Attempts ex_job = 0" by (simp_all add: ex_job_def zero_ScanJob_def)
  obtain w1 where w1: "run_state (store_UpdateStatus ref_redis ref_codec ex_cfg ex_lease ex_key Failed [''x'']) ex_owned = (Inr (), w1)"
    using ref_UpdateStatus_ok [OF s(1) ex_owned_stored k(1) s(3) _ _ s(2), of Failed "[''x'']"] ex_failed_size
    by (metis ex_lease_def Lease.select_convs list.distinct(1) prod.collapse)
  obtain v' where q: "quiet rv v' w1" "job_stored ref_codec v' (keyForScanJob ex_cfg ex_key) (with_status Failed [''x''] 0 ex_job)"
    "ks v' (keyForScanReport ex_cfg ex_key) = None"
  proof -
    have "quiet rv (rv (srv ex_owned)) ex_owned" using s(1) by (simp add: quiet_def)
    from wpD [OF redis_server.wp_UpdateStatus [OF ref.redis_server_axioms ex_owned_stored k(1)] this w1]
    obtain now z n v' where m: "marshalSized ref_codec (ScanJob_to_json ref_codec (with_status Failed [''x''] now ex_job)) = Inr (z, n)"
      and v': "v' = put_ttl (keyForScanReport ex_cfg ex_key) None (set_effect (keyForScanJob ex_cfg ex_key) z (rv (srv ex_owned)))"
      and q: "quiet rv v' w1" by auto
    obtain data where d: "decompress ref_codec z = Inr data" "unmarshal_job ref_codec data = Inr (with_status Failed [''x''] now ex_job)"
      using codec_laws.stored_job_read [OF refc.codec_laws_axioms m _ with_status_wf [OF ex_job_wf(1)]] ex_failed_size [of now] m k
      by (auto simp: int64_def Failed_def)
    show thesis
      by (rule that [OF q]) (use v' d s(4) in \<open>auto simp: job_stored_def ex_failed\<close>)
  qed
  obtain x w2 where w2: "run_state (store_Get ref_redis ref_codec ex_cfg ex_key) w1 = (Inr x, w2)"
    using ref_Get_ok [OF q] by (metis prod.collapse)
  have sizes: "case marshalSized ref_codec (ScanJob_to_json ref_codec (with_status Failed [''x''] now ex_job)) of
      Inr (z, n) \<Rightarrow> n \<le> maxDecompressedSize | Inl e \<Rightarrow> True" for now
    using ex_failed_size [of now] by auto
  have "int64 Failed" "int64 (Attempts ex_job + 1)" by (simp_all add: int64_def Failed_def k)
  from status_update_then_get [OF ref.redis_server_axioms refc.codec_laws_axioms ex_job_wf(1) this sizes ex_owned_stored k(1) s(4) s(1) w1 w2]
  show ?thesis using w1 w2 by blast
qed

text \<open>
  C5. An \<^verbatim>\<open>Enqueue\<close> is all or nothing. Every change it makes to the server, whatever the interleaving
  and faults, is one of these: none, because the job exists (it is never touched) or the server refused
  to look for it or to add the delivery; both the marshalled job and one more delivery, with a new
  identifier, at the end of the stream; or none in effect, when the server refused to write the job and
  the delivery was taken back. A delivery is left without its job only if the server refuses both to
  write the job and to delete the delivery again.
\<close>

theorem enqueue_all_or_nothing:
  assumes "redis_server R V"
  shows "keeps (own (\<lambda>s s'.
      V s' = V s \<and> (ks (V s) (keyForScanJob cfg (job_Key j)) \<noteq> None \<or>
        refused V (EXISTS R (keyForScanJob cfg (job_Key j))) (V s) \<or> refused V (XADD R stream [(''job'', payload)]) (V s)) \<or>
      ks (V s) (keyForScanJob cfg (job_Key j)) = None \<and>
      (\<exists>es gs i value n. as_stream (ks (V s) stream) = Some (es, gs) \<and> i \<notin> fst ` set es \<and>
         marshalSized C (ScanJob_to_json C j) = Inr (value, n) \<and>
         (let added = put_value stream (Strm (es @ [(i, [(''job'', payload)])]) gs) (V s) in
          V s' = set_effect (keyForScanJob cfg (job_Key j)) value added \<or>
          refused V (SET R (keyForScanJob cfg (job_Key j)) value) added \<and>
            (V s' = put_value stream (Strm es gs) (V s) \<or> refused V (XDEL R stream i) added \<and> V s' = added)))))
    (store_Enqueue R C cfg j stream payload)"
proof -
  have f: "i \<notin> fst ` set es \<Longrightarrow> filter (\<lambda>e. fst e \<noteq> i) es = es" for i and es :: "entry list"
    by (auto simp: filter_id_conv)
  have taken_back: "i \<notin> fst ` set es \<Longrightarrow> xdel_effect stream i (put_value stream (Strm (es @ [(i, fs)]) gs) v) = put_value stream (Strm es gs) v"
    for i es fs gs v by (simp add: xdel_effect_def put_value_def f)
  show ?thesis
  proof (rule redis_server.own_Enqueue_outcome [OF assms])
    fix z n v v'
    assume m: "marshalSized C (ScanJob_to_json C j) = Inr (z, n)"
      and o: "enqueue_outcome R V (keyForScanJob cfg (job_Key j)) stream z payload v v'"
    show "v' = v \<and> (ks v (keyForScanJob cfg (job_Key j)) \<noteq> None \<or>
        refused V (EXISTS R (keyForScanJob cfg (job_Key j))) v \<or> refused V (XADD R stream [(''job'', payload)]) v) \<or>
      ks v (keyForScanJob cfg (job_Key j)) = None \<and>
      (\<exists>es gs i value n. as_stream (ks v stream) = Some (es, gs) \<and> i \<notin> fst ` set es \<and>
         marshalSized C (ScanJob_to_json C j) = Inr (value, n) \<and>
         (let added = put_value stream (Strm (es @ [(i, [(''job'', payload)])]) gs) v in
          v' = set_effect (keyForScanJob cfg (job_Key j)) value added \<or>
          refused V (SET R (keyForScanJob cfg (job_Key j)) value) added \<and>
            (v' = put_value stream (Strm es gs) v \<or> refused V (XDEL R stream i) added \<and> v' = added)))"
      using o m unfolding enqueue_outcome_def Let_def
      by (elim disjE [where R = "_ \<or> _"] exE conjE) (auto simp: taken_back)
  qed
qed

text \<open>A server on which every write of a job is refused for want of memory: the delivery is taken back.\<close>

lemma ex_refused_run:
  "case run_state (store_Enqueue ref_redis ref_codec ex_cfg ex_job ''st'' ''p'')
     (ex_world\<lparr>srv := ex_server\<lparr>oom := [keyForScanJob ex_cfg (job_Key ex_job)]\<rparr>\<rparr>) of
   (r, w') \<Rightarrow> isl r \<and> map (\<lambda>(s, s'). ks (rv s') ''st'') (hist w') = [Some (Strm [] [])]"
  by code_simp

theorem enqueue_all_or_nothing_witness:
  "\<exists>w'. run_state (store_Enqueue ref_redis ref_codec ex_cfg ex_job ''st'' ''p'') ex_world = (Inr (), w') \<and>
     (\<forall>(s, s') \<in> set (hist w'). rv s' = rv s \<or> ks (rv s) (keyForScanJob ex_cfg (job_Key ex_job)) = None)"
proof -
  obtain w' where w': "run_state (store_Enqueue ref_redis ref_codec ex_cfg ex_job ''st'' ''p'') ex_world = (Inr (), w')"
    using ex_enqueue_runs by (metis prod.collapse)
  have "own G ex_world" for G by (simp add: own_def ex_world_def world_of_def)
  from keepsD [OF enqueue_all_or_nothing [OF ref.redis_server_axioms] this w'] w'
  show ?thesis unfolding own_def by (intro exI [of _ w']) auto
qed

end
