(* ===== verification/Trivy_Model.thy ===== *)
theory Trivy_Model
  imports Errors "HOL-Library.Char_ord" "HOL-Library.List_Lexorder"
begin

text \<open>
  \<^verbatim>\<open>pkg/trivy/model.go\<close>, the types of \<^verbatim>\<open>wrapper.go\<close> other components use, and
  \<^verbatim>\<open>pkg/scan/transformer.go\<close>.
\<close>

section \<open>Data\<close>

definition SchemaVersion :: int where
  "SchemaVersion = 2"

record TrivyLayer =
  tl_Digest :: string
  tl_DiffID :: string

text \<open>A \<^verbatim>\<open>*float32\<close> is the literal of its number, if it is there.\<close>

record CVSSInfo =
  V2Vector :: string
  V3Vector :: string
  V2Score :: "string option"
  V3Score :: "string option"

record Vulnerability =
  VulnerabilityID :: string
  PkgName :: string
  InstalledVersion :: string
  v_Status :: string
  FixedVersion :: string
  Title :: string
  Description :: string
  v_Severity :: string
  References :: "string slice"
  PrimaryURL :: string
  v_Layer :: "TrivyLayer option"
  CVSS :: "(string \<times> CVSSInfo) list"
  CweIDs :: "string slice"

text \<open>\<^verbatim>\<open>trivy.ScanReport\<close> is what the engine writes; \<^verbatim>\<open>trivy.Report\<close> what the wrapper returns.\<close>

record ScanResult =
  res_Target :: string
  res_Vulnerabilities :: "Vulnerability slice"

record TrivyScanReport =
  tr_SchemaVersion :: int
  Results :: "ScanResult slice"

record Report =
  SBOM :: json
  Vulnerabilities :: "Vulnerability slice"

record Metadata =
  NextUpdate :: time
  UpdatedAt :: time

record VersionInfo =
  vi_TrivyVersion :: string
  VulnerabilityDB :: "Metadata option"
  JavaDB :: "Metadata option"

type_synonym Format = string

definition FormatJSON :: Format where "FormatJSON = ''json''"
definition FormatSPDX :: Format where "FormatSPDX = ''spdx-json''"
definition FormatCycloneDX :: Format where "FormatCycloneDX = ''cyclonedx''"

lemmas format_defs = FormatJSON_def FormatSPDX_def FormatCycloneDX_def

datatype RegistryAuth = NoAuth | BasicAuth (Username: string) (Password: string) | BearerAuth (Token: string)

record TrivyImageRef =
  ir_Name :: string
  ir_Auth :: RegistryAuth
  ir_NonSSL :: bool

section \<open>JSON\<close>

definition TrivyLayer_of_json :: "json \<Rightarrow> string + TrivyLayer" where
  "TrivyLayer_of_json v =
     (case v of
        JObj o1 \<Rightarrow>
          bindR (jfield o1 ''Digest'' [] dec_str) (\<lambda>d.
          bindR (jfield o1 ''DiffID'' [] dec_str) (\<lambda>i.
          Inr \<lparr>tl_Digest = d, tl_DiffID = i\<rparr>))
      | _ \<Rightarrow> Inl ''json: cannot unmarshal value into Go struct Layer'')"

definition CVSSInfo_of_json :: "json \<Rightarrow> string + CVSSInfo" where
  "CVSSInfo_of_json v =
     (case v of
        JObj o1 \<Rightarrow>
          bindR (jfield o1 ''V2Vector'' [] dec_str) (\<lambda>a.
          bindR (jfield o1 ''V3Vector'' [] dec_str) (\<lambda>b.
          bindR (jfield o1 ''V2Score'' None (dec_ptr dec_num)) (\<lambda>c.
          bindR (jfield o1 ''V3Score'' None (dec_ptr dec_num)) (\<lambda>d.
          Inr \<lparr>V2Vector = a, V3Vector = b, V2Score = c, V3Score = d\<rparr>))))
      | _ \<Rightarrow> Inl ''json: cannot unmarshal value into Go struct CVSSInfo'')"

definition CVSSInfo_to_json :: "CVSSInfo \<Rightarrow> json" where
  "CVSSInfo_to_json c =
     JObj (omit (V2Vector c = []) ''V2Vector'' (JStr (V2Vector c))
           @ omit (V3Vector c = []) ''V3Vector'' (JStr (V3Vector c))
           @ omit (V2Score c = None) ''V2Score'' (enc_ptr JNum (V2Score c))
           @ omit (V3Score c = None) ''V3Score'' (enc_ptr JNum (V3Score c)))"

definition zero_CVSSInfo :: CVSSInfo where
  "zero_CVSSInfo = \<lparr>V2Vector = [], V3Vector = [], V2Score = None, V3Score = None\<rparr>"

text \<open>A \<^verbatim>\<open>map[string]CVSSInfo\<close>.\<close>

definition CVSS_of_json :: "json \<Rightarrow> string + (string \<times> CVSSInfo) list" where
  "CVSS_of_json v =
     bindR (dec_map v) (\<lambda>kvs.
       mapR (\<lambda>(k, x). bindR (dec_elem zero_CVSSInfo CVSSInfo_of_json x) (\<lambda>c. Inr (k, c))) kvs)"

definition Vulnerability_of_json :: "json \<Rightarrow> string + Vulnerability" where
  "Vulnerability_of_json v =
     (case v of
        JObj o1 \<Rightarrow>
          bindR (jfield o1 ''VulnerabilityID'' [] dec_str) (\<lambda>i.
          bindR (jfield o1 ''PkgName'' [] dec_str) (\<lambda>p.
          bindR (jfield o1 ''InstalledVersion'' [] dec_str) (\<lambda>iv.
          bindR (jfield o1 ''Status'' [] dec_str) (\<lambda>st.
          bindR (jfield o1 ''FixedVersion'' [] dec_str) (\<lambda>f.
          bindR (jfield o1 ''Title'' [] dec_str) (\<lambda>t.
          bindR (jfield o1 ''Description'' [] dec_str) (\<lambda>d.
          bindR (jfield o1 ''Severity'' [] dec_str) (\<lambda>s.
          bindR (jfield o1 ''References'' None (dec_slice (dec_elem [] dec_str))) (\<lambda>r.
          bindR (jfield o1 ''PrimaryURL'' [] dec_str) (\<lambda>u.
          bindR (jfield o1 ''Layer'' None (dec_ptr TrivyLayer_of_json)) (\<lambda>l.
          bindR (jfield o1 ''CVSS'' [] CVSS_of_json) (\<lambda>c.
          bindR (jfield o1 ''CweIDs'' None (dec_slice (dec_elem [] dec_str))) (\<lambda>w.
          Inr \<lparr>VulnerabilityID = i, PkgName = p, InstalledVersion = iv, v_Status = st, FixedVersion = f,
               Title = t, Description = d, v_Severity = s, References = r, PrimaryURL = u, v_Layer = l,
               CVSS = c, CweIDs = w\<rparr>)))))))))))))
      | _ \<Rightarrow> Inl ''json: cannot unmarshal value into Go struct Vulnerability'')"

definition zero_Vulnerability :: Vulnerability where
  "zero_Vulnerability =
     \<lparr>VulnerabilityID = [], PkgName = [], InstalledVersion = [], v_Status = [], FixedVersion = [],
      Title = [], Description = [], v_Severity = [], References = None, PrimaryURL = [], v_Layer = None,
      CVSS = [], CweIDs = None\<rparr>"

definition ScanResult_of_json :: "json \<Rightarrow> string + ScanResult" where
  "ScanResult_of_json v =
     (case v of
        JObj o1 \<Rightarrow>
          bindR (jfield o1 ''Target'' [] dec_str) (\<lambda>t.
          bindR (jfield o1 ''Vulnerabilities'' None
                  (dec_slice (dec_elem zero_Vulnerability Vulnerability_of_json))) (\<lambda>l.
          Inr \<lparr>res_Target = t, res_Vulnerabilities = l\<rparr>))
      | _ \<Rightarrow> Inl ''json: cannot unmarshal value into Go struct ScanResult'')"

definition TrivyScanReport_of_json :: "json \<Rightarrow> string + TrivyScanReport" where
  "TrivyScanReport_of_json v =
     (case v of
        JObj o1 \<Rightarrow>
          bindR (jfield o1 ''SchemaVersion'' 0 dec_int) (\<lambda>s.
          bindR (jfield o1 ''Results'' None
                  (dec_slice (dec_elem \<lparr>res_Target = [], res_Vulnerabilities = None\<rparr> ScanResult_of_json))) (\<lambda>l.
          Inr \<lparr>tr_SchemaVersion = s, Results = l\<rparr>))
      | JNull \<Rightarrow> Inr \<lparr>tr_SchemaVersion = 0, Results = None\<rparr>
      | _ \<Rightarrow> Inl ''json: cannot unmarshal value into Go value of type ScanReport'')"

definition Metadata_of_json :: "codec \<Rightarrow> json \<Rightarrow> string + Metadata" where
  "Metadata_of_json C v =
     (case v of
        JObj o1 \<Rightarrow>
          bindR (jfield o1 ''NextUpdate'' 0 (dec_time C)) (\<lambda>n.
          bindR (jfield o1 ''UpdatedAt'' 0 (dec_time C)) (\<lambda>u.
          Inr \<lparr>NextUpdate = n, UpdatedAt = u\<rparr>))
      | _ \<Rightarrow> Inl ''json: cannot unmarshal value into Go struct Metadata'')"

definition zero_VersionInfo :: VersionInfo where
  "zero_VersionInfo = \<lparr>vi_TrivyVersion = [], VulnerabilityDB = None, JavaDB = None\<rparr>"

definition VersionInfo_of_json :: "codec \<Rightarrow> json \<Rightarrow> string + VersionInfo" where
  "VersionInfo_of_json C v =
     (case v of
        JObj o1 \<Rightarrow>
          bindR (jfield o1 ''Version'' [] dec_str) (\<lambda>s.
          bindR (jfield o1 ''VulnerabilityDB'' None (dec_ptr (Metadata_of_json C))) (\<lambda>d.
          bindR (jfield o1 ''JavaDB'' None (dec_ptr (Metadata_of_json C))) (\<lambda>j.
          Inr \<lparr>vi_TrivyVersion = s, VulnerabilityDB = d, JavaDB = j\<rparr>)))
      | JNull \<Rightarrow> Inr zero_VersionInfo
      | _ \<Rightarrow> Inl ''json: cannot unmarshal value into Go value of type VersionInfo'')"

section \<open>The transformer\<close>

definition trivyToHarborSeverityMap :: "(string \<times> Severity) list" where
  "trivyToHarborSeverityMap =
     [(''CRITICAL'', SevCritical), (''HIGH'', SevHigh), (''MEDIUM'', SevMedium), (''LOW'', SevLow),
      (''UNKNOWN'', SevUnknown)]"

definition toHarborSeverity :: "string \<Rightarrow> Severity" where
  "toHarborSeverity s = (case map_of trivyToHarborSeverityMap s of None \<Rightarrow> SevUnknown | Some x \<Rightarrow> x)"

definition toLinks :: "string \<Rightarrow> string slice \<Rightarrow> string slice" where
  "toLinks primaryURL references =
     (if primaryURL \<noteq> [] then Some [primaryURL]
      else case references of None \<Rightarrow> Some [] | Some rs \<Rightarrow> Some rs)"

definition toHarborLayer :: "TrivyLayer option \<Rightarrow> Layer option" where
  "toHarborLayer l = map_option (\<lambda>l. \<lparr>lay_Digest = tl_Digest l, lay_DiffID = tl_DiffID l\<rparr>) l"

text \<open>The value of the attribute as it is marshaled: the keys of a map are sorted.\<close>

definition toVendorAttributes :: "(string \<times> CVSSInfo) list \<Rightarrow> (string \<times> json) list" where
  "toVendorAttributes info =
     (if info = [] then []
      else [(''CVSS'', JObj (map (\<lambda>(k, c). (k, CVSSInfo_to_json c)) (sort_key fst info)))])"

definition transformVulnerability :: "Vulnerability \<Rightarrow> VulnerabilityItem" where
  "transformVulnerability v =
     \<lparr>vi_ID = VulnerabilityID v, vi_Pkg = PkgName v, vi_Version = InstalledVersion v,
      vi_Status = v_Status v, vi_FixVersion = FixedVersion v, vi_Severity = toHarborSeverity (v_Severity v),
      vi_Description = Description v, vi_Links = toLinks (PrimaryURL v) (References v),
      vi_Layer = toHarborLayer (v_Layer v), vi_PreferredCVSS = None, vi_CweIDs = CweIDs v,
      vi_VendorAttributes = toVendorAttributes (CVSS v)\<rparr>"

definition transformVulnerabilities :: "Vulnerability slice \<Rightarrow> VulnerabilityItem slice" where
  "transformVulnerabilities source =
     (if items source = [] then None else Some (map transformVulnerability (items source)))"

text \<open>\<^verbatim>\<open>lo.MaxBy\<close>: a later element replaces the candidate only if it compares greater.\<close>

definition toHighestSeverity :: "VulnerabilityItem slice \<Rightarrow> Severity" where
  "toHighestSeverity vulns =
     (case items vulns of
        [] \<Rightarrow> 0
      | v # vs \<Rightarrow> vi_Severity (fold (\<lambda>x m. if vi_Severity x > vi_Severity m then x else m) vs v))"

definition Transform ::
    "string option \<Rightarrow> time \<Rightarrow> MediaType \<Rightarrow> ScanRequest \<Rightarrow> Report \<Rightarrow> ScanReport" where
  "Transform trivy_version now mediaType req source =
     (let report = zero_Report\<lparr>rep_GeneratedAt := now, rep_Scanner := GetScannerMetadata trivy_version,
                               rep_Artifact := req_Artifact req\<rparr>
      in if mediaType = MediaTypeSPDX \<or> mediaType = MediaTypeCycloneDX
         then report\<lparr>rep_MediaType := mediaType, rep_SBOM := SBOM source\<rparr>
         else let vs = transformVulnerabilities (Vulnerabilities source)
              in report\<lparr>rep_Vulnerabilities := vs, rep_Severity := toHighestSeverity vs\<rparr>)"

lemma toHarborSeverity_valid: "valid_severity (toHarborSeverity s) \<and> toHarborSeverity s \<noteq> 0"
  by (simp add: toHarborSeverity_def trivyToHarborSeverityMap_def valid_severity_def sev_defs)

lemma fold_severity:
  "vi_Severity (fold (\<lambda>x m. if vi_Severity x > vi_Severity m then x else m) vs v) =
     Max (vi_Severity ` set (v # vs))"
proof (induction vs arbitrary: v)
  case (Cons x vs)
  have "Max (vi_Severity ` set ((if vi_Severity x > vi_Severity v then x else v) # vs)) =
      Max (vi_Severity ` set (v # x # vs))"
    by (cases "vs = []") (auto simp: max_def)
  then show ?case by (simp add: Cons)
qed simp

text \<open>The severity of a report is the highest of its items, or none.\<close>

lemma toHighestSeverity_Max:
  "toHighestSeverity vulns = (if items vulns = [] then 0 else Max (vi_Severity ` set (items vulns)))"
  by (simp add: toHighestSeverity_def fold_severity split: list.split)

lemma toHighestSeverity_valid: "list_all (\<lambda>v. valid_severity (vi_Severity v)) (items vs) \<Longrightarrow> valid_severity (toHighestSeverity vs)"
proof (cases "items vs = []")
  case False
  then have "toHighestSeverity vs \<in> vi_Severity ` set (items vs)"
    by (simp add: toHighestSeverity_Max)
  then show "list_all (\<lambda>v. valid_severity (vi_Severity v)) (items vs) \<Longrightarrow> ?thesis"
    by (auto simp: list_all_iff)
qed (simp add: toHighestSeverity_Max valid_severity_def)

text \<open>A transformed report can be stored and read back: the round trip of \<open>Harbor_Json\<close> applies.\<close>

lemma Transform_wf:
  assumes "\<forall>v \<in> set (items (Vulnerabilities source)). CweIDs v \<noteq> Some []"
  shows "wf_report (Transform trivy_version now mediaType req source)"
proof -
  have item: "wf_item (transformVulnerability v)" if "CweIDs v \<noteq> Some []" for v
    using that toHarborSeverity_valid
    by (simp add: wf_item_def transformVulnerability_def toVendorAttributes_def)
  then have "list_all wf_item (items (transformVulnerabilities (Vulnerabilities source)))"
    using assms by (auto simp: transformVulnerabilities_def list_all_iff)
  moreover have "valid_severity (toHighestSeverity (transformVulnerabilities (Vulnerabilities source)))"
    using toHarborSeverity_valid
    by (intro toHighestSeverity_valid) (auto simp: transformVulnerabilities_def list_all_iff transformVulnerability_def)
  moreover have "transformVulnerabilities (Vulnerabilities source) \<noteq> Some []"
    by (simp add: transformVulnerabilities_def)
  ultimately show ?thesis
    by (auto simp: Transform_def Let_def wf_report_def zero_Report_def valid_severity_def)
qed

end
