(* ===== verification/Controller.thy ===== *)
theory Controller
  imports Store_Spec Trivy_Model
begin

text \<open>
  \<^verbatim>\<open>pkg/persistence/store.go\<close> (the interface of the store) and \<^verbatim>\<open>pkg/scan/controller.go\<close>: how a
  scan job is executed and how its outcome is recorded.
\<close>

section \<open>The store as an interface\<close>

text \<open>The lease the context carries is an argument of the mutations.\<close>

record ('s, 'z) Store =
  Enqueue :: "ScanJob \<Rightarrow> string \<Rightarrow> string \<Rightarrow> ('s, 'z, unit) op"
  Acknowledge :: "Lease \<Rightarrow> ScanJobKey \<Rightarrow> string \<Rightarrow> string \<Rightarrow> string \<Rightarrow> ('s, 'z, unit) op"
  Get :: "ScanJobKey \<Rightarrow> ('s, 'z, ScanJob option) op"
  UpdateStatus :: "Lease \<Rightarrow> ScanJobKey \<Rightarrow> ScanJobStatus \<Rightarrow> string list \<Rightarrow> ('s, 'z, unit) op"
  UpdateReport :: "Lease \<Rightarrow> ScanJobKey \<Rightarrow> ScanReport \<Rightarrow> ('s, 'z, unit) op"

text \<open>\<^verbatim>\<open>NewStore\<close>.\<close>

definition redis_store :: "'s redis \<Rightarrow> codec \<Rightarrow> store_config \<Rightarrow> ('s, 'z) Store" where
  "redis_store R C cfg =
     \<lparr>Enqueue = store_Enqueue R C cfg, Acknowledge = store_Acknowledge R C cfg, Get = store_Get R C cfg,
      UpdateStatus = store_UpdateStatus R C cfg, UpdateReport = store_UpdateReport R C cfg\<rparr>"

text \<open>\<^verbatim>\<open>trivy.Wrapper\<close>, as far as the controller uses it.\<close>

type_synonym ('s, 'z) scanner = "TrivyImageRef \<Rightarrow> Format \<Rightarrow> ('s, 'z, Report) op"

section \<open>Credentials\<close>

text \<open>Only the text between the first and the second colon is the password.\<close>

definition decodeBasicAuth :: "string \<Rightarrow> RegistryAuth outcome_of" where
  "decodeBasicAuth val =
     (case b64_decode val of
        None \<Rightarrow> Err (ErrText ''illegal base64 data'')
      | Some creds \<Rightarrow>
          let tokens = Split creds (CHR '':'') in
          if length tokens < 2 then Panic ''runtime error: index out of range [1] with length 1''
          else Returned (BasicAuth (tokens ! 0) (tokens ! 1)))"

definition ToRegistryAuth :: "string \<Rightarrow> RegistryAuth outcome_of" where
  "ToRegistryAuth authorization =
     (if authorization = [] then Returned NoAuth
      else let tokens = Split authorization (CHR '' '') in
        if length tokens \<noteq> 2
        then Err (ErrText (''parsing authorization: expected <type> <credentials> got '' @ authorization))
        else if tokens ! 0 = ''Basic'' then decodeBasicAuth (tokens ! 1)
        else if tokens ! 0 = ''Bearer'' then Returned (BearerAuth (tokens ! 1))
        else Err (ErrText (''unrecognized authorization type: '' @ tokens ! 0)))"

definition determineFormat :: "MediaType \<Rightarrow> Format" where
  "determineFormat m' =
     (if m' = MediaTypeSPDX then FormatSPDX
      else if m' = MediaTypeCycloneDX then FormatCycloneDX
      else FormatJSON)"

definition failureCategory :: "goerr option \<Rightarrow> string \<Rightarrow> string" where
  "failureCategory err stage =
     (case err of
        None \<Rightarrow> ''unknown''
      | Some e \<Rightarrow>
          if errors_Is e (Errno ENOSPC) then ''storage_full''
          else if errors_Is e (Errno EIO) then ''storage_io''
          else case As_ScanError e of
            Some s \<Rightarrow> Category s
          | None \<Rightarrow>
              if stage = ''status'' \<or> stage = ''report'' then ''persistence''
              else if stage = ''auth'' then ''auth''
              else if stage = ''internal'' \<or> stage = ''transform'' then ''internal''
              else ''unknown'')"

section \<open>Executing a job\<close>

text \<open>\<^verbatim>\<open>scan\<close>: the error it returns, if any, and the stage it ends in. A panic is recovered.\<close>

definition controller_scan ::
    "('s, 'z) Store \<Rightarrow> ('s, 'z) scanner \<Rightarrow> string option \<Rightarrow> Lease \<Rightarrow> ScanJobKey \<Rightarrow> ScanRequest \<Rightarrow>
     (('s, 'z) world_scheme, goerr option \<times> string) state" where
  "controller_scan st scanner trivy_version lease scanJobKey req =
     State_Monad.bind (UpdateStatus st lease scanJobKey Pending []) (\<lambda>r.
     case r of
       Inl e \<Rightarrow> State_Monad.return (Some (PersistenceError (Wrap ''updating scan job status'' e)), ''status'')
     | Inr _ \<Rightarrow>
     (case GetImageRef req of
        Inl e \<Rightarrow> State_Monad.return (Some (ErrText e), ''target'')
      | Inr (imageRef, nonSSL) \<Rightarrow>
     (case ToRegistryAuth (reg_Authorization (req_Registry req)) of
        Panic msg \<Rightarrow> State_Monad.return (Some (ErrText msg), ''internal'')
      | Err e \<Rightarrow> State_Monad.return (Some e, ''auth'')
      | Returned auth \<Rightarrow>
     State_Monad.bind (scanner \<lparr>ir_Name = imageRef, ir_Auth = auth, ir_NonSSL = nonSSL\<rparr>
                         (determineFormat (key_MediaType scanJobKey))) (\<lambda>r.
     case r of
       Inl e \<Rightarrow> State_Monad.return (Some (Wrap ''running trivy wrapper'' e), ''scan'')
     | Inr scanReport \<Rightarrow>
     State_Monad.bind Now (\<lambda>now.
     State_Monad.bind (UpdateReport st lease scanJobKey
                         (Transform trivy_version now (key_MediaType scanJobKey) req scanReport)) (\<lambda>r.
     case r of
       Inl e \<Rightarrow> State_Monad.return (Some (PersistenceError (Wrap ''saving scan report'' e)), ''report'')
     | Inr _ \<Rightarrow>
     State_Monad.bind (UpdateStatus st lease scanJobKey Finished []) (\<lambda>r.
     case r of
       Inl e \<Rightarrow> State_Monad.return (Some (PersistenceError (Wrap ''updating scan job status'' e)), ''status'')
     | Inr _ \<Rightarrow> State_Monad.return (None, ''status''))))))))"

text \<open>What a failed execution leads to: a retry by returning the error, or the status Failed.\<close>

definition failure_message :: "goerr \<Rightarrow> string" where
  "failure_message err =
     (case As_ScanError err of
        Some s \<Rightarrow> ''['' @ Category s @ ''] '' @ Detail s
      | None \<Rightarrow> Error_text err)"

definition record_failure ::
    "('s, 'z) Store \<Rightarrow> Lease \<Rightarrow> ScanJobKey \<Rightarrow> goerr \<Rightarrow> ('s, 'z, unit) op" where
  "record_failure st lease scanJobKey err =
     State_Monad.bind (gets ctx_Err) (\<lambda>cerr.
     case cerr of
       Some ce \<Rightarrow> failE ce
     | None \<Rightarrow>
         if As_persistence err then failE err
         else if (case As_ScanError err of Some s \<Rightarrow> Retryable s | None \<Rightarrow> False) then failE err
         else State_Monad.bind (UpdateStatus st lease scanJobKey Failed [failure_message err]) (\<lambda>r.
           case r of
             Inl e \<Rightarrow> failE (Wrap ''updating scan job as failed'' e)
           | Inr _ \<Rightarrow> okE ()))"

text \<open>\<^verbatim>\<open>BeginExecution\<close> and the finish function it returns, when there is a recorder.\<close>

definition begin_execution :: "(('s, 'z) world_scheme, (nat \<times> time) option) state" where
  "begin_execution =
     State (\<lambda>w. case recorder w of
       None \<Rightarrow> (None, w)
     | Some r \<Rightarrow> (case BeginExecution (clock w) r of (i, r') \<Rightarrow> (Some (i, clock w), w\<lparr>recorder := Some r'\<rparr>)))"

definition finish_execution ::
    "ScanJobKey \<Rightarrow> (nat \<times> time) option \<Rightarrow> bool \<Rightarrow> string \<Rightarrow> string \<Rightarrow> (('s, 'z) world_scheme, unit) state" where
  "finish_execution key h success stage category =
     (case h of
        None \<Rightarrow> State_Monad.return ()
      | Some (i, started) \<Rightarrow>
          State_Monad.bind Now (\<lambda>now. metric (FinishExecution key i started success stage category now)))"

definition Scan ::
    "('s, 'z) Store \<Rightarrow> ('s, 'z) scanner \<Rightarrow> string option \<Rightarrow> Lease \<Rightarrow> ScanJobKey \<Rightarrow> ScanRequest \<Rightarrow> ('s, 'z, unit) op" where
  "Scan st scanner trivy_version lease scanJobKey request =
     State_Monad.bind begin_execution (\<lambda>h.
     State_Monad.bind (controller_scan st scanner trivy_version lease scanJobKey request) (\<lambda>(processingErr, stage).
     State_Monad.bind (case processingErr of None \<Rightarrow> okE () | Some err \<Rightarrow> record_failure st lease scanJobKey err) (\<lambda>r.
     thenM (finish_execution scanJobKey h (processingErr = None) stage (failureCategory processingErr stage))
       (State_Monad.return r))))"

section \<open>What the controller needs of a store\<close>

text \<open>
  \<open>I\<close> is an invariant of the world that the store, the scanner and the recorder keep; the
  clients of the store keep it too.
\<close>

locale recorder_keeps =
  fixes I :: "('s, 'z) world_scheme \<Rightarrow> bool"
  assumes Inc: "in_catalog OpAdd n (length ls) \<Longrightarrow> keeps I (metric (Inc n ls))"
    and Set: "in_catalog OpSet n (length ls) \<Longrightarrow> keeps I (metric (SetTo n v ls))"
    and Observe: "in_catalog OpObserve n (length ls) \<Longrightarrow> keeps I (metric (Observe n v ls))"
    and Now: "keeps I Now"
    and Begin: "keeps I begin_execution"
    and Finish: "keeps I (finish_execution key h b stage cat)"
    and Ident: "keeps I makeIdentifier"

locale store_keeps = recorder_keeps I for I :: "('s, 'z) world_scheme \<Rightarrow> bool" +
  fixes st :: "('s, 'z) Store" and l :: Lease
  assumes Get: "keeps I (Get st key)"
    and UpdateStatus: "keeps I (UpdateStatus st l key s ms)"
    and UpdateReport: "keeps I (UpdateReport st l key rep)"

lemma keeps_case_outcome [wp_intros]:
  "(\<And>a. x = Returned a \<Longrightarrow> keeps P (f a)) \<Longrightarrow> (\<And>e. x = Err e \<Longrightarrow> keeps P (g e)) \<Longrightarrow>
   (\<And>m. x = Panic m \<Longrightarrow> keeps P (h m)) \<Longrightarrow>
   keeps P (case x of Returned a \<Rightarrow> f a | Err e \<Rightarrow> g e | Panic m \<Rightarrow> h m)"
  by (cases x) auto

context store_keeps begin

lemma keeps_controller_scan:
  "(\<And>ref fmt. keeps I (scanner ref fmt)) \<Longrightarrow> keeps I (controller_scan st scanner tv l key req)"
  unfolding controller_scan_def by (intro wp_intros UpdateStatus UpdateReport Now)

lemma keeps_record_failure: "keeps I (record_failure st l key err)"
  unfolding record_failure_def by (intro wp_intros UpdateStatus)

lemma keeps_Scan: "(\<And>ref fmt. keeps I (scanner ref fmt)) \<Longrightarrow> keeps I (Scan st scanner tv l key req)"
  unfolding Scan_def by (intro wp_intros Begin Finish keeps_controller_scan keeps_record_failure)

end

lemma keeps_rec_begin: "keeps rec_ok begin_execution"
proof (rule keepsI)
  fix w r w'
  assume ok: "rec_ok w" and run: "run_state begin_execution w = (r, w')"
  show "rec_ok w'"
  proof (cases "recorder w")
    case (Some x)
    then have "recorder_ok (snd (BeginExecution (clock w) x))"
      using ok by (intro BeginExecution_ok) (simp add: rec_ok_def)
    then show ?thesis
      using run Some by (cases "BeginExecution (clock w) x") (auto simp: begin_execution_def rec_ok_def)
  qed (use run ok in \<open>simp add: begin_execution_def\<close>)
qed

lemma keeps_rec_finish: "keeps rec_ok (finish_execution key h b stage cat)"
  unfolding finish_execution_def by (intro wp_intros keeps_rec_metric FinishExecution_ok)

lemma keeps_own_begin: "keeps (own G) begin_execution"
  by (rule keepsI) (auto simp: begin_execution_def split: option.splits prod.splits)

lemma keeps_own_finish: "keeps (own G) (finish_execution key h b stage cat)"
  unfolding finish_execution_def by (intro wp_intros)

interpretation recorder_metrics: recorder_keeps rec_ok
  by unfold_locales (intro wp_intros keeps_rec_begin keeps_rec_finish | assumption)+

interpretation recorder_own: recorder_keeps "own G" for G
  by unfold_locales (intro wp_intros keeps_own_begin keeps_own_finish)+

text \<open>The Redis store keeps the recorder in order, under every lease.\<close>

interpretation store_metrics: store_keeps rec_ok "redis_store R C cfg" l for R C cfg l
  by unfold_locales (simp_all add: redis_store_def rec_Get rec_UpdateStatus rec_UpdateReport rec_Acknowledge)

section \<open>A job that is not retried has an outcome\<close>

text \<open>
  \<open>T\<close> says that a terminal status has been stored: a store whose \<^verbatim>\<open>UpdateStatus\<close> makes it
  true when it succeeds with Finished or Failed.
\<close>

locale terminal_store =
  fixes st :: "('s, 'z) Store" and l :: Lease and T :: "ScanJobStatus \<Rightarrow> ('s, 'z) world_scheme \<Rightarrow> bool"
  assumes stored: "wp (\<lambda>_. True) (UpdateStatus st l key s ms) (\<lambda>r w. r = Inr () \<longrightarrow> T s w)"
    and stable: "T s w \<Longrightarrow> T s (w\<lparr>recorder := f\<rparr>)"
begin

lemma finish_stable: "keeps (T s) (finish_execution key h b stage cat)"
  unfolding finish_execution_def metric_def
  by (rule keepsI) (auto simp: Now_def stable split: option.splits prod.splits)

lemma scan_outcome:
  "wp (\<lambda>_. True) (controller_scan st scanner tv l key req) (\<lambda>(e, stage) w. e = None \<longrightarrow> T Finished w)"
proof (rule wpI, clarify)
  fix w e stage w'
  assume run: "run_state (controller_scan st scanner tv l key req) w = ((None, stage), w')"
  obtain w1 where "run_state (UpdateStatus st l key Finished []) w1 = (Inr (), w')"
    using run by (auto simp: controller_scan_def Now_def split: prod.splits sum.splits outcome_of.splits)
  then show "T Finished w'" using wpD [OF stored TrueI] by blast
qed

lemma failure_outcome: "wp (\<lambda>_. True) (record_failure st l key err) (\<lambda>r w. r = Inr () \<longrightarrow> T Failed w)"
proof (rule wpI, rule impI)
  fix w r w'
  assume run: "run_state (record_failure st l key err) w = (r, w')" and r: "r = Inr ()"
  then have "run_state (UpdateStatus st l key Failed [failure_message err]) w = (Inr (), w')"
    by (auto simp: record_failure_def split: prod.splits sum.splits option.splits if_splits)
  then show "T Failed w'" using wpD [OF stored TrueI] by blast
qed

lemma Scan_outcome:
  "wp (\<lambda>_. True) (Scan st scanner tv l key req) (\<lambda>r w. r = Inr () \<longrightarrow> T Finished w \<or> T Failed w)"
proof (rule wpI, rule impI)
  fix w r w'
  assume run: "run_state (Scan st scanner tv l key req) w = (r, w')" and r: "r = Inr ()"
  obtain h w1 where 1: "run_state begin_execution w = (h, w1)" by fastforce
  obtain e stage w2 where 2: "run_state (controller_scan st scanner tv l key req) w1 = ((e, stage), w2)"
    by (metis surj_pair)
  obtain r3 w3 where 3: "run_state (case e of None \<Rightarrow> okE () | Some err \<Rightarrow> record_failure st l key err) w2 = (r3, w3)"
    by fastforce
  have 4: "run_state (finish_execution key h (e = None) stage (failureCategory e stage)) w3 = ((), w')" "r3 = Inr ()"
    using run r 1 2 3 by (auto simp: Scan_def split: prod.splits)
  have "T Finished w3 \<or> T Failed w3"
    using wpD [OF scan_outcome TrueI 2] wpD [OF failure_outcome TrueI] 3 4(2) by (cases e) auto
  then show "T Finished w' \<or> T Failed w'" using keepsD [OF finish_stable _ 4(1)] by blast
qed

end

text \<open>The Redis store, behind a server that keeps its laws, is such a store; its changes are fenced.\<close>

context redis_server begin

interpretation terminal: terminal_store "redis_store R C cfg" l "status_written V C cfg l" for C cfg l
  by unfold_locales (simp_all add: redis_store_def wp_status_written)

interpretation fenced: store_keeps "own (fenced V l)" "redis_store R C cfg" l for C cfg l
proof (unfold_locales, goal_cases)
  case (1 key)
  show ?case
    using own_Get [of "\<lambda>v v'. v' = v \<or> held l v"] by (simp add: redis_store_def fenced_def [abs_def])
qed (simp_all add: redis_store_def fenced_ops [OF redis_server_axioms])

lemmas redis_Scan_outcome = terminal.Scan_outcome
lemmas redis_Scan_fenced = fenced.keeps_Scan

end

end
