(* ===== verification/Controller_Spec.thy ===== *)
theory Controller_Spec
  imports Controller
begin

text \<open>
  What the execution of a job promises: its credentials, the report it stores, and the outcome
  it records.
\<close>

section \<open>Credentials\<close>

lemma Split_takeWhile: "Split s c ! 0 = takeWhile (\<lambda>x. x \<noteq> c) s"
proof (induction s)
  case (Cons x xs)
  then show ?case by (cases "Split xs c") auto
qed simp

lemma Split_two: "c \<notin> set u \<Longrightarrow> length (Split (u @ c # p) c) \<ge> 2 \<and> Split (u @ c # p) c ! 0 = u \<and>
    Split (u @ c # p) c ! 1 = takeWhile (\<lambda>x. x \<noteq> c) p"
  by (cases "Split p c") (auto simp: Split_append_sep Split_takeWhile [symmetric])

text \<open>
  C6. A Basic authorization gives the user name and, of the password, what comes before its
  first colon: a password that contains a colon is cut there.
\<close>

theorem basic_auth_decoded:
  assumes "CHR '':'' \<notin> set u"
  shows "ToRegistryAuth (''Basic '' @ b64_encode (u @ '':'' @ p)) =
    Returned (BasicAuth u (takeWhile (\<lambda>c. c \<noteq> CHR '':'') p))"
proof -
  let ?b = "b64_encode (u @ '':'' @ p)"
  have "CHR '' '' \<notin> set ?b" using b64_encode_chars by blast
  then have "Split (''Basic '' @ ?b) (CHR '' '') = [''Basic'', ?b]"
    using Split_append_sep [of "CHR '' ''" "''Basic''" ?b] by simp
  then have "ToRegistryAuth (''Basic '' @ ?b) = decodeBasicAuth ?b"
    by (simp add: ToRegistryAuth_def)
  then show ?thesis
    using Split_two [OF assms, of p] by (simp add: decodeBasicAuth_def Let_def)
qed

theorem basic_auth_decoded_witness:
  "ToRegistryAuth (''Basic '' @ b64_encode ''robot:se:cret'') = Returned (BasicAuth ''robot'' ''se'')"
  using basic_auth_decoded [of "''robot''" "''se:cret''"] by simp

text \<open>Credentials without a colon make the decoding panic.\<close>

lemma basic_auth_panics:
  assumes "CHR '':'' \<notin> set u"
  shows "\<exists>m. ToRegistryAuth (''Basic '' @ b64_encode u) = Panic m"
proof -
  have "CHR '' '' \<notin> set (b64_encode u)" using b64_encode_chars by blast
  then have "Split (''Basic '' @ b64_encode u) (CHR '' '') = [''Basic'', b64_encode u]"
    using Split_append_sep [of "CHR '' ''" "''Basic''" "b64_encode u"] by simp
  then show ?thesis using assms by (simp add: ToRegistryAuth_def decodeBasicAuth_def Let_def)
qed

section \<open>The stored report\<close>

text \<open>
  C7. The report of a vulnerability scan has one item for each vulnerability found, in their
  order, its severity is the highest among them (or none), and it is one that storing and
  reading back does not change.
\<close>

theorem transformed_report:
  assumes "mediaType \<noteq> MediaTypeSPDX" "mediaType \<noteq> MediaTypeCycloneDX"
    and "\<forall>v \<in> set (items (Vulnerabilities source)). CweIDs v \<noteq> Some []"
    and "codec_laws C" "ScanReport_to_json C (Transform tv now mediaType req source) = Inr v"
  shows "let report = Transform tv now mediaType req source in
    map vi_ID (items (rep_Vulnerabilities report)) = map VulnerabilityID (items (Vulnerabilities source)) \<and>
    rep_Severity report = (if items (Vulnerabilities source) = [] then 0
      else Max (toHarborSeverity ` v_Severity ` set (items (Vulnerabilities source)))) \<and>
    ScanReport_of_json C v = Inr report"
proof -
  let ?r = "Transform tv now mediaType req source"
  have r: "?r = zero_Report\<lparr>rep_GeneratedAt := now, rep_Scanner := GetScannerMetadata tv,
      rep_Artifact := req_Artifact req, rep_Vulnerabilities := transformVulnerabilities (Vulnerabilities source),
      rep_Severity := toHighestSeverity (transformVulnerabilities (Vulnerabilities source))\<rparr>"
    using assms(1,2) by (simp add: Transform_def Let_def)
  have "vi_Severity ` transformVulnerability ` S = toHarborSeverity ` v_Severity ` S" for S
    by (force simp: transformVulnerability_def image_iff)
  then have "map vi_ID (items (rep_Vulnerabilities ?r)) = map VulnerabilityID (items (Vulnerabilities source))"
    "rep_Severity ?r = (if items (Vulnerabilities source) = [] then 0
      else Max (toHarborSeverity ` v_Severity ` set (items (Vulnerabilities source))))"
    by (auto simp: r transformVulnerabilities_def toHighestSeverity_Max transformVulnerability_def)
  then show ?thesis
    using codec_laws.ScanReport_round [OF assms(4,5) Transform_wf [OF assms(3)]] by (simp add: Let_def)
qed

definition ex_vulnerability :: Vulnerability where
  "ex_vulnerability = zero_Vulnerability\<lparr>VulnerabilityID := ''CVE-1'', v_Severity := ''HIGH''\<rparr>"

theorem transformed_report_witness:
  "\<exists>report. report = Transform None 1 [] (\<lparr>req_Registry = zero_Registry, req_Artifact = zero_Artifact, req_Capabilities = None\<rparr>)
      \<lparr>SBOM = JNull, Vulnerabilities = Some [ex_vulnerability]\<rparr> \<and>
     map vi_ID (items (rep_Vulnerabilities report)) = [''CVE-1''] \<and> rep_Severity report = SevHigh"
proof -
  let ?req = "\<lparr>req_Registry = zero_Registry, req_Artifact = zero_Artifact, req_Capabilities = None\<rparr>"
  let ?src = "\<lparr>SBOM = JNull, Vulnerabilities = Some [ex_vulnerability]\<rparr>"
  obtain v where v: "ScanReport_to_json ref_codec (Transform None 1 [] ?req ?src) = Inr v"
    by (auto simp: ScanReport_to_json_def Transform_def Let_def MediaTypeSPDX_def MediaTypeCycloneDX_def
        ref_codec_def zero_Report_def)
  show ?thesis
    using transformed_report [OF _ _ _ refc.codec_laws_axioms v]
    by (auto simp: Let_def ex_vulnerability_def zero_Vulnerability_def MediaTypeSPDX_def MediaTypeCycloneDX_def
        toHarborSeverity_def trivyToHarborSeverityMap_def)
qed

section \<open>The recorded outcome\<close>

text \<open>
  C8. When \<^verbatim>\<open>Scan\<close> returns without an error the job has an outcome: whatever replies were lost
  and whatever others did, this process stored, while it held the lease, a job with the status
  Finished or Failed.
\<close>

theorem scan_without_error_has_outcome:
  assumes "redis_server R V"
    and "run_state (Scan (redis_store R C cfg) scanner tv l key req) w = (Inr (), w')"
  shows "status_written V C cfg l Finished w' \<or> status_written V C cfg l Failed w'"
  using wpD [OF redis_server.redis_Scan_outcome [OF assms(1)] TrueI assms(2)] by simp

text \<open>A status update on the reference server, as a step of the examples.\<close>

lemma ref_status_step:
  assumes w: "turns w = []" "oom (srv w) = []" "job_stored ref_codec (rv (srv w)) (keyForScanJob ex_cfg ex_key) j"
      "held ex_lease (rv (srv w))" "recorder w = None"
    and j: "job_Key j = ex_key" "wf_job j" "int64 st" "int64 (Attempts j + 1)"
    and m: "\<And>now. \<exists>z n. marshalSized ref_codec (ScanJob_to_json ref_codec (with_status st ms now j)) = Inr (z, n) \<and>
      n \<le> maxDecompressedSize"
  shows "\<exists>w1. run_state (store_UpdateStatus ref_redis ref_codec ex_cfg ex_lease ex_key st ms) w = (Inr (), w1) \<and>
    turns w1 = [] \<and> oom (srv w1) = [] \<and> held ex_lease (rv (srv w1)) \<and> recorder w1 = None \<and> stopped w1 = stopped w \<and>
    lost w1 = lost w \<and> clock w1 = clock w \<and>
    job_stored ref_codec (rv (srv w1)) (keyForScanJob ex_cfg ex_key) (with_status st ms (clock w) j)"
proof -
  obtain z n where z: "marshalSized ref_codec (ScanJob_to_json ref_codec (with_status st ms (clock w) j)) = Inr (z, n)"
    "n \<le> maxDecompressedSize" using m by blast
  obtain data where d: "decompress ref_codec z = Inr data" "unmarshal_job ref_codec data = Inr (with_status st ms (clock w) j)"
    using codec_laws.stored_job_read [OF refc.codec_laws_axioms z with_status_wf [OF j(2,3,4)]] .
  have k: "''st:lease:1'' \<noteq> keyForScanJob ex_cfg ex_key"
    by (simp add: keyForScanJob_def ex_cfg_def)
  show ?thesis
    using w j(1) z(1) d k
    by (auto simp: store_UpdateStatus_def labelled_def getJob_def operation_def Now_def metric_def Let_def
        store_update_def updateJobScript_def store_written_def
        call_quiet job_stored_def ref_redis_def change_def of_opt_def held_def ex_lease_def)
qed

definition ex_request :: ScanRequest where
  "ex_request =
     \<lparr>req_Registry = \<lparr>reg_URL = ''https://core'', reg_Authorization = ''Basic '' @ b64_encode ''nobody''\<rparr>,
      req_Artifact = \<lparr>art_Repository = ''r'', art_Digest = ''sha256:1'', art_MimeType = []\<rparr>, req_Capabilities = None\<rparr>"

definition panic_message :: string where
  "panic_message = ''runtime error: index out of range [1] with length 1''"

lemma ex_request_parts:
  "GetImageRef ex_request = Inr (''core:443/r@sha256:1'', False)"
  "ToRegistryAuth (reg_Authorization (req_Registry ex_request)) = Panic panic_message"
  by code_simp+

definition ex_pending :: ScanJob where
  "ex_pending = with_status Pending [] (10 ^ 9) ex_job"

lemma ex_pending_wf: "wf_job ex_pending" "job_Key ex_pending = ex_key" "Attempts ex_pending = 1"
  using with_status_wf [OF ex_job_wf(1), of Pending]
  by (auto simp: ex_pending_def int64_def Pending_def ex_job_def zero_ScanJob_def)

lemma ex_sizes:
  "\<exists>z n. marshalSized ref_codec (ScanJob_to_json ref_codec (with_status Pending [] now ex_job)) = Inr (z, n) \<and>
     n \<le> maxDecompressedSize"
  "\<exists>z n. marshalSized ref_codec (ScanJob_to_json ref_codec (with_status Failed [panic_message] now ex_pending)) = Inr (z, n) \<and>
     n \<le> maxDecompressedSize"
proof -
  have p: "with_status Pending [] now ex_job = ex_job\<lparr>job_Status := 1, Attempts := 1\<rparr>"
    "with_status Failed [panic_message] now ex_pending = ex_job\<lparr>job_Status := 3, Attempts := 1, job_Error := panic_message\<rparr>"
    by (simp_all add: with_status_def ex_pending_def ex_job_def zero_ScanJob_def status_defs)
  have "case ScanJob_to_json ref_codec (ex_job\<lparr>job_Status := 1, Attempts := 1\<rparr>) of
      Inr v \<Rightarrow> ilen (json_text ref_codec v) \<le> 1000 | Inl e \<Rightarrow> False"
    "case ScanJob_to_json ref_codec (ex_job\<lparr>job_Status := 3, Attempts := 1, job_Error := panic_message\<rparr>) of
      Inr v \<Rightarrow> ilen (json_text ref_codec v) \<le> 1000 | Inl e \<Rightarrow> False"
    by code_simp+
  then show "\<exists>z n. marshalSized ref_codec (ScanJob_to_json ref_codec (with_status Pending [] now ex_job)) = Inr (z, n) \<and>
     n \<le> maxDecompressedSize"
    "\<exists>z n. marshalSized ref_codec (ScanJob_to_json ref_codec (with_status Failed [panic_message] now ex_pending)) = Inr (z, n) \<and>
     n \<le> maxDecompressedSize"
    by (auto simp: p marshalSized_def Let_def ilen_length ref_codec_def maxDecompressedSize_def split: sum.splits)
qed

lemma ex_Scan_runs:
  "\<exists>w'. run_state (Scan (redis_store ref_redis ref_codec ex_cfg) scanner None ex_lease ex_key ex_request) ex_owned = (Inr (), w')"
proof -
  have s: "turns ex_owned = []" "oom (srv ex_owned) = []" "held ex_lease (rv (srv ex_owned))" "recorder ex_owned = None"
    "stopped ex_owned = None" "lost ex_owned = False" "clock ex_owned = 10 ^ 9"
    by (simp_all add: ex_owned_def world_of_def ex_server_def held_def ex_lease_def)
  have k: "job_Key ex_job = ex_key" "int64 Pending" "int64 Failed" "int64 (Attempts ex_job + 1)" "int64 (Attempts ex_pending + 1)"
    by (simp_all add: ex_job_def zero_ScanJob_def int64_def status_defs ex_pending_wf)
  obtain w1 where w1: "run_state (store_UpdateStatus ref_redis ref_codec ex_cfg ex_lease ex_key Pending []) ex_owned = (Inr (), w1)"
    "turns w1 = []" "oom (srv w1) = []" "held ex_lease (rv (srv w1))" "recorder w1 = None" "stopped w1 = None" "lost w1 = False"
    "job_stored ref_codec (rv (srv w1)) (keyForScanJob ex_cfg ex_key) ex_pending"
    using ref_status_step [OF s(1,2) ex_owned_stored s(3,4) k(1) ex_job_wf(1) k(2,4) ex_sizes(1)] s
    by (auto simp: ex_pending_def)
  obtain w2 where w2: "run_state (store_UpdateStatus ref_redis ref_codec ex_cfg ex_lease ex_key Failed [panic_message]) w1 = (Inr (), w2)"
    using ref_status_step [OF w1(2,3,8) w1(4,5) ex_pending_wf(2,1) k(3,5) ex_sizes(2)] by auto
  show ?thesis
    using w1 w2 s
    by (auto simp: Scan_def begin_execution_def controller_scan_def redis_store_def ex_request_parts record_failure_def
        ctx_Err_def failure_message_def finish_execution_def)
qed

theorem scan_without_error_has_outcome_witness:
  "\<exists>w'. run_state (Scan (redis_store ref_redis ref_codec ex_cfg) (\<lambda>_ _. failE Canceled) None ex_lease ex_key ex_request) ex_owned
        = (Inr (), w') \<and>
     (status_written rv ref_codec ex_cfg ex_lease Finished w' \<or> status_written rv ref_codec ex_cfg ex_lease Failed w')"
proof -
  obtain w' where "run_state (Scan (redis_store ref_redis ref_codec ex_cfg) (\<lambda>_ _. failE Canceled) None ex_lease ex_key ex_request) ex_owned
        = (Inr (), w')"
    using ex_Scan_runs by blast
  then show ?thesis using scan_without_error_has_outcome [OF ref.redis_server_axioms] by blast
qed

text \<open>
  An execution through the Redis store never misuses the recorder: no metric is written with
  a wrong kind or number of labels (which would panic), and every label has a value of the
  catalog, so the number of series stays bounded.
\<close>

lemma scan_keeps_metrics_in_catalog:
  assumes "\<And>ref fmt. keeps rec_ok (scanner ref fmt)"
  shows "keeps rec_ok (Scan (redis_store R C cfg) scanner tv l key req)"
  by (rule store_metrics.keeps_Scan) (rule assms)

end
