(* ===== verification/Config.thy ===== *)
theory Config
  imports Errors
begin

text \<open>
  \<^verbatim>\<open>pkg/etc/config.go\<close>: the configuration and its validation. Reading the environment into the
  structs is the library's; \<open>GetConfig\<close> starts from its result.
\<close>

text \<open>Durations are nanoseconds.\<close>

record BuildInfo =
  bi_Version :: string
  bi_Commit :: string
  bi_Date :: string

record MetricsConfig =
  CollectionInterval :: int
  CollectionTimeout :: int
  CacheSizeEnabled :: bool
  CacheMaxFiles :: int

record TrivyConfig =
  CacheBackend :: string
  CacheTTL :: int
  CacheRedisTLS :: bool
  CacheRedisCA :: string
  CacheRedisCert :: string
  CacheRedisKey :: string
  CacheDir :: string
  ReportsDir :: string
  DebugMode :: bool
  VulnType :: string
  Scanners :: string
  cf_Severity :: string
  IgnoreUnfixed :: bool
  IgnorePolicy :: string
  SkipDBUpdate :: bool
  SkipJavaDBUpdate :: bool
  DBRepository :: string
  JavaDBRepository :: string
  OfflineScan :: bool
  GitHubToken :: string
  Insecure :: bool
  VEXSource :: string
  SkipVEXRepoUpdate :: bool
  Timeout :: int
  UseSBOMAccessory :: bool
  ImageSrc :: string
  SkipVersionCheck :: bool
  DisableTelemetry :: bool
  MaxImageSize :: string
  ChildGoMemLimit :: string

record APIConfig =
  Addr :: string
  TLSCertificate :: string
  TLSKey :: string
  ClientCAs :: "string list"
  ReadTimeout :: int
  WriteTimeout :: int
  IdleTimeout :: int
  MetricsEnabled :: bool

definition IsTLSEnabled :: "APIConfig \<Rightarrow> bool" where
  "IsTLSEnabled c \<longleftrightarrow> TLSCertificate c \<noteq> [] \<and> TLSKey c \<noteq> []"

record RedisStoreConfig =
  rs_Namespace :: string
  rs_ScanJobTTL :: int

record JobQueueConfig =
  jq_Namespace :: string
  WorkerConcurrency :: int

record RedisPoolConfig =
  rp_URL :: string
  MaxActive :: int
  MaxIdle :: int
  rp_IdleTimeout :: int
  ConnectionTimeout :: int
  rp_ReadTimeout :: int
  rp_WriteTimeout :: int

record Config =
  c_Metrics :: MetricsConfig
  c_API :: APIConfig
  c_Trivy :: TrivyConfig
  c_RedisStore :: RedisStoreConfig
  c_JobQueue :: JobQueueConfig
  c_RedisPool :: RedisPoolConfig

section \<open>Levels\<close>

type_synonym Level = int

definition LevelDebug :: Level where "LevelDebug = - 4"
definition LevelInfo :: Level where "LevelInfo = 0"
definition LevelWarn :: Level where "LevelWarn = 4"
definition LevelError :: Level where "LevelError = 8"

text \<open>The environment is the function \<^verbatim>\<open>os.LookupEnv\<close>.\<close>

definition LogLevel :: "(string \<Rightarrow> string option) \<Rightarrow> Level" where
  "LogLevel LookupEnv =
     (case LookupEnv ''SCANNER_LOG_LEVEL'' of
        None \<Rightarrow> LevelInfo
      | Some v \<Rightarrow>
          let l = ToLower v in
          if l = ''error'' then LevelError
          else if l = ''warn'' \<or> l = ''warning'' then LevelWarn
          else if l = ''info'' then LevelInfo
          else if l = ''trace'' \<or> l = ''debug'' then LevelDebug
          else LevelInfo)"

section \<open>Validation\<close>

definition second :: int where "second = 10 ^ 9"
definition maxTrivyTimeout :: int where "maxTrivyTimeout = 24 * 3600 * 10 ^ 9"

definition deriveScanJobTTL :: "int \<Rightarrow> int" where
  "deriveScanJobTTL trivyTimeout = 2 * trivyTimeout + 3 * second"

text \<open>\<open>redis_url_ok\<close> is whether \<^verbatim>\<open>redis.ParseURL\<close> accepts the URL.\<close>

definition validateCache :: "(string \<Rightarrow> bool) \<Rightarrow> TrivyConfig \<Rightarrow> goerr + unit" where
  "validateCache redis_url_ok cfg =
     (if CacheBackend cfg = ''fs'' \<or> CacheBackend cfg = ''memory'' then
        (if CacheRedisTLS cfg \<or> CacheRedisCA cfg \<noteq> [] \<or> CacheRedisCert cfg \<noteq> [] \<or> CacheRedisKey cfg \<noteq> []
         then Inl (ErrText ''redis TLS settings require a Redis scan cache'')
         else Inr ())
      else if \<not> HasPrefix (CacheBackend cfg) ''redis://'' \<and> \<not> HasPrefix (CacheBackend cfg) ''rediss://''
      then Inl (ErrText ''SCANNER_TRIVY_CACHE_BACKEND must be fs, memory, or a redis:// or rediss:// URL; Sentinel is not supported'')
      else if \<not> redis_url_ok (CacheBackend cfg)
      then Inl (ErrText ''SCANNER_TRIVY_CACHE_BACKEND contains an invalid Redis URL'')
      else if CacheTTL cfg \<le> 0
      then Inl (ErrText ''SCANNER_TRIVY_CACHE_TTL must be positive for a Redis scan cache'')
      else if (CacheRedisCA cfg \<noteq> [] \<or> CacheRedisCert cfg \<noteq> [] \<or> CacheRedisKey cfg \<noteq> [])
           \<and> (CacheRedisCA cfg = [] \<or> CacheRedisCert cfg = [] \<or> CacheRedisKey cfg = [])
      then Inl (ErrText ''redis scan cache TLS requires CA, certificate, and key together'')
      else Inr ())"

definition metrics_invalid :: "Config \<Rightarrow> bool" where
  "metrics_invalid cfg \<longleftrightarrow>
     MetricsEnabled (c_API cfg) \<and>
     (CollectionInterval (c_Metrics cfg) < second \<or> CollectionTimeout (c_Metrics cfg) \<le> 0
      \<or> CollectionTimeout (c_Metrics cfg) > CollectionInterval (c_Metrics cfg)
      \<or> CacheMaxFiles (c_Metrics cfg) < 1 \<or> CacheMaxFiles (c_Metrics cfg) > 1000000)"

definition GetConfig ::
    "goerr + Config \<Rightarrow> (string \<Rightarrow> string option) \<Rightarrow> (string \<Rightarrow> bool) \<Rightarrow> goerr + Config" where
  "GetConfig parsed LookupEnv redis_url_ok =
     bindR parsed (\<lambda>cfg.
     if metrics_invalid cfg
     then Inl (ErrText ''invalid metrics collection settings: interval must be >=1s, timeout in (0, interval], and max files in [1, 1000000]'')
     else
       let cfg = (if LookupEnv ''SCANNER_TRIVY_DEBUG_MODE'' = None \<and> LogLevel LookupEnv = LevelDebug
                  then cfg\<lparr>c_Trivy := (c_Trivy cfg)\<lparr>DebugMode := True\<rparr>\<rparr> else cfg)
       in if Timeout (c_Trivy cfg) \<le> 0 \<or> Timeout (c_Trivy cfg) > maxTrivyTimeout
          then Inl (ErrText (''SCANNER_TRIVY_TIMEOUT must be in (0, '' @ Duration_String maxTrivyTimeout @ ''], got ''
                             @ Duration_String (Timeout (c_Trivy cfg))))
          else if WorkerConcurrency (c_JobQueue cfg) \<noteq> 1
          then Inl (ErrText ''SCANNER_JOB_QUEUE_WORKER_CONCURRENCY must be 1; scale adapter pods with separate database volumes and a dedicated Redis/Valkey scan cache'')
          else bindR (validateCache redis_url_ok (c_Trivy cfg)) (\<lambda>_.
            Inr (if rs_ScanJobTTL (c_RedisStore cfg) \<le> 0
                 then cfg\<lparr>c_RedisStore := (c_RedisStore cfg)\<lparr>rs_ScanJobTTL := deriveScanJobTTL (Timeout (c_Trivy cfg))\<rparr>\<rparr>
                 else cfg)))"

section \<open>Properties\<close>

text \<open>What the rest of the program may rely on.\<close>

definition cache_ok :: "(string \<Rightarrow> bool) \<Rightarrow> TrivyConfig \<Rightarrow> bool" where
  "cache_ok redis_url_ok t \<longleftrightarrow>
     (CacheBackend t \<in> {''fs'', ''memory''} \<and> \<not> CacheRedisTLS t
        \<and> CacheRedisCA t = [] \<and> CacheRedisCert t = [] \<and> CacheRedisKey t = []) \<or>
     ((HasPrefix (CacheBackend t) ''redis://'' \<or> HasPrefix (CacheBackend t) ''rediss://'')
        \<and> redis_url_ok (CacheBackend t) \<and> CacheTTL t > 0
        \<and> ((CacheRedisCA t = []) = (CacheRedisCert t = [])) \<and> ((CacheRedisCA t = []) = (CacheRedisKey t = [])))"

lemma validateCache_ok: "validateCache redis_url_ok t = Inr () \<Longrightarrow> cache_ok redis_url_ok t"
  by (auto simp: validateCache_def cache_ok_def split: if_splits)

text \<open>
  C13. A configuration that \<^verbatim>\<open>GetConfig\<close> accepts is one the program can run on: the scan timeout is
  in (0, 24h], the retention is positive and (as its derivation cannot overflow) a 64-bit duration,
  one worker, metrics settings within their bounds, and a cache backend that is either local without
  Redis settings or a Redis URL with a positive lifetime and all or none of the TLS files.
\<close>

theorem accepted_config:
  assumes "GetConfig (Inr parsed) LookupEnv redis_url_ok = Inr cfg"
    and "rs_ScanJobTTL (c_RedisStore parsed) < 2 ^ 63"
  shows "0 < Timeout (c_Trivy cfg) \<and> Timeout (c_Trivy cfg) \<le> 24 * 3600 * 10 ^ 9 \<and>
    0 < rs_ScanJobTTL (c_RedisStore cfg) \<and> rs_ScanJobTTL (c_RedisStore cfg) < 2 ^ 63 \<and>
    WorkerConcurrency (c_JobQueue cfg) = 1 \<and> \<not> metrics_invalid cfg \<and> cache_ok redis_url_ok (c_Trivy cfg) \<and>
    (rs_ScanJobTTL (c_RedisStore parsed) \<le> 0 \<longrightarrow>
       rs_ScanJobTTL (c_RedisStore cfg) = 2 * Timeout (c_Trivy cfg) + 3 * 10 ^ 9)"
proof -
  define mid where "mid = (if LookupEnv ''SCANNER_TRIVY_DEBUG_MODE'' = None \<and> LogLevel LookupEnv = LevelDebug
                  then parsed\<lparr>c_Trivy := (c_Trivy parsed)\<lparr>DebugMode := True\<rparr>\<rparr> else parsed)"
  have v: "\<not> metrics_invalid parsed" "0 < Timeout (c_Trivy mid)" "Timeout (c_Trivy mid) \<le> maxTrivyTimeout"
    "WorkerConcurrency (c_JobQueue mid) = 1" "validateCache redis_url_ok (c_Trivy mid) = Inr ()"
    and cfg: "cfg = (if rs_ScanJobTTL (c_RedisStore mid) \<le> 0
                 then mid\<lparr>c_RedisStore := (c_RedisStore mid)\<lparr>rs_ScanJobTTL := deriveScanJobTTL (Timeout (c_Trivy mid))\<rparr>\<rparr>
                 else mid)"
    using assms(1) unfolding GetConfig_def Let_def bindR.simps mid_def [symmetric]
    by (simp_all add: bindR_Inr_iff split: if_splits)
  have same: "metrics_invalid mid = metrics_invalid parsed" "c_RedisStore mid = c_RedisStore parsed"
    by (simp_all add: mid_def metrics_invalid_def)
  have kept: "c_Trivy cfg = c_Trivy mid" "c_JobQueue cfg = c_JobQueue mid" "metrics_invalid cfg = metrics_invalid mid"
    by (simp_all add: cfg metrics_invalid_def)
  have ttl: "rs_ScanJobTTL (c_RedisStore cfg) = (if rs_ScanJobTTL (c_RedisStore parsed) \<le> 0
      then 2 * Timeout (c_Trivy mid) + 3 * 10 ^ 9 else rs_ScanJobTTL (c_RedisStore parsed))"
    by (simp add: cfg same deriveScanJobTTL_def second_def)
  show ?thesis
    using v(1-4) assms(2) same(1) validateCache_ok [OF v(5)] unfolding kept ttl maxTrivyTimeout_def by simp
qed

definition ex_parsed :: Config where
  "ex_parsed =
     \<lparr>c_Metrics = \<lparr>CollectionInterval = 60 * 10 ^ 9, CollectionTimeout = 5 * 10 ^ 9, CacheSizeEnabled = False, CacheMaxFiles = 10000\<rparr>,
      c_API = \<lparr>Addr = '':8080'', TLSCertificate = [], TLSKey = [], ClientCAs = [], ReadTimeout = 15 * 10 ^ 9,
               WriteTimeout = 15 * 10 ^ 9, IdleTimeout = 60 * 10 ^ 9, MetricsEnabled = True\<rparr>,
      c_Trivy = \<lparr>CacheBackend = ''fs'', CacheTTL = 168 * 3600 * 10 ^ 9, CacheRedisTLS = False, CacheRedisCA = [], CacheRedisCert = [],
               CacheRedisKey = [], CacheDir = ''/home/scanner/.cache/trivy'', ReportsDir = ''/home/scanner/.cache/reports'',
               DebugMode = False, VulnType = ''os,library'', Scanners = ''vuln'', cf_Severity = ''UNKNOWN,LOW,MEDIUM,HIGH,CRITICAL'',
               IgnoreUnfixed = False, IgnorePolicy = [], SkipDBUpdate = False, SkipJavaDBUpdate = False, DBRepository = [],
               JavaDBRepository = [], OfflineScan = False, GitHubToken = [], Insecure = False, VEXSource = [],
               SkipVEXRepoUpdate = False, Timeout = 300 * 10 ^ 9, UseSBOMAccessory = False, ImageSrc = ''remote'',
               SkipVersionCheck = True, DisableTelemetry = True, MaxImageSize = [], ChildGoMemLimit = []\<rparr>,
      c_RedisStore = \<lparr>rs_Namespace = ''harbor.scanner.trivy:data-store'', rs_ScanJobTTL = 0\<rparr>,
      c_JobQueue = \<lparr>jq_Namespace = ''harbor.scanner.trivy:job-queue'', WorkerConcurrency = 1\<rparr>,
      c_RedisPool = \<lparr>rp_URL = ''redis://localhost:6379'', MaxActive = 5, MaxIdle = 5, rp_IdleTimeout = 300 * 10 ^ 9,
               ConnectionTimeout = 10 ^ 9, rp_ReadTimeout = 10 ^ 9, rp_WriteTimeout = 10 ^ 9\<rparr>\<rparr>"

theorem accepted_config_witness:
  "\<exists>cfg. GetConfig (Inr ex_parsed) (\<lambda>_. None) (\<lambda>_. False) = Inr cfg \<and> rs_ScanJobTTL (c_RedisStore cfg) = 603 * 10 ^ 9"
proof -
  have run: "GetConfig (Inr ex_parsed) (\<lambda>_. None) (\<lambda>_. False)
      = Inr (ex_parsed\<lparr>c_RedisStore := (c_RedisStore ex_parsed)\<lparr>rs_ScanJobTTL := deriveScanJobTTL (300 * 10 ^ 9)\<rparr>\<rparr>)"
    by (simp add: GetConfig_def ex_parsed_def metrics_invalid_def second_def maxTrivyTimeout_def validateCache_def Let_def
        LogLevel_def LevelDebug_def LevelInfo_def)
  from accepted_config [OF run] show ?thesis
    using run by (intro exI conjI) (auto simp: ex_parsed_def deriveScanJobTTL_def second_def)
qed

end
