(* ===== verification/Buffer.thy ===== *)
theory Buffer
  imports Prelude
begin

text \<open>
  \<^verbatim>\<open>pkg/ext/buffer.go\<close>: the buffer that keeps the tail of a child's output. Its contract is the
  last \<open>Limit\<close> bytes of everything written; the code trims only when the buffer has doubled.
\<close>

record LimitedBuffer =
  Limit :: int
  buf :: string
  truncated :: bool

definition MaxStdout :: int where "MaxStdout = 2 ^ 20"
definition MaxStderr :: int where "MaxStderr = 256 * 2 ^ 10"

text \<open>The last \<open>n\<close> bytes, as the slices \<^verbatim>\<open>p[len(p)-n:]\<close> take them.\<close>

definition last_bytes :: "nat \<Rightarrow> string \<Rightarrow> string" where
  "last_bytes n s = drop (length s - n) s"

text \<open>Slicing \<^verbatim>\<open>b.buf[len(b.buf)-b.Limit:]\<close> with a negative limit starts behind the end, which panics: \<open>None\<close>.\<close>

definition trim :: "LimitedBuffer \<Rightarrow> LimitedBuffer option" where
  "trim b =
     (if int (length (buf b)) > Limit b
      then (if Limit b < 0 then None else Some (b\<lparr>buf := last_bytes (nat (Limit b)) (buf b)\<rparr>))
      else Some b)"

definition buf_Write :: "string \<Rightarrow> LimitedBuffer \<Rightarrow> (int \<times> LimitedBuffer) option" where
  "buf_Write p b =
     (let written = int (length p);
          b = (if Limit b < 0 then b\<lparr>Limit := 0\<rparr> else b);
          (p, b) = (if int (length p) > Limit b
                    then (last_bytes (nat (Limit b)) p, b\<lparr>truncated := True\<rparr>) else (p, b));
          b = b\<lparr>buf := buf b @ p\<rparr>
      in map_option (Pair written)
           (if int (length (buf b)) > Limit b
            then (let b = b\<lparr>truncated := True\<rparr> in
                  if int (length (buf b)) > 2 * Limit b then trim b else Some b)
            else Some b))"

definition Bytes :: "LimitedBuffer \<Rightarrow> (string \<times> LimitedBuffer) option" where
  "Bytes b = map_option (\<lambda>b. (buf b, b)) (trim b)"

definition buf_String :: "LimitedBuffer \<Rightarrow> string option" where
  "buf_String b = map_option fst (Bytes b)"

definition Truncated :: "LimitedBuffer \<Rightarrow> bool" where
  "Truncated b = truncated b"

definition new_buffer :: "int \<Rightarrow> LimitedBuffer" where
  "new_buffer n = \<lparr>Limit = n, buf = [], truncated = False\<rparr>"

text \<open>A sequence of writes, as a child's output arrives.\<close>

fun write_all :: "string list \<Rightarrow> LimitedBuffer \<Rightarrow> LimitedBuffer option" where
  "write_all [] b = Some b"
| "write_all (p # ps) b = Option.bind (buf_Write p b) (\<lambda>(_, b). write_all ps b)"

text \<open>
  \<^verbatim>\<open>RunCmd\<close> of \<^verbatim>\<open>ambassador.go\<close>, on the chunks the child wrote to its two streams: what the caller
  gets of them.
\<close>

definition kept_tail :: "int \<Rightarrow> string list \<Rightarrow> string option" where
  "kept_tail n ps = Option.bind (write_all ps (new_buffer n)) (\<lambda>b. map_option fst (Bytes b))"

definition captured :: "string list \<Rightarrow> string list \<Rightarrow> (string \<times> string) option" where
  "captured out err =
     Option.bind (kept_tail MaxStdout out) (\<lambda>x. map_option (Pair x) (kept_tail MaxStderr err))"

section \<open>The contract\<close>

lemma last_bytes_length [simp]: "length (last_bytes n s) = min n (length s)"
  by (simp add: last_bytes_def)

lemma last_bytes_all [simp]: "length s \<le> n \<Longrightarrow> last_bytes n s = s"
  by (simp add: last_bytes_def)

lemma last_bytes_zero [simp]: "last_bytes 0 s = []"
  by (simp add: last_bytes_def)

lemma last_bytes_append: "last_bytes n (s @ t) = last_bytes (n - length t) s @ last_bytes n t"
  by (cases "length t \<le> n") (simp_all add: last_bytes_def)

lemma last_bytes_last_bytes: "k \<le> n \<Longrightarrow> last_bytes k (last_bytes n s) = last_bytes k s"
  by (cases "length s \<le> n") (simp_all add: last_bytes_def)

lemma last_bytes_append_last: "last_bytes n (s @ last_bytes n t) = last_bytes n (s @ t)"
  by (cases "length t \<le> n") (simp_all add: last_bytes_append last_bytes_last_bytes)

lemma last_bytes_append_cong: "last_bytes n s = last_bytes n u \<Longrightarrow> last_bytes n (s @ t) = last_bytes n (u @ t)"
  by (metis diff_le_self last_bytes_append last_bytes_last_bytes)

text \<open>
  \<open>holds n b s\<close>: after the bytes \<open>s\<close> were written into a buffer of limit \<open>n\<close>, the last \<open>n\<close> bytes of
  the buffer are those of \<open>s\<close>, it is not longer than twice the limit, and it knows whether something
  was dropped. (The buffer as a whole need not be a tail of \<open>s\<close>: a write longer than the limit is cut
  before it is appended.)
\<close>

definition holds :: "int \<Rightarrow> LimitedBuffer \<Rightarrow> string \<Rightarrow> bool" where
  "holds n b s \<longleftrightarrow>
     nat (Limit b) = nat n \<and>
     last_bytes (nat n) (buf b) = last_bytes (nat n) s \<and>
     length (buf b) \<le> 2 * nat n \<and>
     (truncated b \<longleftrightarrow> nat n < length s) \<and> (\<not> truncated b \<longrightarrow> buf b = s)"

lemma holds_new: "holds n (new_buffer n) []"
  by (simp add: holds_def new_buffer_def)

text \<open>The first write makes the limit one that can be sliced with, so a write never panics.\<close>

lemma buf_Write_eq:
  assumes "nat (Limit b) = n"
  shows "buf_Write p b =
    (let buf' = buf b @ last_bytes n p in
     Some (int (length p), b\<lparr>Limit := int n, buf := (if 2 * n < length buf' then last_bytes n buf' else buf'),
       truncated := truncated b \<or> n < length p \<or> n < length buf'\<rparr>))"
proof (cases "Limit b < 0")
  case True
  then have "n = 0" using assms by simp
  then show ?thesis using True by (auto simp: buf_Write_def Let_def trim_def)
next
  case False
  then have L: "Limit b = int n" using assms by simp
  have i: "int n < int k \<longleftrightarrow> n < k" "2 * int n < int k \<longleftrightarrow> 2 * n < k" for k by auto
  show ?thesis
    by (cases "n < length p"; cases "n < length (buf b @ last_bytes n p)"; cases "2 * n < length (buf b @ last_bytes n p)")
      (auto simp: buf_Write_def Let_def trim_def L i)
qed

lemma holds_buf_Write:
  assumes b: "holds n b s"
  shows "\<exists>b'. buf_Write p b = Some (int (length p), b') \<and> 0 \<le> Limit b' \<and> holds n b' (s @ p)"
proof -
  let ?n = "nat n" and ?buf = "buf b @ last_bytes (nat n) p"
  have tail: "last_bytes ?n ?buf = last_bytes ?n (s @ p)"
    using b by (metis holds_def last_bytes_append_cong last_bytes_append_last)
  have len: "min ?n (length (buf b)) = min ?n (length s)"
    using b by (metis holds_def last_bytes_length)
  have tr: "(truncated b \<or> ?n < length p \<or> ?n < length ?buf) \<longleftrightarrow> ?n < length (s @ p)"
    using b len unfolding holds_def by (cases "truncated b"; cases "?n < length p") auto
  define X where "X = (if 2 * ?n < length ?buf then last_bytes ?n ?buf else ?buf)"
  have X: "last_bytes ?n X = last_bytes ?n (s @ p)" "length X \<le> 2 * ?n"
    using tail by (auto simp: X_def last_bytes_last_bytes min_le_iff_disj)
  have all: "X = s @ p" if "\<not> ?n < length (s @ p)"
    using that b tr by (auto simp: X_def holds_def)
  have "nat (Limit b) = ?n" using b by (simp add: holds_def)
  from buf_Write_eq [OF this, of p]
  have "buf_Write p b = Some (int (length p), b\<lparr>Limit := int ?n, buf := X, truncated := ?n < length (s @ p)\<rparr>)"
    by (simp only: Let_def X_def tr)
  then show ?thesis using X all by (simp add: holds_def)
qed

lemma holds_write_all:
  "holds n b s \<Longrightarrow> \<exists>b'. write_all ps b = Some b' \<and> (0 \<le> Limit b \<or> ps \<noteq> [] \<longrightarrow> 0 \<le> Limit b') \<and>
     (ps = [] \<longrightarrow> b' = b) \<and> holds n b' (s @ concat ps)"
proof (induction ps arbitrary: b s)
  case (Cons p ps)
  obtain b1 where 1: "buf_Write p b = Some (int (length p), b1)" "0 \<le> Limit b1" "holds n b1 (s @ p)"
    using holds_buf_Write [OF Cons.prems] by blast
  then show ?case using Cons.IH [OF 1(3)] by auto
qed simp

lemma holds_Bytes: "holds n b s \<Longrightarrow> 0 \<le> Limit b \<Longrightarrow> map_option fst (Bytes b) = Some (last_bytes (nat n) s)"
  by (auto simp: holds_def Bytes_def trim_def)

section \<open>Properties\<close>

text \<open>
  C12. However a child's output is cut into writes, no write panics, and afterwards the buffer gives
  back the last \<open>Limit\<close> bytes of it (nothing for a negative limit), says that it was truncated exactly
  when there was more, and never holds more than twice the limit. Reading is safe as well but for one
  case: a buffer with a negative limit to which nothing was written panics when it is read.
\<close>

theorem buffer_keeps_tail:
  "\<exists>b. write_all ps (new_buffer n) = Some b \<and>
     map_option fst (Bytes b) = (if n < 0 \<and> ps = [] then None else Some (last_bytes (nat n) (concat ps))) \<and>
     Truncated b = (nat n < length (concat ps)) \<and> length (buf b) \<le> 2 * nat n"
proof -
  obtain b where b: "write_all ps (new_buffer n) = Some b" "0 \<le> Limit (new_buffer n) \<or> ps \<noteq> [] \<longrightarrow> 0 \<le> Limit b"
    "ps = [] \<longrightarrow> b = new_buffer n" "holds n b (concat ps)"
    using holds_write_all [OF holds_new [of n], of ps] by auto
  have "map_option fst (Bytes b) = (if n < 0 \<and> ps = [] then None else Some (last_bytes (nat n) (concat ps)))"
  proof (cases "n < 0 \<and> ps = []")
    case True
    then show ?thesis using b(3) by (simp add: new_buffer_def Bytes_def trim_def)
  next
    case False
    then have "0 \<le> Limit b" using b(2) by (auto simp: new_buffer_def)
    from holds_Bytes [OF b(4) this] show ?thesis unfolding if_not_P [OF False] .
  qed
  then show ?thesis using b(1,4) by (auto simp: Truncated_def holds_def)
qed

lemma kept_tail_eq: "0 \<le> n \<Longrightarrow> kept_tail n ps = Some (last_bytes (nat n) (concat ps))"
  using holds_write_all [OF holds_new [of n], of ps] holds_Bytes
  by (fastforce simp: kept_tail_def new_buffer_def)

lemma captured_bounds:
  "\<exists>x y. captured out err = Some (x, y) \<and> length x \<le> 2 ^ 20 \<and> length y \<le> 2 ^ 18"
  by (simp add: captured_def kept_tail_eq MaxStdout_def MaxStderr_def)

end
