(* ===== verification/Host.thy ===== *)
theory Host
  imports Controller Config Buffer
begin

text \<open>
  What the adapter asks of its host: the operations of \<^verbatim>\<open>pkg/ext/ambassador.go\<close> (the registry
  client, child processes, the environment) and of \<^verbatim>\<open>os\<close> that the scan path uses. The client and
  the operating system are not part of the repository, so the operations are the fields of a record
  \<open>host\<close> and what is relied upon is the locale \<open>host_files\<close>.
\<close>

section \<open>Images\<close>

text \<open>
  A descriptor's annotations are a map. An image is what its methods return; a layer is what
  \<^verbatim>\<open>Uncompressed\<close> gives: the bytes that can be read and the error the reading ends with, if any.
\<close>

record Descriptor =
  d_MediaType :: string
  d_ArtifactType :: string
  d_Digest :: string
  d_Annotations :: "(string \<times> string) list"

record Manifest =
  m_ArtifactType :: string
  m_Layers :: "Descriptor list"

type_synonym layer = "goerr + (string \<times> goerr option)"

record Image =
  img_Manifest :: "goerr + Manifest"
  img_Digest :: "goerr + string"
  img_Layers :: "goerr + layer list"

text \<open>The options of a registry call: credentials, whether TLS is not verified, and a filter.\<close>

record remote_opts =
  ro_Auth :: RegistryAuth
  ro_InsecureSkipVerify :: bool
  ro_Filter :: "(string \<times> string) option"

text \<open>A parsed reference: its text and the repository it is in (its \<^verbatim>\<open>Context\<close>).\<close>

record Reference =
  ref_String :: string
  ref_Context :: string

definition Context_Digest :: "string \<Rightarrow> string \<Rightarrow> Reference" where
  "Context_Digest ctx digest = \<lparr>ref_String = ctx @ ''@'' @ digest, ref_Context = ctx\<rparr>"

section \<open>Child processes\<close>

text \<open>\<^verbatim>\<open>exec.Cmd\<close>: an \<open>Env\<close> of \<open>None\<close> inherits the environment.\<close>

record Cmd =
  cmd_Path :: string
  cmd_Args :: "string list"
  cmd_Env :: "string list option"
  cmd_WaitDelay :: int

record RunResult =
  run_stdout :: string
  run_stderr :: string
  run_err :: "goerr option"
  run_state_of :: "ProcessState option"

datatype stat = NotExist | StatErr goerr | IsDir | IsFile

section \<open>The operations\<close>

record ('s, 'z) host =
  Environ :: "(('s, 'z) world_scheme, string list) state"
  LookPath :: "string \<Rightarrow> ('s, 'z, string) op"
  TempFile :: "string \<Rightarrow> string \<Rightarrow> ('s, 'z, string) op"
  RunCmd :: "Cmd \<Rightarrow> (('s, 'z) world_scheme, RunResult) state"
  RemoteImage :: "Reference \<Rightarrow> remote_opts \<Rightarrow> ('s, 'z, Image) op"
  Referrers :: "Reference \<Rightarrow> remote_opts \<Rightarrow> ('s, 'z, goerr + Descriptor list) op"
  ParseReference :: "string \<Rightarrow> bool \<Rightarrow> goerr + Reference"
  ParseTime :: "string \<Rightarrow> time option"
  WriteFile :: "string \<Rightarrow> string \<Rightarrow> ('s, 'z, unit) op"
  ReadFile :: "string \<Rightarrow> ('s, 'z, string) op"
  os_Remove :: "string \<Rightarrow> ('s, 'z, unit) op"
  os_RemoveAll :: "string \<Rightarrow> ('s, 'z, unit) op"
  os_MkdirAll :: "string \<Rightarrow> ('s, 'z, unit) op"
  os_MkdirTemp :: "string \<Rightarrow> string \<Rightarrow> ('s, 'z, string) op"
  os_Stat :: "string \<Rightarrow> (('s, 'z) world_scheme, stat) state"
  os_ReadDir :: "string \<Rightarrow> ('s, 'z, (string \<times> bool) list) op"
  os_TempDir :: string

text \<open>
  A context derived with a timeout ends with the job's context, or when its deadline has passed.
\<close>

definition deadline_Err :: "time option \<Rightarrow> ('s, 'z) world_scheme \<Rightarrow> goerr option" where
  "deadline_Err deadline w =
     (case ctx_Err w of
        Some e \<Rightarrow> Some e
      | None \<Rightarrow> (case deadline of
            Some t \<Rightarrow> if clock w \<ge> t then Some DeadlineExceeded else None
          | None \<Rightarrow> None))"

text \<open>\<^verbatim>\<open>Recorder.Run\<close> of \<^verbatim>\<open>pkg/metrics/process.go\<close> around a child.\<close>

definition Run :: "('s, 'z) host \<Rightarrow> (('s, 'z) world_scheme \<Rightarrow> goerr option) \<Rightarrow> string \<Rightarrow> Cmd \<Rightarrow> (('s, 'z) world_scheme, RunResult) state" where
  "Run H ctx command cmd =
     State_Monad.bind Now (\<lambda>started.
     State_Monad.bind (RunCmd H cmd) (\<lambda>res.
     State_Monad.bind Now (\<lambda>ended.
     State_Monad.bind (gets ctx) (\<lambda>cerr.
     thenM (metric (Run_record cerr command (run_state_of res) (run_err res \<noteq> None) (ended - started)))
       (State_Monad.return res)))))"

section \<open>What is relied upon\<close>

text \<open>
  \<open>temps\<close> are the temporary files and directories the process has made and not removed. Making one
  adds a name that was not there, or fails and adds none; removing one removes it or fails, and when it
  fails the name is still there or is gone; no other operation makes or removes one, whatever a child does inside a directory of its own. None of
  the operations talks to the Redis server or to the recorder.
\<close>

definition steady :: "('s, 'z) world_scheme \<Rightarrow> ('s, 'z) world_scheme \<Rightarrow> bool" where
  "steady w w' \<longleftrightarrow> hist w' = hist w \<and> recorder w' = recorder w"

definition calm :: "(('s, 'z) world_scheme \<Rightarrow> string set) \<Rightarrow> (('s, 'z) world_scheme, 'a) state \<Rightarrow> bool" where
  "calm temps m \<longleftrightarrow> (\<forall>w. case run_state m w of (r, w') \<Rightarrow> steady w w' \<and> temps w' = temps w)"

definition makes :: "(('s, 'z) world_scheme \<Rightarrow> string set) \<Rightarrow> ('s, 'z, string) op \<Rightarrow> bool" where
  "makes temps m \<longleftrightarrow> (\<forall>w. case run_state m w of (r, w') \<Rightarrow> steady w w' \<and>
     (case r of Inl e \<Rightarrow> temps w' = temps w | Inr x \<Rightarrow> x \<notin> temps w \<and> temps w' = insert x (temps w)))"

definition drops :: "(('s, 'z) world_scheme \<Rightarrow> string set) \<Rightarrow> string \<Rightarrow> ('s, 'z, unit) op \<Rightarrow> bool" where
  "drops temps x m \<longleftrightarrow> (\<forall>w. case run_state m w of (r, w') \<Rightarrow> steady w w' \<and>
     (temps w' = temps w - {x} \<or> isl r \<and> temps w' = temps w))"

text \<open>The names whose removal fails, at least in some state of the host.\<close>

definition stuck :: "('s, 'z) host \<Rightarrow> string set" where
  "stuck H = {x. \<exists>w. isl (fst (run_state (os_Remove H x) w)) \<or> isl (fst (run_state (os_RemoveAll H x) w))}"

locale host_laws =
  fixes H :: "('s, 'z) host" and temps :: "('s, 'z) world_scheme \<Rightarrow> string set"
  assumes temp_file: "makes temps (TempFile H d p)"
    and mkdir_temp: "makes temps (os_MkdirTemp H d p)"
    and remove: "drops temps x (os_Remove H x)"
    and remove_all: "drops temps x (os_RemoveAll H x)"
    and run_cmd: "calm temps (RunCmd H c)"
    and look_path: "calm temps (LookPath H n)"
    and environ: "calm temps (Environ H)"
    and remote: "calm temps (RemoteImage H r ro)"
    and referrers: "calm temps (Referrers H r ro)"
    and write_file: "calm temps (WriteFile H x s)"
    and read_file: "calm temps (ReadFile H x)"
    and mkdir_all: "calm temps (os_MkdirAll H x)"
    and temps_rec: "temps (w\<lparr>recorder := f\<rparr>) = temps w"

lemma calmD:
  assumes "calm temps m" "run_state m w = (r, w')"
  shows "steady w w' \<and> temps w' = temps w"
  using spec [OF assms(1) [unfolded calm_def], of w] assms(2) by simp

lemma makesD:
  assumes "makes temps m" "run_state m w = (r, w')"
  shows "steady w w' \<and> (case r of Inl e \<Rightarrow> temps w' = temps w | Inr x \<Rightarrow> x \<notin> temps w \<and> temps w' = insert x (temps w))"
  using spec [OF assms(1) [unfolded makes_def], of w] assms(2) by simp

lemma dropsD:
  assumes "drops temps x m" "run_state m w = (r, w')"
  shows "steady w w' \<and> (temps w' = temps w - {x} \<or> isl r \<and> temps w' = temps w)"
  using spec [OF assms(1) [unfolded drops_def], of w] assms(2) by simp

section \<open>Triples\<close>

text \<open>
  The history is \<open>h\<close>, the temporary names are those of \<open>T\<close>, beside some of \<open>S\<close> that could not be
  removed, and, when \<open>b\<close>, the recorder is in order.
\<close>

definition at :: "(('s, 'z) world_scheme \<Rightarrow> string set) \<Rightarrow> string set \<Rightarrow> bool \<Rightarrow> ('s \<times> 's) list \<Rightarrow> string set \<Rightarrow> ('s, 'z) world_scheme \<Rightarrow> bool" where
  "at temps S b h T w \<longleftrightarrow> hist w = h \<and> T \<subseteq> temps w \<and> temps w \<subseteq> T \<union> S \<and> (b \<longrightarrow> rec_ok w)"

lemma steady_rec: "steady w w' \<Longrightarrow> rec_ok w' = rec_ok w \<and> hist w' = hist w"
  by (simp add: steady_def rec_ok_def)

lemma keeps_calm: "calm temps m \<Longrightarrow> keeps (at temps S b h T) m"
  by (rule keepsI) (auto simp: at_def dest!: calmD dest: steady_rec)

lemma wp_makes:
  "makes temps m \<Longrightarrow> wp (at temps S b h T) m (\<lambda>r w. case r of Inl e \<Rightarrow> at temps S b h T w | Inr x \<Rightarrow> x \<notin> T \<and> at temps S b h (insert x T) w)"
  by (rule wpI) (auto simp: at_def split: sum.splits dest!: makesD dest: steady_rec)

text \<open>A removal that may fail takes a name from \<open>T\<close>, if a name that stays is one of \<open>S\<close>.\<close>

lemma wp_drops:
  assumes "drops temps x m" and "\<And>w. isl (fst (run_state m w)) \<Longrightarrow> x \<in> S"
  shows "wp (at temps S b h T) m (\<lambda>r. at temps S b h (T - {x}))"
proof (rule wpI)
  fix w r w'
  assume w: "at temps S b h T w" and run: "run_state m w = (r, w')"
  have "steady w w'" "temps w' = temps w - {x} \<or> isl r \<and> temps w' = temps w" using dropsD [OF assms(1) run] by simp_all
  moreover have "isl r \<Longrightarrow> x \<in> S" using assms(2) [of w] run by simp
  ultimately show "at temps S b h (T - {x}) w'" using w by (auto simp: at_def dest: steady_rec)
qed

text \<open>Taking a step apart by its result.\<close>

lemma wp_bind_sum:
  assumes "wp P m (\<lambda>r w. case r of Inl e \<Rightarrow> A w | Inr x \<Rightarrow> B x w)"
    and "\<And>e. wp A (f (Inl e)) Q" and "\<And>x. wp (B x) (f (Inr x)) Q"
  shows "wp P (State_Monad.bind m f) Q"
proof (rule wp_bind [OF assms(1)])
  fix r
  show "wp (\<lambda>w. case r of Inl e \<Rightarrow> A w | Inr x \<Rightarrow> B x w) (f r) Q"
    using assms(2,3) by (cases r) simp_all
qed

lemma Run_record_ok: "recorder_ok r \<Longrightarrow> recorder_ok (Run_record cerr command ps failed dur r)"
  by (simp add: Run_record_def Let_def Inc_def Add_def Observe_def record_ok split: option.split)

lemma removal_fails:
  "isl (fst (run_state (os_Remove H x) w)) \<Longrightarrow> x \<in> stuck H" "isl (fst (run_state (os_RemoveAll H x) w)) \<Longrightarrow> x \<in> stuck H"
  by (auto simp: stuck_def)

context host_laws begin

lemmas wp_remove = wp_drops [OF remove removal_fails(1)] wp_drops [OF remove_all removal_fails(2)]

lemma keeps_at_record:
  assumes "\<And>r. recorder_ok r \<Longrightarrow> recorder_ok (f r)"
  shows "keeps (at temps S b h T) (metric f)"
proof (rule keepsI)
  fix w r w'
  assume w: "at temps S b h T w" and run: "run_state (metric f) w = (r, w')"
  have "rec_ok w \<Longrightarrow> rec_ok w'" using keepsD [OF keeps_rec_metric [OF assms] _ run] .
  then show "at temps S b h T w'"
    using w run temps_rec by (auto simp: at_def metric_def)
qed

lemma keeps_at_metric: "in_catalog OpAdd n (length ls) \<Longrightarrow> keeps (at temps S b h T) (metric (Inc n ls))"
  by (rule keeps_at_record) (simp add: Inc_def Add_def record_ok)

lemma keeps_at_Now: "keeps (at temps S b h T) Now"
  by (rule keepsI) (simp add: Now_def)

lemma keeps_at_Run: "keeps (at temps S b h T) (Run H ctx command cmd)"
  unfolding Run_def by (intro wp_intros keeps_at_Now keeps_at_record Run_record_ok keeps_calm [OF run_cmd])


end

end
