(* ===== verification/Ref_Host.thy ===== *)
theory Ref_Host
  imports Host
begin

text \<open>
  An executable host that satisfies \<open>host_laws\<close>, for the examples: files are an association list,
  a child is a function from its command to its result and the files it writes, and images are a
  function of the reference.
\<close>

record 's hworld = "'s world" +
  files :: "(string \<times> string) list"
  tmps :: "string list"

definition new_name :: "string list \<Rightarrow> string" where
  "new_name ts = ''/'' @ replicate (Suc (fold max (map length ts) 0)) (CHR ''x'')"

lemma new_name_new: "new_name ts \<notin> set ts"
proof
  assume "new_name ts \<in> set ts"
  then have "length (new_name ts) \<le> fold max (map length ts) 0" by (intro fold_max_ge(2)) force
  then show False by (simp add: new_name_def)
qed

definition make_temp :: "('s, 'y hworld_ext, string) op" where
  "make_temp = State (\<lambda>w. (Inr (new_name (tmps w)), w\<lparr>tmps := new_name (tmps w) # tmps w\<rparr>))"

definition drop_temp :: "string \<Rightarrow> ('s, 'y hworld_ext, unit) op" where
  "drop_temp x = State (\<lambda>w. (Inr (), w\<lparr>tmps := filter (\<lambda>y. y \<noteq> x) (tmps w), files := filter (\<lambda>p. fst p \<noteq> x) (files w)\<rparr>))"

definition ref_host ::
    "(Cmd \<Rightarrow> RunResult \<times> (string \<times> string) list) \<Rightarrow> (Reference \<Rightarrow> goerr + Image) \<Rightarrow> Descriptor list \<Rightarrow>
     ('s, 'y hworld_ext) host" where
  "ref_host child images referrers =
     \<lparr>Environ = State_Monad.return [],
      LookPath = (\<lambda>n. okE (''/usr/bin/'' @ n)),
      TempFile = (\<lambda>d p. make_temp),
      RunCmd = (\<lambda>c. State (\<lambda>w. case child c of (r, fs) \<Rightarrow> (r, w\<lparr>files := fs @ files w\<rparr>))),
      RemoteImage = (\<lambda>ref ro. liftE (images ref)),
      Referrers = (\<lambda>ref ro. okE (Inr referrers)),
      ParseReference = (\<lambda>n insecure. Inr \<lparr>ref_String = n, ref_Context = n\<rparr>),
      ParseTime = (\<lambda>s. map_option int (ParseUint s)),
      WriteFile = (\<lambda>p s. State (\<lambda>w. (Inr (), w\<lparr>files := (p, s) # files w\<rparr>))),
      ReadFile = (\<lambda>p. State (\<lambda>w. (case map_of (files w) p of None \<Rightarrow> Inl (Errno 2) | Some s \<Rightarrow> Inr s, w))),
      os_Remove = drop_temp,
      os_RemoveAll = drop_temp,
      os_MkdirAll = (\<lambda>p. okE ()),
      os_MkdirTemp = (\<lambda>d p. make_temp),
      os_Stat = (\<lambda>p. State (\<lambda>w. (if map_of (files w) p = None then NotExist else IsFile, w))),
      os_ReadDir = (\<lambda>p. okE []),
      os_TempDir = ''/tmp''\<rparr>"

interpretation refh: host_laws "ref_host child images referrers" "\<lambda>w. set (tmps w)" for child images referrers
  by unfold_locales
    (auto simp: ref_host_def calm_def makes_def drops_def steady_def make_temp_def drop_temp_def new_name_new
      split: prod.splits)

definition ex_result :: "RunResult \<times> (string \<times> string) list" where
  "ex_result = (\<lparr>run_stdout = [], run_stderr = [], run_err = None, run_state_of = None\<rparr>, [])"

definition ex_host_world :: "(string \<times> string) list \<Rightarrow> ref hworld" where
  "ex_host_world fs =
     \<lparr>srv = ex_server, clock = 10 ^ 9, stopped = None, lost = False, turns = [], recorder = None, entropy = [], hist = [],
      files = fs, tmps = []\<rparr>"

end
