(* ===== verification/Memory.thy ===== *)
theory Memory
  imports Ref_Host
begin

text \<open>
  \<^verbatim>\<open>pkg/trivy/memory.go\<close>: the soft memory limit a child gets. The float64 arithmetic of
  \<^verbatim>\<open>int64(float64(limit)*0.8)\<close> is written out on natural numbers with the rounding of IEEE 754.
\<close>

section \<open>Float64\<close>

fun bit_length :: "nat \<Rightarrow> nat" where
  "bit_length n = (if n = 0 then 0 else Suc (bit_length (n div 2)))"

declare bit_length.simps [simp del]

text \<open>Dividing by \<open>2^s\<close> to the nearest, ties to even.\<close>

definition round_half_even :: "nat \<Rightarrow> nat \<Rightarrow> nat" where
  "round_half_even m s =
     (let q = m div 2 ^ s; r = m mod 2 ^ s in
      if 2 * r < 2 ^ s \<or> (2 * r = 2 ^ s \<and> even q) then q else q + 1)"

text \<open>A number as significand and exponent: the nearest float64.\<close>

definition to_float :: "nat \<Rightarrow> nat \<times> nat" where
  "to_float m = (let s = bit_length m - 53 in (round_half_even m s, s))"

text \<open>The float64 nearest to 0.8 is this number of \<open>2^-53\<close>.\<close>

definition goMemLimitShare :: nat where
  "goMemLimitShare = 7205759403792794"

definition scaled_limit :: "nat \<Rightarrow> nat" where
  "scaled_limit limit =
     (let (q, s) = to_float limit; (Q, t) = to_float (q * goMemLimitShare) in
      if 53 \<le> t + s then Q * 2 ^ (t + s - 53) else Q div 2 ^ (53 - (t + s)))"

section \<open>The setting\<close>

definition goMemLimitUnits :: "(string \<times> nat) list" where
  "goMemLimitUnits = [([], 1), (''B'', 1), (''KiB'', 2 ^ 10), (''MiB'', 2 ^ 20), (''GiB'', 2 ^ 30), (''TiB'', 2 ^ 40)]"

text \<open>The regular expression \<^verbatim>\<open>goMemLimitSyntax\<close>: digits, then one of the suffixes.\<close>

definition goMemLimit_match :: "string \<Rightarrow> (string \<times> string) option" where
  "goMemLimit_match v =
     (let ds = takeWhile (\<lambda>c. digit_of c \<noteq> None) v; u = dropWhile (\<lambda>c. digit_of c \<noteq> None) v in
      if ds \<noteq> [] \<and> u \<in> set (map fst goMemLimitUnits) then Some (ds, u) else None)"

definition validGoMemLimit :: "string \<Rightarrow> bool" where
  "validGoMemLimit v =
     (case goMemLimit_match v of
        None \<Rightarrow> False
      | Some (ds, u) \<Rightarrow>
          (case ParseUint ds of
             None \<Rightarrow> False
           | Some digits \<Rightarrow> digits \<le> (2 ^ 63 - 1) div the (map_of goMemLimitUnits u)))"

definition cgroupMemoryLimitPaths :: "string list" where
  "cgroupMemoryLimitPaths = [''/sys/fs/cgroup/memory.max'', ''/sys/fs/cgroup/memory/memory.limit_in_bytes'']"

fun read_limit :: "('s, 'z) host \<Rightarrow> string list \<Rightarrow> (('s, 'z) world_scheme, int option) state" where
  "read_limit H [] = State_Monad.return None"
| "read_limit H (path # paths) =
     State_Monad.bind (ReadFile H path) (\<lambda>r.
     case r of
       Inl e \<Rightarrow> read_limit H paths
     | Inr content \<Rightarrow>
         (case ParseInt (TrimSpace content) of
            None \<Rightarrow> State_Monad.return None
          | Some limit \<Rightarrow>
              State_Monad.return (if limit \<le> 0 \<or> limit \<ge> 2 ^ 62 then None else Some limit)))"

definition cgroupMemoryLimit :: "('s, 'z) host \<Rightarrow> string list \<Rightarrow> (('s, 'z) world_scheme, int option) state" where
  "cgroupMemoryLimit H paths = read_limit H (if paths = [] then cgroupMemoryLimitPaths else paths)"

definition cgroupGoMemLimit :: "('s, 'z) host \<Rightarrow> string list \<Rightarrow> (('s, 'z) world_scheme, string) state" where
  "cgroupGoMemLimit H paths =
     State_Monad.bind (cgroupMemoryLimit H paths) (\<lambda>r.
     State_Monad.return (case r of None \<Rightarrow> [] | Some limit \<Rightarrow> dec_of_nat (scaled_limit (nat limit))))"

definition childGoMemLimit :: "('s, 'z) host \<Rightarrow> string \<Rightarrow> string list \<Rightarrow> (('s, 'z) world_scheme, string) state" where
  "childGoMemLimit H configured paths =
     (if configured = ''off'' then State_Monad.return []
      else if configured = [] then cgroupGoMemLimit H paths
      else if validGoMemLimit configured then State_Monad.return configured
      else cgroupGoMemLimit H paths)"

section \<open>Bounds\<close>

lemma bit_length_bounds: "n < 2 ^ bit_length n" "0 < n \<Longrightarrow> 2 ^ bit_length n \<le> 2 * n"
proof (induction n rule: bit_length.induct)
  case (1 n)
  { case 1
    show ?case
    proof (cases "n = 0")
      case False
      then have "n div 2 < 2 ^ bit_length (n div 2)" "bit_length n = Suc (bit_length (n div 2))"
        using "1.IH"(1) bit_length.simps [of n] by simp_all
      then show ?thesis by simp
    qed simp
  next
    case 2
    show ?case
    proof (cases "n = 1")
      case False
      then have "2 ^ bit_length (n div 2) \<le> 2 * (n div 2)" "bit_length n = Suc (bit_length (n div 2))"
        using "1.IH"(2) 2 bit_length.simps [of n] by simp_all
      then show ?thesis by simp
    qed (simp add: bit_length.simps [of "Suc 0"] bit_length.simps [of 0])
  }
qed

lemma round_bounds:
  "2 * (round_half_even m s * 2 ^ s) \<le> 2 * m + 2 ^ s" "2 * m \<le> 2 * (round_half_even m s * 2 ^ s) + 2 ^ s"
proof -
  define a where "a = m div 2 ^ s * 2 ^ s"
  define c where "c = m mod 2 ^ s"
  define p where "p = (2::nat) ^ s"
  have m: "m = a + c" unfolding a_def c_def by (rule div_mult_mod_eq [symmetric])
  have c: "c < p" by (simp add: c_def p_def)
  have "round_half_even m s * 2 ^ s = (if 2 * c < p \<or> (2 * c = p \<and> even (m div 2 ^ s)) then a else a + p)"
    by (simp add: round_half_even_def Let_def a_def c_def p_def)
  then show "2 * (round_half_even m s * 2 ^ s) \<le> 2 * m + 2 ^ s" "2 * m \<le> 2 * (round_half_even m s * 2 ^ s) + 2 ^ s"
    using m c unfolding p_def [symmetric] by (auto split: if_splits)
qed

text \<open>Rounding moves a number by at most one part in \<open>2^53\<close>.\<close>

lemma to_float_bounds:
  assumes "to_float m = (q, s)"
  shows "2 ^ 53 * (q * 2 ^ s) \<le> (2 ^ 53 + 1) * m" "(2 ^ 53 - 1) * m \<le> 2 ^ 53 * (q * 2 ^ s)"
proof -
  have s: "s = bit_length m - 53" and q: "q = round_half_even m s"
    using assms by (auto simp: to_float_def Let_def)
  have "2 ^ 53 * (q * 2 ^ s) \<le> (2 ^ 53 + 1) * m \<and> (2 ^ 53 - 1) * m \<le> 2 ^ 53 * (q * 2 ^ s)"
  proof (cases "s = 0")
    case True
    then show ?thesis by (simp add: q round_half_even_def)
  next
    case False
    then have "2 ^ (s + 53) = (2::nat) ^ bit_length m" "0 < m"
      using s by (auto simp: bit_length.simps [of 0] intro: Nat.gr0I)
    then have "2 ^ 53 * 2 ^ s \<le> 2 * m" using bit_length_bounds(2) [of m] by (simp add: power_add mult.commute)
    then show ?thesis using round_bounds [of m s] unfolding q [symmetric] by simp
  qed
  then show "2 ^ 53 * (q * 2 ^ s) \<le> (2 ^ 53 + 1) * m" "(2 ^ 53 - 1) * m \<le> 2 ^ 53 * (q * 2 ^ s)" by simp_all
qed

lemma scaled_limit_bounds: "1000 * scaled_limit n \<le> 801 * n" "799 * n \<le> 1000 * scaled_limit n + 1000"
proof -
  obtain q s where q: "to_float n = (q, s)" by fastforce
  obtain Q t where Q: "to_float (q * goMemLimitShare) = (Q, t)" by fastforce
  let ?r = "scaled_limit n"
  have up: "?r * 2 ^ 53 \<le> Q * 2 ^ t * 2 ^ s" and lo: "Q * 2 ^ t * 2 ^ s < (?r + 1) * 2 ^ 53"
  proof -
    have "?r * 2 ^ 53 \<le> Q * 2 ^ (t + s) \<and> Q * 2 ^ (t + s) < (?r + 1) * 2 ^ 53"
    proof (cases "53 \<le> t + s")
      case True
      then have "(2::nat) ^ (t + s - 53) * 2 ^ 53 = 2 ^ (t + s)" by (metis le_add_diff_inverse2 power_add)
      then have "?r * 2 ^ 53 = Q * 2 ^ (t + s)" using True by (simp add: scaled_limit_def q Q mult.assoc)
      then show ?thesis by simp
    next
      case False
      let ?d = "53 - (t + s)"
      have e: "(2::nat) ^ 53 = 2 ^ ?d * 2 ^ (t + s)" using False by (metis add.commute le_add_diff_inverse2 nat_le_linear power_add)
      have r: "?r = Q div 2 ^ ?d" using False by (simp add: scaled_limit_def q Q)
      have "Q div 2 ^ ?d * 2 ^ ?d \<le> Q" "Q < (Q div 2 ^ ?d + 1) * 2 ^ ?d"
        using div_mult_mod_eq [of Q "2 ^ ?d"] mod_less_divisor [of "2 ^ ?d" Q]
        by (simp, metis add.commute add_less_cancel_right mult_Suc Suc_eq_plus1 zero_less_numeral zero_less_power)
      then show ?thesis unfolding r e by (simp add: mult.assoc [symmetric] del: power_add)
    qed
    then show "?r * 2 ^ 53 \<le> Q * 2 ^ t * 2 ^ s" "Q * 2 ^ t * 2 ^ s < (?r + 1) * 2 ^ 53"
      by (simp_all add: power_add mult.assoc)
  qed
  note a = to_float_bounds [OF q] and b = to_float_bounds [OF Q]
  let ?c = goMemLimitShare and ?K = "2 ^ 53 :: nat"
  have "(?r * ?K) * (?K * ?K) \<le> (Q * 2 ^ t * 2 ^ s) * (?K * ?K)" using up by (rule mult_right_mono) simp
  also have "\<dots> = (?K * (Q * 2 ^ t)) * (2 ^ s * ?K)" by (simp only: ac_simps)
  also have "\<dots> \<le> ((?K + 1) * (q * ?c)) * (2 ^ s * ?K)" using b(1) by (rule mult_right_mono) simp
  also have "\<dots> = (?K * (q * 2 ^ s)) * ((?K + 1) * ?c)" by (simp only: ac_simps)
  also have "\<dots> \<le> ((?K + 1) * n) * ((?K + 1) * ?c)" using a(1) by (rule mult_right_mono) simp
  finally show "1000 * ?r \<le> 801 * n" by (simp add: goMemLimitShare_def)
  have "((?K - 1) * n) * ((?K - 1) * ?c) \<le> (?K * (q * 2 ^ s)) * ((?K - 1) * ?c)" using a(2) by (rule mult_right_mono) simp
  also have "\<dots> = ((?K - 1) * (q * ?c)) * (2 ^ s * ?K)" by (simp only: ac_simps)
  also have "\<dots> \<le> (?K * (Q * 2 ^ t)) * (2 ^ s * ?K)" using b(2) by (rule mult_right_mono) simp
  also have "\<dots> = (Q * 2 ^ t * 2 ^ s) * (?K * ?K)" by (simp only: ac_simps)
  also have "\<dots> \<le> ((?r + 1) * ?K) * (?K * ?K)" using lo by (intro mult_right_mono) simp_all
  finally show "799 * n \<le> 1000 * ?r + 1000" by (simp add: goMemLimitShare_def)
qed

section \<open>The limit a child gets\<close>

lemma dec_of_nat_digits: "c \<in> set (dec_of_nat n) \<Longrightarrow> digit_of c \<noteq> None"
proof (induction n rule: dec_of_nat.induct)
  case (1 n)
  then show ?case by (cases "n < 10") (auto simp: dec_of_nat.simps [of n])
qed

lemma valid_dec: "n < 2 ^ 63 \<Longrightarrow> validGoMemLimit (dec_of_nat n)"
proof -
  assume n: "n < 2 ^ 63"
  have all: "\<forall>c \<in> set (dec_of_nat n). digit_of c \<noteq> None" using dec_of_nat_digits by blast
  then have "takeWhile (\<lambda>c. digit_of c \<noteq> None) (dec_of_nat n) = dec_of_nat n"
    "dropWhile (\<lambda>c. digit_of c \<noteq> None) (dec_of_nat n) = []"
    by (simp_all only: takeWhile_eq_all_conv dropWhile_eq_Nil_conv)
  then have "goMemLimit_match (dec_of_nat n) = Some (dec_of_nat n, [])"
    unfolding goMemLimit_match_def Let_def by (simp only:) (simp add: goMemLimitUnits_def)
  then show ?thesis using n by (simp add: validGoMemLimit_def goMemLimitUnits_def)
qed

lemma read_limit_bounds: "run_state (read_limit H paths) w = (Some l, w') \<Longrightarrow> 0 < l \<and> l < 2 ^ 62"
  by (induction paths arbitrary: w) (auto split: prod.splits sum.splits option.splits if_splits)

text \<open>Reading the paths in order fails for each, and ends in \<open>w'\<close>.\<close>

fun unreadable :: "('s, 'z) host \<Rightarrow> string list \<Rightarrow> ('s, 'z) world_scheme \<Rightarrow> ('s, 'z) world_scheme \<Rightarrow> bool" where
  "unreadable H [] w w' \<longleftrightarrow> w' = w"
| "unreadable H (p # ps) w w' \<longleftrightarrow> (case run_state (ReadFile H p) w of (r, w1) \<Rightarrow> isl r \<and> unreadable H ps w1 w')"

text \<open>The limit that the text of a cgroup file asks for, if it is a finite one.\<close>

definition finite_limit :: "string \<Rightarrow> int option" where
  "finite_limit content =
     (case ParseInt (TrimSpace content) of
        None \<Rightarrow> None
      | Some l \<Rightarrow> if 0 < l \<and> l < 2 ^ 62 then Some l else None)"

lemma read_limit_unreadable:
  "unreadable H ps w w1 \<Longrightarrow> run_state (read_limit H (ps @ qs)) w = run_state (read_limit H qs) w1"
  by (induction ps arbitrary: w) (auto split: prod.splits sum.splits)

lemma read_limit_first:
  assumes "unreadable H before w w1" "run_state (ReadFile H path) w1 = (Inr content, w2)"
  shows "run_state (read_limit H (before @ path # after)) w = (finite_limit content, w2)"
  unfolding read_limit_unreadable [OF assms(1)] using assms(2)
  by (auto simp: finite_limit_def split: option.split)

lemma read_limit_none: "unreadable H ps w w1 \<Longrightarrow> run_state (read_limit H ps) w = (None, w1)"
  using read_limit_unreadable [of H ps w w1 "[]"] by simp

text \<open>
  C14. The soft memory limit the adapter hands to a child. For \<^verbatim>\<open>off\<close> it hands none; a valid setting it
  hands on as it is; otherwise the first readable of the cgroup files decides, and no other: when it
  asks for a finite limit \<open>l\<close>, the child gets one of at most 80.1\% and at least 79.9\% of it, less one
  byte for rounding down, and when it does not, or no file can be read, none. What is handed over is
  always a value the Go runtime starts on.
\<close>

theorem child_memory_limit:
  assumes "run_state (childGoMemLimit H configured paths) w = (limit, w')"
  shows "(configured = ''off'' \<longrightarrow> limit = []) \<and>
    (validGoMemLimit configured \<longrightarrow> limit = configured) \<and>
    (configured \<noteq> ''off'' \<and> \<not> validGoMemLimit configured \<longrightarrow>
       (let files = (if paths = [] then [''/sys/fs/cgroup/memory.max'', ''/sys/fs/cgroup/memory/memory.limit_in_bytes''] else paths) in
        (\<forall>before path after w1 content w2. files = before @ path # after \<and> unreadable H before w w1 \<and>
             run_state (ReadFile H path) w1 = (Inr content, w2) \<longrightarrow>
           (case finite_limit content of
              None \<Rightarrow> limit = []
            | Some l \<Rightarrow> \<exists>n. limit = dec_of_nat n \<and> 1000 * int n \<le> 801 * l \<and> 799 * l \<le> 1000 * int n + 1000)) \<and>
        (\<forall>w1. unreadable H files w w1 \<longrightarrow> limit = []))) \<and>
    (limit \<noteq> [] \<longrightarrow> validGoMemLimit limit)"
proof -
  have off: "\<not> validGoMemLimit ''off''" "\<not> validGoMemLimit []"
    by (simp_all add: validGoMemLimit_def goMemLimit_match_def digit_of_def)
  consider (off) "configured = ''off''" | (valid) "validGoMemLimit configured"
    | (derived) "configured \<noteq> ''off''" "\<not> validGoMemLimit configured" by blast
  then show ?thesis
  proof cases
    case off
    then show ?thesis using assms \<open>\<not> validGoMemLimit ''off''\<close> by (simp add: childGoMemLimit_def)
  next
    case valid
    then have "configured \<noteq> ''off''" "configured \<noteq> []" using \<open>\<not> validGoMemLimit ''off''\<close> \<open>\<not> validGoMemLimit []\<close> by metis+
    then show ?thesis using assms valid by (simp add: childGoMemLimit_def)
  next
    case derived
    define files where "files = (if paths = [] then cgroupMemoryLimitPaths else paths)"
    have "run_state (cgroupGoMemLimit H paths) w = (limit, w')"
      using assms derived by (auto simp: childGoMemLimit_def split: if_splits)
    then obtain r where r: "run_state (read_limit H files) w = (r, w')"
      and l: "limit = (case r of None \<Rightarrow> [] | Some i \<Rightarrow> dec_of_nat (scaled_limit (nat i)))"
      by (auto simp: cgroupGoMemLimit_def cgroupMemoryLimit_def files_def split: prod.splits)
    have share: "1000 * int (scaled_limit (nat i)) \<le> 801 * i" "799 * i \<le> 1000 * int (scaled_limit (nat i)) + 1000"
      if "0 < i" for i using scaled_limit_bounds [of "nat i"] that by linarith+
    have ok: "validGoMemLimit limit" if "limit \<noteq> []"
    proof -
      have "r \<noteq> None" using l that by (cases r) simp_all
      then obtain i where i: "r = Some i" by blast
      have "0 < i" "i < 2 ^ 62" using read_limit_bounds [OF r [unfolded i]] by simp_all
      then have "int (scaled_limit (nat i)) < 2 ^ 63" using share(1) [of i] by simp
      then have "scaled_limit (nat i) < 2 ^ 63" by simp
      then show ?thesis using l i valid_dec by simp
    qed
    have first: "case finite_limit content of None \<Rightarrow> limit = []
        | Some l \<Rightarrow> \<exists>n. limit = dec_of_nat n \<and> 1000 * int n \<le> 801 * l \<and> 799 * l \<le> 1000 * int n + 1000"
      if "files = before @ path # after" "unreadable H before w w1" "run_state (ReadFile H path) w1 = (Inr content, w2)"
      for before path after w1 content w2
    proof -
      have "r = finite_limit content" using r read_limit_first [OF that(2,3), of after] that(1) by simp
      moreover have "0 < i" if "finite_limit content = Some i" for i
        using that by (auto simp: finite_limit_def split: option.splits if_splits)
      ultimately show ?thesis using l share by (cases "finite_limit content") auto
    qed
    have none: "limit = []" if "unreadable H files w w1" for w1
      using r l read_limit_none [OF that] by simp
    show ?thesis
      unfolding Let_def files_def [unfolded cgroupMemoryLimitPaths_def, symmetric]
    proof (intro conjI impI allI)
      show "limit = []" if "configured = ''off''" using derived(1) that by contradiction
      show "limit = configured" if "validGoMemLimit configured" using derived(2) that by contradiction
      show "case finite_limit content of None \<Rightarrow> limit = []
          | Some l \<Rightarrow> \<exists>n. limit = dec_of_nat n \<and> 1000 * int n \<le> 801 * l \<and> 799 * l \<le> 1000 * int n + 1000"
        if "files = before @ path # after \<and> unreadable H before w w1 \<and> run_state (ReadFile H path) w1 = (Inr content, w2)"
        for before path after w1 content w2
        using that by (elim conjE) (rule first)
      show "limit = []" if "unreadable H files w w1" for w1 using that by (rule none)
      show "validGoMemLimit limit" if "limit \<noteq> []" using that by (rule ok)
    qed
  qed
qed

text \<open>A cgroup limit of 100 bytes.\<close>

lemma ex_parsed_limit: "ParseInt (TrimSpace (''100'' @ [CHR 0x0A])) = Some 100"
  by (simp add: TrimSpace_def ParseInt_def ParseUint_def digit_of_def is_space_def)

theorem child_memory_limit_witness:
  "\<exists>n w'. run_state (childGoMemLimit (ref_host (\<lambda>_. ex_result) (\<lambda>_. Inl Canceled) [])  ''2GB'' [])
        (ex_host_world [(''/sys/fs/cgroup/memory.max'', ''100'' @ [CHR 0x0A])]) = (dec_of_nat n, w') \<and>
     1000 * int n \<le> 801 * 100 \<and> 799 * 100 \<le> 1000 * int n + 1000 \<and> validGoMemLimit (dec_of_nat n)"
proof -
  let ?H = "ref_host (\<lambda>_. ex_result) (\<lambda>_. Inl Canceled) []"
  let ?m = "childGoMemLimit ?H ''2GB'' []"
  let ?w = "ex_host_world [(''/sys/fs/cgroup/memory.max'', ''100'' @ [CHR 0x0A])]"
  have bad: "\<not> validGoMemLimit ''2GB''" by (simp add: validGoMemLimit_def goMemLimit_match_def digit_of_def goMemLimitUnits_def)
  have read: "run_state (ReadFile ?H ''/sys/fs/cgroup/memory.max'') ?w = (Inr (''100'' @ [CHR 0x0A]), ?w)"
    by (simp add: ref_host_def ex_host_world_def)
  have fin: "finite_limit (''100'' @ [CHR 0x0A]) = Some 100" unfolding finite_limit_def ex_parsed_limit by simp
  obtain limit w' where run: "run_state ?m ?w = (limit, w')" by fastforce
  note ends = child_memory_limit [OF run, unfolded Let_def]
  have "unreadable ?H [] ?w ?w" by simp
  then have "case finite_limit (''100'' @ [CHR 0x0A]) of None \<Rightarrow> limit = []
      | Some l \<Rightarrow> \<exists>n. limit = dec_of_nat n \<and> 1000 * int n \<le> 801 * l \<and> 799 * l \<le> 1000 * int n + 1000"
    using ends bad read by fastforce
  then obtain n where n: "limit = dec_of_nat n" "1000 * int n \<le> 801 * 100" "799 * 100 \<le> 1000 * int n + 1000"
    unfolding fin by auto
  have "dec_of_nat n \<noteq> []" by (simp add: dec_of_nat.simps [of n])
  then show ?thesis using run n ends by blast
qed

end
