(* ===== verification/Target.thy ===== *)
theory Target
  imports Ref_Host
begin

text \<open>
  \<^verbatim>\<open>pkg/trivy/target.go\<close>: what a scan is run on, the image itself or an SBOM, and how an SBOM that
  accompanies the image is found. (\<^verbatim>\<open>classifyRemoteError\<close> is in \<open>Errors\<close>.)
\<close>

type_synonym TargetKind = string

definition TargetSBOM :: TargetKind where "TargetSBOM = ''sbom''"
definition TargetImage :: TargetKind where "TargetImage = ''image''"
definition HarborSBOMArtifactType :: string where
  "HarborSBOMArtifactType = ''application/vnd.goharbor.harbor.sbom.v1''"
definition annotationCreated :: string where "annotationCreated = ''created''"

definition scannableLayerMediaTypes :: "string list" where
  "scannableLayerMediaTypes =
     [''application/vnd.docker.image.rootfs.diff.tar.gzip'',
      ''application/vnd.docker.image.rootfs.diff.tar'',
      ''application/vnd.oci.image.layer.v1.tar'',
      ''application/vnd.oci.image.layer.v1.tar+gzip'',
      ''application/vnd.oci.image.layer.v1.tar+zstd'',
      ''application/vnd.oci.image.layer.nondistributable.v1.tar'',
      ''application/vnd.oci.image.layer.nondistributable.v1.tar+gzip'',
      ''application/vnd.oci.image.layer.nondistributable.v1.tar+zstd'',
      ''application/vnd.docker.image.rootfs.foreign.diff.tar.gzip'',
      ''application/vnd.oci.image.layer.nondistributable.v1.tar+gzip;q'']"

record ScanTarget =
  t_ref :: TrivyImageRef
  t_kind :: TargetKind
  t_filePath :: string
  fromAccessory :: bool

section \<open>The target\<close>

definition Target_Name :: "ScanTarget \<Rightarrow> goerr + string" where
  "Target_Name t =
     (if t_kind t = TargetSBOM then Inr (t_filePath t)
      else if t_kind t = TargetImage then Inr (ir_Name (t_ref t))
      else Inl (ErrText (''invalid target type '' @ t_kind t)))"

definition Target_NonSSL :: "ScanTarget \<Rightarrow> bool" where
  "Target_NonSSL t = ir_NonSSL (t_ref t)"

definition Target_Auth :: "ScanTarget \<Rightarrow> RegistryAuth" where
  "Target_Auth t =
     (if t_kind t = TargetSBOM then NoAuth
      else if t_kind t = TargetImage then ir_Auth (t_ref t)
      else NoAuth)"

definition Target_Clean :: "('s, 'z) host \<Rightarrow> ScanTarget \<Rightarrow> ('s, 'z, unit) op" where
  "Target_Clean H t = (if t_kind t = TargetSBOM then os_Remove H (t_filePath t) else okE ())"

section \<open>Layers\<close>

definition unscannable :: "string \<Rightarrow> string \<Rightarrow> goerr" where
  "unscannable imageRef mt =
     ScanError False ErrCategoryUnscannable imageRef
       (''artifact contains non-scannable layer with media type '' @ mt @
        '' (expected tar archive); this is likely a signature, attestation, or SBOM artifact, not a container image'')
       None"

fun validateLayers :: "string \<Rightarrow> Descriptor list \<Rightarrow> goerr + unit" where
  "validateLayers imageRef [] = Inr ()"
| "validateLayers imageRef (l # ls) =
     (if d_MediaType l \<notin> set scannableLayerMediaTypes \<and> d_MediaType l \<noteq> []
      then Inl (unscannable imageRef (d_MediaType l))
      else validateLayers imageRef ls)"

section \<open>Downloading an SBOM\<close>

text \<open>\<^verbatim>\<open>io.Copy\<close> writes what can be read, and fails when reading or writing fails.\<close>

definition downloadSBOM :: "('s, 'z) host \<Rightarrow> Image \<Rightarrow> string \<Rightarrow> ('s, 'z, string) op" where
  "downloadSBOM H img cacheDir =
     (case img_Layers img of
        Inl e \<Rightarrow> failE (Wrap ''get image layers'' e)
      | Inr layers \<Rightarrow>
          (case layers of
             [l] \<Rightarrow>
               (case l of
                  Inl e \<Rightarrow> failE (Wrap ''uncompress layer'' e)
                | Inr (content, read_err) \<Rightarrow>
                    State_Monad.bind (TempFile H cacheDir ''sbom_*.json'') (\<lambda>f.
                    case f of
                      Inl e \<Rightarrow> failE (Wrap ''create temp file'' e)
                    | Inr path \<Rightarrow>
                        State_Monad.bind (WriteFile H path content) (\<lambda>r.
                        case (case r of Inl e \<Rightarrow> Some e | Inr _ \<Rightarrow> read_err) of
                          Some e \<Rightarrow> thenM (os_Remove H path) (failE (Wrap ''copy layer to temp file'' e))
                        | None \<Rightarrow> okE path)))
           | _ \<Rightarrow> failE (ErrText (''invalid number of layers: '' @ dec_of_nat (length layers)))))"

section \<open>The SBOM accessory\<close>

definition created_at :: "(string \<Rightarrow> time option) \<Rightarrow> Descriptor \<Rightarrow> time" where
  "created_at parse d =
     (case parse (case map_of (d_Annotations d) annotationCreated of None \<Rightarrow> [] | Some s \<Rightarrow> s) of
        None \<Rightarrow> 0
      | Some t \<Rightarrow> t)"

fun latest_of :: "(string \<Rightarrow> time option) \<Rightarrow> Descriptor list \<Rightarrow> (Descriptor \<times> time) option \<Rightarrow> (Descriptor \<times> time) option" where
  "latest_of parse [] latest = latest"
| "latest_of parse (d # ds) latest =
     (if d_ArtifactType d \<noteq> HarborSBOMArtifactType then latest_of parse ds latest
      else let created = created_at parse d in
        latest_of parse ds
          (case latest of
             None \<Rightarrow> Some (d, created)
           | Some (l, lc) \<Rightarrow> if created > lc then Some (d, created) else latest))"

definition accessory_event :: "string \<Rightarrow> (('s, 'z) world_scheme, unit) state" where
  "accessory_event event = metric (Inc ''sbom_accessory_events_total'' [event])"

definition findSBOMAccessoryObserved ::
    "('s, 'z) host \<Rightarrow> Reference \<Rightarrow> Image \<Rightarrow> remote_opts \<Rightarrow> (('s, 'z) world_scheme, Image option) state" where
  "findSBOMAccessoryObserved H ref img opts =
     (let failed = (\<lambda>event. thenM (accessory_event event) (State_Monad.return None)) in
      case img_Digest img of
        Inl e \<Rightarrow> failed ''lookup_error''
      | Inr digest \<Rightarrow>
          let subject = Context_Digest (ref_Context ref) digest in
          State_Monad.bind
            (Referrers H subject (opts\<lparr>ro_Filter := Some (''artifactType'', HarborSBOMArtifactType)\<rparr>)) (\<lambda>idx.
          case idx of
            Inl e \<Rightarrow> failed ''lookup_error''
          | Inr (Inl e) \<Rightarrow> failed ''lookup_error''
          | Inr (Inr manifests) \<Rightarrow>
              (case latest_of (ParseTime H) manifests None of
                 None \<Rightarrow> failed ''lookup_miss''
               | Some (latest, _) \<Rightarrow>
                   State_Monad.bind (RemoteImage H (Context_Digest (ref_Context subject) (d_Digest latest)) opts) (\<lambda>acc.
                   case acc of
                     Inl e \<Rightarrow> failed ''lookup_error''
                   | Inr a \<Rightarrow> thenM (accessory_event ''lookup_hit'') (State_Monad.return (Some a))))))"

section \<open>Choosing the target\<close>

definition image_target :: "TrivyImageRef \<Rightarrow> Descriptor list \<Rightarrow> goerr + ScanTarget" where
  "image_target imageRef layers =
     bindR (validateLayers (ir_Name imageRef) layers) (\<lambda>_.
       Inr \<lparr>t_ref = imageRef, t_kind = TargetImage, t_filePath = [], fromAccessory = False\<rparr>)"

definition newTarget ::
    "('s, 'z) host \<Rightarrow> TrivyImageRef \<Rightarrow> TrivyConfig \<Rightarrow> bool \<Rightarrow> ('s, 'z, ScanTarget) op" where
  "newTarget H imageRef config useSBOMAccessory =
     (case ParseReference H (ir_Name imageRef) (ir_NonSSL imageRef) of
        Inl err \<Rightarrow> failE (ScanError False ErrCategoryImageFetch (ir_Name imageRef) ''parsing image reference'' (Some err))
      | Inr ref \<Rightarrow>
          let opts = \<lparr>ro_Auth = ir_Auth imageRef, ro_InsecureSkipVerify = Insecure config, ro_Filter = None\<rparr> in
          State_Monad.bind (RemoteImage H ref opts) (\<lambda>r.
          case r of
            Inl err \<Rightarrow>
              (let category = classifyRemoteError err in
               failE (ScanError (retryable category) category (ir_Name imageRef) ''fetching image from registry'' (Some err)))
          | Inr img \<Rightarrow>
              (case img_Manifest img of
                 Inl err \<Rightarrow>
                   (let category = classifyRemoteError err;
                        category = (if category = ErrCategoryImageFetch then ErrCategoryManifest else category) in
                    failE (ScanError (retryable category) category (ir_Name imageRef) ''getting image manifest'' (Some err)))
               | Inr m \<Rightarrow>
                   if m_ArtifactType m = HarborSBOMArtifactType then
                     State_Monad.bind (downloadSBOM H img (CacheDir config)) (\<lambda>r.
                     case r of
                       Inl err \<Rightarrow> failE (Wrap ''downloading SBOM'' err)
                     | Inr path \<Rightarrow>
                         okE \<lparr>t_ref = imageRef, t_kind = TargetSBOM, t_filePath = path, fromAccessory = False\<rparr>)
                   else if useSBOMAccessory then
                     State_Monad.bind (findSBOMAccessoryObserved H ref img opts) (\<lambda>acc.
                     case acc of
                       None \<Rightarrow> liftE (image_target imageRef (m_Layers m))
                     | Some sbomImg \<Rightarrow>
                         State_Monad.bind (downloadSBOM H sbomImg (CacheDir config)) (\<lambda>r.
                         case r of
                           Inr path \<Rightarrow>
                             okE \<lparr>t_ref = imageRef, t_kind = TargetSBOM, t_filePath = path, fromAccessory = True\<rparr>
                         | Inl err \<Rightarrow>
                             thenM (accessory_event ''fallback'') (liftE (image_target imageRef (m_Layers m)))))
                   else liftE (image_target imageRef (m_Layers m)))))"

section \<open>The temporary file of a target\<close>

context host_laws begin

lemma keeps_at_event: "keeps (at temps (stuck H) b h T) (accessory_event e)"
  unfolding accessory_event_def by (rule keeps_at_metric) simp

lemma keeps_at_find: "keeps (at temps (stuck H) b h T) (findSBOMAccessoryObserved H ref img opts)"
  unfolding findSBOMAccessoryObserved_def Let_def
  by (intro wp_intros keeps_at_event keeps_calm [OF referrers] keeps_calm [OF remote])

text \<open>Downloading leaves the file it returns, and nothing when it fails.\<close>

lemma wp_downloadSBOM:
  "wp (at temps (stuck H) b h T) (downloadSBOM H img dir)
     (\<lambda>r w. case r of Inl e \<Rightarrow> at temps (stuck H) b h T w | Inr x \<Rightarrow> x \<notin> T \<and> at temps (stuck H) b h (insert x T) w)"
  (is "wp _ _ ?Q")
proof -
  have fail: "wp (at temps (stuck H) b h T) (failE e) ?Q" for e by (rule wp_failE) simp
  have put: "wp (\<lambda>w. x \<notin> T \<and> at temps (stuck H) b h (insert x T) w)
      (State_Monad.bind (WriteFile H x content) (\<lambda>r.
         case (case r of Inl e \<Rightarrow> Some e | Inr _ \<Rightarrow> read_err) of
           Some e \<Rightarrow> thenM (os_Remove H x) (failE (Wrap ''copy layer to temp file'' e))
         | None \<Rightarrow> okE x)) ?Q" for x content read_err
  proof (rule wp_pre_conj, rule wp_bind_keeps [OF keeps_calm [OF write_file]])
    fix r
    assume x: "x \<notin> T"
    have "wp (at temps (stuck H) b h (insert x T)) (thenM (os_Remove H x) (failE e)) ?Q" for e
      by (rule wp_thenM [OF wp_remove(1)]) (use x in \<open>auto intro: wp_failE\<close>)
    then show "wp (at temps (stuck H) b h (insert x T)) (case (case r of Inl e \<Rightarrow> Some e | Inr _ \<Rightarrow> read_err) of
        Some e \<Rightarrow> thenM (os_Remove H x) (failE (Wrap ''copy layer to temp file'' e)) | None \<Rightarrow> okE x) ?Q"
      using x by (auto intro!: wp_okE split: option.split)
  qed
  have tmp: "wp (at temps (stuck H) b h T) (State_Monad.bind (TempFile H dir ''sbom_*.json'') (\<lambda>f.
       case f of Inl e \<Rightarrow> failE (Wrap ''create temp file'' e)
       | Inr path \<Rightarrow> State_Monad.bind (WriteFile H path content) (\<lambda>r.
           case (case r of Inl e \<Rightarrow> Some e | Inr _ \<Rightarrow> read_err) of
             Some e \<Rightarrow> thenM (os_Remove H path) (failE (Wrap ''copy layer to temp file'' e))
           | None \<Rightarrow> okE path))) ?Q" for content read_err
    by (rule wp_bind_sum [OF wp_makes [OF temp_file]]) (simp_all add: fail put)
  show ?thesis
    unfolding downloadSBOM_def by (intro wp_branches fail tmp)
qed

text \<open>The file a target owns.\<close>

definition target_files :: "ScanTarget \<Rightarrow> string set" where
  "target_files t = (if t_kind t = TargetSBOM then {t_filePath t} else {})"

lemma image_target_files: "image_target imageRef ls = Inr t \<Longrightarrow> target_files t = {}"
  by (auto simp: image_target_def bindR_Inr_iff target_files_def TargetSBOM_def TargetImage_def)

lemma wp_newTarget:
  "wp (at temps (stuck H) b h T) (newTarget H imageRef config useAcc)
     (\<lambda>r w. case r of Inl e \<Rightarrow> at temps (stuck H) b h T w | Inr t \<Rightarrow> target_files t \<inter> T = {} \<and> at temps (stuck H) b h (T \<union> target_files t) w)"
  (is "wp _ _ ?Q")
proof -
  have fail: "wp (at temps (stuck H) b h T) (failE e) ?Q" for e by (rule wp_failE) simp
  have img: "wp (at temps (stuck H) b h T) (liftE (image_target imageRef ls)) ?Q" for ls
    by (rule wpI) (auto simp: image_target_files split: sum.split)
  have sbom: "wp (\<lambda>w. x \<notin> T \<and> at temps (stuck H) b h (insert x T) w)
      (okE \<lparr>t_ref = imageRef, t_kind = TargetSBOM, t_filePath = x, fromAccessory = a\<rparr>) ?Q" for x a
    by (rule wp_okE) (simp add: target_files_def)
  have down: "wp (at temps (stuck H) b h T) (State_Monad.bind (downloadSBOM H i (CacheDir config)) (\<lambda>r.
        case r of Inl err \<Rightarrow> failE (Wrap ''downloading SBOM'' err)
        | Inr path \<Rightarrow> okE \<lparr>t_ref = imageRef, t_kind = TargetSBOM, t_filePath = path, fromAccessory = False\<rparr>)) ?Q" for i
    by (rule wp_bind_sum [OF wp_downloadSBOM]) (simp_all add: fail sbom)
  have acc: "wp (at temps (stuck H) b h T) (State_Monad.bind (findSBOMAccessoryObserved H ref i opts) (\<lambda>acc.
        case acc of None \<Rightarrow> liftE (image_target imageRef ls)
        | Some sbomImg \<Rightarrow> State_Monad.bind (downloadSBOM H sbomImg (CacheDir config)) (\<lambda>r.
            case r of Inr path \<Rightarrow> okE \<lparr>t_ref = imageRef, t_kind = TargetSBOM, t_filePath = path, fromAccessory = True\<rparr>
            | Inl err \<Rightarrow> thenM (accessory_event ''fallback'') (liftE (image_target imageRef ls))))) ?Q" for ref i opts ls
  proof (rule wp_bind_keeps [OF keeps_at_find])
    fix acc :: "Image option"
    have "wp (at temps (stuck H) b h T) (State_Monad.bind (downloadSBOM H i (CacheDir config)) (\<lambda>r.
        case r of Inr path \<Rightarrow> okE \<lparr>t_ref = imageRef, t_kind = TargetSBOM, t_filePath = path, fromAccessory = True\<rparr>
        | Inl err \<Rightarrow> thenM (accessory_event ''fallback'') (liftE (image_target imageRef ls)))) ?Q" for i
      by (rule wp_bind_sum [OF wp_downloadSBOM]) (simp_all add: sbom wp_then_keeps [OF keeps_at_event img])
    then show "wp (at temps (stuck H) b h T) (case acc of None \<Rightarrow> liftE (image_target imageRef ls)
        | Some sbomImg \<Rightarrow> State_Monad.bind (downloadSBOM H sbomImg (CacheDir config)) (\<lambda>r.
            case r of Inr path \<Rightarrow> okE \<lparr>t_ref = imageRef, t_kind = TargetSBOM, t_filePath = path, fromAccessory = True\<rparr>
            | Inl err \<Rightarrow> thenM (accessory_event ''fallback'') (liftE (image_target imageRef ls)))) ?Q"
      by (cases acc) (simp_all add: img)
  qed
  show ?thesis
    unfolding newTarget_def Let_def
    by (intro wp_branches fail down acc img wp_bind_keeps [OF keeps_calm [OF remote]])
qed

end

section \<open>Which accessory, and which errors are final\<close>

definition is_sbom :: "Descriptor \<Rightarrow> bool" where
  "is_sbom d \<longleftrightarrow> d_ArtifactType d = HarborSBOMArtifactType"

lemma latest_of_from:
  "latest_of parse ds (Some (l, t)) =
     (case latest_of parse ds None of
        None \<Rightarrow> Some (l, t)
      | Some (d, t') \<Rightarrow> if t' > t then Some (d, t') else Some (l, t))"
proof (induction ds arbitrary: l t)
  case (Cons d ds)
  show ?case
  proof (cases "is_sbom d")
    case True
    then show ?thesis
      using Cons.IH [of d "created_at parse d"] Cons.IH [of l t]
      by (auto simp: is_sbom_def Let_def split: option.split)
  qed (use Cons.IH in \<open>simp add: is_sbom_def\<close>)
qed simp

lemma latest_of_None: "latest_of parse ds None = None \<longleftrightarrow> (\<forall>d \<in> set ds. \<not> is_sbom d)"
  by (induction ds) (auto simp: is_sbom_def Let_def latest_of_from split: option.split)

lemma latest_of_Some:
  "latest_of parse ds None = Some (d, t) \<Longrightarrow>
     t = created_at parse d \<and> is_sbom d \<and>
     (\<exists>a b. ds = a @ d # b \<and> (\<forall>x \<in> set a. is_sbom x \<longrightarrow> created_at parse x < t) \<and>
        (\<forall>x \<in> set b. is_sbom x \<longrightarrow> created_at parse x \<le> t))"
proof (induction ds arbitrary: d t)
  case (Cons x ds)
  show ?case
  proof (cases "is_sbom x")
    case False
    then have "latest_of parse ds None = Some (d, t)" using Cons.prems by (simp add: is_sbom_def)
    then obtain a b where "t = created_at parse d" "is_sbom d" "ds = a @ d # b"
      "\<forall>x \<in> set a. is_sbom x \<longrightarrow> created_at parse x < t" "\<forall>x \<in> set b. is_sbom x \<longrightarrow> created_at parse x \<le> t"
      using Cons.IH by blast
    then show ?thesis using False by (intro conjI exI [of _ "x # a"] exI [of _ b]) auto
  next
    case True
    then have step: "latest_of parse (x # ds) None = latest_of parse ds (Some (x, created_at parse x))"
      by (simp add: is_sbom_def Let_def)
    show ?thesis
    proof (cases "latest_of parse ds None")
      case None
      then have "d = x" "t = created_at parse x" using Cons.prems unfolding step latest_of_from by auto
      then show ?thesis using True None by (intro conjI exI [of _ "[]"] exI [of _ ds]) (auto simp: latest_of_None)
    next
      case (Some p)
      obtain d' t' where p: "p = (d', t')" by fastforce
      from Cons.IH [OF Some [unfolded p]] obtain a b where IH: "t' = created_at parse d'" "is_sbom d'" "ds = a @ d' # b"
        "\<forall>x \<in> set a. is_sbom x \<longrightarrow> created_at parse x < t'" "\<forall>x \<in> set b. is_sbom x \<longrightarrow> created_at parse x \<le> t'"
        by blast
      show ?thesis
      proof (cases "created_at parse x < t'")
        case True
        then have "d = d'" "t = t'" using Cons.prems unfolding step latest_of_from by (auto simp: Some p)
        then show ?thesis using IH True by (intro conjI exI [of _ "x # a"] exI [of _ b]) auto
      next
        case False
        then have "d = x" "t = created_at parse x" using Cons.prems unfolding step latest_of_from by (auto simp: Some p)
        then show ?thesis using IH False True by (intro conjI exI [of _ "[]"] exI [of _ ds]) (auto intro: order_trans less_imp_le)
      qed
    qed
  qed
qed simp

text \<open>The first of the most recently created of the descriptors that have the SBOM's type.\<close>

definition newest_sbom :: "(string \<Rightarrow> time option) \<Rightarrow> Descriptor list \<Rightarrow> Descriptor \<Rightarrow> bool" where
  "newest_sbom parse ds d \<longleftrightarrow> d_ArtifactType d = HarborSBOMArtifactType \<and>
     (\<exists>a b. ds = a @ d # b \<and>
        (\<forall>x \<in> set a. d_ArtifactType x = HarborSBOMArtifactType \<longrightarrow> created_at parse x < created_at parse d) \<and>
        (\<forall>x \<in> set b. d_ArtifactType x = HarborSBOMArtifactType \<longrightarrow> created_at parse x \<le> created_at parse d))"

lemma latest_of_newest: "latest_of parse ds None = Some (d, t) \<Longrightarrow> newest_sbom parse ds d"
  using latest_of_Some [of parse ds d t] unfolding newest_sbom_def is_sbom_def by blast

text \<open>
  C21. The SBOM that accompanies an image. The registry is asked for the referrers of the image's
  digest, in the image's repository and filtered by the SBOM's type; of what it lists, even where it
  ignores the filter, the first of the most recently created ones with that type is fetched by its
  digest, and that is the SBOM used. Without one the lookup ends for exactly one of these reasons: the
  digest could not be computed, the referrers or their index could not be read, none of those listed
  has the type, or the chosen one could not be fetched.
\<close>

theorem newest_accessory:
  assumes "run_state (findSBOMAccessoryObserved H ref img opts) w = (found, w')"
  shows "case img_Digest img of
      Inl e \<Rightarrow> found = None
    | Inr digest \<Rightarrow>
       (case run_state (Referrers H (Context_Digest (ref_Context ref) digest)
               (opts\<lparr>ro_Filter := Some (''artifactType'', ''application/vnd.goharbor.harbor.sbom.v1'')\<rparr>)) w of
          (Inl e, w1) \<Rightarrow> found = None
        | (Inr (Inl e), w1) \<Rightarrow> found = None
        | (Inr (Inr ds), w1) \<Rightarrow>
            (if \<forall>d \<in> set ds. d_ArtifactType d \<noteq> HarborSBOMArtifactType then found = None
             else \<exists>d. newest_sbom (ParseTime H) ds d \<and>
               (case fst (run_state (RemoteImage H (Context_Digest (ref_Context ref) (d_Digest d)) opts) w1) of
                  Inl e \<Rightarrow> found = None
                | Inr acc \<Rightarrow> found = Some acc)))"
proof (cases "img_Digest img")
  case (Inl e)
  then show ?thesis using assms by (auto simp: findSBOMAccessoryObserved_def split: prod.splits)
next
  case digest: (Inr digest)
  obtain r w1 where r: "run_state (Referrers H (Context_Digest (ref_Context ref) digest)
      (opts\<lparr>ro_Filter := Some (''artifactType'', HarborSBOMArtifactType)\<rparr>)) w = (r, w1)" by fastforce
  note step = digest r [unfolded HarborSBOMArtifactType_def] r
  have ctx: "ref_Context (Context_Digest c x) = c" for c x by (simp add: Context_Digest_def)
  consider (failed) e where "r = Inl e" | (index) e where "r = Inr (Inl e)" | (listed) ds where "r = Inr (Inr ds)"
    by (metis sum.exhaust)
  then show ?thesis
  proof cases
    case failed
    then show ?thesis using assms step by (auto simp: findSBOMAccessoryObserved_def Let_def split: prod.splits)
  next
    case index
    then show ?thesis using assms step by (auto simp: findSBOMAccessoryObserved_def Let_def split: prod.splits)
  next
    case listed
    show ?thesis
    proof (cases "latest_of (ParseTime H) ds None")
      case None
      then have "\<forall>d \<in> set ds. d_ArtifactType d \<noteq> HarborSBOMArtifactType" by (simp add: latest_of_None is_sbom_def)
      moreover have "found = None" using assms r digest listed None by (auto simp: findSBOMAccessoryObserved_def Let_def split: prod.splits)
      ultimately show ?thesis using step(1,2) listed by simp
    next
      case (Some p)
      obtain d t where p: "p = (d, t)" by fastforce
      have "newest_sbom (ParseTime H) ds d" by (rule latest_of_newest [OF Some [unfolded p]])
      moreover have "\<not> (\<forall>d \<in> set ds. d_ArtifactType d \<noteq> HarborSBOMArtifactType)"
        using Some latest_of_None [of "ParseTime H" ds] by (auto simp: is_sbom_def)
      moreover obtain acc w2 where acc: "run_state (RemoteImage H (Context_Digest (ref_Context ref) (d_Digest d)) opts) w1 = (acc, w2)"
        by fastforce
      have "case acc of Inl e \<Rightarrow> found = None | Inr a \<Rightarrow> found = Some a"
        using assms r digest listed Some p acc by (cases acc) (auto simp: findSBOMAccessoryObserved_def Let_def ctx split: prod.splits)
      ultimately show ?thesis using step(1,2) listed acc by auto
    qed
  qed
qed

text \<open>One old accessory, one signature, one new accessory: the new one is fetched.\<close>

definition ex_descriptor :: "string \<Rightarrow> string \<Rightarrow> string \<Rightarrow> Descriptor" where
  "ex_descriptor t digest created =
     \<lparr>d_MediaType = [], d_ArtifactType = t, d_Digest = digest, d_Annotations = [(annotationCreated, created)]\<rparr>"

definition ex_referrers :: "Descriptor list" where
  "ex_referrers = [ex_descriptor HarborSBOMArtifactType ''a'' ''1'', ex_descriptor ''sig'' ''b'' ''3'',
     ex_descriptor HarborSBOMArtifactType ''c'' ''2'']"

definition ex_fetched :: "Reference \<Rightarrow> Image" where
  "ex_fetched ref = \<lparr>img_Manifest = Inr \<lparr>m_ArtifactType = [], m_Layers = []\<rparr>, img_Digest = Inr (ref_String ref), img_Layers = Inr []\<rparr>"

lemma ex_newest:
  assumes "newest_sbom (\<lambda>s. map_option int (ParseUint s)) ex_referrers d"
  shows "d_Digest d = ''c''"
proof -
  have times: "created_at (\<lambda>s. map_option int (ParseUint s)) (ex_descriptor t g ''1'') = 1"
    "created_at (\<lambda>s. map_option int (ParseUint s)) (ex_descriptor t g ''2'') = 2" for t g
    by (simp_all add: created_at_def ex_descriptor_def ParseUint_def digit_of_def)
  obtain a b where d: "ex_referrers = a @ d # b" "d_ArtifactType d = HarborSBOMArtifactType"
    and late: "\<forall>x \<in> set b. d_ArtifactType x = HarborSBOMArtifactType \<longrightarrow>
      created_at (\<lambda>s. map_option int (ParseUint s)) x \<le> created_at (\<lambda>s. map_option int (ParseUint s)) d"
    using assms unfolding newest_sbom_def by blast
  have "d = ex_descriptor HarborSBOMArtifactType ''a'' ''1'' \<and> ex_descriptor HarborSBOMArtifactType ''c'' ''2'' \<in> set b \<or>
      d = ex_descriptor ''sig'' ''b'' ''3'' \<or> d = ex_descriptor HarborSBOMArtifactType ''c'' ''2''"
    using d(1) by (auto simp: ex_referrers_def Cons_eq_append_conv)
  moreover have "d \<noteq> ex_descriptor ''sig'' ''b'' ''3''"
    using d(2) by (auto simp: ex_descriptor_def HarborSBOMArtifactType_def)
  moreover have "ex_descriptor HarborSBOMArtifactType ''c'' ''2'' \<notin> set b" if "d = ex_descriptor HarborSBOMArtifactType ''a'' ''1''"
    using late times that by (auto simp: ex_descriptor_def)
  ultimately show ?thesis by (auto simp: ex_descriptor_def)
qed

theorem newest_accessory_witness:
  "fst (run_state (findSBOMAccessoryObserved (ref_host (\<lambda>_. ex_result) (\<lambda>ref. Inr (ex_fetched ref)) ex_referrers)
      \<lparr>ref_String = ''r/i'', ref_Context = ''r/i''\<rparr> (ex_fetched \<lparr>ref_String = ''d'', ref_Context = ''r/i''\<rparr>)
      \<lparr>ro_Auth = NoAuth, ro_InsecureSkipVerify = False, ro_Filter = None\<rparr>) (ex_host_world []))
    = Some (ex_fetched (Context_Digest ''r/i'' ''c''))"
proof -
  let ?H = "ref_host (\<lambda>_. ex_result) (\<lambda>ref. Inr (ex_fetched ref)) ex_referrers"
  let ?m = "findSBOMAccessoryObserved ?H \<lparr>ref_String = ''r/i'', ref_Context = ''r/i''\<rparr> (ex_fetched \<lparr>ref_String = ''d'', ref_Context = ''r/i''\<rparr>)
      \<lparr>ro_Auth = NoAuth, ro_InsecureSkipVerify = False, ro_Filter = None\<rparr>"
  obtain found w' where run: "run_state ?m (ex_host_world []) = (found, w')" by fastforce
  have host: "Referrers ?H = (\<lambda>ref ro. okE (Inr ex_referrers))" "RemoteImage ?H = (\<lambda>ref ro. liftE (Inr (ex_fetched ref)))"
    "ParseTime ?H = (\<lambda>s. map_option int (ParseUint s))" by (simp_all add: ref_host_def)
  have "\<not> (\<forall>d \<in> set ex_referrers. d_ArtifactType d \<noteq> HarborSBOMArtifactType)"
    by (simp add: ex_referrers_def ex_descriptor_def)
  with newest_accessory [OF run] obtain d where "newest_sbom (\<lambda>s. map_option int (ParseUint s)) ex_referrers d"
    "found = Some (ex_fetched (Context_Digest ''r/i'' (d_Digest d)))"
    by (auto simp: host ex_fetched_def [of "\<lparr>ref_String = ''d'', ref_Context = ''r/i''\<rparr>"] liftE_def okE_def)
  then show ?thesis using run ex_newest by simp
qed

text \<open>
  C22. What the registry answers decides whether a scan is retried: refused credentials (401, 403)
  and an artifact that is gone (404 for a manifest) are final; a rate limit (429) and a 404 from an
  endpoint that is not a manifest's are retried.
\<close>

theorem registry_answer_decides:
  assumes "As_RegistryError err = Some (code, path)"
  shows "(code \<in> {401, 403} \<longrightarrow> \<not> retryable (classifyRemoteError err)) \<and>
    (code = 429 \<longrightarrow> classifyRemoteError err = ErrCategoryRateLimit \<and> retryable (classifyRemoteError err)) \<and>
    (code = 404 \<longrightarrow>
       retryable (classifyRemoteError err) = (\<exists>p. path = Some p \<and> \<not> Contains p ''/manifests/''))"
  using assms unfolding classifyRemoteError_def Let_def retryable_def
  by (auto simp: category_defs split: option.split)

theorem registry_answer_decides_witness:
  "\<not> retryable (classifyRemoteError (Wrap ''GET'' (RegistryError 401 None ''UNAUTHORIZED''))) \<and>
   retryable (classifyRemoteError (RegistryError 404 (Some ''/v2/'') ''not found''))"
proof -
  have "As_RegistryError (Wrap ''GET'' (RegistryError 401 None ''UNAUTHORIZED'')) = Some (401, None)"
    "As_RegistryError (RegistryError 404 (Some ''/v2/'') ''not found'') = Some (404, Some ''/v2/'')" by code_simp+
  from this [THEN registry_answer_decides] have
    "\<not> retryable (classifyRemoteError (Wrap ''GET'' (RegistryError 401 None ''UNAUTHORIZED'')))"
    "retryable (classifyRemoteError (RegistryError 404 (Some ''/v2/'') ''not found'')) = (\<not> Contains ''/v2/'' ''/manifests/'')" by simp_all
  moreover have "\<not> Contains ''/v2/'' ''/manifests/''" by code_simp
  ultimately show ?thesis by blast
qed

end
