(* ===== verification/Trivy_Env.thy ===== *)
theory Trivy_Env
  imports Memory Target
begin

text \<open>
  The command line and the environment of a child in \<^verbatim>\<open>pkg/trivy/wrapper.go\<close>: \<^verbatim>\<open>setEnv\<close>, \<^verbatim>\<open>cacheEnv\<close>,
  \<^verbatim>\<open>prepareScanCmd\<close>, \<^verbatim>\<open>prepareVersionCmd\<close>, and \<^verbatim>\<open>redactCacheCredentials\<close>.
\<close>

definition trivyCmd :: string where "trivyCmd = ''trivy''"

section \<open>The environment\<close>

definition env_key :: "string \<Rightarrow> string" where
  "env_key s = fst (Cut s ''='')"

definition is_entry :: "string \<Rightarrow> string \<Rightarrow> bool" where
  "is_entry key entry = HasPrefix entry (key @ ''='')"

fun setEnv :: "string list \<Rightarrow> string list \<Rightarrow> string list" where
  "setEnv env [] = env"
| "setEnv env (v # values) = setEnv (filter (\<lambda>entry. \<not> is_entry (env_key v) entry) env @ [v]) values"

definition bool_text :: "bool \<Rightarrow> string" where
  "bool_text b = (if b then ''true'' else ''false'')"

definition cacheEnv :: "TrivyConfig \<Rightarrow> string list \<Rightarrow> string list" where
  "cacheEnv config env =
     (if CacheBackend config = [] then env
      else let
          secure = HasPrefix (CacheBackend config) ''rediss://'';
          backend = (if secure then ''redis://'' @ TrimPrefix (CacheBackend config) ''rediss://'' else CacheBackend config);
          enableTLS = (if secure then True else CacheRedisTLS config)
        in setEnv env
             [''TRIVY_CACHE_BACKEND='' @ backend,
              ''TRIVY_CACHE_TTL='' @ Duration_String (CacheTTL config),
              ''TRIVY_REDIS_TLS='' @ bool_text enableTLS,
              ''TRIVY_REDIS_CA='' @ CacheRedisCA config,
              ''TRIVY_REDIS_CERT='' @ CacheRedisCert config,
              ''TRIVY_REDIS_KEY='' @ CacheRedisKey config])"

section \<open>The scan command\<close>

definition flag :: "bool \<Rightarrow> string list \<Rightarrow> string list" where
  "flag b args = (if b then args else [])"

definition scan_args :: "TrivyConfig \<Rightarrow> ScanTarget \<Rightarrow> string \<Rightarrow> Format \<Rightarrow> string list" where
  "scan_args config target outputFile format =
     [t_kind target, ''--no-progress'', ''--severity'', cf_Severity config, ''--vuln-type'', VulnType config,
      ''--format'', format, ''--output'', outputFile, ''--cache-dir'', CacheDir config,
      ''--timeout'', Duration_String (Timeout config)]
     @ (if t_kind target = TargetImage
        then [''--scanners'', Scanners config]
             @ flag (ImageSrc config \<noteq> []) [''--image-src'', ImageSrc config]
             @ flag (MaxImageSize config \<noteq> []) [''--max-image-size'', MaxImageSize config]
        else [])
     @ flag (SkipVersionCheck config) [''--skip-version-check'']
     @ flag (DisableTelemetry config) [''--disable-telemetry'']
     @ flag (IgnoreUnfixed config) [''--ignore-unfixed'']
     @ flag (SkipDBUpdate config) [''--skip-db-update'']
     @ flag (SkipJavaDBUpdate config) [''--skip-java-db-update'']
     @ flag (OfflineScan config) [''--offline-scan'']
     @ flag (IgnorePolicy config \<noteq> []) [''--ignore-policy'', IgnorePolicy config]
     @ flag (DBRepository config \<noteq> []) [''--db-repository'', DBRepository config]
     @ flag (JavaDBRepository config \<noteq> []) [''--java-db-repository'', JavaDBRepository config]
     @ flag (DebugMode config) [''--debug'']
     @ flag (Insecure config \<or> Target_NonSSL target) [''--insecure'']
     @ flag (VEXSource config \<noteq> []) [''--vex'', VEXSource config]
     @ flag (SkipVEXRepoUpdate config) [''--skip-vex-repo-update'']"

definition auth_env :: "RegistryAuth \<Rightarrow> string list" where
  "auth_env auth =
     (case auth of
        NoAuth \<Rightarrow> []
      | BasicAuth u p \<Rightarrow> [''TRIVY_USERNAME='' @ u, ''TRIVY_PASSWORD='' @ p]
      | BearerAuth t \<Rightarrow> [''TRIVY_REGISTRY_TOKEN='' @ t])"

definition scan_env :: "TrivyConfig \<Rightarrow> RegistryAuth \<Rightarrow> string \<Rightarrow> string \<Rightarrow> string list \<Rightarrow> string list" where
  "scan_env config auth childTemp limit env =
     (let env = setEnv (cacheEnv config env) [''TMPDIR='' @ childTemp];
          env = (if limit \<noteq> [] then setEnv env [''GOMEMLIMIT='' @ limit] else env)
      in env @ auth_env auth
         @ flag (TrimSpace (GitHubToken config) \<noteq> []) [''GITHUB_TOKEN='' @ GitHubToken config])"

definition prepareScanCmd ::
    "('s, 'z) host \<Rightarrow> TrivyConfig \<Rightarrow> ScanTarget \<Rightarrow> string \<Rightarrow> Format \<Rightarrow> string \<Rightarrow> ('s, 'z, Cmd) op" where
  "prepareScanCmd H config target outputFile format childTemp =
     (case Target_Name target of
        Inl e \<Rightarrow> failE (Wrap ''get target name'' e)
      | Inr targetName \<Rightarrow>
          State_Monad.bind (LookPath H trivyCmd) (\<lambda>r.
          case r of
            Inl e \<Rightarrow> failE e
          | Inr name \<Rightarrow>
              State_Monad.bind (Environ H) (\<lambda>env.
              State_Monad.bind (childGoMemLimit H (ChildGoMemLimit config) []) (\<lambda>limit.
              okE \<lparr>cmd_Path = name,
                   cmd_Args = name # scan_args config target outputFile format @ [targetName],
                   cmd_Env = Some (scan_env config (Target_Auth target) childTemp limit env),
                   cmd_WaitDelay = second\<rparr>))))"

definition prepareVersionCmd :: "('s, 'z) host \<Rightarrow> TrivyConfig \<Rightarrow> ('s, 'z, Cmd) op" where
  "prepareVersionCmd H config =
     State_Monad.bind (LookPath H trivyCmd) (\<lambda>r.
     case r of
       Inl e \<Rightarrow> failE e
     | Inr name \<Rightarrow>
         okE \<lparr>cmd_Path = name,
              cmd_Args = [name, ''--cache-dir'', CacheDir config, ''version'', ''--format'', ''json''],
              cmd_Env = None, cmd_WaitDelay = 0\<rparr>)"

section \<open>Redaction\<close>

definition redacted_mark :: string where "redacted_mark = ''[redacted]''"

definition redactCacheCredentials :: "TrivyConfig \<Rightarrow> string \<Rightarrow> string" where
  "redactCacheCredentials config text =
     (case url_Parse (CacheBackend config) of
        None \<Rightarrow> text
      | Some u \<Rightarrow>
          (case User u of
             None \<Rightarrow> text
           | Some user \<Rightarrow>
               let text = ReplaceAll text (CacheBackend config) ''redis://[redacted]'';
                   text = (if Scheme u = ''rediss''
                           then ReplaceAll text (''redis://'' @ TrimPrefix (CacheBackend config) ''rediss://'') ''redis://[redacted]''
                           else text);
                   text = ReplaceAll text (Userinfo_String user) redacted_mark
               in (case password user of
                     None \<Rightarrow> text
                   | Some p \<Rightarrow>
                       if p = [] then text
                       else let
                           encoded = TrimPrefix (Userinfo_String \<lparr>username = [], password = Some p\<rparr>) '':'';
                           text = ReplaceAll text encoded redacted_mark;
                           text = ReplaceAll text (QueryEscape p) redacted_mark
                         in ReplaceAll text p redacted_mark)))"

section \<open>Lemmas on the environment\<close>

definition settings :: "string \<Rightarrow> string list \<Rightarrow> string list" where
  "settings key env = filter (is_entry key) env"

fun assignment :: "string \<times> string \<Rightarrow> string" where
  "assignment (k, v) = k @ CHR ''='' # v"

lemma settings_append [simp]: "settings key (a @ b) = settings key a @ settings key b"
  by (simp add: settings_def)

lemma settings_Nil [simp]: "settings key [] = []"
  by (simp add: settings_def)

lemma settings_Cons: "settings key (e # es) = (if is_entry key e then e # settings key es else settings key es)"
  by (simp add: settings_def)

lemma Index_char: "Index s [c] = (if c \<in> set s then Some (length (takeWhile (\<lambda>d. d \<noteq> c) s)) else None)"
  by (induction s) auto

lemma env_key_assignment [simp]: "CHR ''='' \<notin> set k \<Longrightarrow> env_key (assignment (k, v)) = k"
proof -
  assume k: "CHR ''='' \<notin> set k"
  then have "takeWhile (\<lambda>d. d \<noteq> CHR ''='') (k @ CHR ''='' # v) = k" by (subst takeWhile_append2) auto
  then show ?thesis by (simp add: env_key_def Cut_def Index_char)
qed

lemma is_entry_key: "CHR ''='' \<notin> set k \<Longrightarrow> is_entry k e \<Longrightarrow> env_key e = k"
  by (auto simp: is_entry_def HasPrefix_iff dest: env_key_assignment)

lemma is_entry_assignment [simp]: "CHR ''='' \<notin> set k \<Longrightarrow> CHR ''='' \<notin> set k' \<Longrightarrow> is_entry k (assignment (k', v)) \<longleftrightarrow> k = k'"
  using is_entry_key [of k "assignment (k', v)"] by (auto simp: is_entry_def HasPrefix_iff simp del: assignment.simps) (simp add: HasPrefix_iff)

lemma settings_removed:
  assumes "CHR ''='' \<notin> set k" "CHR ''='' \<notin> set k'"
  shows "settings k (filter (\<lambda>entry. \<not> is_entry k' entry) env) = (if k = k' then [] else settings k env)"
  using is_entry_key [OF assms(1)] is_entry_key [OF assms(2)] by (induction env) (auto simp: settings_Cons)

text \<open>An assignment replaces every entry of its key, the last one wins, and the other keys are left alone.\<close>

lemma setEnv_settings:
  assumes "CHR ''='' \<notin> set k" "\<forall>(k', v) \<in> set kvs. CHR ''='' \<notin> set k'"
  shows "settings k (setEnv env (map assignment kvs)) =
    (case map_of (rev kvs) k of None \<Rightarrow> settings k env | Some v \<Rightarrow> [assignment (k, v)])"
  using assms(2)
proof (induction kvs arbitrary: env)
  case (Cons kv kvs)
  obtain k' v where kv: "kv = (k', v)" by fastforce
  have k': "CHR ''='' \<notin> set k'" using Cons.prems kv by simp
  have "settings k (setEnv env (map assignment (kv # kvs))) =
      settings k (setEnv (filter (\<lambda>entry. \<not> is_entry k' entry) env @ [assignment (k', v)]) (map assignment kvs))"
    using k' by (simp add: kv del: assignment.simps)
  also have "\<dots> = (case map_of (rev kvs) k of
      None \<Rightarrow> (if k = k' then [assignment (k, v)] else settings k env) | Some v \<Rightarrow> [assignment (k, v)])"
    using Cons settings_removed [OF assms(1) k'] assms(1) k'
    by (auto simp: settings_Cons simp del: assignment.simps split: option.split)
  finally show ?case by (auto simp: kv map_add_def simp del: assignment.simps split: option.split)
qed simp

definition child_backend :: "TrivyConfig \<Rightarrow> string" where
  "child_backend config =
     (if HasPrefix (CacheBackend config) ''rediss://'' then ''redis://'' @ drop 9 (CacheBackend config) else CacheBackend config)"

definition child_tls :: "TrivyConfig \<Rightarrow> bool" where
  "child_tls config \<longleftrightarrow> HasPrefix (CacheBackend config) ''rediss://'' \<or> CacheRedisTLS config"

definition cache_settings :: "TrivyConfig \<Rightarrow> (string \<times> string) list" where
  "cache_settings config =
     (if CacheBackend config = [] then []
      else [(''TRIVY_CACHE_BACKEND'', child_backend config), (''TRIVY_CACHE_TTL'', Duration_String (CacheTTL config)),
            (''TRIVY_REDIS_TLS'', bool_text (child_tls config)), (''TRIVY_REDIS_CA'', CacheRedisCA config),
            (''TRIVY_REDIS_CERT'', CacheRedisCert config), (''TRIVY_REDIS_KEY'', CacheRedisKey config)])"

lemma cacheEnv_settings: "cacheEnv config env = setEnv env (map assignment (cache_settings config))"
proof (cases "CacheBackend config = []")
  case False
  then have "map assignment (cache_settings config) =
    [''TRIVY_CACHE_BACKEND='' @ child_backend config, ''TRIVY_CACHE_TTL='' @ Duration_String (CacheTTL config),
     ''TRIVY_REDIS_TLS='' @ bool_text (child_tls config), ''TRIVY_REDIS_CA='' @ CacheRedisCA config,
     ''TRIVY_REDIS_CERT='' @ CacheRedisCert config, ''TRIVY_REDIS_KEY='' @ CacheRedisKey config]"
    by (simp add: cache_settings_def)
  then show ?thesis using False
    by (simp add: cacheEnv_def child_backend_def child_tls_def TrimPrefix_def Let_def eval_nat_numeral del: setEnv.simps append.simps)
qed (simp add: cacheEnv_def cache_settings_def)

definition child_settings :: "TrivyConfig \<Rightarrow> string \<Rightarrow> string \<Rightarrow> (string \<times> string) list" where
  "child_settings config childTemp limit =
     cache_settings config @ [(''TMPDIR'', childTemp)] @ (if limit = [] then [] else [(''GOMEMLIMIT'', limit)])"

lemma setEnv_append: "setEnv env (a @ b) = setEnv (setEnv env a) b"
  by (induction a arbitrary: env) auto

lemma scan_env_settings:
  "scan_env config auth childTemp limit env =
     setEnv env (map assignment (child_settings config childTemp limit)) @ auth_env auth @
     flag (TrimSpace (GitHubToken config) \<noteq> []) [''GITHUB_TOKEN='' @ GitHubToken config]"
  by (simp add: scan_env_def child_settings_def cacheEnv_settings setEnv_append)

lemma no_equals: "(k, v) \<in> set (child_settings config childTemp limit) \<Longrightarrow> CHR ''='' \<notin> set k"
  by (auto simp: child_settings_def cache_settings_def split: if_splits)

lemma settings_other:
  "k \<in> {''TMPDIR'', ''GOMEMLIMIT''} \<or> HasPrefix k ''TRIVY_CACHE'' \<or> HasPrefix k ''TRIVY_REDIS'' \<Longrightarrow>
   settings k (auth_env auth @ flag b [''GITHUB_TOKEN='' @ t]) = []"
  by (auto simp: auth_env_def flag_def settings_Cons is_entry_def HasPrefix_iff split: RegistryAuth.split)

text \<open>What a scan's child sees of a key the adapter sets.\<close>

lemma scan_env_sets:
  assumes "map_of (rev (child_settings config childTemp limit)) k = Some v"
    and "k \<in> {''TMPDIR'', ''GOMEMLIMIT''} \<or> HasPrefix k ''TRIVY_CACHE'' \<or> HasPrefix k ''TRIVY_REDIS''"
  shows "settings k (scan_env config auth childTemp limit env) = [assignment (k, v)]"
proof -
  have "(k, v) \<in> set (child_settings config childTemp limit)" using map_of_SomeD [OF assms(1)] by simp
  from no_equals [OF this] have k: "CHR ''='' \<notin> set k" .
  have all: "\<forall>(k', v) \<in> set (child_settings config childTemp limit). CHR ''='' \<notin> set k'" by (auto dest: no_equals)
  show ?thesis
    unfolding scan_env_settings settings_append [of _ "setEnv _ _"] settings_other [OF assms(2)]
    using setEnv_settings [OF k all, of env] assms(1) by (simp del: assignment.simps)
qed

lemma prepareScanCmd_Inr:
  assumes "run_state (prepareScanCmd H config target out format childTemp) w = (Inr cmd, w')"
  shows "\<exists>name targetName env limit w''. Target_Name target = Inr targetName \<and> fst (run_state (LookPath H trivyCmd) w) = Inr name \<and>
    fst (run_state (childGoMemLimit H (ChildGoMemLimit config) []) w'') = limit \<and>
    cmd = \<lparr>cmd_Path = name, cmd_Args = name # scan_args config target out format @ [targetName],
           cmd_Env = Some (scan_env config (Target_Auth target) childTemp limit env), cmd_WaitDelay = second\<rparr>"
proof (cases "Target_Name target")
  case (Inr targetName)
  obtain r w1 where l: "run_state (LookPath H trivyCmd) w = (r, w1)" by fastforce
  obtain env w2 where e: "run_state (Environ H) w1 = (env, w2)" by fastforce
  obtain limit w3 where m: "run_state (childGoMemLimit H (ChildGoMemLimit config) []) w2 = (limit, w3)" by fastforce
  show ?thesis
  proof (cases r)
    case (Inr name)
    have "cmd = \<lparr>cmd_Path = name, cmd_Args = name # scan_args config target out format @ [targetName],
           cmd_Env = Some (scan_env config (Target_Auth target) childTemp limit env), cmd_WaitDelay = second\<rparr>"
      using assms by (simp add: prepareScanCmd_def \<open>Target_Name target = Inr targetName\<close> l Inr e m)
    then show ?thesis using \<open>Target_Name target = Inr targetName\<close> l m Inr by (metis fst_conv)
  qed (use assms in \<open>simp add: prepareScanCmd_def Inr l\<close>)
qed (use assms in \<open>simp add: prepareScanCmd_def\<close>)

section \<open>Examples\<close>

definition ex_config :: TrivyConfig where
  "ex_config = (c_Trivy ex_parsed)\<lparr>CacheBackend := ''rediss://u:secret@r''\<rparr>"

definition ex_target :: ScanTarget where
  "ex_target = \<lparr>t_ref = \<lparr>ir_Name = ''r/i'', ir_Auth = BasicAuth ''u'' ''p'', ir_NonSSL = False\<rparr>, t_kind = TargetImage,
     t_filePath = [], fromAccessory = False\<rparr>"

definition ex_host :: "(ref, 'y hworld_ext) host" where
  "ex_host = ref_host (\<lambda>_. ex_result) (\<lambda>_. Inl Canceled) []"

lemma ex_prepared: "\<exists>cmd w'. run_state (prepareScanCmd ex_host config (ex_target\<lparr>t_ref := r\<rparr>) out format tmp) w = (Inr cmd, w')"
  by (auto simp: prepareScanCmd_def ex_host_def ref_host_def Target_Name_def ex_target_def TargetImage_def TargetSBOM_def
      okE_def split: prod.split)

lemma ex_target_auth: "ex_target\<lparr>t_ref := (t_ref ex_target)\<lparr>ir_Auth := a\<rparr>\<rparr> = ex_target\<lparr>t_ref := \<lparr>ir_Name = ''r/i'', ir_Auth = a, ir_NonSSL = False\<rparr>\<rparr>"
  by (simp add: ex_target_def)

section \<open>Properties\<close>

text \<open>What the adapter leaves alone of the pod's environment.\<close>

lemma scan_env_keeps:
  assumes "map_of (rev (child_settings config childTemp limit)) k = None" and "CHR ''='' \<notin> set k"
    and "k \<in> {''TMPDIR'', ''GOMEMLIMIT''} \<or> HasPrefix k ''TRIVY_CACHE'' \<or> HasPrefix k ''TRIVY_REDIS''"
  shows "settings k (scan_env config auth childTemp limit env) = settings k env"
proof -
  have all: "\<forall>(k', v) \<in> set (child_settings config childTemp limit). CHR ''='' \<notin> set k'" by (auto dest: no_equals)
  show ?thesis
    unfolding scan_env_settings settings_append [of _ "setEnv _ _"] settings_other [OF assms(3)]
    using setEnv_settings [OF assms(2) all, of env] assms(1) by simp
qed

lemma memory_setting:
  assumes "run_state (childGoMemLimit H configured paths) w = (limit, w')"
  shows "configured = ''off'' \<Longrightarrow> limit = []" "validGoMemLimit configured \<Longrightarrow> limit = configured \<and> limit \<noteq> []"
proof -
  have "\<not> validGoMemLimit ''off''" "\<not> validGoMemLimit []"
    by (simp_all add: validGoMemLimit_def goMemLimit_match_def digit_of_def)
  then show "configured = ''off'' \<Longrightarrow> limit = []" "validGoMemLimit configured \<Longrightarrow> limit = configured \<and> limit \<noteq> []"
    using assms by (auto simp: childGoMemLimit_def split: if_splits)
qed

text \<open>
  C16. What the child of a scan finds in its environment, for the variables the adapter is
  responsible for and whatever the pod's environment holds. \<^verbatim>\<open>TMPDIR\<close> is the scratch directory, once.
  With a scan cache configured, each of Trivy's six cache variables is there once, with the adapter's
  setting; a TLS cache URL becomes a plain one with TLS on. Without one, these variables are the pod's.
  \<^verbatim>\<open>GOMEMLIMIT\<close> is there once with the limit that \<^verbatim>\<open>childGoMemLimit\<close> gives, the configured or the
  derived one, and is the pod's when it gives none, as for \<^verbatim>\<open>off\<close>.
\<close>

theorem child_environment:
  assumes "run_state (LookPath H trivyCmd) w = (Inr name, w1)" and "run_state (Environ H) w1 = (pod, w2)"
    and "run_state (childGoMemLimit H (ChildGoMemLimit config) []) w2 = (limit, w3)"
    and "run_state (prepareScanCmd H config target out format childTemp) w = (Inr cmd, w')"
  shows "\<exists>env. cmd_Env cmd = Some env \<and> settings ''TMPDIR'' env = [''TMPDIR='' @ childTemp] \<and>
    (if CacheBackend config \<noteq> [] then
       settings ''TRIVY_CACHE_BACKEND'' env =
         [''TRIVY_CACHE_BACKEND='' @ (if HasPrefix (CacheBackend config) ''rediss://''
            then ''redis://'' @ drop 9 (CacheBackend config) else CacheBackend config)] \<and>
       settings ''TRIVY_CACHE_TTL'' env = [''TRIVY_CACHE_TTL='' @ Duration_String (CacheTTL config)] \<and>
       settings ''TRIVY_REDIS_TLS'' env =
         [''TRIVY_REDIS_TLS='' @ (if HasPrefix (CacheBackend config) ''rediss://'' \<or> CacheRedisTLS config then ''true'' else ''false'')] \<and>
       settings ''TRIVY_REDIS_CA'' env = [''TRIVY_REDIS_CA='' @ CacheRedisCA config] \<and>
       settings ''TRIVY_REDIS_CERT'' env = [''TRIVY_REDIS_CERT='' @ CacheRedisCert config] \<and>
       settings ''TRIVY_REDIS_KEY'' env = [''TRIVY_REDIS_KEY='' @ CacheRedisKey config]
     else \<forall>k \<in> {''TRIVY_CACHE_BACKEND'', ''TRIVY_CACHE_TTL'', ''TRIVY_REDIS_TLS'', ''TRIVY_REDIS_CA'', ''TRIVY_REDIS_CERT'', ''TRIVY_REDIS_KEY''}.
       settings k env = settings k pod) \<and>
    settings ''GOMEMLIMIT'' env = (if limit = [] then settings ''GOMEMLIMIT'' pod else [''GOMEMLIMIT='' @ limit]) \<and>
    (ChildGoMemLimit config = ''off'' \<longrightarrow> settings ''GOMEMLIMIT'' env = settings ''GOMEMLIMIT'' pod) \<and>
    (validGoMemLimit (ChildGoMemLimit config) \<longrightarrow>
       settings ''GOMEMLIMIT'' env = [''GOMEMLIMIT='' @ ChildGoMemLimit config])"
proof -
  let ?env = "scan_env config (Target_Auth target) childTemp limit pod"
  have e: "cmd_Env cmd = Some ?env"
    using assms(4) by (auto simp: prepareScanCmd_def assms(1-3) split: sum.splits)
  note sets = scan_env_sets [of config childTemp limit _ _ "Target_Auth target" pod]
  note keeps = scan_env_keeps [of config childTemp limit _ "Target_Auth target" pod]
  have tmp: "settings ''TMPDIR'' ?env = [''TMPDIR='' @ childTemp]"
    using sets [of "''TMPDIR''" childTemp] by (simp add: child_settings_def cache_settings_def)
  have mem: "settings ''GOMEMLIMIT'' ?env = (if limit = [] then settings ''GOMEMLIMIT'' pod else [''GOMEMLIMIT='' @ limit])"
  proof (cases "limit = []")
    case True
    have "map_of (rev (child_settings config childTemp limit)) ''GOMEMLIMIT'' = None"
      using True by (simp add: child_settings_def cache_settings_def)
    from keeps [OF this] show ?thesis using True by simp
  next
    case False
    then have "map_of (rev (child_settings config childTemp limit)) ''GOMEMLIMIT'' = Some limit"
      by (simp add: child_settings_def)
    from sets [OF this] show ?thesis using False by simp
  qed
  have backend: "settings ''TRIVY_CACHE_BACKEND'' ?env = [''TRIVY_CACHE_BACKEND='' @ child_backend config]"
    and ttl: "settings ''TRIVY_CACHE_TTL'' ?env = [''TRIVY_CACHE_TTL='' @ Duration_String (CacheTTL config)]"
    and tls: "settings ''TRIVY_REDIS_TLS'' ?env = [''TRIVY_REDIS_TLS='' @ bool_text (child_tls config)]"
    and ca: "settings ''TRIVY_REDIS_CA'' ?env = [''TRIVY_REDIS_CA='' @ CacheRedisCA config]"
    and cert: "settings ''TRIVY_REDIS_CERT'' ?env = [''TRIVY_REDIS_CERT='' @ CacheRedisCert config]"
    and key: "settings ''TRIVY_REDIS_KEY'' ?env = [''TRIVY_REDIS_KEY='' @ CacheRedisKey config]"
    if "CacheBackend config \<noteq> []"
    using sets [of "''TRIVY_CACHE_BACKEND''" "child_backend config"] sets [of "''TRIVY_CACHE_TTL''" "Duration_String (CacheTTL config)"]
      sets [of "''TRIVY_REDIS_TLS''" "bool_text (child_tls config)"] sets [of "''TRIVY_REDIS_CA''" "CacheRedisCA config"]
      sets [of "''TRIVY_REDIS_CERT''" "CacheRedisCert config"] sets [of "''TRIVY_REDIS_KEY''" "CacheRedisKey config"] that
    by (simp_all add: child_settings_def cache_settings_def)
  have off: "\<forall>k \<in> {''TRIVY_CACHE_BACKEND'', ''TRIVY_CACHE_TTL'', ''TRIVY_REDIS_TLS'', ''TRIVY_REDIS_CA'', ''TRIVY_REDIS_CERT'', ''TRIVY_REDIS_KEY''}.
       settings k ?env = settings k pod" if "CacheBackend config = []"
  proof
    fix k
    assume k: "k \<in> {''TRIVY_CACHE_BACKEND'', ''TRIVY_CACHE_TTL'', ''TRIVY_REDIS_TLS'', ''TRIVY_REDIS_CA'', ''TRIVY_REDIS_CERT'', ''TRIVY_REDIS_KEY''}"
    then have f: "k \<noteq> ''TMPDIR''" "k \<noteq> ''GOMEMLIMIT''" "CHR ''='' \<notin> set k" "HasPrefix k ''TRIVY_CACHE'' \<or> HasPrefix k ''TRIVY_REDIS''"
      by (elim insertE emptyE; simp)+
    have "map_of (rev (child_settings config childTemp limit)) k = None"
      using f(1,2) that by (simp add: child_settings_def cache_settings_def)
    from keeps [OF this f(3) disjI2 [OF f(4)]] show "settings k ?env = settings k pod" .
  qed
  note memory = memory_setting [OF assms(3)]
  note cache = backend [unfolded child_backend_def] ttl tls [unfolded child_tls_def bool_text_def] ca cert key
  show ?thesis
  proof (intro exI [of _ ?env] conjI impI)
    show "cmd_Env cmd = Some ?env" by (rule e)
    show "settings ''TMPDIR'' ?env = [''TMPDIR='' @ childTemp]" by (rule tmp)
    show "settings ''GOMEMLIMIT'' ?env = (if limit = [] then settings ''GOMEMLIMIT'' pod else [''GOMEMLIMIT='' @ limit])" by (rule mem)
    show "settings ''GOMEMLIMIT'' ?env = settings ''GOMEMLIMIT'' pod" if "ChildGoMemLimit config = ''off''"
      unfolding mem if_P [OF memory(1) [OF that]] by (rule refl)
    show "settings ''GOMEMLIMIT'' ?env = [''GOMEMLIMIT='' @ ChildGoMemLimit config]" if "validGoMemLimit (ChildGoMemLimit config)"
      unfolding mem using memory(2) [OF that] by auto
  qed (cases "CacheBackend config = []"; simp only: if_True if_False simp_thms; intro conjI cache off; assumption)
qed

theorem child_environment_witness:
  "\<exists>cmd w' env. run_state (prepareScanCmd ex_host ex_config ex_target ''/r'' FormatJSON ''/t'') (ex_host_world []) = (Inr cmd, w') \<and>
     cmd_Env cmd = Some env \<and> settings ''TMPDIR'' env = [''TMPDIR=/t''] \<and>
     settings ''TRIVY_CACHE_BACKEND'' env = [''TRIVY_CACHE_BACKEND=redis://u:secret@r''] \<and>
     settings ''TRIVY_REDIS_TLS'' env = [''TRIVY_REDIS_TLS=true'']"
proof -
  let ?w = "ex_host_world []"
  obtain cmd w' where run: "run_state (prepareScanCmd ex_host ex_config ex_target ''/r'' FormatJSON ''/t'') ?w = (Inr cmd, w')"
    using ex_prepared [of ex_config "t_ref ex_target" "''/r''" FormatJSON "''/t''" ?w] by auto
  have look: "run_state (LookPath ex_host trivyCmd) ?w = (Inr ''/usr/bin/trivy'', ?w)" "run_state (Environ ex_host) ?w = ([], ?w)"
    by (simp_all add: ex_host_def ref_host_def trivyCmd_def)
  obtain limit w3 where mem: "run_state (childGoMemLimit ex_host (ChildGoMemLimit ex_config) []) ?w = (limit, w3)" by fastforce
  have "CacheBackend ex_config = ''rediss://u:secret@r''" by (simp add: ex_config_def)
  with child_environment [OF look mem run] show ?thesis using run by auto
qed

text \<open>
  C17. What a scan's child is called with does not depend on a credential: neither on the
  cache URL, nor on the registry's user, password or token, nor on the GitHub token.
\<close>

theorem arguments_hold_no_credentials:
  assumes "run_state (prepareScanCmd H config target out format childTemp) w = (Inr cmd, w1)"
    and "run_state (prepareScanCmd H (config\<lparr>CacheBackend := b, CacheRedisKey := k, GitHubToken := g\<rparr>)
          (target\<lparr>t_ref := (t_ref target)\<lparr>ir_Auth := auth\<rparr>\<rparr>) out format childTemp) w = (Inr cmd', w2)"
  shows "cmd_Args cmd' = cmd_Args cmd \<and> cmd_Path cmd' = cmd_Path cmd"
proof -
  have args: "scan_args (config\<lparr>CacheBackend := b, CacheRedisKey := k, GitHubToken := g\<rparr>)
      (target\<lparr>t_ref := (t_ref target)\<lparr>ir_Auth := auth\<rparr>\<rparr>) out format = scan_args config target out format"
    unfolding scan_args_def Target_NonSSL_def by simp
  have "Target_Name (target\<lparr>t_ref := (t_ref target)\<lparr>ir_Auth := auth\<rparr>\<rparr>) = Target_Name target"
    by (simp add: Target_Name_def)
  then show ?thesis
    using prepareScanCmd_Inr [OF assms(1)] prepareScanCmd_Inr [OF assms(2)] args by auto
qed

theorem arguments_hold_no_credentials_witness:
  "\<exists>cmd cmd' w1 w2.
     run_state (prepareScanCmd ex_host ex_config ex_target ''/r'' FormatJSON ''/t'') (ex_host_world []) = (Inr cmd, w1) \<and>
     run_state (prepareScanCmd ex_host (ex_config\<lparr>CacheBackend := ''fs'', CacheRedisKey := [], GitHubToken := ''g''\<rparr>)
       (ex_target\<lparr>t_ref := (t_ref ex_target)\<lparr>ir_Auth := NoAuth\<rparr>\<rparr>) ''/r'' FormatJSON ''/t'') (ex_host_world []) = (Inr cmd', w2) \<and>
     cmd_Args cmd' = cmd_Args cmd"
proof -
  obtain cmd w1 where run: "run_state (prepareScanCmd ex_host ex_config ex_target ''/r'' FormatJSON ''/t'') (ex_host_world []) = (Inr cmd, w1)"
    using ex_prepared [of ex_config "t_ref ex_target" "''/r''" FormatJSON "''/t''" "ex_host_world []"] by auto
  obtain cmd' w2 where run': "run_state (prepareScanCmd ex_host (ex_config\<lparr>CacheBackend := ''fs'', CacheRedisKey := [], GitHubToken := ''g''\<rparr>)
       (ex_target\<lparr>t_ref := (t_ref ex_target)\<lparr>ir_Auth := NoAuth\<rparr>\<rparr>) ''/r'' FormatJSON ''/t'') (ex_host_world []) = (Inr cmd', w2)"
    using ex_prepared unfolding ex_target_auth by blast
  show ?thesis using arguments_hold_no_credentials [OF run run'] run run' by blast
qed

section \<open>Redaction\<close>

lemma Contains_split:
  assumes "Contains (x @ c # y) p" and "c \<notin> set p"
  shows "Contains x p \<or> Contains y p"
proof -
  obtain a b where ab: "x @ c # y = a @ p @ b" using assms(1) by (auto simp: Contains_iff)
  show ?thesis
  proof (cases "length (a @ p) \<le> length x")
    case True
    then have "x = a @ p @ take (length x - length (a @ p)) b"
      using arg_cong [OF ab, of "take (length x)"] by simp
    then show ?thesis by (metis Contains_iff)
  next
    case False
    have "length x < length a"
    proof (rule ccontr)
      assume "\<not> length x < length a"
      then have l: "length x - length a < length p" using False by simp
      then have "(a @ p @ b) ! length x = p ! (length x - length a)"
        using \<open>\<not> length x < length a\<close> by (simp add: nth_append)
      then have "c \<in> set p" using ab l by (metis nth_append_length nth_mem)
      then show False using assms(2) by simp
    qed
    then have "y = drop (Suc (length x)) a @ p @ b"
      using arg_cong [OF ab, of "drop (Suc (length x))"] by simp
    then show ?thesis by (metis Contains_iff)
  qed
qed

lemma ReplaceAll_Cons:
  "old \<noteq> [] \<Longrightarrow> ReplaceAll (c # cs) old new =
     (if HasPrefix (c # cs) old then new @ ReplaceAll (drop (length old) (c # cs)) old new else c # ReplaceAll cs old new)"
  by (simp add: ReplaceAll.simps(2))

text \<open>A replacement in brackets: what is replaced is gone, unless it is part of the replacement.\<close>

lemma ReplaceAll_prefix:
  "p \<noteq> [] \<Longrightarrow> HasPrefix (ReplaceAll s p (CHR ''['' # r)) q \<Longrightarrow> CHR ''['' \<notin> set q \<Longrightarrow> HasPrefix s q"
proof (induction s arbitrary: q)
  case (Cons c cs)
  then show ?case by (cases q) (auto simp: ReplaceAll_Cons split: if_splits)
qed simp

lemma ReplaceAll_gone:
  assumes p: "p \<noteq> []" "CHR ''['' \<notin> set p" "CHR '']'' \<notin> set p" and mid: "\<not> Contains mid p"
  shows "\<not> Contains (ReplaceAll s p (CHR ''['' # mid @ '']'')) p"
proof (induction s rule: length_induct)
  case (1 s)
  show ?case
  proof (cases s)
    case Nil
    then show ?thesis using p(1) by (auto simp: Contains_iff)
  next
    case (Cons c cs)
    show ?thesis
    proof (cases "HasPrefix s p")
      case True
      let ?r = "ReplaceAll (drop (length p) s) p (CHR ''['' # mid @ '']'')"
      have "length (drop (length p) s) < length s" using p(1) Cons by simp
      then have r: "\<not> Contains ?r p" using 1 by blast
      have "ReplaceAll s p (CHR ''['' # mid @ '']'') = [] @ CHR ''['' # (mid @ CHR '']'' # ?r)"
        using True Cons by (simp add: ReplaceAll_Cons [OF p(1)])
      moreover have "\<not> Contains [] p" using p(1) by (auto simp: Contains_iff)
      ultimately show ?thesis
        using Contains_split [OF _ p(2), of "[]" "mid @ CHR '']'' # ?r"] Contains_split [OF _ p(3), of mid ?r] mid r by metis
    next
      case False
      let ?r = "ReplaceAll cs p (CHR ''['' # mid @ '']'')"
      have eq: "ReplaceAll s p (CHR ''['' # mid @ '']'') = c # ?r"
        using False Cons by (simp add: ReplaceAll_Cons [OF p(1)])
      have "\<not> Contains ?r p" using 1 Cons by simp
      moreover have "\<not> HasPrefix (c # ?r) p" using ReplaceAll_prefix [OF p(1), of s "mid @ '']''" p] False p(2) eq by metis
      ultimately show ?thesis unfolding eq by (simp add: Contains_def)
    qed
  qed
qed

text \<open>
  C18. No text that the adapter redacts before it logs or stores it holds the password of the cache
  URL, provided the password has no bracket and is not part of the word that replaces it.
\<close>

theorem password_redacted:
  assumes "url_Parse (CacheBackend config) = Some u" and "User u = Some user" and "password user = Some p"
    and "p \<noteq> []" and "CHR ''['' \<notin> set p" and "CHR '']'' \<notin> set p" and "\<not> Contains ''redacted'' p"
  shows "\<not> Contains (redactCacheCredentials config text) p"
proof -
  have "\<exists>t. redactCacheCredentials config text = ReplaceAll t p (CHR ''['' # ''redacted'' @ '']'')"
    using assms(1-4) by (simp add: redactCacheCredentials_def redacted_mark_def Let_def) blast
  then show ?thesis using ReplaceAll_gone [OF assms(4-7)] by auto
qed

theorem password_redacted_witness:
  "\<not> Contains (redactCacheCredentials ex_config ''dial redis://u:secret@r: secret refused'') ''secret''"
proof -
  obtain u user where "url_Parse (CacheBackend ex_config) = Some u" "User u = Some user" "password user = Some ''secret''"
  proof -
    have "map_option (\<lambda>u. map_option password (User u)) (url_Parse ''rediss://u:secret@r'') = Some (Some (Some ''secret''))"
      by code_simp
    then show ?thesis using that by (auto simp: ex_config_def)
  qed
  moreover have "\<not> Contains ''redacted'' ''secret''" by code_simp
  ultimately show ?thesis by (intro password_redacted) auto
qed

end
