(* ===== verification/Trivy_Output.thy ===== *)
theory Trivy_Output
  imports Trivy_Model Errors
begin

text \<open>
  What \<^verbatim>\<open>pkg/trivy/wrapper.go\<close> makes of the output of a child: the category of a failure, the part
  of the diagnostics that goes into the error, and the report.
\<close>

section \<open>The category of a failure\<close>

definition fatalMarker :: string where
  "fatalMarker = [CHR 0x09] @ ''FATAL'' @ [CHR 0x09]"

definition fatalDiagnostics :: "string \<Rightarrow> string" where
  "fatalDiagnostics output =
     (case LastIndex output fatalMarker of Some i \<Rightarrow> drop i output | None \<Rightarrow> output)"

definition has_any :: "string \<Rightarrow> string list \<Rightarrow> bool" where
  "has_any s subs = list_ex (Contains s) subs"

definition dbDownload :: "string \<Rightarrow> bool" where
  "dbDownload lower \<longleftrightarrow>
     Contains lower ''failed to download artifact'' \<or> Contains lower ''db error:'' \<or>
     Contains lower ''java db'' \<and> Contains lower ''error''"

definition rateLimited :: "string \<Rightarrow> bool" where
  "rateLimited lower =
     has_any lower [''toomanyrequests'', ''429 too many requests'', ''status 429'', ''status: 429'',
       ''status code 429'', ''status code: 429'']"

definition dbSchema :: "string \<Rightarrow> bool" where
  "dbSchema lower \<longleftrightarrow>
     Contains lower ''--skip-db-update cannot be specified'' \<or>
     Contains lower ''--skip-java-db-update'' \<and> Contains lower ''cannot be specified'' \<or>
     Contains lower (''doesn'' @ [CHR 0x27] @ ''t match'') \<and> Contains lower ''schema''"

definition cacheFault :: "string \<Rightarrow> bool" where
  "cacheFault lower =
     has_any lower [''redis cache'', ''layer cache missing'', ''cache may be in use'',
       ''unable to initialize fs cache'', ''unable to open cache db'', ''failed to create cache dir'',
       ''fanal/fanal.db'']"

definition classifyTrivyError :: "string \<Rightarrow> ScanErrorCategory" where
  "classifyTrivyError output =
     (let lower = ToLower (fatalDiagnostics output) in
      if rateLimited lower then ErrCategoryRateLimit
      else if dbSchema lower then ErrCategoryDBSchema
      else if cacheFault lower then ErrCategoryCache
      else if \<not> isAuthenticationErrorMessage lower \<and> dbDownload lower then ErrCategoryDBDownload
      else if Contains lower ''unsupported artifact type'' then ErrCategoryUnsupportedArtifact
      else if \<not> dbDownload lower \<and> isArtifactNotFoundMessage lower then ErrCategoryArtifactNotFound
      else if isAuthenticationErrorMessage lower then ErrCategoryAuth
      else if has_any lower [''connection refused'', ''no such host'', ''dial tcp''] then ErrCategoryNetwork
      else if has_any lower [''timeout'', ''deadline exceeded''] then ErrCategoryTimeout
      else if has_any lower [''failed to extract the archive'', ''unexpected eof''] then ErrCategoryUnscannable
      else ErrCategoryTrivyExec)"

section \<open>The tail of the diagnostics\<close>

text \<open>The length of the UTF-8 sequence a text starts with, or \<open>None\<close> at an invalid byte.\<close>

definition byte_in :: "nat \<Rightarrow> nat \<Rightarrow> char \<Rightarrow> bool" where
  "byte_in lo hi c \<longleftrightarrow> lo \<le> (of_char c :: nat) \<and> of_char c \<le> hi"

definition cont_bytes :: "nat \<Rightarrow> nat \<Rightarrow> nat \<Rightarrow> string \<Rightarrow> bool" where
  "cont_bytes n lo hi s \<longleftrightarrow>
     n \<le> length s \<and> 0 < n \<and> byte_in lo hi (hd s) \<and> list_all (byte_in 0x80 0xBF) (take (n - 1) (tl s))"

definition rune_length :: "string \<Rightarrow> nat option" where
  "rune_length s =
     (case s of
        [] \<Rightarrow> None
      | c # cs \<Rightarrow>
          if byte_in 0 0x7F c then Some 1
          else if byte_in 0xC2 0xDF c \<and> cont_bytes 1 0x80 0xBF cs then Some 2
          else if (byte_in 0xE0 0xE0 c \<and> cont_bytes 2 0xA0 0xBF cs)
               \<or> (byte_in 0xED 0xED c \<and> cont_bytes 2 0x80 0x9F cs)
               \<or> ((byte_in 0xE1 0xEC c \<or> byte_in 0xEE 0xEF c) \<and> cont_bytes 2 0x80 0xBF cs) then Some 3
          else if (byte_in 0xF0 0xF0 c \<and> cont_bytes 3 0x90 0xBF cs)
               \<or> (byte_in 0xF4 0xF4 c \<and> cont_bytes 3 0x80 0x8F cs)
               \<or> (byte_in 0xF1 0xF3 c \<and> cont_bytes 3 0x80 0xBF cs) then Some 4
          else None)"

lemma rune_length_pos: "rune_length s = Some n \<Longrightarrow> 0 < n \<and> n \<le> length s"
  by (auto simp: rune_length_def cont_bytes_def split: list.splits if_splits)

text \<open>\<^verbatim>\<open>strings.ToValidUTF8\<close> with an empty replacement.\<close>

function ToValidUTF8 :: "string \<Rightarrow> string" where
  "ToValidUTF8 s =
     (if s = [] then []
      else case rune_length s of
        Some n \<Rightarrow> take n s @ ToValidUTF8 (drop n s)
      | None \<Rightarrow> ToValidUTF8 (tl s))"
  by pat_completeness auto
termination
  by (relation "measure length") (auto dest: rune_length_pos)

declare ToValidUTF8.simps [simp del]

definition detailLimit :: nat where
  "detailLimit = 4 * 2 ^ 10"

definition tail :: "string \<Rightarrow> nat \<Rightarrow> string" where
  "tail text limit =
     (if length text \<le> limit then text else ToValidUTF8 (drop (length text - limit) text))"

lemma ToValidUTF8_length: "length (ToValidUTF8 s) \<le> length s"
proof (induction s rule: ToValidUTF8.induct)
  case (1 s)
  then show ?case
    by (cases "s = []") (auto simp: ToValidUTF8.simps [of s] ToValidUTF8.simps [of "[]"] split: option.split dest: rune_length_pos)
qed

lemma tail_length: "length (tail text limit) \<le> limit"
  using ToValidUTF8_length [of "drop (length text - limit) text"] by (cases "length text \<le> limit") (simp_all add: tail_def)

section \<open>The report\<close>

text \<open>What a \<^verbatim>\<open>Decoder\<close> makes of a file that may fail to be read.\<close>

definition decode_file :: "codec \<Rightarrow> goerr + string \<Rightarrow> goerr + json" where
  "decode_file C content = bindR content (\<lambda>text. case json_decode C text of Inl e \<Rightarrow> Inl (ErrText e) | Inr v \<Rightarrow> Inr v)"

definition parseJSONReport :: "codec \<Rightarrow> goerr + string \<Rightarrow> goerr + Report" where
  "parseJSONReport C content =
     (case bindR (decode_file C content) (\<lambda>v. case TrivyScanReport_of_json v of Inl e \<Rightarrow> Inl (ErrText e) | Inr r \<Rightarrow> Inr r) of
        Inl e \<Rightarrow> Inl (Wrap ''report json decode error'' e)
      | Inr scanReport \<Rightarrow>
          if tr_SchemaVersion scanReport \<noteq> SchemaVersion
          then Inl (ErrText (''unsupported schema '' @ dec_of_int (tr_SchemaVersion scanReport) @
                             '', expected '' @ dec_of_int SchemaVersion))
          else
            let vulnerabilities = concat (map (\<lambda>r. items (res_Vulnerabilities r)) (items (Results scanReport))) in
            Inr \<lparr>SBOM = JNull, Vulnerabilities = (if vulnerabilities = [] then None else Some vulnerabilities)\<rparr>)"

definition parseSBOM :: "codec \<Rightarrow> goerr + string \<Rightarrow> goerr + Report" where
  "parseSBOM C content =
     (case decode_file C content of
        Inl e \<Rightarrow> Inl (Wrap ''sbom json decode error'' e)
      | Inr doc \<Rightarrow> Inr \<lparr>SBOM = doc, Vulnerabilities = None\<rparr>)"

section \<open>Properties of the category\<close>

lemma no_later_marker:
  assumes "\<not> Contains (CHR 0x09 # r) fatalMarker"
  shows "LastIndex (pre @ fatalMarker @ r) fatalMarker = Some (length pre)"
proof (rule LastIndex_append)
  fix j assume j: "0 < j" "j \<le> length fatalMarker + length r"
  have short: "\<not> HasPrefix (drop j (fatalMarker @ r)) fatalMarker" if "j < 6"
  proof -
    have "j \<in> {1, 2, 3, 4, 5}" using that j(1) by auto
    then show ?thesis by (auto simp: fatalMarker_def HasPrefix_def)
  qed
  show "\<not> HasPrefix (drop j (fatalMarker @ r)) fatalMarker"
  proof (cases "j < 6")
    case False
    then obtain i where i: "j = 6 + i" using le_Suc_ex [of 6 j] by auto
    have "drop 6 (fatalMarker @ r) = CHR 0x09 # r" by (simp add: fatalMarker_def numeral_eq_Suc)
    then have "drop j (fatalMarker @ r) = drop i (CHR 0x09 # r)" unfolding i by (metis add.commute drop_drop)
    then show ?thesis using assms by (metis Contains_iff HasPrefix_iff append_take_drop_id)
  qed (rule short)
qed

text \<open>
  C15. The category of a failed scan is decided by the last fatal report alone, whatever was logged
  before it; and when that report is an authentication failure, the scan is retried only for a rate
  limit or a fault of the adapter's own cache, never as a failed database download.
\<close>

theorem fatal_report_decides:
  assumes "\<not> Contains (CHR 0x09 # message) fatalMarker"
  shows "classifyTrivyError (log @ fatalMarker @ message) = classifyTrivyError (fatalMarker @ message) \<and>
    (isAuthenticationErrorMessage (fatalMarker @ message) \<longrightarrow>
     retryable (classifyTrivyError (log @ fatalMarker @ message)) \<longrightarrow>
     classifyTrivyError (log @ fatalMarker @ message) \<in> {ErrCategoryRateLimit, ErrCategoryCache})"
proof -
  have f: "fatalDiagnostics (l @ fatalMarker @ message) = fatalMarker @ message" for l
    using no_later_marker [OF assms, of l] by (simp add: fatalDiagnostics_def)
  have c: "classifyTrivyError (l @ fatalMarker @ message) = classifyTrivyError (fatalMarker @ message)" for l
    using f [of l] f [of "[]"] by (simp add: classifyTrivyError_def)
  have "fatalDiagnostics (fatalMarker @ message) = fatalMarker @ message" using f [of "[]"] by simp
  then have "isAuthenticationErrorMessage (fatalMarker @ message) \<Longrightarrow> retryable (classifyTrivyError (fatalMarker @ message)) \<Longrightarrow>
      classifyTrivyError (fatalMarker @ message) \<in> {ErrCategoryRateLimit, ErrCategoryCache}"
    by (simp only: classifyTrivyError_def Let_def isAuth_lower if_True if_False simp_thms retryable_def)
      (auto split: if_splits)
  then show ?thesis using c [of log] by simp
qed

text \<open>A database mirror fails, the next one answers, and the registry refuses the scan.\<close>

theorem fatal_report_decides_witness:
  "classifyTrivyError (''failed to download artifact'' @ fatalMarker @ ''GET: 401 Unauthorized'') =
     classifyTrivyError (fatalMarker @ ''GET: 401 Unauthorized'') \<and>
   classifyTrivyError (fatalMarker @ ''GET: 401 Unauthorized'') = ErrCategoryAuth"
proof -
  have "\<not> Contains (CHR 0x09 # ''GET: 401 Unauthorized'') fatalMarker" by code_simp
  from fatal_report_decides [OF this, of "''failed to download artifact''"]
  have "classifyTrivyError (''failed to download artifact'' @ fatalMarker @ ''GET: 401 Unauthorized'') =
    classifyTrivyError (fatalMarker @ ''GET: 401 Unauthorized'')" by blast
  moreover have "classifyTrivyError (fatalMarker @ ''GET: 401 Unauthorized'') = ErrCategoryAuth" by code_simp
  ultimately show ?thesis by blast
qed

end
