(* ===== verification/Wrapper.thy ===== *)
theory Wrapper
  imports Trivy_Env Trivy_Output Ref_Codec
begin

text \<open>
  \<^verbatim>\<open>pkg/trivy/wrapper.go\<close>: running Trivy for a scan and for its version. The wrapper's fields are
  arguments; the cached \<^verbatim>\<open>PATH\<close> lookup is the record \<open>binaryCheck\<close>. Log lines are not modelled.
\<close>

section \<open>Availability\<close>

record binaryCheck =
  checked :: time
  check_err :: "goerr option"

definition binaryCheckTTL :: int where "binaryCheckTTL = 60 * second"

definition Available :: "('s, 'z) host \<Rightarrow> binaryCheck \<Rightarrow> (('s, 'z) world_scheme, goerr option \<times> binaryCheck) state" where
  "Available H binary =
     State_Monad.bind Now (\<lambda>now.
     if \<not> IsZero (checked binary) \<and> now - checked binary < binaryCheckTTL
     then State_Monad.return (check_err binary, binary)
     else
       State_Monad.bind (LookPath H trivyCmd) (\<lambda>r.
       let err = (case r of Inl e \<Rightarrow> Some e | Inr _ \<Rightarrow> None) in
       State_Monad.bind Now (\<lambda>now. State_Monad.return (err, \<lparr>checked = now, check_err = err\<rparr>))))"

section \<open>One scan\<close>

definition useSBOMAccessory :: "TrivyConfig \<Rightarrow> Format \<Rightarrow> bool" where
  "useSBOMAccessory config format =
     (if \<not> UseSBOMAccessory config \<or> format \<noteq> FormatJSON then False
      else list_all (\<lambda>s. TrimSpace s = ''vuln'') (Split (Scanners config) CHR '',''))"

definition childTempDir :: "('s, 'z) host \<Rightarrow> string \<Rightarrow> ('s, 'z, string) op" where
  "childTempDir H tempRoot =
     State_Monad.bind (os_MkdirAll H tempRoot) (\<lambda>r.
     case r of Inl e \<Rightarrow> failE e | Inr _ \<Rightarrow> os_MkdirTemp H tempRoot ''scan-'')"

definition parseReport :: "('s, 'z) host \<Rightarrow> codec \<Rightarrow> Format \<Rightarrow> string \<Rightarrow> ('s, 'z, Report) op" where
  "parseReport H C format reportFile =
     (if format = FormatJSON then
        State_Monad.bind (ReadFile H reportFile) (\<lambda>content. liftE (parseJSONReport C content))
      else if format = FormatSPDX \<or> format = FormatCycloneDX then
        State_Monad.bind (ReadFile H reportFile) (\<lambda>content. liftE (parseSBOM C content))
      else failE (ErrText (''unsupported format '' @ format)))"

definition exitCode :: "ProcessState option \<Rightarrow> int" where
  "exitCode state = (case state of None \<Rightarrow> - 1 | Some p \<Rightarrow> ExitCode p)"

text \<open>The error of a scan whose child failed.\<close>

definition scan_failure :: "TrivyConfig \<Rightarrow> ScanTarget \<Rightarrow> string \<Rightarrow> goerr \<Rightarrow> goerr" where
  "scan_failure config target diagnostics err =
     (let category = classifyTrivyError diagnostics in
      ScanError (retryable category) category (case Target_Name target of Inl _ \<Rightarrow> [] | Inr n \<Rightarrow> n)
        (tail (redactCacheCredentials config diagnostics) detailLimit)
        (Some (RedactedError err (redactCacheCredentials config (Error_text err)))))"

definition scan_child ::
    "('s, 'z) host \<Rightarrow> codec \<Rightarrow> TrivyConfig \<Rightarrow> time option \<Rightarrow> TrivyImageRef \<Rightarrow> Format \<Rightarrow> ScanTarget \<Rightarrow> string \<Rightarrow> string \<Rightarrow>
     ('s, 'z, Report) op" where
  "scan_child H C config deadline imageRef format target reportFile childTemp =
     State_Monad.bind (prepareScanCmd H config target reportFile format childTemp) (\<lambda>r.
     case r of
       Inl e \<Rightarrow> failE (Wrap ''preparing scan command'' e)
     | Inr cmd \<Rightarrow>
     State_Monad.bind (Run H (deadline_Err deadline) (t_kind target) cmd) (\<lambda>res.
     let diagnostics = (if TrimSpace (run_stderr res) = [] then run_stdout res else run_stderr res) in
     case run_err res of
       Some err \<Rightarrow> failE (scan_failure config target diagnostics err)
     | None \<Rightarrow>
     State_Monad.bind (parseReport H C format reportFile) (\<lambda>r.
     case r of
       Inl e \<Rightarrow> failE (ScanError False ErrCategoryReportParse (ir_Name imageRef) (Error_text e) (Some e))
     | Inr report \<Rightarrow> okE report)))"

text \<open>A deferred call runs after the rest and its result is dropped.\<close>

definition deferred :: "('w, 'a) state \<Rightarrow> ('w, 'b) state \<Rightarrow> ('w, 'a) state" where
  "deferred m cleanup = State_Monad.bind m (\<lambda>r. thenM cleanup (State_Monad.return r))"

definition wrapper_scan ::
    "('s, 'z) host \<Rightarrow> codec \<Rightarrow> TrivyConfig \<Rightarrow> string \<Rightarrow> time option \<Rightarrow> TrivyImageRef \<Rightarrow> Format \<Rightarrow> bool \<Rightarrow>
     (('s, 'z) world_scheme, bool \<times> (goerr + Report)) state" where
  "wrapper_scan H C config tempRoot deadline imageRef format useAccessory =
     State_Monad.bind (newTarget H imageRef config useAccessory) (\<lambda>t.
     case t of
       Inl e \<Rightarrow> State_Monad.return (False, Inl (Wrap ''creating scan target'' e))
     | Inr target \<Rightarrow>
     deferred
      (State_Monad.bind (TempFile H (ReportsDir config) ''scan_report_*.json'') (\<lambda>f.
       case f of
         Inl e \<Rightarrow> State_Monad.return (fromAccessory target, Inl (Wrap ''creating scan report tmp file'' e))
       | Inr reportFile \<Rightarrow>
       deferred
        (State_Monad.bind (childTempDir H tempRoot) (\<lambda>d.
         case d of
           Inl e \<Rightarrow> State_Monad.return (fromAccessory target, Inl (Wrap ''creating the child temp directory'' e))
         | Inr childTemp \<Rightarrow>
         deferred
          (State_Monad.bind (scan_child H C config deadline imageRef format target reportFile childTemp)
            (\<lambda>r. State_Monad.return (fromAccessory target, r)))
          (os_RemoveAll H childTemp)))
        (os_Remove H reportFile)))
      (Target_Clean H target))"

definition wrapper_Scan ::
    "('s, 'z) host \<Rightarrow> codec \<Rightarrow> TrivyConfig \<Rightarrow> string \<Rightarrow> TrivyImageRef \<Rightarrow> Format \<Rightarrow> ('s, 'z, Report) op" where
  "wrapper_Scan H C config tempRoot imageRef format =
     State_Monad.bind Now (\<lambda>now.
     let deadline = (if Timeout config > 0 then Some (now + Timeout config) else None) in
     State_Monad.bind (wrapper_scan H C config tempRoot deadline imageRef format (useSBOMAccessory config format))
       (\<lambda>(usedAccessory, r).
     case r of
       Inr report \<Rightarrow>
         if usedAccessory then thenM (accessory_event ''reuse_success'') (okE report) else okE report
     | Inl err \<Rightarrow>
         State_Monad.bind (gets (deadline_Err deadline)) (\<lambda>cerr.
         if usedAccessory \<and> cerr = None
         then thenM (accessory_event ''fallback'')
                (State_Monad.bind (wrapper_scan H C config tempRoot deadline imageRef format False) (\<lambda>(_, r). liftE r))
         else failE err)))"

section \<open>The version\<close>

definition decode_version :: "codec \<Rightarrow> string \<Rightarrow> string + VersionInfo" where
  "decode_version C text = bindR (json_parse C text) (VersionInfo_of_json C)"

text \<open>
  An error that wraps another with more text after it, as \<^verbatim>\<open>fmt.Errorf("...: %w: %v")\<close> does, has
  that text as its message and the other as its cause.
\<close>

definition GetVersion :: "('s, 'z) host \<Rightarrow> codec \<Rightarrow> TrivyConfig \<Rightarrow> ('s, 'z, VersionInfo) op" where
  "GetVersion H C config =
     State_Monad.bind Now (\<lambda>now.
     State_Monad.bind (gets recorder) (\<lambda>r.
     case Option.bind r (CachedVersion now) of
       Some (cached, generation) \<Rightarrow>
         (case decode_version C cached of
            Inl e \<Rightarrow> thenM (metric (DiscardVersion generation)) (failE (Wrap ''decoding the cached trivy version'' (ErrText e)))
          | Inr vi \<Rightarrow> okE vi)
     | None \<Rightarrow>
     State_Monad.bind (prepareVersionCmd H config) (\<lambda>r.
     case r of
       Inl e \<Rightarrow> failE (Wrap ''failed preparing trivy version command'' e)
     | Inr cmd \<Rightarrow>
     State_Monad.bind (Run H (\<lambda>_. None) ''version'' cmd) (\<lambda>res.
     case run_err res of
       Some err \<Rightarrow>
         failE (RedactedError err (''failed running trivy version command: '' @ Error_text err @ '': '' @ run_stderr res))
     | None \<Rightarrow>
         (case decode_version C (run_stdout res) of
            Inl e \<Rightarrow> failE (Wrap ''failed parsing trivy version output'' (ErrText e))
          | Inr vi \<Rightarrow> okE vi)))))"

section \<open>What a scan leaves behind\<close>

lemma wp_deferred: "wp P m (\<lambda>_. R) \<Longrightarrow> wp R c (\<lambda>_. S) \<Longrightarrow> wp P (deferred m c) (\<lambda>_. S)"
  unfolding deferred_def by (rule wp_bind, assumption) (auto intro: wp_thenM wp_return)

context host_laws begin

lemma keeps_at_read_limit: "keeps (at temps (stuck H) b h T) (read_limit H paths)"
  by (induction paths) (auto intro!: wp_intros keeps_calm [OF read_file] split: option.split)

lemma keeps_at_childGoMemLimit: "keeps (at temps (stuck H) b h T) (childGoMemLimit H configured paths)"
  unfolding childGoMemLimit_def cgroupGoMemLimit_def cgroupMemoryLimit_def
  by (intro wp_intros keeps_at_read_limit)

lemma keeps_at_scan_child: "keeps (at temps (stuck H) b h T) (scan_child H C config deadline imageRef format target reportFile childTemp)"
  unfolding scan_child_def prepareScanCmd_def parseReport_def Let_def
  by (intro wp_intros keeps_at_Run keeps_at_childGoMemLimit keeps_calm [OF look_path] keeps_calm [OF environ] keeps_calm [OF read_file])

lemma wp_childTempDir:
  "wp (at temps (stuck H) b h T) (childTempDir H tempRoot)
     (\<lambda>r w. case r of Inl e \<Rightarrow> at temps (stuck H) b h T w | Inr x \<Rightarrow> x \<notin> T \<and> at temps (stuck H) b h (insert x T) w)"
  unfolding childTempDir_def
  by (intro wp_bind_keeps [OF keeps_calm [OF mkdir_all]] wp_branches wp_makes [OF mkdir_temp] wp_failE) simp

lemma wp_Clean:
  "target_files t \<inter> T = {} \<Longrightarrow> wp (at temps (stuck H) b h (T \<union> target_files t)) (Target_Clean H t) (\<lambda>_. at temps (stuck H) b h T)"
proof (cases "t_kind t = TargetSBOM")
  case True
  assume "target_files t \<inter> T = {}"
  then have "T \<union> target_files t - {t_filePath t} = T" using True by (auto simp: target_files_def)
  then show ?thesis using wp_remove(1) [where T = "T \<union> target_files t" and x = "t_filePath t"] True
    by (simp add: Target_Clean_def)
qed (auto simp: Target_Clean_def target_files_def intro!: wp_okE)

text \<open>A step that makes a name, the rest, and the removal of the name.\<close>

lemma keeps_with_temp:
  assumes "wp (at temps (stuck H) b h T) m (\<lambda>r w. case r of Inl e \<Rightarrow> at temps (stuck H) b h T w | Inr x \<Rightarrow> x \<notin> T \<and> at temps (stuck H) b h (insert x T) w)"
    and "\<And>x. drops temps x (c x)" and "\<And>x w. isl (fst (run_state (c x) w)) \<Longrightarrow> x \<in> stuck H" and "\<And>x. keeps (at temps (stuck H) b h (insert x T)) (f x)"
  shows "keeps (at temps (stuck H) b h T) (State_Monad.bind m (\<lambda>r. case r of Inl e \<Rightarrow> State_Monad.return (g e) | Inr x \<Rightarrow> deferred (f x) (c x)))"
  unfolding keeps_def
proof (rule wp_bind_sum [OF assms(1)])
  fix x
  have "wp (at temps (stuck H) b h (insert x T)) (c x) (\<lambda>_. at temps (stuck H) b h T)" if "x \<notin> T"
    using wp_drops [OF assms(2,3), where T = "insert x T" and x = x] that by simp
  then show "wp (\<lambda>w. x \<notin> T \<and> at temps (stuck H) b h (insert x T) w)
      (case Inr x of Inl e \<Rightarrow> State_Monad.return (g e) | Inr x \<Rightarrow> deferred (f x) (c x)) (\<lambda>_. at temps (stuck H) b h T)"
    using assms(4) by (auto simp: keeps_def intro: wp_pre_conj wp_deferred)
qed (auto intro: wp_return)

lemma keeps_at_scan: "keeps (at temps (stuck H) b h T) (wrapper_scan H C config tempRoot deadline imageRef format useAcc)"
  unfolding wrapper_scan_def keeps_def
proof (rule wp_bind_sum [OF wp_newTarget], simp_all only: sum.case)
  fix target
  show "wp (\<lambda>w. target_files target \<inter> T = {} \<and> at temps (stuck H) b h (T \<union> target_files target) w)
     (deferred
       (State_Monad.bind (TempFile H (ReportsDir config) ''scan_report_*.json'')
         (\<lambda>f. case f of Inl e \<Rightarrow> State_Monad.return (fromAccessory target, Inl (Wrap ''creating scan report tmp file'' e))
           | Inr reportFile \<Rightarrow> deferred
               (State_Monad.bind (childTempDir H tempRoot) (\<lambda>d. case d of
                  Inl e \<Rightarrow> State_Monad.return (fromAccessory target, Inl (Wrap ''creating the child temp directory'' e))
                | Inr childTemp \<Rightarrow> deferred
                   (State_Monad.bind (scan_child H C config deadline imageRef format target reportFile childTemp)
                     (\<lambda>r. State_Monad.return (fromAccessory target, r)))
                   (os_RemoveAll H childTemp)))
               (os_Remove H reportFile)))
       (Target_Clean H target)) (\<lambda>_. at temps (stuck H) b h T)"
    by (intro wp_pre_conj wp_deferred [OF _ wp_Clean] keeps_wp keeps_with_temp wp_makes temp_file remove remove_all removal_fails
        wp_childTempDir keeps_bind keeps_at_scan_child keeps_return)
qed (rule wp_return)

lemma keeps_at_Scan: "keeps (at temps (stuck H) b h T) (wrapper_Scan H C config tempRoot imageRef format)"
  unfolding wrapper_Scan_def Let_def
  by (intro wp_intros keeps_at_Now keeps_at_scan keeps_at_event)

lemma Scan_offline: "hist (snd (run_state (wrapper_Scan H C config tempRoot imageRef format) w)) = hist w"
proof -
  obtain r w' where run: "run_state (wrapper_Scan H C config tempRoot imageRef format) w = (r, w')" by fastforce
  have "at temps (stuck H) False (hist w) (temps w) w" by (simp add: at_def)
  from keepsD [OF keeps_at_Scan this run] show ?thesis by (simp add: run at_def)
qed

end

text \<open>
  C19. However a scan ends, with a report, an error at any stage, or a second attempt on the image
  after the SBOM accessory failed, it removes every temporary file and directory it made: what is left
  of its own is only what the operating system failed to remove when it was asked to. It touches no
  other temporary file, does nothing to the Redis server, and writes no metric outside the catalog.
\<close>

theorem scan_leaves_nothing:
  assumes "host_laws H temps" and "run_state (wrapper_Scan H C config tempRoot imageRef format) w = (r, w')"
  shows "temps w \<subseteq> temps w' \<and>
    (\<forall>x \<in> temps w' - temps w. \<exists>v. isl (fst (run_state (os_Remove H x) v)) \<or> isl (fst (run_state (os_RemoveAll H x) v))) \<and>
    hist w' = hist w \<and> (rec_ok w \<longrightarrow> rec_ok w')"
proof -
  have "at temps (stuck H) (rec_ok w) (hist w) (temps w) w" by (simp add: at_def)
  from keepsD [OF host_laws.keeps_at_Scan [OF assms(1)] this assms(2)] show ?thesis by (auto simp: at_def stuck_def)
qed

definition ex_image :: Image where
  "ex_image = \<lparr>img_Manifest = Inr \<lparr>m_ArtifactType = [], m_Layers = []\<rparr>, img_Digest = Inr ''sha256:d'', img_Layers = Inr []\<rparr>"

text \<open>An image whose child ends without a report.\<close>

theorem scan_leaves_nothing_witness:
  "\<exists>r w'. run_state (wrapper_Scan (ref_host (\<lambda>_. ex_result) (\<lambda>_. Inr ex_image) []) ref_codec ex_config ''/tmp/a'' (t_ref ex_target) FormatJSON)
        (ex_host_world []) = (r, w') \<and> tmps w' = [] \<and> hist w' = []"
proof -
  let ?H = "ref_host (\<lambda>_. ex_result) (\<lambda>_. Inr ex_image) []"
  obtain r w' where run: "run_state (wrapper_Scan ?H ref_codec ex_config ''/tmp/a'' (t_ref ex_target) FormatJSON) (ex_host_world []) = (r, w')"
    by fastforce
  have removes: "\<not> isl (fst (run_state (os_Remove ?H x) v))" "\<not> isl (fst (run_state (os_RemoveAll ?H x) v))" for x v
    by (simp_all add: ref_host_def drop_temp_def)
  note ends = scan_leaves_nothing [OF refh.host_laws_axioms run]
  have "set (tmps w') - set (tmps (ex_host_world [])) = {}" using ends removes by blast
  then show ?thesis using run ends by (auto simp: ex_host_world_def)
qed

text \<open>The laws also hold of a host on which no single file can be removed.\<close>

interpretation refstuck: host_laws "ref_host child images referrers\<lparr>os_Remove := \<lambda>_. failE (Errno 1)\<rparr>" "\<lambda>w. set (tmps w)"
  for child images referrers
  by unfold_locales
    (auto simp: ref_host_def calm_def makes_def drops_def steady_def make_temp_def drop_temp_def new_name_new
      split: prod.splits)

text \<open>
  C20. While the version probe's output is fresh, the version is that output decoded and no command
  is run; output that cannot be decoded fails the call and is dropped, so that a later call runs the
  command again.
\<close>

theorem cached_version_used:
  assumes "recorder w = Some r" and "CachedVersion (clock w) r = Some (out, generation)"
  shows "case run_state (GetVersion H C config) w of (res, w') \<Rightarrow>
    (case decode_version C out of
       Inr vi \<Rightarrow> res = Inr vi \<and> w' = w
     | Inl e \<Rightarrow> (\<exists>err. res = Inl err) \<and>
         (\<exists>r'. w' = w\<lparr>recorder := Some r'\<rparr> \<and> registry r' = registry r \<and> (\<forall>now. CachedVersion now r' = None)))"
proof (cases "decode_version C out")
  case (Inl e)
  have "run_state (GetVersion H C config) w =
      (Inl (Wrap ''decoding the cached trivy version'' (ErrText e)), w\<lparr>recorder := Some (DiscardVersion generation r)\<rparr>)"
    using assms Inl by (simp add: GetVersion_def Now_def metric_def)
  moreover have "\<forall>now. CachedVersion now (DiscardVersion generation r) = None"
    using DiscardVersion_drops [OF assms(2)] by blast
  moreover have "registry (DiscardVersion generation r) = registry r" by (simp add: DiscardVersion_def)
  ultimately show ?thesis using Inl by (auto intro!: exI [of _ "DiscardVersion generation r"])
next
  case (Inr vi)
  have "run_state (GetVersion H C config) w = (Inr vi, w)"
    using assms Inr by (simp add: GetVersion_def Now_def)
  then show ?thesis using Inr by simp
qed

text \<open>A probe stored text that is not JSON.\<close>

theorem cached_version_used_witness:
  "\<exists>r err r'. CachedVersion (10 ^ 9) r = Some (''?'', 0) \<and>
     run_state (GetVersion ex_host (ref_codec\<lparr>json_parse := \<lambda>_. Inl ''invalid character''\<rparr>) ex_config)
       ((ex_host_world [])\<lparr>recorder := Some r\<rparr>) = (Inl err, (ex_host_world [])\<lparr>recorder := Some r'\<rparr>)"
proof -
  define r where "r = empty_recorder\<lparr>ver_output := ''?'', ver_at := 10 ^ 9, ver_ttl := 60, ver_generation := 0\<rparr>"
  let ?C = "ref_codec\<lparr>json_parse := \<lambda>_. Inl ''invalid character''\<rparr>"
  let ?w = "(ex_host_world [])\<lparr>recorder := Some r\<rparr>"
  have c: "CachedVersion (clock ?w) r = Some (''?'', 0)" by (simp add: r_def CachedVersion_def ex_host_world_def)
  have e: "decode_version ?C ''?'' = Inl ''invalid character''" by (simp add: decode_version_def)
  obtain res w' where run: "run_state (GetVersion ex_host ?C ex_config) ?w = (res, w')" by fastforce
  have "recorder ?w = Some r" by simp
  from cached_version_used [OF this c, where H = ex_host and C = ?C and config = ex_config]
  show ?thesis using run e c by (auto simp: ex_host_world_def)
qed

end
