(* ===== verification/Enqueuer.thy ===== *)
theory Enqueuer
  imports Controller
begin

text \<open>
  \<^verbatim>\<open>pkg/queue/enqueuer.go\<close>: a scan request becomes one job for every report Harbor may ask for,
  each stored together with its delivery.
\<close>

definition scanArtifactJobName :: string where
  "scanArtifactJobName = ''scan_artifact''"

record Job =
  EnqueuedAt :: time
  q_Name :: string
  q_Key :: ScanJobKey
  q_ScanRequest :: "ScanRequest option"

definition Job_ID :: "Job \<Rightarrow> string" where
  "Job_ID j = ScanJobKey_String (q_Key j)"

definition redisJobStream :: "string \<Rightarrow> string" where
  "redisJobStream namespace = namespace @ '':stream:v1:'' @ scanArtifactJobName"

section \<open>JSON\<close>

definition Job_to_json :: "codec \<Rightarrow> Job \<Rightarrow> string + json" where
  "Job_to_json C j =
     bindR (if EnqueuedAt j = 0 then Inr [] else time_text C (EnqueuedAt j)) (\<lambda>t.
     Inr (JObj (omit (EnqueuedAt j = 0) ''enqueued_at'' (JStr t)
           @ [(''Name'', JStr (q_Name j)),
              (''Key'', ScanJobKey_to_json (q_Key j)),
              (''Args'', JObj (omit (q_ScanRequest j = None) ''ScanRequest''
                          (enc_ptr ScanRequest_to_json (q_ScanRequest j))))])))"

definition Args_of_json :: "json \<Rightarrow> string + ScanRequest option" where
  "Args_of_json v =
     (case v of
        JObj o1 \<Rightarrow> jfield o1 ''ScanRequest'' None (dec_ptr ScanRequest_of_json)
      | _ \<Rightarrow> Inl ''json: cannot unmarshal value into Go struct Args'')"

definition Job_of_json :: "codec \<Rightarrow> json \<Rightarrow> string + Job" where
  "Job_of_json C v =
     (case v of
        JObj o1 \<Rightarrow>
          bindR (jfield o1 ''enqueued_at'' 0 (dec_time C)) (\<lambda>t.
          bindR (jfield o1 ''Name'' [] dec_str) (\<lambda>n.
          bindR (jfield o1 ''Key'' zero_ScanJobKey ScanJobKey_of_json) (\<lambda>k.
          bindR (jfield o1 ''Args'' None Args_of_json) (\<lambda>a.
          Inr \<lparr>EnqueuedAt = t, q_Name = n, q_Key = k, q_ScanRequest = a\<rparr>))))
      | JNull \<Rightarrow> Inr \<lparr>EnqueuedAt = 0, q_Name = [], q_Key = zero_ScanJobKey, q_ScanRequest = None\<rparr>
      | _ \<Rightarrow> Inl ''json: cannot unmarshal value into Go struct Job'')"

lemma ScanRequest_not_null [simp]: "ScanRequest_to_json r \<noteq> JNull"
  by (simp add: ScanRequest_to_json_def)

context codec_laws begin

lemma Job_json_round:
  assumes enc: "Job_to_json C j = Inr v" and wf: "wf_key (q_Key j)" "pred_option wf_request (q_ScanRequest j)"
  shows "Job_of_json C v = Inr j"
proof -
  obtain t where t: "(if EnqueuedAt j = 0 then Inr [] else time_text C (EnqueuedAt j)) = Inr t"
    using enc by (auto simp: Job_to_json_def bindR_Inr_iff)
  let ?args = "omit (q_ScanRequest j = None) ''ScanRequest'' (enc_ptr ScanRequest_to_json (q_ScanRequest j))"
  obtain o1 where o1: "v = JObj o1"
    using enc by (auto simp: Job_to_json_def bindR_Inr_iff)
  have g: "jget o1 ''enqueued_at'' = (if EnqueuedAt j \<noteq> 0 then Some (JStr t) else None)"
    "jget o1 ''Name'' = Some (JStr (q_Name j))"
    "jget o1 ''Key'' = Some (ScanJobKey_to_json (q_Key j))"
    "jget o1 ''Args'' = Some (JObj ?args)"
    using enc t o1 by (auto simp: Job_to_json_def json_simps split: if_splits)
  have "jfield o1 ''enqueued_at'' 0 (dec_time C) = Inr (EnqueuedAt j)"
    using t by (cases "EnqueuedAt j = 0") (simp_all add: jfield_def g(1) time_round)
  moreover have "jfield o1 ''Key'' zero_ScanJobKey ScanJobKey_of_json = Inr (q_Key j)"
    using wf(1) by (intro jfield_obj [OF g(3)]) (simp_all add: ScanJobKey_json_round)
  moreover have "jfield ?args ''ScanRequest'' None (dec_ptr ScanRequest_of_json) = Inr (q_ScanRequest j)"
    by (rule jfield_ptr_omit [where enc = ScanRequest_to_json])
      (use wf(2) in \<open>auto simp: jget_omit ScanRequest_round\<close>)
  then have "jfield o1 ''Args'' None Args_of_json = Inr (q_ScanRequest j)"
    by (intro jfield_obj [OF g(4)]) (simp_all add: Args_of_json_def)
  ultimately show ?thesis
    by (simp add: o1 Job_of_json_def jfield_str [OF g(2)])
qed

end

section \<open>Enqueueing\<close>

text \<open>A capability's media types: a vulnerability scan has none, whatever its parameters say.\<close>

definition capability_media_types :: "Capability \<Rightarrow> MediaType list" where
  "capability_media_types c =
     (let params = (if cap_Type c = CapabilityTypeVulnerability
                    then Some \<lparr>SBOMMediaTypes = Some [[]]\<rparr> else Parameters c)
      in case params of None \<Rightarrow> [] | Some p \<Rightarrow> items (SBOMMediaTypes p))"

text \<open>The keys of the jobs of a request, in the order of the nested loops.\<close>

definition job_keys :: "string \<Rightarrow> ScanRequest \<Rightarrow> ScanJobKey list" where
  "job_keys jobID request =
     concat (map (\<lambda>c. concat (map (\<lambda>mediaType. map (\<lambda>m'.
       \<lparr>key_ID = jobID, key_MIMEType = m', key_MediaType = mediaType\<rparr>) (items (ProducesMIMETypes c)))
       (capability_media_types c))) (items (req_Capabilities request)))"

definition enqueue_one ::
    "('s, 'z) Store \<Rightarrow> codec \<Rightarrow> string \<Rightarrow> Job \<Rightarrow> ScanJob \<Rightarrow> ('s, 'z, unit) op" where
  "enqueue_one st C namespace j scanJob =
     (case Job_to_json C j of
        Inl e \<Rightarrow> failE (ErrText (''marshaling scan request: '' @ e))
      | Inr b \<Rightarrow>
          State_Monad.bind (Enqueue st scanJob (redisJobStream namespace) (json_text C b)) (\<lambda>r.
          case r of
            Inl e \<Rightarrow> failE (ErrText (''enqueuing scan artifact job: '' @ Error_text e))
          | Inr _ \<Rightarrow>
              (let (capability, format) = JobLabels (q_Key j) in
               thenM (metric (Inc ''jobs_enqueued_total'' [capability, format])) (okE ()))))"

fun enqueue_keys ::
    "('s, 'z) Store \<Rightarrow> codec \<Rightarrow> string \<Rightarrow> ScanRequest \<Rightarrow> ScanJobKey list \<Rightarrow> ('s, 'z, unit) op" where
  "enqueue_keys st C namespace request [] = okE ()"
| "enqueue_keys st C namespace request (jobKey # keys) =
     State_Monad.bind Now (\<lambda>now.
     State_Monad.bind
       (enqueue_one st C namespace
          \<lparr>EnqueuedAt = now, q_Name = scanArtifactJobName, q_Key = jobKey, q_ScanRequest = Some request\<rparr>
          (zero_ScanJob\<lparr>job_Key := jobKey, job_Status := Queued\<rparr>)) (\<lambda>r.
     case r of
       Inl e \<Rightarrow> failE (ErrText (''enqueuing scan job: '' @ Error_text e))
     | Inr _ \<Rightarrow> enqueue_keys st C namespace request keys))"

definition enqueuer_Enqueue ::
    "('s, 'z) Store \<Rightarrow> codec \<Rightarrow> string \<Rightarrow> ScanRequest \<Rightarrow> ('s, 'z, string) op" where
  "enqueuer_Enqueue st C namespace request =
     (if items (req_Capabilities request) = [] then failE (ErrText ''no capabilities provided'')
      else State_Monad.bind makeIdentifier (\<lambda>jobID.
        bindE (enqueue_keys st C namespace request (job_keys jobID request)) (\<lambda>_. okE jobID)))"

section \<open>Lemmas\<close>

lemma makeIdentifier_hex: "run_state makeIdentifier w = (i, w') \<Longrightarrow> \<forall>c \<in> set i. is_hex c"
  by (auto simp: makeIdentifier_def hex_chars split: list.splits if_splits)

lemma is_hex_no_colon: "\<forall>c \<in> set i. is_hex c \<Longrightarrow> CHR '':'' \<notin> set i"
proof -
  have "\<not> is_hex (CHR '':'')" by (simp add: is_hex_def)
  then show "\<forall>c \<in> set i. is_hex c \<Longrightarrow> ?thesis" by blast
qed

lemma makeIdentifier_length: "run_state makeIdentifier w = (i, w') \<Longrightarrow> length i = 24 \<or> i = []"
  by (auto simp: makeIdentifier_def split: list.splits if_splits)

lemma job_keys_ID: "k \<in> set (job_keys jobID req) \<Longrightarrow> key_ID k = jobID"
  by (auto simp: job_keys_def)

text \<open>
  \<open>E key\<close>: the job of the key has been stored with its delivery. What \<^verbatim>\<open>Enqueue\<close> makes true
  stays true.
\<close>

locale enqueue_store =
  fixes st :: "('s, 'z) Store" and E :: "ScanJobKey \<Rightarrow> ('s, 'z) world_scheme \<Rightarrow> bool"
  assumes enqueued: "wp (\<lambda>_. True) (Enqueue st j stream payload) (\<lambda>r w. r = Inr () \<longrightarrow> E (job_Key j) w)"
    and kept: "keeps (E k) (Enqueue st j stream payload)"
    and kept_metric: "keeps (E k) (metric f)"
begin

lemma kept_Now: "keeps (E k) Now"
  by (rule keepsI) (simp add: Now_def)

lemma keeps_enqueue_one: "keeps (E k) (enqueue_one st C ns j sj)"
  unfolding enqueue_one_def Let_def by (intro wp_intros kept kept_metric)

lemma keeps_enqueue_keys: "keeps (E k) (enqueue_keys st C ns req ks')"
  by (induction ks') (auto intro!: wp_intros kept_Now keeps_enqueue_one)

lemma enqueue_one_enqueued: "wp (\<lambda>_. True) (enqueue_one st C ns j sj) (\<lambda>r w. r = Inr () \<longrightarrow> E (job_Key sj) w)"
proof (rule wpI, rule impI)
  fix w r w'
  assume run: "run_state (enqueue_one st C ns j sj) w = (r, w')" and r: "r = Inr ()"
  obtain b where b: "Job_to_json C j = Inr b" using run r by (cases "Job_to_json C j") (auto simp: enqueue_one_def)
  obtain r1 w1 where 1: "run_state (Enqueue st sj (redisJobStream ns) (json_text C b)) w = (r1, w1)" by fastforce
  obtain cap fmt where l: "JobLabels (q_Key j) = (cap, fmt)" by fastforce
  have r1: "r1 = Inr ()" using run r b 1 by (cases r1) (auto simp: enqueue_one_def)
  have "E (job_Key sj) w1" using wpD [OF enqueued TrueI 1] r1 by simp
  moreover have "run_state (metric (Inc ''jobs_enqueued_total'' [cap, fmt])) w1 = ((), w')"
    using run b 1 r1 l by (auto simp: enqueue_one_def split: prod.splits)
  ultimately show "E (job_Key sj) w'" using keepsD [OF kept_metric] by blast
qed

lemma enqueue_keys_enqueued:
  "wp (\<lambda>_. True) (enqueue_keys st C ns req ks') (\<lambda>r w. r = Inr () \<longrightarrow> (\<forall>k \<in> set ks'. E k w))"
proof (induction ks')
  case (Cons k ks')
  show ?case
  proof (rule wpI, rule impI)
    fix w r w'
    assume run: "run_state (enqueue_keys st C ns req (k # ks')) w = (r, w')" and r: "r = Inr ()"
    let ?j = "\<lparr>EnqueuedAt = clock w, q_Name = scanArtifactJobName, q_Key = k, q_ScanRequest = Some req\<rparr>"
    let ?sj = "zero_ScanJob\<lparr>job_Key := k, job_Status := Queued\<rparr>"
    obtain r1 w1 where 1: "run_state (enqueue_one st C ns ?j ?sj) w = (r1, w1)" by fastforce
    have r1: "r1 = Inr ()" using run r 1 by (cases r1) (auto simp: Now_def)
    then have "E k w1" using wpD [OF enqueue_one_enqueued TrueI 1] by simp
    moreover have rest: "run_state (enqueue_keys st C ns req ks') w1 = (Inr (), w')"
      using run r 1 r1 by (simp add: Now_def)
    ultimately have "E k w'" using keepsD [OF keeps_enqueue_keys] by blast
    then show "\<forall>k \<in> set (k # ks'). E k w'" using wpD [OF Cons TrueI rest] by simp
  qed
qed (simp add: wp_def)

lemma Enqueue_enqueued:
  "wp (\<lambda>_. True) (enqueuer_Enqueue st C ns req) (\<lambda>r w. \<forall>i. r = Inr i \<longrightarrow> (\<forall>k \<in> set (job_keys i req). E k w))"
proof (rule wpI, intro allI impI)
  fix w r w' i
  assume run: "run_state (enqueuer_Enqueue st C ns req) w = (r, w')" and r: "r = Inr i"
  obtain i1 w1 where 1: "run_state makeIdentifier w = (i1, w1)" by fastforce
  have "i = i1" "run_state (enqueue_keys st C ns req (job_keys i req)) w1 = (Inr (), w')"
    using run r 1 by (auto simp: enqueuer_Enqueue_def split: if_splits prod.splits sum.splits)
  then show "\<forall>k \<in> set (job_keys i req). E k w'" using wpD [OF enqueue_keys_enqueued TrueI] by simp
qed

end

text \<open>For the Redis store: this process made the change after which the job is there.\<close>

definition job_written :: "('s \<Rightarrow> view) \<Rightarrow> store_config \<Rightarrow> ScanJobKey \<Rightarrow> ('s, 'z) world_scheme \<Rightarrow> bool" where
  "job_written V cfg k w \<longleftrightarrow> (\<exists>(s, s') \<in> set (hist w). ks (V s') (keyForScanJob cfg k) \<noteq> None)"

lemma hist_grows: "run_state (call m) w = (r, w') \<Longrightarrow> set (hist w) \<subseteq> set (hist w')"
proof -
  have "set (hist w1) \<subseteq> set (hist w2)" if "run_state (serve d m) w1 = (r, w2)" for d w1 w2
    using that by (cases d) (auto simp: serve_def split: prod.splits)
  then show "run_state (call m) w = (r, w') \<Longrightarrow> ?thesis"
    by (cases "turns w") (auto simp: call_def take_turn_def, fastforce+)
qed

lemma job_written_call [wp_intros]: "keeps (job_written V cfg k) (call m)"
  by (rule keepsI) (use hist_grows in \<open>fastforce simp: job_written_def\<close>)

lemma job_written_metric [wp_intros]: "keeps (job_written V cfg k) (metric f)"
  unfolding metric_def by (rule keeps_modify) (simp add: job_written_def)

lemma job_written_Now [wp_intros]: "keeps (job_written V cfg k) Now"
  by (rule keepsI) (simp add: Now_def)

context redis_server begin

lemma wp_Enqueue_written:
  "wp (\<lambda>_. True) (store_Enqueue R C cfg j stream payload) (\<lambda>r w. r = Inr () \<longrightarrow> job_written V cfg (job_Key j) w)"
proof (rule wpI, rule impI)
  fix w r w'
  assume run: "run_state (store_Enqueue R C cfg j stream payload) w = (r, w')" and r: "r = Inr ()"
  obtain z n where m: "marshalSized C (ScanJob_to_json C j) = Inr (z, n)"
    using run r by (cases "marshalSized C (ScanJob_to_json C j)")
      (auto simp: store_Enqueue_def operation_def Let_def Now_def metric_def)
  obtain x w1 where c: "run_state (call (enqueueScript R (keyForScanJob cfg (job_Key j)) stream z payload)) w = (Inr x, w1)"
    and h: "hist w' = hist w1"
    using run r m by (auto simp: store_Enqueue_def operation_def Let_def Now_def metric_def store_written_def
        split: prod.splits sum.splits if_splits)
  obtain s s' where s: "(s, s') \<in> set (hist w1)" "enqueue_done (keyForScanJob cfg (job_Key j)) stream z payload (V s) x (V s')"
    using wpD [OF call_hist [OF succeeds_enqueueScript] TrueI c] by auto
  then have "ks (V s') (keyForScanJob cfg (job_Key j)) \<noteq> None"
    by (auto simp: enqueue_done_def split: if_splits)
  then show "job_written V cfg (job_Key j) w'" using s(1) h by (auto simp: job_written_def)
qed

interpretation enq: enqueue_store "redis_store R C cfg" "job_written V cfg" for C cfg
proof (unfold_locales, goal_cases)
  case (1 j stream payload)
  then show ?case using wp_Enqueue_written [of C cfg j stream payload] by (simp add: redis_store_def)
next
  case (2 k j stream payload)
  show ?case
    unfolding redis_store_def store_Enqueue_def store_written_def
    by (auto intro!: wp_intros keeps_operation)
next
  case (3 k f)
  show ?case by (rule job_written_metric)
qed

lemmas redis_Enqueue_enqueued = enq.Enqueue_enqueued

end

end
