(* ===== verification/Worker.thy ===== *)
theory Worker
  imports Enqueuer
begin

text \<open>
  \<^verbatim>\<open>pkg/queue/stream.go\<close> and \<^verbatim>\<open>quarantine.go\<close>: the worker that takes deliveries from the
  stream, owns each under a lease, executes its job and retires it.

  The heartbeat goroutine runs beside \<open>process\<close>: what it does to the server and to the context
  is part of the turns of \<open>World\<close>; one of its ticks is \<open>heartbeat_tick\<close>.
\<close>

definition workerGroup :: string where
  "workerGroup = ''scanner''"

text \<open>The fields that do not change, and (in the world) those that do.\<close>

record worker =
  wk_stream :: string
  wk_consumer :: string
  leaseDuration :: int

record 's wworld = "'s world" +
  heartbeat :: int
  groupRecreations :: int
  groupRecreateErr :: string
  collectionFailing :: bool

text \<open>\<^verbatim>\<open>NewWorker\<close>: a minute of lease, a random consumer name.\<close>

definition NewWorker :: "string \<Rightarrow> (('s, 'z) world_scheme, worker) state" where
  "NewWorker namespace =
     State_Monad.bind makeIdentifier (\<lambda>c.
     State_Monad.return \<lparr>wk_stream = redisJobStream namespace, wk_consumer = c, leaseDuration = 60 * 10 ^ 9\<rparr>)"

section \<open>Scripts\<close>

definition renewLease :: "'s redis \<Rightarrow> string \<Rightarrow> string \<Rightarrow> string \<Rightarrow> int \<Rightarrow> string \<Rightarrow> string \<Rightarrow> string \<Rightarrow> ('s, int) cmd" where
  "renewLease R lockKey stream token ms grp consumer i =
     bindE (GET R lockKey) (\<lambda>owner. if owner \<noteq> Some token then okE 0 else
     bindE (PEXPIRE R lockKey ms) (\<lambda>_.
     bindE (XCLAIM R stream grp consumer i) (\<lambda>_. okE 1)))"

definition releaseLease :: "'s redis \<Rightarrow> string \<Rightarrow> string \<Rightarrow> ('s, int) cmd" where
  "releaseLease R lockKey token =
     bindE (GET R lockKey) (\<lambda>owner. if owner = Some token then DEL R lockKey else okE 0)"

fun clean_each :: "'s redis \<Rightarrow> string \<Rightarrow> string \<Rightarrow> string \<Rightarrow> int \<Rightarrow> (string \<times> int \<times> int) list \<Rightarrow> ('s, int) cmd" where
  "clean_each R stream grp self maxidle [] = okE 1"
| "clean_each R stream grp self maxidle ((c, pending, idle) # cs) =
     (if pending = 0 \<and> (c = self \<or> idle > maxidle)
      then bindE (DELCONSUMER R stream grp c) (\<lambda>_. clean_each R stream grp self maxidle cs)
      else clean_each R stream grp self maxidle cs)"

definition cleanConsumers :: "'s redis \<Rightarrow> string \<Rightarrow> string \<Rightarrow> string \<Rightarrow> int \<Rightarrow> ('s, int) cmd" where
  "cleanConsumers R stream grp self maxidle =
     bindE (XINFO_CONSUMERS R stream grp) (clean_each R stream grp self maxidle)"

definition quarantineDelivery :: "'s redis \<Rightarrow> string \<Rightarrow> string \<Rightarrow> string \<Rightarrow> string \<Rightarrow> string \<Rightarrow> ('s, int) cmd" where
  "quarantineDelivery R stream qkey grp i payload =
     bindE (XLEN R stream) (\<lambda>n. if n = 0 then okE 0 else
     bindE (XRANGE_id R stream i) (\<lambda>es. if es = [] then okE 0 else
     bindE (HSET R qkey i payload) (\<lambda>_.
     bindE (XACK R stream grp i) (\<lambda>_.
     bindE (XDEL R stream i) (\<lambda>_. okE 1)))))"

section \<open>Quarantine\<close>

text \<open>A message is its identifier and its fields; \<^verbatim>\<open>Values\<close> is a map of the fields.\<close>

type_synonym XMessage = entry

definition msg_value :: "XMessage \<Rightarrow> string \<Rightarrow> string option" where
  "msg_value msg name = map_of (rev (snd msg)) name"

definition quarantinedDelivery_to_json :: "string \<Rightarrow> XMessage \<Rightarrow> json" where
  "quarantinedDelivery_to_json reason msg =
     JObj [(''reason'', JStr reason),
           (''fields'', JObj (map (\<lambda>(k, v). (k, JStr v)) (sort_key fst (last_wins (snd msg)))))]"

definition quarantine :: "'s redis \<Rightarrow> codec \<Rightarrow> worker \<Rightarrow> XMessage \<Rightarrow> string \<Rightarrow> ('s, 'z, unit) op" where
  "quarantine R C wk msg reason =
     State_Monad.bind
       (call (quarantineDelivery R (wk_stream wk) (wk_stream wk @ '':quarantine'') workerGroup (fst msg)
                (json_text C (quarantinedDelivery_to_json reason msg)))) (\<lambda>r.
     case r of
       Inl e \<Rightarrow> failE (Wrap (''quarantining delivery '' @ fst msg) e)
     | Inr _ \<Rightarrow> okE ())"

section \<open>The consumer group\<close>

text \<open>\<^verbatim>\<open>isRedisError\<close>: the prefix is looked for in the text of every error of the chain.\<close>

fun isRedisError :: "goerr \<Rightarrow> string \<Rightarrow> bool" where
  "isRedisError (Wrap p e) pre \<longleftrightarrow> HasPrefix (Error_text (Wrap p e)) pre \<or> isRedisError e pre"
| "isRedisError (PersistenceError e) pre \<longleftrightarrow> HasPrefix (Error_text (PersistenceError e)) pre \<or> isRedisError e pre"
| "isRedisError (RedactedError e m) pre \<longleftrightarrow> HasPrefix (Error_text (RedactedError e m)) pre \<or> isRedisError e pre"
| "isRedisError (ScanError r c i d x) pre \<longleftrightarrow> HasPrefix (Error_text (ScanError r c i d x)) pre \<or>
     (case x of None \<Rightarrow> False | Some e \<Rightarrow> isRedisError e pre)"
| "isRedisError e pre \<longleftrightarrow> HasPrefix (Error_text e) pre"

text \<open>Whether this call created the group, and the error if it could not be ensured.\<close>

definition ensureGroup :: "'s redis \<Rightarrow> worker \<Rightarrow> ('s, 'z, bool) op" where
  "ensureGroup R wk =
     State_Monad.bind (call (XGROUP_CREATE R (wk_stream wk) workerGroup)) (\<lambda>r.
     case r of
       Inr _ \<Rightarrow> okE True
     | Inl err \<Rightarrow> if isRedisError err ''BUSYGROUP'' then okE False else failE err)"

definition recoverMissingGroup :: "'s redis \<Rightarrow> worker \<Rightarrow> goerr \<Rightarrow> (('s, 'y) wworld_scheme, bool) state" where
  "recoverMissingGroup R wk cause =
     (if \<not> isRedisError cause ''NOGROUP'' then State_Monad.return False
      else State_Monad.bind (ensureGroup R wk) (\<lambda>r.
        case r of
          Inl err \<Rightarrow>
            thenM (modify (\<lambda>w. if parent_Err w = None \<and> Error_text err \<noteq> groupRecreateErr w
                               then w\<lparr>groupRecreateErr := Error_text err\<rparr> else w))
              (State_Monad.return True)
        | Inr created \<Rightarrow>
            thenM (modify (\<lambda>w. w\<lparr>groupRecreateErr := []\<rparr>))
              (if \<not> created then State_Monad.return True
               else thenM (modify (\<lambda>w. w\<lparr>groupRecreations := groupRecreations w + 1\<rparr>))
                 (thenM (metric (Inc ''queue_group_recreated_total'' [])) (State_Monad.return True)))))"

definition CheckBackend :: "'s redis \<Rightarrow> ('s, 'z, unit) op" where
  "CheckBackend R =
     State_Monad.bind (call (COMMAND_INFO R ''XAUTOCLAIM'')) (\<lambda>r.
     case r of
       Inl e \<Rightarrow> failE (Wrap ''checking queue backend capabilities'' e)
     | Inr commands \<Rightarrow>
         if commands \<noteq> [True]
         then failE (ErrText ''scan queue requires Redis 6.2+ or compatible Valkey with XAUTOCLAIM'')
         else okE ())"

section \<open>Health\<close>

definition beat :: "(('s, 'y) wworld_scheme, unit) state" where
  "beat = State_Monad.bind Now (\<lambda>now. modify (\<lambda>w. w\<lparr>heartbeat := Unix now\<rparr>))"

definition missing_group :: "worker \<Rightarrow> goerr" where
  "missing_group wk =
     ErrText (''consumer group '' @ Quote workerGroup @ '' is missing from stream '' @ Quote (wk_stream wk))"

definition Healthy :: "'s redis \<Rightarrow> worker \<Rightarrow> ('s, 'z, unit) op" where
  "Healthy R wk =
     State_Monad.bind (call (XINFO_GROUPS R (wk_stream wk))) (\<lambda>r.
     case r of
       Inl e \<Rightarrow> failE (Wrap (''reading consumer groups of '' @ Quote (wk_stream wk)) e)
     | Inr groups \<Rightarrow>
         if workerGroup \<notin> set groups
         then failE (missing_group wk)
         else okE ())"

text \<open>\<^verbatim>\<open>time.Unix(sec, 0)\<close>, and the check of the heartbeat.\<close>

definition of_Unix :: "int \<Rightarrow> time" where
  "of_Unix s = (s + 62135596800) * 10 ^ 9"

definition Active :: "worker \<Rightarrow> int \<Rightarrow> time \<Rightarrow> goerr + unit" where
  "Active wk lastbeat now =
     (if lastbeat = 0 then Inl (ErrText ''worker has not reached the queue yet'')
      else if now - of_Unix lastbeat > 3 * leaseDuration wk
      then Inl (ErrText (''worker last reached the queue '' @ seconds_text (now - of_Unix lastbeat) @ '' ago''))
      else Inr ())"

text \<open>One tick of the heartbeat goroutine of a job.\<close>

definition heartbeat_tick :: "'s redis \<Rightarrow> worker \<Rightarrow> string \<Rightarrow> string \<Rightarrow> string \<Rightarrow> (('s, 'y) wworld_scheme, unit) state" where
  "heartbeat_tick R wk lockKey token i =
     State_Monad.bind (call (renewLease R lockKey (wk_stream wk) token (Milliseconds (leaseDuration wk))
                               workerGroup (wk_consumer wk) i)) (\<lambda>r.
     if r \<noteq> Inr 1
     then thenM (metric (Inc ''lease_losses_total'' [])) (modify (\<lambda>w. w\<lparr>lost := True\<rparr>))
     else beat)"

section \<open>Processing a delivery\<close>

definition decode_delivery :: "codec \<Rightarrow> XMessage \<Rightarrow> (Job \<times> ScanRequest) option" where
  "decode_delivery C msg =
     (case msg_value msg ''job'' of
        None \<Rightarrow> None
      | Some payload \<Rightarrow>
          (case bindR (json_parse C payload) (Job_of_json C) of
             Inl e \<Rightarrow> None
           | Inr delivery \<Rightarrow> map_option (\<lambda>req. (delivery, req)) (q_ScanRequest delivery)))"

definition retry_limit_message :: string where
  "retry_limit_message = ''scan retry limit reached after interrupted or failed attempts''"

text \<open>The retirement of a delivery whose job has an outcome.\<close>

definition retire :: "('s, 'z) Store \<Rightarrow> worker \<Rightarrow> Lease \<Rightarrow> ScanJobKey \<Rightarrow> string \<Rightarrow> ('s, 'z, unit) op" where
  "retire st wk lease key i =
     State_Monad.bind (gets ctx_Err) (\<lambda>e.
     case e of
       Some err \<Rightarrow> failE err
     | None \<Rightarrow> Acknowledge st lease key (wk_stream wk) workerGroup i)"

text \<open>What \<^verbatim>\<open>process\<close> does once it holds the lease; \<open>exec\<close> is the controller's \<^verbatim>\<open>Scan\<close>.\<close>

definition process_owned ::
    "'s redis \<Rightarrow> codec \<Rightarrow> ('s, 'z) Store \<Rightarrow> (Lease \<Rightarrow> ScanJobKey \<Rightarrow> ScanRequest \<Rightarrow> ('s, 'z, unit) op) \<Rightarrow>
     worker \<Rightarrow> XMessage \<Rightarrow> Job \<Rightarrow> ScanRequest \<Rightarrow> Lease \<Rightarrow> time \<Rightarrow> ('s, 'z, unit) op" where
  "process_owned R C st exec wk msg delivery req lease claimedAt =
     bindE (Get st (q_Key delivery)) (\<lambda>state'.
     case state' of
       None \<Rightarrow>
         thenM (metric (Inc ''job_dispatch_total'' [''not_found'']))
           (quarantine R C wk msg (''job metadata missing for '' @ key_ID (q_Key delivery)))
     | Some j \<Rightarrow>
         if job_Status j \<noteq> Finished \<and> job_Status j \<noteq> Failed
         then if Attempts j \<ge> 3
              then bindE (UpdateStatus st lease (q_Key delivery) Failed [retry_limit_message])
                     (\<lambda>_. Acknowledge st lease (q_Key delivery) (wk_stream wk) workerGroup (fst msg))
              else thenM
                (if Attempts j > 0 then metric (Inc ''scan_retries_total'' [])
                 else if EnqueuedAt delivery \<noteq> 0 \<and> claimedAt - EnqueuedAt delivery \<ge> 0
                 then metric (Observe ''queue_wait_duration_seconds'' (Secs (claimedAt - EnqueuedAt delivery))
                                [fst (JobLabels (q_Key delivery))])
                 else State_Monad.return ())
                (bindE (exec lease (q_Key delivery) req)
                   (\<lambda>_. retire st wk lease (q_Key delivery) (fst msg)))
         else retire st wk lease (q_Key delivery) (fst msg))"

definition lock_key :: "worker \<Rightarrow> string \<Rightarrow> string" where
  "lock_key wk i = wk_stream wk @ '':lease:'' @ i"

text \<open>From the attempt to take the lease with \<open>token\<close> to its release.\<close>

definition process_locked ::
    "'s redis \<Rightarrow> codec \<Rightarrow> ('s, 'z) Store \<Rightarrow> (Lease \<Rightarrow> ScanJobKey \<Rightarrow> ScanRequest \<Rightarrow> ('s, 'z, unit) op) \<Rightarrow>
     worker \<Rightarrow> XMessage \<Rightarrow> Job \<Rightarrow> ScanRequest \<Rightarrow> string \<Rightarrow> ('s, 'z, unit) op" where
  "process_locked R C st exec wk msg delivery req token =
     State_Monad.bind (call (SETNX R (lock_key wk (fst msg)) token (Milliseconds (leaseDuration wk)))) (\<lambda>r.
     case r of
       Inl e \<Rightarrow> thenM (metric (Inc ''job_dispatch_total'' [''lock_error''])) (failE e)
     | Inr owned \<Rightarrow>
         if \<not> owned then thenM (metric (Inc ''job_dispatch_total'' [''lock_busy''])) (okE ())
         else State_Monad.bind Now (\<lambda>claimedAt.
           thenM (metric (Inc ''job_dispatch_total'' [''lock_acquired'']))
           (thenM (modify (\<lambda>w. w\<lparr>lost := False\<rparr>))
           (State_Monad.bind
             (process_owned R C st exec wk msg delivery req
                \<lparr>lease_Key = lock_key wk (fst msg), lease_Token = token\<rparr> claimedAt) (\<lambda>r.
            State_Monad.bind (call (releaseLease R (lock_key wk (fst msg)) token)) (\<lambda>_.
            State_Monad.return r))))))"

definition process ::
    "'s redis \<Rightarrow> codec \<Rightarrow> ('s, 'z) Store \<Rightarrow> (Lease \<Rightarrow> ScanJobKey \<Rightarrow> ScanRequest \<Rightarrow> ('s, 'z, unit) op) \<Rightarrow>
     worker \<Rightarrow> XMessage \<Rightarrow> ('s, 'z, unit) op" where
  "process R C st exec wk msg =
     (case decode_delivery C msg of
        None \<Rightarrow>
          thenM (metric (Inc ''job_dispatch_total'' [''decode_error'']))
            (quarantine R C wk msg ''undecodable payload'')
      | Some (delivery, req) \<Rightarrow>
          State_Monad.bind makeIdentifier (process_locked R C st exec wk msg delivery req))"

section \<open>The read loop\<close>

text \<open>\<^verbatim>\<open>waitRetry\<close>: a second passes unless the context ends first.\<close>

definition waitRetry :: "(('s, 'z) world_scheme, bool) state" where
  "waitRetry =
     State (\<lambda>w. if parent_Err w = None then (True, w\<lparr>clock := clock w + 10 ^ 9\<rparr>) else (False, w))"

fun process_all ::
    "'s redis \<Rightarrow> codec \<Rightarrow> ('s, 'z) Store \<Rightarrow> (Lease \<Rightarrow> ScanJobKey \<Rightarrow> ScanRequest \<Rightarrow> ('s, 'z, unit) op) \<Rightarrow>
     worker \<Rightarrow> XMessage list \<Rightarrow> (('s, 'z) world_scheme, bool) state" where
  "process_all R C st exec wk [] = State_Monad.return True"
| "process_all R C st exec wk (msg # msgs) =
     State_Monad.bind (gets parent_Err) (\<lambda>e.
     if e \<noteq> None then State_Monad.return False
     else State_Monad.bind (process R C st exec wk msg) (\<lambda>_. process_all R C st exec wk msgs))"

definition retry_with :: "string \<Rightarrow> time \<Rightarrow> (('s, 'z) world_scheme, (string \<times> time) option) state" where
  "retry_with cursor observed =
     State_Monad.bind waitRetry (\<lambda>go. State_Monad.return (if go then Some (cursor, observed) else None))"

text \<open>
  One iteration of the loop of \<^verbatim>\<open>run\<close>: from the cursor and the time of the last cleaning, the
  next ones, or \<open>None\<close> when \<^verbatim>\<open>run\<close> returns.
\<close>

definition run_iteration ::
    "'s redis \<Rightarrow> codec \<Rightarrow> ('s, 'y wworld_ext) Store \<Rightarrow>
     (Lease \<Rightarrow> ScanJobKey \<Rightarrow> ScanRequest \<Rightarrow> ('s, 'y wworld_ext, unit) op) \<Rightarrow> worker \<Rightarrow>
     string \<Rightarrow> time \<Rightarrow> (('s, 'y) wworld_scheme, (string \<times> time) option) state" where
  "run_iteration R C st exec wk cursor observed =
     State_Monad.bind Now (\<lambda>now.
     State_Monad.bind
       (if now - observed \<ge> 10 * 10 ^ 9
        then State_Monad.bind (call (cleanConsumers R (wk_stream wk) workerGroup []
                 (Milliseconds (2 * leaseDuration wk)))) (\<lambda>_. Now)
        else State_Monad.return observed) (\<lambda>observed.
     State_Monad.bind (call (XAUTOCLAIM R (wk_stream wk) workerGroup (wk_consumer wk)
                               (Milliseconds (leaseDuration wk)) cursor)) (\<lambda>r.
     case r of
       Inl e \<Rightarrow> State_Monad.bind (recoverMissingGroup R wk e) (\<lambda>_. retry_with cursor observed)
     | Inr (messages, nextcur) \<Rightarrow>
         let cursor = (if nextcur = [] then ''0-0'' else nextcur) in
         thenM beat
         (if messages \<noteq> []
          then State_Monad.bind (process_all R C st exec wk messages) (\<lambda>go.
                 State_Monad.return (if go then Some (cursor, observed) else None))
          else State_Monad.bind (call (XREADGROUP R (wk_stream wk) workerGroup (wk_consumer wk))) (\<lambda>r.
            case r of
              Inl e \<Rightarrow> State_Monad.bind (recoverMissingGroup R wk e) (\<lambda>_. retry_with cursor observed)
            | Inr None \<Rightarrow> thenM beat (State_Monad.return (Some (cursor, observed)))
            | Inr (Some msgs) \<Rightarrow>
                thenM beat
                (State_Monad.bind (process_all R C st exec wk msgs) (\<lambda>go.
                 State_Monad.return (if go then Some (cursor, observed) else None))))))))"

text \<open>The loop for \<open>n\<close> iterations; the program runs it until the context ends.\<close>

fun run_loop ::
    "nat \<Rightarrow> 's redis \<Rightarrow> codec \<Rightarrow> ('s, 'y wworld_ext) Store \<Rightarrow>
     (Lease \<Rightarrow> ScanJobKey \<Rightarrow> ScanRequest \<Rightarrow> ('s, 'y wworld_ext, unit) op) \<Rightarrow> worker \<Rightarrow>
     string \<Rightarrow> time \<Rightarrow> (('s, 'y) wworld_scheme, unit) state" where
  "run_loop 0 R C st exec wk cursor observed = State_Monad.return ()"
| "run_loop (Suc n) R C st exec wk cursor observed =
     State_Monad.bind (gets parent_Err) (\<lambda>e.
     if e \<noteq> None then State_Monad.return ()
     else State_Monad.bind (run_iteration R C st exec wk cursor observed) (\<lambda>nxt.
       case nxt of
         None \<Rightarrow> State_Monad.return ()
       | Some (cursor', observed') \<Rightarrow> run_loop n R C st exec wk cursor' observed'))"

text \<open>The start of \<^verbatim>\<open>run\<close>, for at most \<open>n\<close> tries, and its end.\<close>

fun ensure_loop :: "nat \<Rightarrow> 's redis \<Rightarrow> worker \<Rightarrow> (('s, 'z) world_scheme, bool) state" where
  "ensure_loop 0 R wk = State_Monad.return False"
| "ensure_loop (Suc n) R wk =
     State_Monad.bind (gets parent_Err) (\<lambda>e.
     if e \<noteq> None then State_Monad.return True
     else State_Monad.bind (ensureGroup R wk) (\<lambda>r.
       case r of
         Inr _ \<Rightarrow> State_Monad.return True
       | Inl _ \<Rightarrow> State_Monad.bind waitRetry (\<lambda>go. if go then ensure_loop n R wk else State_Monad.return False)))"

definition worker_run ::
    "nat \<Rightarrow> 's redis \<Rightarrow> codec \<Rightarrow> ('s, 'y wworld_ext) Store \<Rightarrow>
     (Lease \<Rightarrow> ScanJobKey \<Rightarrow> ScanRequest \<Rightarrow> ('s, 'y wworld_ext, unit) op) \<Rightarrow> worker \<Rightarrow>
     (('s, 'y) wworld_scheme, unit) state" where
  "worker_run n R C st exec wk =
     State_Monad.bind (ensure_loop n R wk) (\<lambda>go.
     thenM (if go then run_loop n R C st exec wk ''0-0'' 0 else State_Monad.return ())
       (State_Monad.bind (call (cleanConsumers R (wk_stream wk) workerGroup (wk_consumer wk)
                                  (Milliseconds (2 * leaseDuration wk)))) (\<lambda>_. State_Monad.return ())))"

end
