(* ===== verification/Handler.thy ===== *)
theory Handler
  imports Wrapper Enqueuer Worker "HOL-Library.List_Lexorder" "HOL-Library.Char_ord"
begin

text \<open>
  \<^verbatim>\<open>pkg/http/api/v1/handler.go\<close>: the HTTP API. The request router (gorilla/mux), the decoder of
  query parameters (gorilla/schema) and the page of the metrics registry (promhttp) are libraries,
  and so parameters. The components a handler calls are the fields of a record, which
  \<open>NewAPIHandler\<close> fills.
\<close>

section \<open>The handler's state\<close>

text \<open>\<open>hd_worker\<close>: \<^verbatim>\<open>Healthy\<close> and \<^verbatim>\<open>Active\<close>; \<open>hd_Available\<close>: the wrapper's. Both may be absent.\<close>

record ('s, 'z) requestHandler =
  hd_info :: BuildInfo
  hd_config :: Config
  hd_Enqueue :: "ScanRequest \<Rightarrow> ('s, 'z, string) op"
  hd_Get :: "ScanJobKey \<Rightarrow> ('s, 'z, ScanJob option) op"
  hd_GetVersion :: "('s, 'z, VersionInfo) op"
  hd_Available :: "('s, 'z, unit) op option"
  hd_worker :: "(('s, 'z, unit) op \<times> ('s, 'z, unit) op) option"
  hd_codec :: codec
  hd_rfc3339 :: "time \<Rightarrow> string"
  hd_TRIVY_VERSION :: "string option"
  hd_decode :: "string \<Rightarrow> goerr + ScanReportQuery"

record Request =
  rq_Method :: string
  rq_Path :: string
  rq_URL :: string
  rq_Query :: string
  rq_Accept :: string
  rq_Body :: string

type_synonym ('s, 'z) handler = "Request \<Rightarrow> Response \<Rightarrow> (('s, 'z) world_scheme, Response) state"

section \<open>Accepting a scan\<close>

definition unprocessable :: "string \<Rightarrow> api_Error" where
  "unprocessable m = \<lparr>HTTPCode = 422, Message = m\<rparr>"

fun validateMediaTypes :: "MediaType list \<Rightarrow> api_Error option" where
  "validateMediaTypes [] = None"
| "validateMediaTypes (m # ms) =
     (if m \<notin> set SupportedSBOMMediaTypes
      then Some (unprocessable (''unsupported SBOM media type: '' @ Quote m))
      else validateMediaTypes ms)"

fun validateCapabilities :: "Capability list \<Rightarrow> api_Error option" where
  "validateCapabilities [] = None"
| "validateCapabilities (c # cs) =
     (if items (ProducesMIMETypes c) = [] then
        Some \<lparr>HTTPCode = 400, Message = [CHR 0x22] @ ''enabled_capabilities.produces_mime_types'' @ [CHR 0x22] @ '' is missing'' @ [CHR 0x22]\<rparr>
      else if cap_Type c \<noteq> CapabilityTypeVulnerability \<and> cap_Type c \<noteq> CapabilityTypeSBOM then
        Some (unprocessable ''invalid scan type'')
      else if cap_Type c = CapabilityTypeSBOM then
        (let ms = (case Parameters c of None \<Rightarrow> [] | Some p \<Rightarrow> items (SBOMMediaTypes p)) in
         if ms = [] then Some (unprocessable ''missing SBOM media type'')
         else case validateMediaTypes ms of
                Some e \<Rightarrow> Some e
              | None \<Rightarrow> validateCapabilities cs)
      else validateCapabilities cs)"

definition ValidateScanRequest :: "ScanRequest \<Rightarrow> api_Error option" where
  "ValidateScanRequest req =
     (case validateCapabilities (items (req_Capabilities req)) of
        Some e \<Rightarrow> Some e
      | None \<Rightarrow>
          if reg_URL (req_Registry req) = [] then Some (unprocessable ''missing registry.url'')
          else if ParseRequestURI (reg_URL (req_Registry req)) = None then Some (unprocessable ''invalid registry.url'')
          else if art_Repository (req_Artifact req) = [] then Some (unprocessable ''missing artifact.repository'')
          else if art_Digest (req_Artifact req) = [] then Some (unprocessable ''missing artifact.digest'')
          else None)"

text \<open>The capability a request without one gets.\<close>

definition default_capability :: Capability where
  "default_capability =
     \<lparr>cap_Type = CapabilityTypeVulnerability, ConsumesMIMETypes = None,
      ProducesMIMETypes = Some [MimeTypeSecurityVulnerabilityReport], AdditionalAttributes = None, Parameters = None\<rparr>"

definition with_capability :: "ScanRequest \<Rightarrow> ScanRequest" where
  "with_capability req =
     (if items (req_Capabilities req) = [] then req\<lparr>req_Capabilities := Some [default_capability]\<rparr> else req)"

definition AcceptScanRequest :: "('s, 'z) requestHandler \<Rightarrow> ('s, 'z) handler" where
  "AcceptScanRequest h req res =
     (let C = hd_codec h in
      case bindR (json_decode C (rq_Body req)) ScanRequest_of_json of
        Inl e \<Rightarrow>
          State_Monad.return (WriteJSONError C \<lparr>HTTPCode = 400, Message = ''unmarshaling scan request: '' @ e\<rparr> res)
      | Inr scanRequest \<Rightarrow>
          (case ValidateScanRequest scanRequest of
             Some validationError \<Rightarrow> State_Monad.return (WriteJSONError C validationError res)
           | None \<Rightarrow>
               State_Monad.bind (hd_Enqueue h (with_capability scanRequest)) (\<lambda>r.
               State_Monad.return
                 (case r of
                    Inl err \<Rightarrow>
                      WriteJSONError C \<lparr>HTTPCode = 500, Message = ''enqueuing scan job: '' @ Error_text err\<rparr> res
                  | Inr scanJobID \<Rightarrow>
                      WriteJSON C (Inr (JObj [(''id'', JStr scanJobID)])) MimeTypeScanResponse 202 res))))"

section \<open>Fetching a report\<close>

text \<open>The response, and the value of \<^verbatim>\<open>result\<close> the deferred counter is incremented with.\<close>

definition report_response ::
    "('s, 'z) requestHandler \<Rightarrow> string \<Rightarrow> Request \<Rightarrow> MIMEType \<Rightarrow> ScanJob option \<Rightarrow> Response \<Rightarrow>
     (('s, 'z) world_scheme, string \<times> Response) state" where
  "report_response h scanJobID req reportMIMEType found res =
     (let C = hd_codec h;
          answer = (\<lambda>result code m. State_Monad.return (result, WriteJSONError C \<lparr>HTTPCode = code, Message = m\<rparr> res)) in
      case found of
        None \<Rightarrow> answer ''not_found'' 404 (''cannot find scan job: '' @ scanJobID)
      | Some scanJob \<Rightarrow>
          if job_Status scanJob = Queued \<or> job_Status scanJob = Pending then
            State_Monad.return (''pending'', WriteHeader 302 (Header_Add ''Location'' (rq_URL req) res))
          else if job_Status scanJob = Failed then answer ''failed'' 500 (job_Error scanJob)
          else if job_Status scanJob \<noteq> Finished then
            answer ''error'' 500 (''unexpected status '' @ ScanJobStatus_String (job_Status scanJob) @
                                  '' of scan job '' @ key_ID (job_Key scanJob))
          else
            State_Monad.bind Now (\<lambda>now.
            let age = now - FinishedAt scanJob; (capability, format) = JobLabels (job_Key scanJob) in
            thenM (if \<not> IsZero (FinishedAt scanJob) \<and> age \<ge> 0
                   then metric (Observe ''report_fetch_age_seconds'' (Secs age) [capability, format])
                   else State_Monad.return ())
              (State_Monad.return
                (''ok'', WriteJSON C (ScanReport_to_json C (job_Report scanJob)) reportMIMEType 200 res))))"

definition fetch_report ::
    "('s, 'z) requestHandler \<Rightarrow> string option \<Rightarrow> Request \<Rightarrow> Response \<Rightarrow> (('s, 'z) world_scheme, string \<times> Response) state" where
  "fetch_report h scan_request_id req res =
     (let C = hd_codec h;
          refuse = (\<lambda>code m. State_Monad.return (''invalid_request'', WriteJSONError C \<lparr>HTTPCode = code, Message = m\<rparr> res)) in
      case scan_request_id of
        None \<Rightarrow> refuse 400 ''missing scan request id''
      | Some scanJobID \<Rightarrow>
          (case MIMEType_Parse (rq_Accept req) of
             Inl _ \<Rightarrow> refuse 415 (''unsupported media type: '' @ Quote (rq_Accept req))
           | Inr reportMIMEType \<Rightarrow>
               (case hd_decode h (rq_Query req) of
                  Inl err \<Rightarrow> refuse 400 (''query parameter error: '' @ Error_text err)
                | Inr query \<Rightarrow>
                    if MIMEType_Equal reportMIMEType MimeTypeSecuritySBOMReport \<and> query_SBOMMediaType query = []
                    then refuse 400 ''missing SBOM media type''
                    else
                      State_Monad.bind (hd_Get h \<lparr>key_ID = scanJobID, key_MIMEType = reportMIMEType,
                                                  key_MediaType = query_SBOMMediaType query\<rparr>) (\<lambda>r.
                      case r of
                        Inl err \<Rightarrow>
                          State_Monad.return
                            (''error'', WriteJSONError C \<lparr>HTTPCode = 500, Message = ''getting scan job: '' @ Error_text err\<rparr> res)
                      | Inr found \<Rightarrow> report_response h scanJobID req reportMIMEType found res))))"

definition GetScanReport :: "('s, 'z) requestHandler \<Rightarrow> string option \<Rightarrow> ('s, 'z) handler" where
  "GetScanReport h scan_request_id req res =
     State_Monad.bind (fetch_report h scan_request_id req res) (\<lambda>(result, res).
     thenM (metric (Inc ''report_fetch_total'' [result])) (State_Monad.return res))"

section \<open>Metadata\<close>

text \<open>A Go map is written with its keys in order.\<close>

definition string_map_to_json :: "(string \<times> string) list \<Rightarrow> json" where
  "string_map_to_json m = JObj (map (\<lambda>(k, v). (k, JStr v)) (sort_key fst m))"

definition ScannerAdapterMetadata_to_json :: "ScannerAdapterMetadata \<Rightarrow> json" where
  "ScannerAdapterMetadata_to_json m =
     JObj [(''scanner'', Scanner_to_json (meta_Scanner m)),
           (''capabilities'', enc_slice Capability_to_json (meta_Capabilities m)),
           (''properties'', string_map_to_json (meta_Properties m))]"

definition FormatBool :: "bool \<Rightarrow> string" where
  "FormatBool b = (if b then ''true'' else ''false'')"

definition propertyScannerType :: string where
  "propertyScannerType = ''harbor.scanner-adapter/scanner-type''"
definition propertyDBUpdatedAt :: string where
  "propertyDBUpdatedAt = ''harbor.scanner-adapter/vulnerability-database-updated-at''"
definition propertyDBNextUpdateAt :: string where
  "propertyDBNextUpdateAt = ''harbor.scanner-adapter/vulnerability-database-next-update-at''"
definition propertyJavaDBUpdatedAt :: string where
  "propertyJavaDBUpdatedAt = ''harbor.scanner-adapter/vulnerability-java-database-updated-at''"
definition propertyJavaDBNextUpdateAt :: string where
  "propertyJavaDBNextUpdateAt = ''harbor.scanner-adapter/vulnerability-java-database-next-update-at''"

definition static_properties :: "BuildInfo \<Rightarrow> TrivyConfig \<Rightarrow> (string \<times> string) list" where
  "static_properties info t =
     [(propertyScannerType, ''os-package-vulnerability''),
      (''org.label-schema.version'', bi_Version info),
      (''org.label-schema.build-date'', bi_Date info),
      (''org.label-schema.vcs-ref'', bi_Commit info),
      (''org.label-schema.vcs'', ''https://github.com/container-registry/harbor-scanner-trivy''),
      (''env.SCANNER_TRIVY_SKIP_UPDATE'', FormatBool (SkipDBUpdate t)),
      (''env.SCANNER_TRIVY_SKIP_JAVA_DB_UPDATE'', FormatBool (SkipJavaDBUpdate t)),
      (''env.SCANNER_TRIVY_OFFLINE_SCAN'', FormatBool (OfflineScan t)),
      (''env.SCANNER_TRIVY_IGNORE_UNFIXED'', FormatBool (IgnoreUnfixed t)),
      (''env.SCANNER_TRIVY_DEBUG_MODE'', FormatBool (DebugMode t)),
      (''env.SCANNER_TRIVY_INSECURE'', FormatBool (Insecure t)),
      (''env.SCANNER_TRIVY_VULN_TYPE'', VulnType t),
      (''env.SCANNER_TRIVY_SECURITY_CHECKS'', Scanners t),
      (''env.SCANNER_TRIVY_SEVERITY'', cf_Severity t),
      (''env.SCANNER_TRIVY_TIMEOUT'', Duration_String (Timeout t)),
      (''env.SCANNER_TRIVY_VEX_SOURCE'', VEXSource t),
      (''env.SCANNER_TRIVY_SKIP_VEX_REPO_UPDATE'', FormatBool (SkipVEXRepoUpdate t))]"

definition database_properties :: "(time \<Rightarrow> string) \<Rightarrow> string \<Rightarrow> string \<Rightarrow> bool \<Rightarrow> Metadata option \<Rightarrow> (string \<times> string) list" where
  "database_properties rfc3339 updated next skip db =
     (case db of
        None \<Rightarrow> []
      | Some m \<Rightarrow> (updated, rfc3339 (UpdatedAt m)) # (if skip then [] else [(next, rfc3339 (NextUpdate m))]))"

definition version_properties :: "(time \<Rightarrow> string) \<Rightarrow> TrivyConfig \<Rightarrow> goerr + VersionInfo \<Rightarrow> (string \<times> string) list" where
  "version_properties rfc3339 t r =
     (case r of
        Inl _ \<Rightarrow> []
      | Inr vi \<Rightarrow>
          database_properties rfc3339 propertyDBUpdatedAt propertyDBNextUpdateAt (SkipDBUpdate t) (VulnerabilityDB vi) @
          database_properties rfc3339 propertyJavaDBUpdatedAt propertyJavaDBNextUpdateAt (SkipJavaDBUpdate t) (JavaDB vi))"

definition adapter_capabilities :: "Capability list" where
  "adapter_capabilities =
     (let consumed = Some [MIMEType_String MimeTypeOCIImageManifest, MIMEType_String MimeTypeDockerImageManifestV2] in
      [\<lparr>cap_Type = CapabilityTypeVulnerability, ConsumesMIMETypes = consumed,
        ProducesMIMETypes = Some [MimeTypeSecurityVulnerabilityReport], AdditionalAttributes = None, Parameters = None\<rparr>,
       \<lparr>cap_Type = CapabilityTypeSBOM, ConsumesMIMETypes = consumed,
        ProducesMIMETypes = Some [MimeTypeSecuritySBOMReport],
        AdditionalAttributes = Some \<lparr>SBOMMediaTypes = Some [MediaTypeSPDX, MediaTypeCycloneDX]\<rparr>, Parameters = None\<rparr>])"

definition GetMetadata :: "('s, 'z) requestHandler \<Rightarrow> ('s, 'z) handler" where
  "GetMetadata h req res =
     State_Monad.bind (hd_GetVersion h) (\<lambda>r.
     State_Monad.return (WriteJSON (hd_codec h)
       (Inr (ScannerAdapterMetadata_to_json
          \<lparr>meta_Scanner = GetScannerMetadata (hd_TRIVY_VERSION h), meta_Capabilities = Some adapter_capabilities,
           meta_Properties = static_properties (hd_info h) (c_Trivy (hd_config h))
                             @ version_properties (hd_rfc3339 h) (c_Trivy (hd_config h)) r\<rparr>))
       MimeTypeMetadata 200 res))"

section \<open>Probes\<close>

definition GetHealthy :: "('s, 'z) handler" where
  "GetHealthy req res = State_Monad.return (WriteHeader 200 res)"

definition boolValue :: "bool \<Rightarrow> mvalue" where
  "boolValue b = (if b then Num 1 else Num 0)"

text \<open>One check: its gauge, and its entry in \<^verbatim>\<open>failed\<close> when it fails.\<close>

definition ready_check :: "string \<Rightarrow> ('s, 'z, unit) op \<Rightarrow> (('s, 'z) world_scheme, (string \<times> string) list) state" where
  "ready_check name m =
     State_Monad.bind m (\<lambda>r.
     thenM (metric (SetTo ''ready'' (boolValue (r = Inr ())) [name]))
       (State_Monad.return (case r of Inl err \<Rightarrow> [(name, Error_text err)] | Inr _ \<Rightarrow> [])))"

definition GetReady :: "('s, 'z) requestHandler \<Rightarrow> ('s, 'z) handler" where
  "GetReady h req res =
     State_Monad.bind (case hd_worker h of
         None \<Rightarrow> State_Monad.return []
       | Some (healthy, active) \<Rightarrow>
           State_Monad.bind (ready_check ''queue'' healthy) (\<lambda>a.
           State_Monad.bind (ready_check ''worker'' active) (\<lambda>b. State_Monad.return (a @ b)))) (\<lambda>f1.
     State_Monad.bind (case hd_Available h of
         None \<Rightarrow> State_Monad.return []
       | Some available \<Rightarrow> ready_check ''binary'' available) (\<lambda>f2.
     let failed = f1 @ f2 in
     State_Monad.return
       (if failed = [] then WriteHeader 200 res
        else WriteJSON (hd_codec h) (Inr (JObj [(''ready'', JBool False), (''failed'', string_map_to_json failed)]))
               MimeTypeError 503 res)))"

section \<open>Routing\<close>

datatype endpoint = EpScan | EpReport | EpMetadata | EpHealthy | EpReady | EpMetrics

text \<open>A route: its method, its path template, its handler.\<close>

type_synonym route = "string \<times> string \<times> endpoint"

definition routes :: "Config \<Rightarrow> route list" where
  "routes config =
     [(''POST'', ''/api/v1/scan'', EpScan),
      (''GET'', ''/api/v1/scan/{scan_request_id}/report'', EpReport),
      (''GET'', ''/api/v1/metadata'', EpMetadata),
      (''GET'', ''/probe/healthy'', EpHealthy),
      (''GET'', ''/probe/ready'', EpReady)] @
     (if MetricsEnabled (c_API config) then [(''GET'', ''/metrics'', EpMetrics)] else [])"

text \<open>
  What the router does with a request: the route it matches and the path variables, or none, and
  then its own answer (\<^verbatim>\<open>fallback\<close>: 404, or 405 for a wrong method).
\<close>

record ('s, 'z) router =
  rt_match :: "route list \<Rightarrow> string \<Rightarrow> string \<Rightarrow> (route \<times> (string \<times> string) list) option"
  rt_fallback :: "Request \<Rightarrow> Response \<Rightarrow> Response"
  rt_metrics_page :: "Recorder option \<Rightarrow> Request \<Rightarrow> Response \<Rightarrow> Response"

definition pathVarScanRequestID :: string where
  "pathVarScanRequestID = ''scan_request_id''"

fun dispatch :: "('s, 'z) router \<Rightarrow> ('s, 'z) requestHandler \<Rightarrow> endpoint \<Rightarrow> (string \<times> string) list \<Rightarrow> ('s, 'z) handler" where
  "dispatch rt h EpScan vars req res = AcceptScanRequest h req res"
| "dispatch rt h EpReport vars req res = GetScanReport h (map_of vars pathVarScanRequestID) req res"
| "dispatch rt h EpMetadata vars req res = GetMetadata h req res"
| "dispatch rt h EpHealthy vars req res = GetHealthy req res"
| "dispatch rt h EpReady vars req res = GetReady h req res"
| "dispatch rt h EpMetrics vars req res =
     State_Monad.bind (gets recorder) (\<lambda>r. State_Monad.return (rt_metrics_page rt r req res))"

definition ServeHTTP :: "('s, 'z) router \<Rightarrow> ('s, 'z) requestHandler \<Rightarrow> ('s, 'z) handler" where
  "ServeHTTP rt h req res =
     (case rt_match rt (routes (hd_config h)) (rq_Method req) (rq_Path req) of
        None \<Rightarrow> State_Monad.return (rt_fallback rt req res)
      | Some ((_, _, ep), vars) \<Rightarrow> dispatch rt h ep vars req res)"

section \<open>Instrumentation\<close>

text \<open>\<^verbatim>\<open>metricResponse\<close> remembers the first code written through it; 0 while there is none.\<close>

record metricResponse =
  mr_writer :: Response
  mr_code :: int

definition mr_WriteHeader :: "int \<Rightarrow> metricResponse \<Rightarrow> metricResponse" where
  "mr_WriteHeader code w =
     (let w = (if mr_code w = 0 then w\<lparr>mr_code := code\<rparr> else w) in w\<lparr>mr_writer := WriteHeader code (mr_writer w)\<rparr>)"

definition mr_Write :: "string \<Rightarrow> metricResponse \<Rightarrow> metricResponse" where
  "mr_Write p w =
     (let w = (if mr_code w = 0 then mr_WriteHeader 200 w else w) in w\<lparr>mr_writer := Write p (mr_writer w)\<rparr>)"

text \<open>So the code it remembers is the status of the response, and the handlers need not be given the wrapper.\<close>

definition mr_agrees :: "metricResponse \<Rightarrow> bool" where
  "mr_agrees w \<longleftrightarrow> mr_code w = (case status (mr_writer w) of None \<Rightarrow> 0 | Some c \<Rightarrow> c) \<and> status (mr_writer w) \<noteq> Some 0"

lemma mr_WriteHeader_agrees:
  "mr_agrees w \<Longrightarrow> code \<noteq> 0 \<Longrightarrow> mr_agrees (mr_WriteHeader code w) \<and> mr_writer (mr_WriteHeader code w) = WriteHeader code (mr_writer w)"
  by (auto simp: mr_agrees_def mr_WriteHeader_def Let_def split: option.splits)

lemma mr_Write_agrees:
  "mr_agrees w \<Longrightarrow> mr_agrees (mr_Write p w) \<and> mr_writer (mr_Write p w) = Write p (mr_writer w)"
  by (auto simp: mr_agrees_def mr_Write_def mr_WriteHeader_def Write_def WriteHeader_def Let_def split: option.splits)

definition response_code :: "Response \<Rightarrow> int" where
  "response_code res = (case status res of None \<Rightarrow> 200 | Some c \<Rightarrow> c)"

definition instrument :: "('s, 'z) router \<Rightarrow> ('s, 'z) requestHandler \<Rightarrow> ('s, 'z) handler" where
  "instrument rt h req res =
     (if rq_Path req \<in> {''/metrics'', ''/probe/ready'', ''/probe/healthy''} then ServeHTTP rt h req res
      else
        let route = (case rt_match rt (routes (hd_config h)) (rq_Method req) (rq_Path req) of
                       None \<Rightarrow> ''unmatched'' | Some ((_, template, _), _) \<Rightarrow> template) in
        State_Monad.bind Now (\<lambda>started.
        State_Monad.bind (ServeHTTP rt h req res) (\<lambda>res.
        State_Monad.bind Now (\<lambda>ended.
        thenM (metric (Inc ''http_requests_total'' [route, rq_Method req, dec_of_int (response_code res)]))
          (thenM (metric (Observe ''http_request_duration_seconds'' (Secs (ended - started)) [route, rq_Method req]))
            (State_Monad.return res))))))"

definition NewAPIHandler :: "('s, 'z) router \<Rightarrow> ('s, 'z) requestHandler \<Rightarrow> ('s, 'z) handler" where
  "NewAPIHandler rt h req res =
     State_Monad.bind (gets (\<lambda>w. recorder w \<noteq> None)) (\<lambda>recording.
     if recording \<and> MetricsEnabled (c_API (hd_config h)) then instrument rt h req res else ServeHTTP rt h req res)"

end
