(* ===== verification/Handler_Spec.thy ===== *)
theory Handler_Spec
  imports Handler Store_Spec
begin

text \<open>
  Properties of the HTTP API: what is accepted, what an accepted request leads to, how the state
  of a job shows in the answer to a report fetch, and that no request can grow the set of metrics.
\<close>

section \<open>Validation\<close>

lemma validateMediaTypes_None: "validateMediaTypes ms = None \<longleftrightarrow> set ms \<subseteq> set SupportedSBOMMediaTypes"
  by (induction ms) auto

lemma validateMediaTypes_Some:
  "validateMediaTypes ms = Some e \<Longrightarrow> HTTPCode e = 422 \<and> \<not> set ms \<subseteq> set SupportedSBOMMediaTypes"
  by (induction ms) (auto simp: unprocessable_def split: if_splits)

definition valid_capability :: "Capability \<Rightarrow> bool" where
  "valid_capability c \<longleftrightarrow>
     items (ProducesMIMETypes c) \<noteq> [] \<and> cap_Type c \<in> {CapabilityTypeVulnerability, CapabilityTypeSBOM} \<and>
     (cap_Type c = CapabilityTypeSBOM \<longrightarrow>
        capability_media_types c \<noteq> [] \<and> set (capability_media_types c) \<subseteq> {MediaTypeSPDX, MediaTypeCycloneDX})"

lemma sbom_media_types:
  "cap_Type c = CapabilityTypeSBOM \<Longrightarrow>
   capability_media_types c = (case Parameters c of None \<Rightarrow> [] | Some p \<Rightarrow> items (SBOMMediaTypes p))"
  by (simp add: capability_media_types_def CapabilityTypeSBOM_def CapabilityTypeVulnerability_def)

lemma first_error_None: "(case x of None \<Rightarrow> y | Some e \<Rightarrow> Some e) = None \<longleftrightarrow> x = None \<and> y = None"
  by (cases x) auto

lemma validateCapabilities_None: "validateCapabilities cs = None \<longleftrightarrow> (\<forall>c \<in> set cs. valid_capability c)"
proof (induction cs)
  case (Cons c cs)
  show ?case
    by (cases "cap_Type c = CapabilityTypeSBOM")
      (auto simp: valid_capability_def sbom_media_types Let_def Cons SupportedSBOMMediaTypes_def
        validateMediaTypes_None first_error_None)
qed simp

lemma validateCapabilities_Some: "validateCapabilities cs = Some e \<Longrightarrow> HTTPCode e \<in> {400, 422}"
  by (induction cs) (auto simp: unprocessable_def Let_def dest: validateMediaTypes_Some split: if_splits option.splits)

lemma ValidateScanRequest_Some: "ValidateScanRequest req = Some e \<Longrightarrow> HTTPCode e \<in> {400, 422}"
  by (auto simp: ValidateScanRequest_def unprocessable_def dest: validateCapabilities_Some split: option.splits if_splits)

lemma validated:
  "ValidateScanRequest req = None \<longleftrightarrow>
     (\<forall>c \<in> set (items (req_Capabilities req)). valid_capability c) \<and> reg_URL (req_Registry req) \<noteq> [] \<and>
     ParseRequestURI (reg_URL (req_Registry req)) \<noteq> None \<and> art_Repository (req_Artifact req) \<noteq> [] \<and>
     art_Digest (req_Artifact req) \<noteq> []"
  by (auto simp: ValidateScanRequest_def validateCapabilities_None [symmetric] split: option.split)

text \<open>With a scheme and without a fragment, the two parsers of \<^verbatim>\<open>net/url\<close> agree.\<close>

lemma parsers_agree:
  assumes "getScheme s = Some (scheme, rest)" "scheme \<noteq> []" "CHR ''#'' \<notin> set s"
  shows "url_Parse s = ParseRequestURI s"
proof -
  have "s \<noteq> []" "ToLower scheme \<noteq> []" using assms(1,2) by (auto simp: getScheme_def ToLower_def)
  moreover have "Cut s ''#'' = (s, [], False)" using assms(3) by (simp add: Cut_def Index_char)
  ultimately show ?thesis
    using assms(1) by (simp add: url_Parse_def ParseRequestURI_def url_parse_def Let_def)
qed

lemma http_scheme:
  "HasPrefix s ''http://'' \<or> HasPrefix s ''https://'' \<Longrightarrow> \<exists>scheme rest. getScheme s = Some (scheme, rest) \<and> scheme \<noteq> []"
  by (auto simp: HasPrefix_iff getScheme_def is_letter_def is_digit_def)

text \<open>
  C23. A request that passes validation leads to work that can be done: it yields at least one job,
  every job is of a known kind and format, and, if its registry URL is an http or https one without
  a fragment, the image reference of the scan can be formed.
\<close>

theorem validated_request_workable:
  assumes "ValidateScanRequest req = None"
  shows "job_keys i (with_capability req) \<noteq> [] \<and>
    (\<forall>k \<in> set (job_keys i (with_capability req)). key_ID k = i \<and>
       key_MediaType k \<in> {[], MediaTypeSPDX, MediaTypeCycloneDX}) \<and>
    (HasPrefix (reg_URL (req_Registry req)) ''http://'' \<or> HasPrefix (reg_URL (req_Registry req)) ''https://'' \<longrightarrow>
     CHR ''#'' \<notin> set (reg_URL (req_Registry req)) \<longrightarrow>
       (\<exists>ref nonSSL. GetImageRef (with_capability req) = Inr (ref, nonSSL)))"
proof -
  let ?caps = "items (req_Capabilities (with_capability req))"
  have caps: "?caps \<noteq> []" by (simp add: with_capability_def)
  have "valid_capability default_capability" by (simp add: valid_capability_def default_capability_def
      CapabilityTypeSBOM_def CapabilityTypeVulnerability_def)
  then have valid: "\<forall>c \<in> set ?caps. valid_capability c" using assms by (simp add: validated with_capability_def)
  have media: "capability_media_types c \<noteq> [] \<and> set (capability_media_types c) \<subseteq> {[], MediaTypeSPDX, MediaTypeCycloneDX}"
    if "valid_capability c" for c
  proof (cases "cap_Type c = CapabilityTypeSBOM")
    case True
    then show ?thesis using that unfolding valid_capability_def by blast
  qed (use that in \<open>simp add: valid_capability_def capability_media_types_def\<close>)
  obtain c where c: "c \<in> set ?caps" using list.set_sel(1) [OF caps] by blast
  then obtain t where "t \<in> set (capability_media_types c)" using valid media list.set_sel(1) by blast
  moreover obtain m where "m \<in> set (items (ProducesMIMETypes c))"
    using c valid list.set_sel(1) unfolding valid_capability_def by blast
  ultimately have "\<lparr>key_ID = i, key_MIMEType = m, key_MediaType = t\<rparr> \<in> set (job_keys i (with_capability req))"
    using c by (force simp: job_keys_def)
  then have "job_keys i (with_capability req) \<noteq> []" by auto
  moreover have "\<forall>k \<in> set (job_keys i (with_capability req)). key_ID k = i \<and>
      key_MediaType k \<in> {[], MediaTypeSPDX, MediaTypeCycloneDX}"
    using valid media by (fastforce simp: job_keys_def)
  moreover have "\<exists>ref nonSSL. GetImageRef (with_capability req) = Inr (ref, nonSSL)"
    if u: "HasPrefix (reg_URL (req_Registry req)) ''http://'' \<or> HasPrefix (reg_URL (req_Registry req)) ''https://''"
      "CHR ''#'' \<notin> set (reg_URL (req_Registry req))"
  proof -
    obtain scheme rest where "getScheme (reg_URL (req_Registry req)) = Some (scheme, rest)" "scheme \<noteq> []"
      using http_scheme [OF u(1)] by blast
    then have "url_Parse (reg_URL (req_Registry req)) \<noteq> None"
      using parsers_agree u(2) assms by (simp add: validated)
    then show ?thesis by (auto simp: GetImageRef_def with_capability_def Let_def)
  qed
  ultimately show ?thesis by blast
qed

section \<open>Accepting\<close>

text \<open>
  C24. A scan request is either refused with a 4xx and without any effect, or valid, and then the
  request with its default capability is enqueued, once, and the answer is 202 with the identifier
  of the jobs, or 500 if enqueueing failed.
\<close>

theorem accept_or_refuse:
  assumes "run_state (AcceptScanRequest h req empty_response) w = (res, w')"
  shows "w' = w \<and> status res \<in> {Some 400, Some 422} \<or>
    (\<exists>scanRequest r. bindR (json_decode (hd_codec h) (rq_Body req)) ScanRequest_of_json = Inr scanRequest \<and>
       ValidateScanRequest scanRequest = None \<and>
       run_state (hd_Enqueue h (with_capability scanRequest)) w = (r, w') \<and>
       (case r of
          Inl _ \<Rightarrow> status res = Some 500
        | Inr i \<Rightarrow> status res = Some 202 \<and>
            body res = json_text (hd_codec h) (JObj [(''id'', JStr i)]) @ [CHR 0x0A]))"
proof (cases "bindR (json_decode (hd_codec h) (rq_Body req)) ScanRequest_of_json")
  case (Inl e)
  then show ?thesis using assms by (auto simp: AcceptScanRequest_def)
next
  case (Inr scanRequest)
  show ?thesis
  proof (cases "ValidateScanRequest scanRequest")
    case None
    obtain r w1 where r: "run_state (hd_Enqueue h (with_capability scanRequest)) w = (r, w1)" by fastforce
    then have "w' = w1 \<and> (case r of
          Inl _ \<Rightarrow> status res = Some 500
        | Inr i \<Rightarrow> status res = Some 202 \<and> body res = json_text (hd_codec h) (JObj [(''id'', JStr i)]) @ [CHR 0x0A])"
      using assms None Inr
      by (auto simp: AcceptScanRequest_def WriteJSON_def Write_def WriteHeader_def Let_def split: sum.splits)
    then show ?thesis using r Inr None by blast
  next
    case (Some e)
    then show ?thesis
      using assms Inr ValidateScanRequest_Some [OF Some] by (auto simp: AcceptScanRequest_def)
  qed
qed

section \<open>Fetching\<close>

text \<open>The status a found job answers with.\<close>

definition report_status :: "ScanJob option \<Rightarrow> int" where
  "report_status found =
     (case found of
        None \<Rightarrow> 404
      | Some j \<Rightarrow> if job_Status j = Finished then 200
                  else if job_Status j = Queued \<or> job_Status j = Pending then 302 else 500)"

text \<open>What a fetch answers, by what the lookup found.\<close>

lemma fetch_answers:
  assumes "MIMEType_Parse (rq_Accept req) = Inr mt" and "hd_decode h (rq_Query req) = Inr q"
    and "mt = MimeTypeSecuritySBOMReport \<longrightarrow> query_SBOMMediaType q \<noteq> []"
    and get: "run_state (hd_Get h \<lparr>key_ID = i, key_MIMEType = mt, key_MediaType = query_SBOMMediaType q\<rparr>) w = (Inr found, w1)"
    and run: "run_state (GetScanReport h (Some i) req empty_response) w = (res, w')"
  shows "status res = Some (report_status found) \<and>
    (report_status found = 302 \<longrightarrow> sent res ''Location'' = [rq_URL req] \<and> body res = []) \<and>
    (\<forall>j v. found = Some j \<longrightarrow> job_Status j = Finished \<longrightarrow> ScanReport_to_json (hd_codec h) (job_Report j) = Inr v \<longrightarrow>
       body res = json_text (hd_codec h) v @ [CHR 0x0A] \<and> sent res ''Content-Type'' = [MIMEType_String mt]) \<and>
    (\<forall>j. found = Some j \<longrightarrow> job_Status j = Failed \<longrightarrow>
       body res = json_text (hd_codec h) (Error_to_json \<lparr>HTTPCode = 500, Message = job_Error j\<rparr>) @ [CHR 0x0A]) \<and>
    srv w' = srv w1 \<and> hist w' = hist w1"
proof -
  have sbom: "\<not> (MIMEType_Equal mt MimeTypeSecuritySBOMReport \<and> query_SBOMMediaType q = [])"
  proof -
    have "mt = MimeTypeSecurityVulnerabilityReport \<or> mt = MimeTypeSecuritySBOMReport"
      using MIMEType_Parse_supported [OF assms(1)] by (simp add: supported_mime_def)
    moreover have "\<not> MIMEType_Equal MimeTypeSecurityVulnerabilityReport MimeTypeSecuritySBOMReport"
      by (simp add: MIMEType_Equal_def mime_defs)
    ultimately show ?thesis using assms(3) by auto
  qed
  obtain result res2 w2 where r: "run_state (report_response h i req mt found empty_response) w1 = ((result, res2), w2)"
    by (metis prod.collapse)
  have f: "run_state (fetch_report h (Some i) req empty_response) w = ((result, res2), w2)"
    using assms(1,2) sbom get r by (auto simp: fetch_report_def Let_def)
  then have "res = res2" "srv w' = srv w2" "hist w' = hist w2"
    using run by (auto simp: GetScanReport_def metric_def)
  moreover have "srv w2 = srv w1" "hist w2 = hist w1"
    using r by (auto simp: report_response_def Let_def Now_def metric_def split: option.splits if_splits prod.splits)
  moreover have "status res2 = Some (report_status found)"
    using r by (auto simp: report_response_def report_status_def Let_def Now_def metric_def status_defs
        Header_Add_def split: option.splits if_splits prod.splits)
  moreover have "sent res2 ''Location'' = [rq_URL req] \<and> body res2 = []" if "report_status found = 302"
    using r that by (auto simp: report_response_def report_status_def Let_def status_defs
        Header_Add_def WriteHeader_def empty_response_def split: option.splits if_splits)
  moreover have "body res2 = json_text (hd_codec h) v @ [CHR 0x0A] \<and> sent res2 ''Content-Type'' = [MIMEType_String mt]"
    if "found = Some j" "job_Status j = Finished" "ScanReport_to_json (hd_codec h) (job_Report j) = Inr v" for j v
    using r that by (auto simp: report_response_def Let_def status_defs Now_def metric_def WriteJSON_def Write_def
        WriteHeader_def Header_Set_def split: if_splits prod.splits)
  moreover have "body res2 = json_text (hd_codec h) (Error_to_json \<lparr>HTTPCode = 500, Message = job_Error j\<rparr>) @ [CHR 0x0A]"
    if "found = Some j" "job_Status j = Failed" for j
    using r that by (auto simp: report_response_def Let_def status_defs WriteJSONError_def WriteJSON_def Write_def
        WriteHeader_def Header_Set_def)
  ultimately show ?thesis by simp
qed

text \<open>
  C25. A well-formed report fetch answers with the state of the job that is stored under exactly the
  identifier, report type and format asked for: 302 to the same URL while it is queued or pending,
  200 with the report when it is finished, 500 with its error when it failed, 404 when there is
  none; and but for the metrics it does nothing beyond that one lookup.
\<close>

theorem report_answers_job:
  assumes "MIMEType_Parse (rq_Accept req) = Inr mt" and "hd_decode h (rq_Query req) = Inr q"
    and "mt = MimeTypeSecuritySBOMReport \<longrightarrow> query_SBOMMediaType q \<noteq> []"
    and get: "run_state (hd_Get h \<lparr>key_ID = i, key_MIMEType = mt, key_MediaType = query_SBOMMediaType q\<rparr>) w = (Inr found, w1)"
    and run: "run_state (GetScanReport h (Some i) req empty_response) w = (res, w')"
  shows "status res = Some (report_status found) \<and>
    (report_status found = 302 \<longrightarrow> sent res ''Location'' = [rq_URL req] \<and> body res = []) \<and>
    (\<forall>j v. found = Some j \<longrightarrow> job_Status j = Finished \<longrightarrow> ScanReport_to_json (hd_codec h) (job_Report j) = Inr v \<longrightarrow>
       body res = json_text (hd_codec h) v @ [CHR 0x0A] \<and> sent res ''Content-Type'' = [MIMEType_String mt]) \<and>
    (\<forall>j. found = Some j \<longrightarrow> job_Status j = Failed \<longrightarrow>
       body res = json_text (hd_codec h) (Error_to_json \<lparr>HTTPCode = 500, Message = job_Error j\<rparr>) @ [CHR 0x0A]) \<and>
    srv w' = srv w1 \<and> hist w' = hist w1"
  using fetch_answers [OF assms] .

section \<open>A job nobody can fetch\<close>

definition mismatched_request :: ScanRequest where
  "mismatched_request =
     \<lparr>req_Registry = \<lparr>reg_URL = ''https://r'', reg_Authorization = []\<rparr>,
      req_Artifact = \<lparr>art_Repository = ''p/i'', art_Digest = ''sha256:d'', art_MimeType = []\<rparr>,
      req_Capabilities = Some [default_capability\<lparr>ProducesMIMETypes := Some [MimeTypeSecuritySBOMReport]\<rparr>]\<rparr>"

lemma mismatched_request_valid: "ValidateScanRequest mismatched_request = None"
proof -
  have "ParseRequestURI ''https://r'' \<noteq> None" by code_simp
  then show ?thesis
    by (simp add: validated mismatched_request_def default_capability_def valid_capability_def
        CapabilityTypeSBOM_def CapabilityTypeVulnerability_def)
qed

text \<open>
  C26. Validation does not check that a capability's report types fit its scan type. A vulnerability
  capability that asks for the SBOM report type is accepted and makes a job under a key without a
  media type; as a fetch of an SBOM report must name one, no fetch ever looks at that key: whatever
  is stored under it, every answer of the API is the same.
\<close>

theorem mismatched_job_unreachable:
  assumes "key_MIMEType k = MimeTypeSecuritySBOMReport" and "key_MediaType k = []"
  shows "(\<exists>request. ValidateScanRequest request = None \<and> k \<in> set (job_keys (key_ID k) (with_capability request))) \<and>
    GetScanReport (h\<lparr>hd_Get := (hd_Get h)(k := stored)\<rparr>) scan_request_id req res = GetScanReport h scan_request_id req res"
proof
  have "k = \<lparr>key_ID = key_ID k, key_MIMEType = MimeTypeSecuritySBOMReport, key_MediaType = []\<rparr>"
    using assms by simp
  then have "k \<in> set (job_keys (key_ID k) (with_capability mismatched_request))"
    by (simp add: job_keys_def with_capability_def mismatched_request_def default_capability_def capability_media_types_def)
  then show "\<exists>request. ValidateScanRequest request = None \<and> k \<in> set (job_keys (key_ID k) (with_capability request))"
    using mismatched_request_valid by blast
next
  have key: "\<lparr>key_ID = i, key_MIMEType = mt, key_MediaType = m\<rparr> \<noteq> k"
    if "\<not> (MIMEType_Equal mt MimeTypeSecuritySBOMReport \<and> m = [])" for i mt m
    using that assms by (auto simp: MIMEType_Equal_def mime_defs param_def)
  have "report_response (h\<lparr>hd_Get := g\<rparr>) i req mt found res = report_response h i req mt found res" for g i mt found
    by (simp add: report_response_def Let_def split: option.split)
  then have "fetch_report (h\<lparr>hd_Get := (hd_Get h)(k := stored)\<rparr>) scan_request_id req res = fetch_report h scan_request_id req res"
    using key by (auto simp: fetch_report_def Let_def split: option.split sum.split)
  then show "GetScanReport (h\<lparr>hd_Get := (hd_Get h)(k := stored)\<rparr>) scan_request_id req res = GetScanReport h scan_request_id req res"
    by (simp add: GetScanReport_def)
qed

section \<open>Metrics\<close>

lemma JobLabels_pair: "(case JobLabels k of (c, f) \<Rightarrow> P c f) \<longleftrightarrow> P (fst (JobLabels k)) (snd (JobLabels k))"
  by (simp add: case_prod_beta)

lemma keeps_ready_check: "name \<in> {''queue'', ''worker'', ''binary''} \<Longrightarrow> keeps rec_ok m \<Longrightarrow> keeps rec_ok (ready_check name m)"
  unfolding ready_check_def by (intro wp_intros) simp_all

text \<open>
  C27. No request, whatever its method, path or body, makes the API record a metric that is not in
  the catalog or a label value outside the bounded sets: the components it calls keep that, and so
  does every handler and the instrumentation around them.
\<close>

theorem api_keeps_metrics_bounded:
  assumes "\<And>q. keeps rec_ok (hd_Enqueue h q)" and "\<And>k. keeps rec_ok (hd_Get h k)" and "keeps rec_ok (hd_GetVersion h)"
    and "\<And>m. hd_Available h = Some m \<Longrightarrow> keeps rec_ok m"
    and "\<And>a b. hd_worker h = Some (a, b) \<Longrightarrow> keeps rec_ok a \<and> keeps rec_ok b"
  shows "keeps rec_ok (NewAPIHandler rt h req res)"
proof -
  have report: "keeps rec_ok (report_response h i req mt found res)" for i mt found
    unfolding report_response_def Let_def by (intro wp_intros) simp_all
  have "keeps rec_ok (dispatch rt h ep vars req res)" for ep vars
  proof (cases ep)
    case EpScan
    show ?thesis unfolding EpScan dispatch.simps AcceptScanRequest_def Let_def by (intro wp_intros assms)
  next
    case EpReport
    show ?thesis unfolding EpReport dispatch.simps GetScanReport_def fetch_report_def Let_def
      by (intro wp_intros assms report) simp_all
  next
    case EpMetadata
    show ?thesis unfolding EpMetadata dispatch.simps GetMetadata_def by (intro wp_intros assms)
  next
    case EpHealthy
    show ?thesis unfolding EpHealthy dispatch.simps GetHealthy_def by (intro wp_intros)
  next
    case EpReady
    show ?thesis unfolding EpReady dispatch.simps GetReady_def Let_def
      by (intro wp_intros keeps_ready_check) (use assms in auto)
  next
    case EpMetrics
    show ?thesis unfolding EpMetrics dispatch.simps by (intro wp_intros)
  qed
  then have serve: "keeps rec_ok (ServeHTTP rt h req res)"
    unfolding ServeHTTP_def by (intro wp_intros)
  then have "keeps rec_ok (instrument rt h req res)"
    unfolding instrument_def Let_def by (intro wp_intros) simp_all
  then show ?thesis unfolding NewAPIHandler_def by (intro wp_intros serve)
qed

section \<open>From a scan request to its poll\<close>

text \<open>What enqueueing a single job does.\<close>

lemma Enqueue_single:
  assumes run: "run_state (enqueuer_Enqueue st C namespace request) w = (Inr i', w1)"
    and ent: "entropy w = b # bs" "12 \<le> length b"
    and keys: "job_keys (hex (take 12 b)) request = [k]"
  shows "i' = hex (take 12 b) \<and>
    (\<exists>b w2 f. Job_to_json C \<lparr>EnqueuedAt = clock w, q_Name = scanArtifactJobName, q_Key = k, q_ScanRequest = Some request\<rparr> = Inr b \<and>
       run_state (Enqueue st (zero_ScanJob\<lparr>job_Key := k, job_Status := Queued\<rparr>) (redisJobStream namespace) (json_text C b))
         (w\<lparr>entropy := bs\<rparr>) = (Inr (), w2) \<and> w1 = w2\<lparr>recorder := f\<rparr>)"
proof -
  let ?i = "hex (take 12 b)" and ?w = "w\<lparr>entropy := bs\<rparr>"
  have "run_state makeIdentifier w = (?i, ?w)" using ent by (simp add: makeIdentifier_def)
  then have keys_run: "run_state (enqueue_keys st C namespace request [k]) ?w = (Inr (), w1)" and i: "i' = ?i"
    using run keys by (auto simp: enqueuer_Enqueue_def split: if_splits prod.splits sum.splits)
  have "run_state (enqueue_one st C namespace
      \<lparr>EnqueuedAt = clock ?w, q_Name = scanArtifactJobName, q_Key = k, q_ScanRequest = Some request\<rparr>
      (zero_ScanJob\<lparr>job_Key := k, job_Status := Queued\<rparr>)) ?w = (Inr (), w1)"
    using keys_run by (auto simp: Now_def split: prod.splits sum.splits)
  then show ?thesis
    using i by (auto simp: enqueue_one_def metric_def split: sum.splits prod.splits)
qed

text \<open>What a 202 says: the single job of the request was enqueued, and the identifier given out is the job's.\<close>

lemma accepted_single:
  assumes h: "hd_codec h = C" "hd_Enqueue h = enqueuer_Enqueue (redis_store R C cfg) C namespace"
    and ent: "entropy w = b # bs" "12 \<le> length b"
    and request: "bindR (json_decode C (rq_Body req)) ScanRequest_of_json = Inr request"
      "job_keys (hex (take 12 b)) (with_capability request) = [k]"
    and accept: "run_state (AcceptScanRequest h req empty_response) w = (res, w1)" "status res = Some 202"
  shows "hex (take 12 b) = key_ID k \<and> body res = json_text C (JObj [(''id'', JStr (key_ID k))]) @ [CHR 0x0A] \<and>
    (\<exists>d w4 f. Job_to_json C \<lparr>EnqueuedAt = clock w, q_Name = scanArtifactJobName, q_Key = k,
        q_ScanRequest = Some (with_capability request)\<rparr> = Inr d \<and>
       run_state (store_Enqueue R C cfg (zero_ScanJob\<lparr>job_Key := k, job_Status := Queued\<rparr>) (redisJobStream namespace) (json_text C d))
         (w\<lparr>entropy := bs\<rparr>) = (Inr (), w4) \<and> w1 = w4\<lparr>recorder := f\<rparr>)"
proof -
  let ?i = "hex (take 12 b)"
  obtain r w0 where enq: "run_state (enqueuer_Enqueue (redis_store R C cfg) C namespace (with_capability request)) w = (r, w0)"
    by fastforce
  have valid: "ValidateScanRequest request = None"
    using accept request(1) h(1) ValidateScanRequest_Some by (fastforce simp: AcceptScanRequest_def Let_def split: option.splits)
  have "\<exists>i'. r = Inr i'" and w0: "w0 = w1"
    using accept request(1) valid enq h by (auto simp: AcceptScanRequest_def Let_def split: sum.splits)
  then obtain i' where r: "r = Inr i'" by blast
  note single = Enqueue_single [OF enq [unfolded r w0] ent request(2)]
  have id: "?i = key_ID k"
  proof -
    have "k \<in> set (job_keys ?i (with_capability request))" using request(2) by simp
    then show ?thesis by (simp add: job_keys_ID)
  qed
  have "body res = json_text C (JObj [(''id'', JStr ?i)]) @ [CHR 0x0A]"
    using accept(1) request(1) valid enq h r single
    by (auto simp: AcceptScanRequest_def WriteJSON_def Write_def WriteHeader_def Let_def)
  then show ?thesis using single id by (auto simp: redis_store_def)
qed

text \<open>
  C28. The whole path of a first poll. A valid request that makes one job is answered with 500 if it
  could not be enqueued; otherwise with 202 and the identifier of the job, and then, while nothing else
  touches the server, fetching that identifier under the job's report type and format is answered with
  302 to the same URL, not with 404: the job is stored before the identifier is given out.
\<close>

theorem accepted_job_is_pollable:
  assumes server: "redis_server R V" and laws: "codec_laws C"
    and h: "hd_codec h = C" "hd_Enqueue h = enqueuer_Enqueue (redis_store R C cfg) C namespace" "hd_Get h = store_Get R C cfg"
    and ent: "entropy w = b # bs" "12 \<le> length b" and quiet: "turns w = []"
    and request: "bindR (json_decode C (rq_Body req)) ScanRequest_of_json = Inr request"
      "job_keys (hex (take 12 b)) (with_capability request) = [k]"
    and valid: "ValidateScanRequest request = None"
    and fresh: "ks (V (srv w)) (keyForScanJob cfg k) = None" "ks (V (srv w)) (keyForScanReport cfg k) = None"
      "redisJobStream namespace \<noteq> keyForScanReport cfg k"
    and size: "marshalSized C (ScanJob_to_json C (zero_ScanJob\<lparr>job_Key := k, job_Status := Queued\<rparr>)) = Inr (z, n)"
      "n \<le> maxDecompressedSize"
    and accept: "run_state (AcceptScanRequest h req empty_response) w = (res, w1)"
    and poll: "MIMEType_Parse (rq_Accept req') = Inr (key_MIMEType k)"
      "hd_decode h (rq_Query req') = Inr \<lparr>query_SBOMMediaType = key_MediaType k\<rparr>"
      "MIMEType_Equal (key_MIMEType k) MimeTypeSecuritySBOMReport \<longrightarrow> key_MediaType k \<noteq> []"
    and get: "run_state (store_Get R C cfg k) w1 = (Inr found, w3)"
    and fetch: "run_state (GetScanReport h (Some (hex (take 12 b))) req' empty_response) w1 = (res', w2)"
  shows "case fst (run_state (enqueuer_Enqueue (redis_store R C cfg) C namespace (with_capability request)) w) of
      Inl e \<Rightarrow> status res = Some 500
    | Inr i \<Rightarrow> i = hex (take 12 b) \<and> status res = Some 202 \<and>
        body res = json_text C (JObj [(''id'', JStr (hex (take 12 b)))]) @ [CHR 0x0A] \<and>
        status res' = Some 302 \<and> sent res' ''Location'' = [rq_URL req']"
proof -
  let ?i = "hex (take 12 b)" and ?j = "zero_ScanJob\<lparr>job_Key := k, job_Status := Queued\<rparr>"
  obtain r w0 where enq: "run_state (enqueuer_Enqueue (redis_store R C cfg) C namespace (with_capability request)) w = (r, w0)"
    by fastforce
  note answer = accept [unfolded AcceptScanRequest_def Let_def h(1,2) request(1) sum.case valid option.case]
  show ?thesis
  proof (cases r)
    case (Inl e)
    then show ?thesis using answer enq by auto
  next
    case (Inr i')
    have ok: "status res = Some 202" using answer enq Inr by auto
    have "w0 = w1" using answer enq Inr by auto
    then have i': "i' = ?i" using Enqueue_single [OF enq [unfolded Inr] ent request(2)] by blast
    note single = accepted_single [OF h(1,2) ent request accept ok]
    then obtain d w4 f where w1: "w1 = w4\<lparr>recorder := f\<rparr>"
      and st: "run_state (store_Enqueue R C cfg ?j (redisJobStream namespace) (json_text C d)) (w\<lparr>entropy := bs\<rparr>) = (Inr (), w4)"
      by blast
    have id: "?i = key_ID k" using single by blast
    have mime: "supported_mime (key_MIMEType k)" using MIMEType_Parse_supported poll(1) .
    have wf: "wf_job ?j"
      using mime by (simp add: wf_job_def wf_key_def zero_ScanJob_def int64_def Queued_def zero_Report_def wf_report_def valid_severity_def)
    obtain v' where "quiet V v' w4" and stored: "job_stored C v' (keyForScanJob cfg k) ?j" "ks v' (keyForScanReport cfg k) = None"
      using redis_server.enqueue_stores [OF server laws wf size _ _ _ _ st] quiet fresh by auto
    then have q: "quiet V v' w1" by (simp add: w1)
    have "found = Some ?j"
      using wpD [OF redis_server.wp_Get [OF server stored(1), of ?j] q get] stored(2) by simp
    have key: "\<lparr>key_ID = ?i, key_MIMEType = key_MIMEType k, key_MediaType = key_MediaType k\<rparr> = k" unfolding id by simp
    have "run_state (fetch_report h (Some ?i) req' empty_response) w1 =
        ((''pending'', WriteHeader 302 (Header_Add ''Location'' (rq_URL req') empty_response)), w3)"
      using poll h(3) get \<open>found = Some ?j\<close> by (auto simp: fetch_report_def report_response_def Let_def key)
    then have "res' = WriteHeader 302 (Header_Add ''Location'' (rq_URL req') empty_response)"
      using fetch by (auto simp: GetScanReport_def metric_def)
    moreover have "body res = json_text C (JObj [(''id'', JStr ?i)]) @ [CHR 0x0A]" using single id by simp
    ultimately show ?thesis using ok enq Inr i' by (simp add: Header_Add_def WriteHeader_def empty_response_def)
  qed
qed

section \<open>Examples\<close>

definition ex_request :: ScanRequest where
  "ex_request =
     \<lparr>req_Registry = \<lparr>reg_URL = ''https://r'', reg_Authorization = []\<rparr>,
      req_Artifact = \<lparr>art_Repository = ''p/i'', art_Digest = ''sha256:d'', art_MimeType = []\<rparr>, req_Capabilities = None\<rparr>"

lemma ex_request_valid: "ValidateScanRequest ex_request = None"
proof -
  have "ParseRequestURI ''https://r'' \<noteq> None" by code_simp
  then show ?thesis by (simp add: validated ex_request_def)
qed

definition ex_id :: string where "ex_id = hex (replicate 12 CHR ''a'')"

definition ex_id_key :: ScanJobKey where
  "ex_id_key = \<lparr>key_ID = ex_id, key_MIMEType = MimeTypeSecurityVulnerabilityReport, key_MediaType = []\<rparr>"

lemma ex_keys: "job_keys i (with_capability ex_request) = [\<lparr>key_ID = i, key_MIMEType = MimeTypeSecurityVulnerabilityReport, key_MediaType = []\<rparr>]"
  by (simp add: job_keys_def with_capability_def ex_request_def default_capability_def capability_media_types_def)

lemma ref_Enqueue_ok:
  assumes "turns w = []" "marshalSized C (ScanJob_to_json C j) = Inr (z, n)" "ks (rv (srv w)) (keyForScanJob cfg (job_Key j)) = None"
    "ks (rv (srv w)) stream = None" "oom (srv w) = []"
  shows "fst (run_state (store_Enqueue ref_redis C cfg j stream payload) w) = Inr ()"
  using assms
  by (simp add: store_Enqueue_def operation_def Now_def metric_def Let_def call_quiet quiet_def ref_redis_def change_def
     of_opt_def enqueueScript_def with_stream_def put_value_def put_ttl_def split: prod.split)
lemma ex_size: "case marshalSized ref_codec (ScanJob_to_json ref_codec (zero_ScanJob\<lparr>job_Key := ex_id_key, job_Status := Queued\<rparr>)) of
    Inr (z, n) \<Rightarrow> int n \<le> 1000 | Inl e \<Rightarrow> False"
proof -
  have "case ScanJob_to_json ref_codec (zero_ScanJob\<lparr>job_Key := ex_id_key, job_Status := Queued\<rparr>) of Inr v \<Rightarrow> ilen (json_text ref_codec v) \<le> 1000 | Inl e \<Rightarrow> False"
    by code_simp
  then show ?thesis
    by (auto simp: marshalSized_def Let_def ilen_length ref_codec_def split: sum.splits)
qed

definition ex_handler :: "(ref, unit) requestHandler" where
  "ex_handler =
     \<lparr>hd_info = \<lparr>bi_Version = ''v1'', bi_Commit = [], bi_Date = []\<rparr>, hd_config = ex_parsed,
      hd_Enqueue = enqueuer_Enqueue (redis_store ref_redis ref_codec ex_cfg) ref_codec ''q'',
      hd_Get = store_Get ref_redis ref_codec ex_cfg, hd_GetVersion = failE Canceled, hd_Available = None, hd_worker = None,
      hd_codec = ref_codec, hd_rfc3339 = (\<lambda>_. []), hd_TRIVY_VERSION = None,
      hd_decode = (\<lambda>_. Inr \<lparr>query_SBOMMediaType = []\<rparr>)\<rparr>"

definition ex_post :: Request where
  "ex_post = \<lparr>rq_Method = ''POST'', rq_Path = ''/api/v1/scan'', rq_URL = ''/api/v1/scan'', rq_Query = [], rq_Accept = [],
     rq_Body = json_text ref_codec (ScanRequest_to_json ex_request)\<rparr>"

definition ex_fetch :: Request where
  "ex_fetch = \<lparr>rq_Method = ''GET'', rq_Path = ''/api/v1/scan/x/report'', rq_URL = ''/api/v1/scan/x/report'', rq_Query = [],
     rq_Accept = [], rq_Body = []\<rparr>"

lemma ex_post_decodes: "bindR (json_decode ref_codec (rq_Body ex_post)) ScanRequest_of_json = Inr ex_request"
proof -
  have "wf_request ex_request" by (simp add: wf_request_def ex_request_def)
  then show ?thesis by (simp add: ex_post_def refc.decode_round ScanRequest_round)
qed

theorem validated_request_workable_witness:
  "job_keys ''7'' (with_capability ex_request) \<noteq> [] \<and> (\<exists>ref nonSSL. GetImageRef (with_capability ex_request) = Inr (ref, nonSSL))"
proof -
  have "HasPrefix (reg_URL (req_Registry ex_request)) ''https://''" "CHR ''#'' \<notin> set (reg_URL (req_Registry ex_request))"
    by (simp_all add: ex_request_def)
  then show ?thesis using validated_request_workable [OF ex_request_valid, of "''7''"] by blast
qed

text \<open>A body that is not JSON.\<close>

theorem accept_or_refuse_witness:
  "\<exists>res w'. run_state (AcceptScanRequest (ex_handler\<lparr>hd_codec := ref_codec\<lparr>json_decode := \<lambda>_. Inl ''EOF''\<rparr>\<rparr>) ex_post empty_response)
     ex_world = (res, w') \<and> w' = ex_world \<and> status res \<in> {Some 400, Some 422}"
proof -
  obtain res w' where run: "run_state (AcceptScanRequest (ex_handler\<lparr>hd_codec := ref_codec\<lparr>json_decode := \<lambda>_. Inl ''EOF''\<rparr>\<rparr>) ex_post
      empty_response) ex_world = (res, w')" by fastforce
  from accept_or_refuse [OF run] show ?thesis using run by simp
qed

theorem report_answers_job_witness:
  "\<exists>res w'. run_state (GetScanReport (ex_handler\<lparr>hd_Get := \<lambda>_. okE None\<rparr>) (Some ''x'') ex_fetch empty_response) ex_world = (res, w') \<and>
     status res = Some 404"
proof -
  let ?h = "ex_handler\<lparr>hd_Get := \<lambda>_. okE None\<rparr>"
  obtain res w' where run: "run_state (GetScanReport ?h (Some ''x'') ex_fetch empty_response) ex_world = (res, w')" by fastforce
  have a: "MIMEType_Parse (rq_Accept ex_fetch) = Inr MimeTypeSecurityVulnerabilityReport"
    by (simp add: ex_fetch_def MIMEType_Parse_def)
  have d: "hd_decode ?h (rq_Query ex_fetch) = Inr \<lparr>query_SBOMMediaType = []\<rparr>" by (simp add: ex_handler_def)
  have m: "MimeTypeSecurityVulnerabilityReport = MimeTypeSecuritySBOMReport \<longrightarrow> query_SBOMMediaType \<lparr>query_SBOMMediaType = []\<rparr> \<noteq> []"
    by (simp add: mime_defs)
  have g: "run_state (hd_Get ?h \<lparr>key_ID = ''x'', key_MIMEType = MimeTypeSecurityVulnerabilityReport,
      key_MediaType = query_SBOMMediaType \<lparr>query_SBOMMediaType = []\<rparr>\<rparr>) ex_world = (Inr None, ex_world)" by simp
  from report_answers_job [OF a d m g run] show ?thesis using run by (simp add: report_status_def)
qed

theorem mismatched_job_unreachable_witness:
  "(\<exists>request. ValidateScanRequest request = None \<and>
      \<lparr>key_ID = ''7'', key_MIMEType = MimeTypeSecuritySBOMReport, key_MediaType = []\<rparr> \<in> set (job_keys ''7'' (with_capability request))) \<and>
   GetScanReport (ex_handler\<lparr>hd_Get := (hd_Get ex_handler)
       (\<lparr>key_ID = ''7'', key_MIMEType = MimeTypeSecuritySBOMReport, key_MediaType = []\<rparr> := okE (Some ex_job))\<rparr>)
     (Some ''7'') ex_fetch empty_response = GetScanReport ex_handler (Some ''7'') ex_fetch empty_response"
  using mismatched_job_unreachable [of "\<lparr>key_ID = ''7'', key_MIMEType = MimeTypeSecuritySBOMReport, key_MediaType = []\<rparr>"
      ex_handler "okE (Some ex_job)" "Some ''7''" ex_fetch empty_response] by simp

definition ex_router :: "(ref, unit) router" where
  "ex_router = \<lparr>rt_match = (\<lambda>rs m p. map_option (\<lambda>r. (r, [])) (find (\<lambda>r. fst r = m \<and> fst (snd r) = p) rs)),
     rt_fallback = (\<lambda>_. WriteHeader 404), rt_metrics_page = (\<lambda>_ _. WriteHeader 200)\<rparr>"

theorem api_keeps_metrics_bounded_witness:
  "keeps rec_ok (NewAPIHandler ex_router (ex_handler\<lparr>hd_Enqueue := \<lambda>_. okE ''7'', hd_Get := \<lambda>_. okE None\<rparr>) ex_post empty_response)"
  by (rule api_keeps_metrics_bounded) (auto simp: ex_handler_def intro: keeps_okE keeps_failE)

abbreviation ex_queued :: ScanJob where
  "ex_queued \<equiv> zero_ScanJob\<lparr>job_Key := ex_id_key, job_Status := Queued\<rparr>"

lemma ex_Job_to_json: "\<exists>b. Job_to_json ref_codec
    \<lparr>EnqueuedAt = 1000000000, q_Name = scanArtifactJobName, q_Key = ex_id_key, q_ScanRequest = Some r\<rparr> = Inr b"
  by (simp add: Job_to_json_def ref_codec_def)

lemma ex_enqueued:
  "\<exists>w1. run_state (enqueuer_Enqueue (redis_store ref_redis ref_codec ex_cfg) ref_codec ''q'' (with_capability ex_request)) ex_world
     = (Inr ex_id, w1)"
proof -
  let ?w = "ex_world\<lparr>entropy := []\<rparr>"
  have i: "run_state makeIdentifier ex_world = (ex_id, ?w)"
    by (simp add: makeIdentifier_def ex_world_def world_of_def ex_id_def)
  obtain z n where z: "marshalSized ref_codec (ScanJob_to_json ref_codec ex_queued) = Inr (z, n)"
    using ex_size by (auto split: sum.splits)
  have "fst (run_state (store_Enqueue ref_redis ref_codec ex_cfg ex_queued (redisJobStream ''q'') payload) ?w) = Inr ()" for payload
    by (rule ref_Enqueue_ok [OF _ z]) (simp_all add: ex_world_def world_of_def ex_server_def)
  moreover obtain b where b: "Job_to_json ref_codec \<lparr>EnqueuedAt = 1000000000, q_Name = scanArtifactJobName, q_Key = ex_id_key,
      q_ScanRequest = Some (with_capability ex_request)\<rparr> = Inr b"
    using ex_Job_to_json by blast
  ultimately obtain w1 where st: "run_state (store_Enqueue ref_redis ref_codec ex_cfg ex_queued (redisJobStream ''q'') (json_text ref_codec b)) ?w
      = (Inr (), w1)"
    by (metis prod.collapse)
  have clock: "clock ?w = 1000000000" by (simp add: ex_world_def world_of_def)
  have "run_state (enqueue_one (redis_store ref_redis ref_codec ex_cfg) ref_codec ''q'' \<lparr>EnqueuedAt = 1000000000, q_Name = scanArtifactJobName,
      q_Key = ex_id_key, q_ScanRequest = Some (with_capability ex_request)\<rparr> ex_queued) ?w
    = (Inr (), w1\<lparr>recorder := map_option (Inc ''jobs_enqueued_total'' [fst (JobLabels ex_id_key), snd (JobLabels ex_id_key)]) (recorder w1)\<rparr>)"
    using st by (simp add: enqueue_one_def b redis_store_def metric_def case_prod_beta)
  then have "\<exists>w2. run_state (enqueue_keys (redis_store ref_redis ref_codec ex_cfg) ref_codec ''q'' (with_capability ex_request) [ex_id_key]) ?w = (Inr (), w2)"
    using clock by (simp add: Now_def)
  moreover have "items (req_Capabilities (with_capability ex_request)) \<noteq> []" by (simp add: with_capability_def)
  ultimately show ?thesis
    using i ex_keys [of ex_id, folded ex_id_key_def] by (auto simp: enqueuer_Enqueue_def)
qed

theorem accepted_job_is_pollable_witness:
  "\<exists>res w1 res' w2. run_state (AcceptScanRequest ex_handler ex_post empty_response) ex_world = (res, w1) \<and> status res = Some 202 \<and>
     run_state (GetScanReport ex_handler (Some ex_id) ex_fetch empty_response) w1 = (res', w2) \<and> status res' = Some 302"
proof -
  let ?b = "replicate 12 CHR ''a''"
  have h: "hd_codec ex_handler = ref_codec" "hd_Enqueue ex_handler = enqueuer_Enqueue (redis_store ref_redis ref_codec ex_cfg) ref_codec ''q''"
    "hd_Get ex_handler = store_Get ref_redis ref_codec ex_cfg" by (simp_all add: ex_handler_def)
  have ent: "entropy ex_world = ?b # []" "12 \<le> length ?b" "turns ex_world = []" by (simp_all add: ex_world_def world_of_def)
  have i: "hex (take 12 ?b) = ex_id" unfolding ex_id_def by (rule arg_cong) simp
  obtain w1 where e: "run_state (enqueuer_Enqueue (redis_store ref_redis ref_codec ex_cfg) ref_codec ''q'' (with_capability ex_request)) ex_world
      = (Inr ex_id, w1)" using ex_enqueued by blast
  obtain res where accept: "run_state (AcceptScanRequest ex_handler ex_post empty_response) ex_world = (res, w1)" "status res = Some 202"
    using e by (simp add: AcceptScanRequest_def h ex_post_decodes ex_request_valid Let_def)
  obtain z n where z: "marshalSized ref_codec (ScanJob_to_json ref_codec ex_queued) = Inr (z, n)" "n \<le> maxDecompressedSize"
    using ex_size by (auto simp: maxDecompressedSize_def split: sum.splits)
  have fresh: "ks (rv (srv ex_world)) k = None" for k by (simp add: ex_world_def world_of_def ex_server_def)
  have stream: "redisJobStream ''q'' \<noteq> keyForScanReport ex_cfg ex_id_key"
    by (simp add: redisJobStream_def keyForScanReport_def ex_cfg_def)
  have mime: "MIMEType_Parse (rq_Accept ex_fetch) = Inr (key_MIMEType ex_id_key)"
    "hd_decode ex_handler (rq_Query ex_fetch) = Inr \<lparr>query_SBOMMediaType = key_MediaType ex_id_key\<rparr>"
    "MIMEType_Equal (key_MIMEType ex_id_key) MimeTypeSecuritySBOMReport \<longrightarrow> key_MediaType ex_id_key \<noteq> []"
    by (simp_all add: ex_fetch_def MIMEType_Parse_def ex_id_key_def ex_handler_def MIMEType_Equal_def mime_defs)
  have keys: "job_keys (hex (take 12 ?b)) (with_capability ex_request) = [ex_id_key]" unfolding i by (simp add: ex_keys ex_id_key_def)
  obtain d w4 f where w1: "w1 = w4\<lparr>recorder := f\<rparr>"
    and st: "run_state (store_Enqueue ref_redis ref_codec ex_cfg ex_queued (redisJobStream ''q'') (json_text ref_codec d)) (ex_world\<lparr>entropy := []\<rparr>) = (Inr (), w4)"
    using Enqueue_single [OF e ent(1,2) keys] by (auto simp: redis_store_def)
  have wf: "wf_job ex_queued"
    by (simp add: wf_job_def wf_key_def zero_ScanJob_def int64_def Queued_def zero_Report_def wf_report_def valid_severity_def
        ex_id_key_def supported_mime_def)
  obtain v where "quiet rv v w4" "job_stored ref_codec v (keyForScanJob ex_cfg ex_id_key) ex_queued" "ks v (keyForScanReport ex_cfg ex_id_key) = None"
    using redis_server.enqueue_stores [OF ref.redis_server_axioms refc.codec_laws_axioms wf z _ _ _ _ st] ent fresh stream by auto
  then have "fst (run_state (store_Get ref_redis ref_codec ex_cfg ex_id_key) w1) = Inr (Some ex_queued)"
    by (intro ref_Get_ok) (simp_all add: w1)
  then obtain w3 where get: "run_state (store_Get ref_redis ref_codec ex_cfg ex_id_key) w1 = (Inr (Some ex_queued), w3)"
    by (metis prod.collapse)
  obtain res' w2 where fetch: "run_state (GetScanReport ex_handler (Some (hex (take 12 ?b))) ex_fetch empty_response) w1 = (res', w2)"
    by fastforce
  from accepted_job_is_pollable [OF ref.redis_server_axioms refc.codec_laws_axioms h ent(1,2,3) ex_post_decodes keys
      ex_request_valid fresh fresh stream z accept(1) mime get fetch]
  show ?thesis using accept fetch e unfolding i by auto
qed

end
