(* ===== verification/Govuln_Report.thy ===== *)
theory Govuln_Report
  imports Errors "HOL-Library.List_Lexorder" "HOL-Library.Char_ord" "HOL-Library.Product_Lexorder"
begin

text \<open>
  \<^verbatim>\<open>tools/govulncheck-report/report.go\<close>: the analysis of a govulncheck report. Reading the stream is
  \<^verbatim>\<open>encoding/json\<close>'s: the analysis is given what each \<^verbatim>\<open>Decode\<close> returned up to the end of the file, a
  message or an error.
\<close>

section \<open>Data\<close>

type_synonym reachability = int

definition reachRequired :: reachability where "reachRequired = 0"
definition reachImported :: reachability where "reachImported = 1"
definition reachCalled :: reachability where "reachCalled = 2"

definition reachability_String :: "reachability \<Rightarrow> string" where
  "reachability_String r =
     (if r = reachCalled then ''Called'' else if r = reachImported then ''Imported'' else ''Required'')"

record Finding =
  fd_ID :: string
  fd_Module :: string
  fd_Version :: string
  fd_FixedVersion :: string
  fd_Reachability :: string
  fd_Trace :: string
  fd_Summary :: string
  fd_level :: reachability

record Summary =
  sum_ScannerError :: bool
  sum_ExitCode :: int
  FindingCount :: nat
  FixableFindingCount :: nat
  CalledFindingCount :: nat
  ParseErrors :: "string list"
  ScannerVersion :: string
  GoVersion :: string
  Findings :: "Finding list"

record configMessage =
  cm_ScannerName :: string
  cm_ScannerVersion :: string
  cm_GoVersion :: string

text \<open>Of \<^verbatim>\<open>Affected\<close> only the package names are read.\<close>

record osvEntry =
  osv_ID :: string
  osv_Summary :: string
  osv_Details :: string
  osv_Affected :: "string list"

record frame =
  fr_Module :: string
  fr_Version :: string
  fr_Package :: string
  fr_Function :: string
  fr_Receiver :: string

record rawFinding =
  rf_OSV :: string
  rf_FixedVersion :: string
  rf_Trace :: "frame list"

record message =
  msg_Config :: "configMessage option"
  msg_OSV :: "osvEntry option"
  msg_Finding :: "rawFinding option"

section \<open>Describing a finding\<close>

definition lastPathSegment :: "string \<Rightarrow> string" where
  "lastPathSegment path = (case LastIndex path ''/'' of Some i \<Rightarrow> drop (i + 1) path | None \<Rightarrow> path)"

definition symbolLabel :: "frame \<Rightarrow> string" where
  "symbolLabel f =
     (let name = (if fr_Receiver f \<noteq> [] then fr_Receiver f @ ''.'' @ fr_Function f else fr_Function f);
          pkg = lastPathSegment (fr_Package f)
      in if pkg \<noteq> [] then pkg @ ''.'' @ name else name)"

definition fallbackModule :: "osvEntry \<Rightarrow> string" where
  "fallbackModule osv = (case find (\<lambda>n. n \<noteq> []) (osv_Affected osv) of Some n \<Rightarrow> n | None \<Rightarrow> ''unknown'')"

definition describe :: "rawFinding \<Rightarrow> osvEntry \<Rightarrow> string \<times> string \<times> reachability \<times> string" where
  "describe raw osv =
     (case rf_Trace raw of
        [] \<Rightarrow> (fallbackModule osv, [], reachRequired, [])
      | vuln # _ \<Rightarrow>
          let module = (if fr_Module vuln = [] then fallbackModule osv else fr_Module vuln) in
          if fr_Function vuln \<noteq> [] then (module, fr_Version vuln, reachCalled, symbolLabel vuln)
          else if fr_Package vuln \<noteq> [] then (module, fr_Version vuln, reachImported, [])
          else (module, fr_Version vuln, reachRequired, []))"

text \<open>\<^verbatim>\<open>shorten\<close> counts runes: a rune starts at each byte that does not continue one.\<close>

definition rune_start :: "char \<Rightarrow> bool" where
  "rune_start c \<longleftrightarrow> \<not> (128 \<le> (of_char c :: nat) \<and> of_char c < (192 :: nat))"

definition rune_count :: "string \<Rightarrow> nat" where
  "rune_count s = length (filter rune_start s)"

fun take_runes :: "nat \<Rightarrow> string \<Rightarrow> string" where
  "take_runes n [] = []"
| "take_runes n (c # cs) =
     (if rune_start c then (case n of 0 \<Rightarrow> [] | Suc m \<Rightarrow> c # take_runes m cs) else c # take_runes n cs)"

definition shorten :: "string \<Rightarrow> nat \<Rightarrow> string" where
  "shorten val limit =
     (let text = Join (Fields val) '' '' in
      if rune_count text \<le> limit then text else take_runes (limit - 3) text @ ''...'')"

definition summarize :: "osvEntry \<Rightarrow> string" where
  "summarize osv = shorten (if osv_Summary osv = [] then osv_Details osv else osv_Summary osv) 200"

section \<open>The analysis\<close>

text \<open>What the reading loop has seen; an error ends it.\<close>

record reading =
  rd_parseErrors :: "string list"
  rd_sawConfig :: bool
  rd_cfg :: configMessage
  rd_osvByID :: "string \<Rightarrow> osvEntry option"
  rd_findings :: "rawFinding list"

definition start_reading :: reading where
  "start_reading = \<lparr>rd_parseErrors = [], rd_sawConfig = False,
     rd_cfg = \<lparr>cm_ScannerName = [], cm_ScannerVersion = [], cm_GoVersion = []\<rparr>,
     rd_osvByID = (\<lambda>_. None), rd_findings = []\<rparr>"

definition read_message :: "message \<Rightarrow> reading \<Rightarrow> reading" where
  "read_message msg r =
     (case msg_Config msg of
        Some c \<Rightarrow> r\<lparr>rd_sawConfig := True, rd_cfg := c\<rparr>
      | None \<Rightarrow>
          (case msg_OSV msg of
             Some osv \<Rightarrow>
               if osv_ID osv \<noteq> [] then r\<lparr>rd_osvByID := (rd_osvByID r)(osv_ID osv \<mapsto> osv)\<rparr>
               else (case msg_Finding msg of
                       Some f \<Rightarrow> if rf_OSV f \<noteq> [] then r\<lparr>rd_findings := rd_findings r @ [f]\<rparr> else r
                     | None \<Rightarrow> r)
           | None \<Rightarrow>
               (case msg_Finding msg of
                  Some f \<Rightarrow> if rf_OSV f \<noteq> [] then r\<lparr>rd_findings := rd_findings r @ [f]\<rparr> else r
                | None \<Rightarrow> r)))"

fun read_stream :: "(string + message) list \<Rightarrow> reading \<Rightarrow> reading" where
  "read_stream [] r = r"
| "read_stream (Inl err # ms) r = r\<lparr>rd_parseErrors := rd_parseErrors r @ [err]\<rparr>"
| "read_stream (Inr msg # ms) r = read_stream ms (read_message msg r)"

definition zero_osv :: osvEntry where
  "zero_osv = \<lparr>osv_ID = [], osv_Summary = [], osv_Details = [], osv_Affected = []\<rparr>"

definition osv_of :: "(string \<Rightarrow> osvEntry option) \<Rightarrow> rawFinding \<Rightarrow> osvEntry" where
  "osv_of osvs raw = (case osvs (rf_OSV raw) of Some osv \<Rightarrow> osv | None \<Rightarrow> zero_osv)"

definition finding_key :: "(string \<Rightarrow> osvEntry option) \<Rightarrow> rawFinding \<Rightarrow> string" where
  "finding_key osvs raw = rf_OSV raw @ [CHR 0x00] @ fst (describe raw (osv_of osvs raw))"

definition new_finding :: "(string \<Rightarrow> osvEntry option) \<Rightarrow> rawFinding \<Rightarrow> Finding" where
  "new_finding osvs raw =
     (case describe raw (osv_of osvs raw) of (module, version, level, trace) \<Rightarrow>
        \<lparr>fd_ID = rf_OSV raw, fd_Module = module, fd_Version = version, fd_FixedVersion = rf_FixedVersion raw,
         fd_Reachability = reachability_String level, fd_Trace = trace, fd_Summary = summarize (osv_of osvs raw),
         fd_level = level\<rparr>)"

definition merge_finding :: "(string \<Rightarrow> osvEntry option) \<Rightarrow> rawFinding \<Rightarrow> Finding \<Rightarrow> Finding" where
  "merge_finding osvs raw existing =
     (case describe raw (osv_of osvs raw) of (module, version, level, trace) \<Rightarrow>
        let e = (if level > fd_level existing
                 then existing\<lparr>fd_level := level, fd_Reachability := reachability_String level, fd_Trace := trace\<rparr>
                 else existing);
            e = (if fd_FixedVersion e = [] then e\<lparr>fd_FixedVersion := rf_FixedVersion raw\<rparr> else e)
        in if fd_Version e = [] then e\<lparr>fd_Version := version\<rparr> else e)"

text \<open>The map from keys to findings, as its entries.\<close>

fun merge_into :: "(string \<Rightarrow> osvEntry option) \<Rightarrow> rawFinding \<Rightarrow> (string \<times> Finding) list \<Rightarrow> (string \<times> Finding) list" where
  "merge_into osvs raw [] = [(finding_key osvs raw, new_finding osvs raw)]"
| "merge_into osvs raw ((k, f) # m) =
     (if k = finding_key osvs raw then (k, merge_finding osvs raw f) # m else (k, f) # merge_into osvs raw m)"

definition merge_all :: "(string \<Rightarrow> osvEntry option) \<Rightarrow> rawFinding list \<Rightarrow> (string \<times> Finding) list" where
  "merge_all osvs raws = fold (merge_into osvs) raws []"

text \<open>Most actionable first, then by identifier and module.\<close>

definition finding_order :: "Finding \<Rightarrow> int \<times> string \<times> string" where
  "finding_order f = (- fd_level f, fd_ID f, fd_Module f)"

definition analyze :: "(string + message) list \<Rightarrow> int \<Rightarrow> Summary" where
  "analyze report exitCode =
     (let r = read_stream report start_reading;
          out = sort_key finding_order (map snd (merge_all (rd_osvByID r) (rd_findings r)))
      in \<lparr>sum_ScannerError = rd_parseErrors r \<noteq> [] \<or> \<not> rd_sawConfig r \<or> (exitCode \<noteq> 0 \<and> exitCode \<noteq> 3)
                              \<or> (exitCode = 3 \<and> out = []),
          sum_ExitCode = exitCode,
          FindingCount = length out,
          FixableFindingCount = length (filter (\<lambda>f. fd_FixedVersion f \<noteq> []) out),
          CalledFindingCount = length (filter (\<lambda>f. fd_Reachability f = reachability_String reachCalled) out),
          ParseErrors = rd_parseErrors r,
          ScannerVersion = cm_ScannerVersion (rd_cfg r), GoVersion = cm_GoVersion (rd_cfg r),
          Findings = out\<rparr>)"

section \<open>What the merge computes\<close>

definition raw_level :: "(string \<Rightarrow> osvEntry option) \<Rightarrow> rawFinding \<Rightarrow> reachability" where
  "raw_level osvs raw = fst (snd (snd (describe raw (osv_of osvs raw))))"

definition raw_module :: "(string \<Rightarrow> osvEntry option) \<Rightarrow> rawFinding \<Rightarrow> string" where
  "raw_module osvs raw = fst (describe raw (osv_of osvs raw))"

lemma merge_into_map_of:
  "map_of (merge_into osvs raw m) = (map_of m)(finding_key osvs raw \<mapsto>
     (case map_of m (finding_key osvs raw) of None \<Rightarrow> new_finding osvs raw | Some f \<Rightarrow> merge_finding osvs raw f))"
  by (induction osvs raw m rule: merge_into.induct) (auto simp: fun_eq_iff)

lemma merge_into_keys: "fst ` set (merge_into osvs raw m) = insert (finding_key osvs raw) (fst ` set m)"
  by (induction osvs raw m rule: merge_into.induct) auto

lemma merge_into_distinct: "distinct (map fst m) \<Longrightarrow> distinct (map fst (merge_into osvs raw m))"
  by (induction osvs raw m rule: merge_into.induct) (auto simp: merge_into_keys)

lemma new_finding_fields [simp]:
  "fd_ID (new_finding osvs raw) = rf_OSV raw" "fd_Module (new_finding osvs raw) = raw_module osvs raw"
  "fd_level (new_finding osvs raw) = raw_level osvs raw" "fd_FixedVersion (new_finding osvs raw) = rf_FixedVersion raw"
  "fd_Reachability (new_finding osvs raw) = reachability_String (raw_level osvs raw)"
  by (simp_all add: new_finding_def raw_module_def raw_level_def case_prod_beta)

lemma merge_finding_fields [simp]:
  "fd_ID (merge_finding osvs raw f) = fd_ID f" "fd_Module (merge_finding osvs raw f) = fd_Module f"
  "fd_level (merge_finding osvs raw f) = max (raw_level osvs raw) (fd_level f)"
  "fd_FixedVersion (merge_finding osvs raw f) = (if fd_FixedVersion f = [] then rf_FixedVersion raw else fd_FixedVersion f)"
  "fd_Reachability f = reachability_String (fd_level f) \<Longrightarrow>
     fd_Reachability (merge_finding osvs raw f) = reachability_String (max (raw_level osvs raw) (fd_level f))"
  by (auto simp: merge_finding_def raw_level_def case_prod_beta Let_def max_def)

text \<open>What a merged entry says about the raw findings of its key.\<close>

definition merged_ok :: "(string \<Rightarrow> osvEntry option) \<Rightarrow> rawFinding list \<Rightarrow> string \<Rightarrow> Finding \<Rightarrow> bool" where
  "merged_ok osvs raws k f \<longleftrightarrow>
     (\<exists>r \<in> set raws. finding_key osvs r = k \<and> fd_ID f = rf_OSV r \<and> fd_Module f = raw_module osvs r) \<and>
     (\<exists>r \<in> set raws. finding_key osvs r = k \<and> raw_level osvs r = fd_level f) \<and>
     (\<forall>r \<in> set raws. finding_key osvs r = k \<longrightarrow> raw_level osvs r \<le> fd_level f) \<and>
     (fd_FixedVersion f \<noteq> [] \<longleftrightarrow> (\<exists>r \<in> set raws. finding_key osvs r = k \<and> rf_FixedVersion r \<noteq> [])) \<and>
     fd_Reachability f = reachability_String (fd_level f)"

lemma merge_all_snoc: "merge_all osvs (raws @ [r]) = merge_into osvs r (merge_all osvs raws)"
  by (simp add: merge_all_def)

lemma merge_all_keys: "distinct (map fst (merge_all osvs raws)) \<and> fst ` set (merge_all osvs raws) = finding_key osvs ` set raws"
proof (induction raws rule: rev_induct)
  case (snoc r raws)
  then show ?case by (simp add: merge_all_snoc merge_into_keys merge_into_distinct)
qed (simp add: merge_all_def)

lemma merged_ok_new: "\<forall>r' \<in> set raws. finding_key osvs r' \<noteq> finding_key osvs r \<Longrightarrow>
    merged_ok osvs (raws @ [r]) (finding_key osvs r) (new_finding osvs r)"
  by (auto simp: merged_ok_def)

lemma merged_ok_merge: "merged_ok osvs raws (finding_key osvs r) f \<Longrightarrow>
    merged_ok osvs (raws @ [r]) (finding_key osvs r) (merge_finding osvs r f)"
  by (auto simp: merged_ok_def max_def)

lemma merged_ok_other: "finding_key osvs r \<noteq> k \<Longrightarrow> merged_ok osvs (raws @ [r]) k f = merged_ok osvs raws k f"
  by (auto simp: merged_ok_def)

lemma merge_all_ok: "map_of (merge_all osvs raws) k = Some f \<Longrightarrow> merged_ok osvs raws k f"
proof (induction raws arbitrary: k f rule: rev_induct)
  case (snoc r raws)
  show ?case
  proof (cases "k = finding_key osvs r")
    case True
    show ?thesis
    proof (cases "map_of (merge_all osvs raws) k")
      case None
      then have "finding_key osvs r \<notin> finding_key osvs ` set raws"
        using merge_all_keys [of osvs raws] True by (simp add: map_of_eq_None_iff)
      then have "\<forall>r' \<in> set raws. finding_key osvs r' \<noteq> finding_key osvs r" by (metis imageI)
      then show ?thesis using snoc.prems None True by (auto simp: merge_all_snoc merge_into_map_of merged_ok_new)
    next
      case (Some g)
      then show ?thesis using snoc True by (auto simp: merge_all_snoc merge_into_map_of intro: merged_ok_merge)
    qed
  next
    case False
    then show ?thesis using snoc by (simp add: merge_all_snoc merge_into_map_of merged_ok_other)
  qed
qed (simp add: merge_all_def)

lemma finding_key_eq:
  assumes "CHR 0x00 \<notin> set (rf_OSV r)" "CHR 0x00 \<notin> set (rf_OSV r')"
  shows "finding_key osvs r = finding_key osvs r' \<longleftrightarrow> rf_OSV r = rf_OSV r' \<and> raw_module osvs r = raw_module osvs r'"
proof
  assume eq: "finding_key osvs r = finding_key osvs r'"
  have t: "takeWhile (\<lambda>c. c \<noteq> CHR 0x00) (a @ CHR 0x00 # m) = a" if "CHR 0x00 \<notin> set a" for a m :: string
    using that by (subst takeWhile_append2) auto
  have "rf_OSV r = rf_OSV r'"
    using arg_cong [OF eq [unfolded finding_key_def], of "takeWhile (\<lambda>c. c \<noteq> CHR 0x00)"] assms by (simp add: t)
  then show "rf_OSV r = rf_OSV r' \<and> raw_module osvs r = raw_module osvs r'"
    using eq by (simp add: finding_key_def raw_module_def)
qed (simp add: finding_key_def raw_module_def)

text \<open>The advisories and the raw findings of a report.\<close>

definition reported_osvs :: "(string + message) list \<Rightarrow> string \<Rightarrow> osvEntry option" where
  "reported_osvs report = rd_osvByID (read_stream report start_reading)"

definition reported_raws :: "(string + message) list \<Rightarrow> rawFinding list" where
  "reported_raws report = rd_findings (read_stream report start_reading)"

lemma Findings_analyze:
  "Findings (analyze report exitCode) =
     sort_key finding_order (map snd (merge_all (reported_osvs report) (reported_raws report)))"
  by (simp add: analyze_def Let_def reported_osvs_def reported_raws_def)

lemma listed_ok:
  assumes "f \<in> set (Findings (analyze report exitCode))"
  shows "\<exists>k. (k, f) \<in> set (merge_all (reported_osvs report) (reported_raws report)) \<and>
    merged_ok (reported_osvs report) (reported_raws report) k f"
proof -
  obtain k where k: "(k, f) \<in> set (merge_all (reported_osvs report) (reported_raws report))"
    using assms by (auto simp: Findings_analyze)
  then have "map_of (merge_all (reported_osvs report) (reported_raws report)) k = Some f"
    using merge_all_keys [of "reported_osvs report" "reported_raws report"] by simp
  from merge_all_ok [OF this] k show ?thesis by blast
qed

text \<open>The findings of a key are those of a vulnerability and a module.\<close>

lemma merged_ok_pair:
  assumes "\<forall>r \<in> set raws. CHR 0x00 \<notin> set (rf_OSV r)" and "merged_ok osvs raws k f" and "r \<in> set raws"
  shows "finding_key osvs r = k \<longleftrightarrow> rf_OSV r = fd_ID f \<and> raw_module osvs r = fd_Module f"
proof -
  obtain q where "q \<in> set raws" "finding_key osvs q = k" "fd_ID f = rf_OSV q" "fd_Module f = raw_module osvs q"
    using assms(2) by (auto simp: merged_ok_def)
  then show ?thesis using finding_key_eq [of r q] assms(1,3) by auto
qed

lemma sort_key_strict:
  assumes "distinct (map g xs)"
  shows "sorted_wrt (\<lambda>x y. g x < g y) (sort_key g xs)"
proof -
  have "sorted (map g (sort_key g xs))" "distinct (map g (sort_key g xs))"
    using assms by (simp_all add: distinct_map inj_on_def)
  then have "sorted_wrt (<) (map g (sort_key g xs))" by (simp add: strict_sorted_iff)
  then show ?thesis by (simp add: sorted_wrt_map)
qed

text \<open>
  C29. The report lists each vulnerability of each module once, most actionable first: the pairs of
  vulnerability and module it lists are those of the raw findings, in strictly increasing order, each
  at the deepest level any raw finding of the pair was at, with a fixed version exactly if one of
  them had one; and the count is that of the list.
\<close>

theorem report_merges_findings:
  assumes nul: "\<forall>r \<in> set (reported_raws report). CHR 0x00 \<notin> set (rf_OSV r)"
  shows "sorted_wrt (\<lambda>f g. finding_order f < finding_order g) (Findings (analyze report exitCode)) \<and>
    (\<lambda>f. (fd_ID f, fd_Module f)) ` set (Findings (analyze report exitCode)) =
      (\<lambda>r. (rf_OSV r, raw_module (reported_osvs report) r)) ` set (reported_raws report) \<and>
    (\<forall>f \<in> set (Findings (analyze report exitCode)).
       fd_level f = Max (raw_level (reported_osvs report) `
         {r \<in> set (reported_raws report). rf_OSV r = fd_ID f \<and> raw_module (reported_osvs report) r = fd_Module f}) \<and>
       (fd_FixedVersion f \<noteq> [] \<longleftrightarrow> (\<exists>r \<in> set (reported_raws report).
          rf_OSV r = fd_ID f \<and> raw_module (reported_osvs report) r = fd_Module f \<and> rf_FixedVersion r \<noteq> []))) \<and>
    FindingCount (analyze report exitCode) = length (Findings (analyze report exitCode))"
proof (intro conjI ballI)
  let ?osvs = "reported_osvs report" and ?raws = "reported_raws report"
  let ?m = "merge_all ?osvs ?raws" and ?fs = "Findings (analyze report exitCode)"
  note keys = merge_all_keys [of ?osvs ?raws]
  have key: "k = fd_ID f @ [CHR 0x00] @ fd_Module f" if "(k, f) \<in> set ?m" for k f
  proof -
    have "map_of ?m k = Some f" using that keys by simp
    from merge_all_ok [OF this] show ?thesis by (auto simp: merged_ok_def finding_key_def raw_module_def)
  qed
  have "distinct (map (\<lambda>p. finding_order (snd p)) ?m)"
  proof -
    have "inj_on (\<lambda>p. finding_order (snd p)) (set ?m)"
    proof (rule inj_onI)
      fix p q assume p: "p \<in> set ?m" "q \<in> set ?m" and "finding_order (snd p) = finding_order (snd q)"
      then have "fst p = fst q" using key [of "fst p" "snd p"] key [of "fst q" "snd q"] by (simp add: finding_order_def)
      then show "p = q" using p keys by (metis eq_key_imp_eq_value prod.collapse)
    qed
    then show ?thesis using keys by (simp add: distinct_map)
  qed
  then show "sorted_wrt (\<lambda>f g. finding_order f < finding_order g) ?fs"
    unfolding Findings_analyze by (intro sort_key_strict) (simp add: comp_def)
  show "(\<lambda>f. (fd_ID f, fd_Module f)) ` set ?fs = (\<lambda>r. (rf_OSV r, raw_module ?osvs r)) ` set ?raws"
  proof (rule set_eqI, rule iffI)
    fix p assume "p \<in> (\<lambda>f. (fd_ID f, fd_Module f)) ` set ?fs"
    then obtain f where "f \<in> set ?fs" "p = (fd_ID f, fd_Module f)" by blast
    then show "p \<in> (\<lambda>r. (rf_OSV r, raw_module ?osvs r)) ` set ?raws"
      using listed_ok [of f report exitCode] by (auto simp: merged_ok_def)
  next
    fix p assume "p \<in> (\<lambda>r. (rf_OSV r, raw_module ?osvs r)) ` set ?raws"
    then obtain r where r: "r \<in> set ?raws" "p = (rf_OSV r, raw_module ?osvs r)" by blast
    then have "finding_key ?osvs r \<in> fst ` set ?m" using keys by simp
    then obtain f where f: "(finding_key ?osvs r, f) \<in> set ?m" by auto
    then have "map_of ?m (finding_key ?osvs r) = Some f" using keys by simp
    then have "rf_OSV r = fd_ID f \<and> raw_module ?osvs r = fd_Module f"
      using merged_ok_pair [OF nul merge_all_ok r(1)] by blast
    then show "p \<in> (\<lambda>f. (fd_ID f, fd_Module f)) ` set ?fs" using f r(2) by (force simp: Findings_analyze)
  qed
  fix f assume "f \<in> set ?fs"
  then obtain k where ok: "merged_ok ?osvs ?raws k f" using listed_ok by blast
  have same: "{r \<in> set ?raws. rf_OSV r = fd_ID f \<and> raw_module ?osvs r = fd_Module f} = {r \<in> set ?raws. finding_key ?osvs r = k}"
    using merged_ok_pair [OF nul ok] by blast
  show "fd_level f = Max (raw_level ?osvs ` {r \<in> set ?raws. rf_OSV r = fd_ID f \<and> raw_module ?osvs r = fd_Module f})"
  proof -
    obtain q where "q \<in> {r \<in> set ?raws. finding_key ?osvs r = k}" "fd_level f = raw_level ?osvs q"
      using ok unfolding merged_ok_def by force
    then have "fd_level f \<in> raw_level ?osvs ` {r \<in> set ?raws. finding_key ?osvs r = k}" by blast
    moreover have "\<forall>r \<in> set ?raws. finding_key ?osvs r = k \<longrightarrow> raw_level ?osvs r \<le> fd_level f"
      using ok unfolding merged_ok_def by blast
    ultimately show ?thesis unfolding same by (intro Max_eqI [symmetric]) auto
  qed
  show "fd_FixedVersion f \<noteq> [] \<longleftrightarrow> (\<exists>r \<in> set ?raws.
      rf_OSV r = fd_ID f \<and> raw_module ?osvs r = fd_Module f \<and> rf_FixedVersion r \<noteq> [])"
    using ok merged_ok_pair [OF nul ok] unfolding merged_ok_def by blast
qed (simp add: analyze_def Let_def)

text \<open>One vulnerability reported at two levels, the deeper one second.\<close>

definition ex_report :: "(string + message) list" where
  "ex_report =
     (let fr = \<lparr>fr_Module = ''m'', fr_Version = ''v1'', fr_Package = ''m/p'', fr_Function = [], fr_Receiver = []\<rparr>;
          found = (\<lambda>t. Inr \<lparr>msg_Config = None, msg_OSV = None, msg_Finding = Some \<lparr>rf_OSV = ''GO-1'', rf_FixedVersion = ''v2'', rf_Trace = [t]\<rparr>\<rparr>)
      in [Inr \<lparr>msg_Config = Some \<lparr>cm_ScannerName = [], cm_ScannerVersion = ''1'', cm_GoVersion = ''go1''\<rparr>, msg_OSV = None, msg_Finding = None\<rparr>,
          found fr, found (fr\<lparr>fr_Function := ''F''\<rparr>)])"

theorem report_merges_findings_witness:
  "\<exists>f. Findings (analyze ex_report 0) = [f] \<and> fd_ID f = ''GO-1'' \<and> fd_Module f = ''m'' \<and> fd_level f = reachCalled"
proof -
  let ?fr = "\<lparr>fr_Module = ''m'', fr_Version = ''v1'', fr_Package = ''m/p'', fr_Function = [], fr_Receiver = []\<rparr>"
  let ?fr2 = "\<lparr>fr_Module = ''m'', fr_Version = ''v1'', fr_Package = ''m/p'', fr_Function = ''F'', fr_Receiver = []\<rparr>"
  let ?raw = "\<lambda>t. \<lparr>rf_OSV = ''GO-1'', rf_FixedVersion = ''v2'', rf_Trace = [t]\<rparr>"
  have r: "reported_raws ex_report = [?raw ?fr, ?raw ?fr2]"
    by (simp add: reported_raws_def ex_report_def read_message_def start_reading_def Let_def)
  have m: "raw_module o1 (?raw ?fr) = ''m''" "raw_module o1 (?raw ?fr2) = ''m''"
    "raw_level o1 (?raw ?fr) = 1" "raw_level o1 (?raw ?fr2) = 2" for o1
    by (simp_all add: raw_module_def raw_level_def describe_def reachImported_def reachCalled_def)
  have nul: "\<forall>r \<in> set (reported_raws ex_report). CHR 0x00 \<notin> set (rf_OSV r)" by (simp add: r)
  note t = report_merges_findings [OF nul, of 0]
  have pairs: "(\<lambda>f. (fd_ID f, fd_Module f)) ` set (Findings (analyze ex_report 0)) = {(''GO-1'', ''m'')}"
    using t unfolding r by (simp add: m)
  have len: "length (Findings (analyze ex_report 0)) = 1"
  proof -
    have "length (merge_all (reported_osvs ex_report) (reported_raws ex_report)) = 1"
      unfolding r by (simp add: merge_all_def finding_key_def m [unfolded raw_module_def])
    then show ?thesis by (simp add: Findings_analyze)
  qed
  then obtain f where f: "Findings (analyze ex_report 0) = [f]" by (metis One_nat_def length_0_conv length_Suc_conv)
  have "fd_level f = 2"
  proof -
    have id: "fd_ID f = ''GO-1''" "fd_Module f = ''m''" using pairs by (simp_all add: f)
    have "{r \<in> set (reported_raws ex_report). rf_OSV r = ''GO-1'' \<and> raw_module (reported_osvs ex_report) r = ''m''} = set (reported_raws ex_report)"
      unfolding r by (auto simp: m)
    then show ?thesis using t by (simp add: f id) (simp add: r m)
  qed
  then show ?thesis using pairs f by (simp add: reachCalled_def)
qed

end
