(* ===== verification/Govuln_Render.thy ===== *)
theory Govuln_Render
  imports Govuln_Report
begin

text \<open>
  \<^verbatim>\<open>tools/govulncheck-report/render.go\<close> and \<^verbatim>\<open>main.go\<close>: the markdown of a report, and the program
  around it. What the program reads is the record \<open>inputs\<close>; what it writes is a sequence of actions,
  each of which may fail.
\<close>

section \<open>Text\<close>

abbreviation LF :: char where "LF \<equiv> CHR 0x0A"

abbreviation backquote :: char where "backquote \<equiv> CHR 0x60"

definition nat_text :: "nat \<Rightarrow> string" where
  "nat_text n = dec_of_nat n"

definition plural :: "nat \<Rightarrow> string \<Rightarrow> string \<Rightarrow> string" where
  "plural count singular pluralForm = nat_text count @ '' '' @ (if count = 1 then singular else pluralForm)"

definition escape :: "string \<Rightarrow> string" where
  "escape val =
     (let v = ReplaceAll val ''|'' [CHR 0x5C, CHR ''|'']; v = ReplaceAll v [LF] '' ''
      in if v = [] then ''-'' else v)"

definition code_span :: "string \<Rightarrow> string" where
  "code_span val = (if val = [] then ''-'' else backquote # ReplaceAll val [backquote] [] @ [backquote])"

definition fallback :: "string \<Rightarrow> string \<Rightarrow> string" where
  "fallback val def = (if val = [] then def else val)"

definition fixableOnly :: "Finding list \<Rightarrow> Finding list" where
  "fixableOnly findings = filter (\<lambda>f. fd_FixedVersion f \<noteq> []) findings"

definition countCalled :: "Finding list \<Rightarrow> nat" where
  "countCalled findings = length (filter (\<lambda>f. fd_Reachability f = reachability_String reachCalled) findings)"

definition govuln_marker :: string where
  "govuln_marker = ''<!-- harbor-scanner-trivy-govulncheck -->''"

definition modeFull :: string where "modeFull = ''full''"
definition modeFixable :: string where "modeFixable = ''fixable''"

section \<open>The report\<close>

definition table_row :: "Finding \<Rightarrow> string" where
  "table_row f =
     (let reach = (if fd_Trace f \<noteq> [] then fd_Reachability f @ '' ('' @ code_span (fd_Trace f) @ '')'' else fd_Reachability f)
      in ''| ['' @ escape (fd_ID f) @ ''](https://pkg.go.dev/vuln/'' @ fd_ID f @ '') | '' @ code_span (fd_Module f) @ '' | '' @
         code_span (fd_Version f) @ '' | '' @ code_span (fd_FixedVersion f) @ '' | '' @ reach @ '' | '' @
         escape (fd_Summary f) @ '' |'' @ [LF])"

definition writeTable :: "Finding list \<Rightarrow> int \<Rightarrow> string" where
  "writeTable findings maxRows =
     (let rows = (if maxRows > 0 \<and> int (length findings) > maxRows then take (nat maxRows) findings else findings)
      in ''| Vulnerability | Module | In use | Fixed in | Reachability | Summary |'' @ [LF] @
         ''| :--- | :--- | :--- | :--- | :--- | :--- |'' @ [LF] @
         concat (map table_row rows) @
         (if length rows < length findings
          then [LF] @ ''_Showing '' @ nat_text (length rows) @ '' of '' @ nat_text (length findings) @
               '' findings; see the workflow artifact for the rest._'' @ [LF]
          else []))"

definition writeFootnotes :: "Finding list \<Rightarrow> string" where
  "writeFootnotes findings =
     (if list_ex (\<lambda>f. fd_Module f = ''stdlib'') findings
      then [LF] @ ''_'' @ [backquote] @ ''stdlib'' @ [backquote] @ '' findings are fixed by raising the '' @ [backquote] @ ''go'' @
           [backquote] @ '' directive in '' @ [backquote] @ ''go.mod'' @ [backquote] @ ''._'' @ [LF]
      else [])"

definition writeHeadline :: "Summary \<Rightarrow> Finding list \<Rightarrow> string \<Rightarrow> string" where
  "writeHeadline summary shown mode =
     (if mode = modeFixable
      then ''**'' @ plural (length shown) ''vulnerability'' ''vulnerabilities'' @ '' with a published fix** out of '' @
           nat_text (FindingCount summary) @ '' total.''
      else ''**'' @ plural (length shown) ''vulnerability'' ''vulnerabilities'' @ ''** in the module dependency graph, '' @
           nat_text (FixableFindingCount summary) @ '' with a published fix.'')
     @ (if countCalled shown > 0
        then '' '' @ nat_text (countCalled shown) @ '' reachable from this module'' @ [CHR 0x27] @ ''s code.'' else [])
     @ [LF]"

definition error_details :: "Summary \<Rightarrow> string \<Rightarrow> string" where
  "error_details summary scannerStderr =
     (let details = Join (ParseErrors summary) ''; '';
          details = (if details = [] then scannerStderr else details);
          details = shorten details 500
      in if details = [] then ''no diagnostics captured on stderr'' else details)"

definition code_fence :: string where
  "code_fence = [backquote, backquote, backquote]"

definition renderMarkdown :: "Summary \<Rightarrow> string \<Rightarrow> string \<Rightarrow> int \<Rightarrow> string" where
  "renderMarkdown summary mode scannerStderr maxRows =
     (let shown = (if mode = modeFixable then fixableOnly (Findings summary) else Findings summary) in
      govuln_marker @ [LF] @ ''## govulncheck'' @ [LF, LF] @
      (if sum_ScannerError summary then
         ''**govulncheck did not produce a usable report** (exit code '' @ dec_of_int (sum_ExitCode summary) @ '').'' @ [LF, LF] @
         code_fence @ [LF] @ error_details summary scannerStderr @ [LF] @ code_fence @ [LF] @
         (if shown \<noteq> []
          then [LF] @ ''Findings parsed before the failure ('' @ nat_text (length shown) @ '' of '' @
               nat_text (FindingCount summary) @ ''):'' @ [LF, LF] @ writeTable shown maxRows
          else [])
       else if shown = [] \<and> mode = modeFixable \<and> FindingCount summary > 0 then
         ''No fixable vulnerabilities. govulncheck reported '' @
         plural (FindingCount summary) ''vulnerability'' ''vulnerabilities'' @ '' without a fixed version.'' @ [LF]
       else if shown = [] then ''No known vulnerabilities in the module dependency graph.'' @ [LF]
       else writeHeadline summary shown mode @ [LF] @ writeTable shown maxRows @ writeFootnotes shown) @
      [LF] @ ''<sub>govulncheck '' @ fallback (ScannerVersion summary) ''unknown'' @ '' on '' @
      fallback (GoVersion summary) ''unknown'' @ '', exit code '' @ dec_of_int (sum_ExitCode summary) @
      ''. The full JSON report is attached to the workflow run as the '' @ [backquote] @ ''vulnerability-check'' @
      [backquote] @ '' artifact.</sub>'' @ [LF])"

section \<open>The program\<close>

record tool_flags =
  reportPath :: string
  stderrPath :: string
  exitPath :: string
  tool_mode :: string
  outPath :: string
  summaryPath :: string
  maxRows :: int
  stepSummary :: bool
  ghOutput :: bool
  failOnError :: bool

text \<open>What the program does to the world; an append is an open, a write and a close.\<close>

datatype action =
    PrintText string
  | WriteReport string string
  | WriteSummary string string
  | OpenAppend string
  | AppendText string string
  | CloseAppended string

text \<open>What is read: files, the decoded report, two environment variables; and which action fails.\<close>

record inputs =
  in_ReadFile :: "string \<Rightarrow> goerr + string"
  in_Open :: "string \<Rightarrow> goerr + (string + message) list"
  in_STEP_SUMMARY :: string
  in_OUTPUT :: string
  in_MarshalIndent :: "Summary \<Rightarrow> goerr + string"
  in_fails :: "action \<Rightarrow> goerr option"

definition readExitCode :: "inputs \<Rightarrow> string \<Rightarrow> goerr + int" where
  "readExitCode i path =
     (if path = [] then Inr 0
      else case in_ReadFile i path of
        Inl e \<Rightarrow> Inl (Wrap ''read exit code'' e)
      | Inr raw \<Rightarrow>
          (case ParseInt (TrimSpace raw) of
             None \<Rightarrow> Inl (ErrText (''parse exit code '' @ Quote (TrimSpace raw)))
           | Some c \<Rightarrow> Inr c))"

definition readOptional :: "inputs \<Rightarrow> string \<Rightarrow> string" where
  "readOptional i path =
     (if path = [] then [] else case in_ReadFile i path of Inl _ \<Rightarrow> [] | Inr raw \<Rightarrow> raw)"

definition githubOutputs :: "Summary \<Rightarrow> string" where
  "githubOutputs summary =
     ''scanner-error='' @ (if sum_ScannerError summary then ''true'' else ''false'') @ [LF] @
     ''finding-count='' @ nat_text (FindingCount summary) @ [LF] @
     ''fixable-count='' @ nat_text (FixableFindingCount summary) @ [LF] @
     ''called-count='' @ nat_text (CalledFindingCount summary) @ [LF]"

text \<open>The error an action ends the run with: that of \<^verbatim>\<open>fmt.Print\<close> is ignored.\<close>

definition action_error :: "inputs \<Rightarrow> action \<Rightarrow> goerr option" where
  "action_error i a =
     (case a of
        PrintText _ \<Rightarrow> None
      | WriteReport _ _ \<Rightarrow> map_option (Wrap ''write markdown report'') (in_fails i a)
      | WriteSummary _ _ \<Rightarrow> map_option (Wrap ''write summary'') (in_fails i a)
      | OpenAppend p \<Rightarrow> map_option (Wrap (''open '' @ p)) (in_fails i a)
      | AppendText p _ \<Rightarrow> map_option (Wrap (''write '' @ p)) (in_fails i a)
      | CloseAppended _ \<Rightarrow> in_fails i a)"

text \<open>Actions in order, up to the first that fails.\<close>

fun perform :: "inputs \<Rightarrow> action list \<Rightarrow> action list \<times> goerr option" where
  "perform i [] = ([], None)"
| "perform i (a # as) =
     (case action_error i a of
        Some e \<Rightarrow> ([], Some e)
      | None \<Rightarrow> (case perform i as of (ds, r) \<Rightarrow> (a # ds, r)))"

definition appendFile :: "string \<Rightarrow> string \<Rightarrow> action list" where
  "appendFile path content =
     (if path = [] then [] else [OpenAppend path, AppendText path content, CloseAppended path])"

definition tool_run :: "inputs \<Rightarrow> tool_flags \<Rightarrow> action list \<times> goerr option" where
  "tool_run i fl =
     (if tool_mode fl \<noteq> modeFull \<and> tool_mode fl \<noteq> modeFixable then
        ([], Some (ErrText (''invalid -mode '' @ Quote (tool_mode fl) @ '', want '' @ Quote modeFull @ '' or '' @ Quote modeFixable)))
      else case readExitCode i (exitPath fl) of
        Inl e \<Rightarrow> ([], Some e)
      | Inr exitCode \<Rightarrow>
      (case in_Open i (reportPath fl) of
        Inl e \<Rightarrow> ([], Some (Wrap ''open govulncheck report'' e))
      | Inr report \<Rightarrow>
          let summary = analyze report exitCode;
              markdown = renderMarkdown summary (tool_mode fl) (readOptional i (stderrPath fl)) (maxRows fl);
              first = (if outPath fl = [] then PrintText markdown else WriteReport (outPath fl) markdown);
              rest = (if stepSummary fl then appendFile (in_STEP_SUMMARY i) markdown else []) @
                     (if ghOutput fl then appendFile (in_OUTPUT i) (githubOutputs summary) else []);
              finish = (\<lambda>(ds, r). (ds, case r of
                  Some e \<Rightarrow> Some e
                | None \<Rightarrow> if sum_ScannerError summary \<and> failOnError fl
                          then Some (ErrText (''govulncheck failed before producing a usable report (exit code ''
                                              @ dec_of_int exitCode @ '')''))
                          else None))
          in if summaryPath fl = [] then finish (perform i (first # rest))
             else case in_MarshalIndent i summary of
                    Inl e \<Rightarrow>
                      (case perform i [first] of
                         (ds, Some e') \<Rightarrow> (ds, Some e')
                       | (ds, None) \<Rightarrow> (ds, Some (Wrap ''encode summary'' e)))
                  | Inr encoded \<Rightarrow> finish (perform i (first # WriteSummary (summaryPath fl) (encoded @ [LF]) # rest))))"

section \<open>The table keeps to its rows\<close>

lemma ReplaceAll_char_absent: "c \<notin> set new \<Longrightarrow> c \<notin> set (ReplaceAll s [c] new)"
  by (induction s "[c]" new rule: ReplaceAll.induct) (auto simp: ReplaceAll.simps HasPrefix_def)

lemma ReplaceAll_char_keeps: "d \<notin> set s \<Longrightarrow> d \<notin> set new \<Longrightarrow> d \<notin> set (ReplaceAll s [c] new)"
  by (induction s "[c]" new rule: ReplaceAll.induct) (auto simp: ReplaceAll.simps HasPrefix_def)

lemma escape_one_line: "LF \<notin> set (escape v)"
  unfolding escape_def Let_def using ReplaceAll_char_absent [of LF "'' ''"] by simp

lemma code_span_one_line: "LF \<notin> set v \<Longrightarrow> LF \<notin> set (code_span v)"
  by (auto simp: code_span_def ReplaceAll_char_keeps)

lemma nat_text_one_line: "LF \<notin> set (nat_text n)"
proof (induction n rule: dec_of_nat.induct)
  case (1 n)
  have d: "digit_char k \<noteq> LF" if "k < 10" for k
  proof
    assume "digit_char k = LF"
    then have "digit_of LF = Some k" using digit_of_digit_char [OF that] by simp
    then show False by (simp add: digit_of_def)
  qed
  show ?case using 1 d unfolding nat_text_def
    by (subst dec_of_nat.simps) (auto simp: d [symmetric])
qed

definition one_line_finding :: "Finding \<Rightarrow> bool" where
  "one_line_finding f \<longleftrightarrow> LF \<notin> set (fd_ID f) \<and> LF \<notin> set (fd_Module f) \<and> LF \<notin> set (fd_Version f) \<and>
     LF \<notin> set (fd_FixedVersion f) \<and> LF \<notin> set (fd_Trace f) \<and> LF \<notin> set (fd_Reachability f)"

abbreviation lines_of :: "string \<Rightarrow> nat" where "lines_of s \<equiv> count_list s LF"

lemma table_row_line: "one_line_finding f \<Longrightarrow> lines_of (table_row f) = 1"
  by (auto simp: table_row_def one_line_finding_def Let_def count_list_0_iff escape_one_line code_span_one_line)

lemma table_rows_lines: "\<forall>f \<in> set fs. one_line_finding f \<Longrightarrow> lines_of (concat (map table_row fs)) = length fs"
  by (induction fs) (simp_all add: table_row_line)

text \<open>
  C30. The table of a report has one line per finding up to the maximum number of rows, so that a
  summary of any text cannot break it: the two lines of its head, one line per row, and two more that
  say what was left out when there was more.
\<close>

theorem table_bounded:
  assumes one: "\<forall>f \<in> set fs. one_line_finding f"
  shows "count_list (writeTable fs limit) LF =
    2 + (if 0 < limit \<and> limit < int (length fs) then nat limit + 2 else length fs)"
proof -
  have rows: "count_list (concat (map table_row (take n fs))) LF = min n (length fs)" for n
  proof -
    have "\<forall>f \<in> set (take n fs). one_line_finding f" using one by (meson in_set_takeD)
    from table_rows_lines [OF this] show ?thesis by simp
  qed
  have line: "LF \<notin> set (nat_text n)" for n by (rule nat_text_one_line)
  show ?thesis
  proof (cases "0 < limit \<and> limit < int (length fs)")
    case True
    then have n: "nat limit < length fs" by linarith
    then have "count_list (concat (map table_row (take (nat limit) fs))) LF = nat limit" using rows by simp
    with True n line show ?thesis by (simp add: writeTable_def Let_def del: concat.simps)
  next
    case False
    then have c: "(limit > 0 \<and> int (length fs) > limit) = False" by auto
    have "writeTable fs limit = ''| Vulnerability | Module | In use | Fixed in | Reachability | Summary |'' @ [LF] @
         ''| :--- | :--- | :--- | :--- | :--- | :--- |'' @ [LF] @ concat (map table_row fs)"
      unfolding writeTable_def Let_def c by simp
    with False table_rows_lines [OF one] show ?thesis by auto
  qed
qed

definition ex_finding :: "string \<Rightarrow> Finding" where
  "ex_finding summary = \<lparr>fd_ID = ''GO-1'', fd_Module = ''m'', fd_Version = [], fd_FixedVersion = ''v2'',
     fd_Reachability = ''Called'', fd_Trace = ''p.F'', fd_Summary = summary, fd_level = 2\<rparr>"

theorem table_bounded_witness:
  "count_list (writeTable [ex_finding [LF, LF], ex_finding ''x'', ex_finding []] 2) LF = 6"
proof -
  have one: "\<forall>f \<in> set [ex_finding [LF, LF], ex_finding ''x'', ex_finding []]. one_line_finding f"
    by (simp add: one_line_finding_def ex_finding_def)
  show ?thesis unfolding table_bounded [OF one, of 2] by simp
qed

section \<open>How the program ends\<close>

lemma perform_all: "\<forall>a \<in> set as. action_error i a = None \<Longrightarrow> perform i as = (as, None)"
  by (induction as) auto

lemma perform_prefix: "prefix (fst (perform i as)) as"
  by (induction as) (auto split: option.splits prod.splits)

lemma perform_failed: "perform i as = (ds, Some e) \<Longrightarrow> \<exists>a. a \<in> set as \<and> action_error i a = Some e"
  by (induction as arbitrary: ds) (auto split: option.splits prod.splits)

lemma perform_done: "perform i as = (ds, None) \<Longrightarrow> ds = as \<and> (\<forall>a \<in> set as. action_error i a = None)"
  by (induction as arbitrary: ds) (auto split: option.splits prod.splits)

definition scanner_failure :: "int \<Rightarrow> goerr" where
  "scanner_failure exitCode =
     ErrText (''govulncheck failed before producing a usable report (exit code '' @ dec_of_int exitCode @ '')'')"

text \<open>
  C31. Vulnerabilities do not fail the program, only a scanner without a usable report does. When the
  mode is known, its inputs can be read and no write fails, the markdown is the first thing delivered,
  the summary, the step summary and the counts follow as far as they are wanted, and the run fails just
  when the scanner failed and the flag asks for that.
\<close>

theorem only_scanner_failure_fails:
  assumes mode: "tool_mode fl \<in> {modeFull, modeFixable}"
    and exit: "readExitCode i (exitPath fl) = Inr exitCode"
    and report: "in_Open i (reportPath fl) = Inr stream"
    and encoded: "in_MarshalIndent i (analyze stream exitCode) = Inr encoded"
    and works: "\<forall>a. action_error i a = None"
  shows "tool_run i fl =
    (let summary = analyze stream exitCode;
         markdown = renderMarkdown summary (tool_mode fl) (readOptional i (stderrPath fl)) (maxRows fl)
     in ((if outPath fl = [] then PrintText markdown else WriteReport (outPath fl) markdown) #
         (if summaryPath fl = [] then [] else [WriteSummary (summaryPath fl) (encoded @ [LF])]) @
         (if stepSummary fl then appendFile (in_STEP_SUMMARY i) markdown else []) @
         (if ghOutput fl then appendFile (in_OUTPUT i) (githubOutputs summary) else []),
         if sum_ScannerError summary \<and> failOnError fl then Some (scanner_failure exitCode) else None))"
proof -
  have all: "perform i as = (as, None)" for as using works by (simp add: perform_all)
  have known: "\<not> (tool_mode fl \<noteq> modeFull \<and> tool_mode fl \<noteq> modeFixable)" using mode by auto
  show ?thesis
    unfolding tool_run_def Let_def exit report encoded all scanner_failure_def if_not_P [OF known] sum.case prod.case option.case
    by (cases "summaryPath fl = []") simp_all
qed

text \<open>An empty report of a scanner that exited with 3, with the flag set.\<close>

definition ex_inputs :: inputs where
  "ex_inputs = \<lparr>in_ReadFile = (\<lambda>_. Inr ''3''), in_Open = (\<lambda>_. Inr []), in_STEP_SUMMARY = ''s'', in_OUTPUT = [],
     in_MarshalIndent = (\<lambda>_. Inr ''{}''), in_fails = (\<lambda>_. None)\<rparr>"

definition ex_flags :: tool_flags where
  "ex_flags = \<lparr>reportPath = ''r'', stderrPath = [], exitPath = ''x'', tool_mode = modeFull, outPath = [],
     summaryPath = ''j'', maxRows = 50, stepSummary = True, ghOutput = True, failOnError = True\<rparr>"

lemma ex_inputs_works: "action_error ex_inputs a = None"
  by (cases a) (simp_all add: action_error_def ex_inputs_def)

lemma analyze_nothing: "sum_ScannerError (analyze [] e)"
  by (simp add: analyze_def start_reading_def Let_def)

theorem only_scanner_failure_fails_witness:
  "snd (tool_run ex_inputs ex_flags) = Some (scanner_failure 3) \<and> length (fst (tool_run ex_inputs ex_flags)) = 5"
proof -
  have exit: "readExitCode ex_inputs (exitPath ex_flags) = Inr 3"
    by (simp add: readExitCode_def ex_inputs_def ex_flags_def TrimSpace_def is_space_def ParseInt_def ParseUint_def digit_of_def Let_def) 
  have mode: "tool_mode ex_flags \<in> {modeFull, modeFixable}" by (simp add: ex_flags_def)
  have inp: "in_Open ex_inputs (reportPath ex_flags) = Inr []"
    "in_MarshalIndent ex_inputs (analyze [] 3) = Inr ''{}''" by (simp_all add: ex_inputs_def)
  note run = only_scanner_failure_fails [OF mode exit inp allI [OF ex_inputs_works]]
  have failed: "sum_ScannerError (analyze [] 3) \<and> failOnError ex_flags" by (simp add: analyze_nothing ex_flags_def)
  show ?thesis unfolding run Let_def if_P [OF failed] by (simp add: ex_flags_def ex_inputs_def appendFile_def)
qed

end
