(* ===== verification/Go_Path.thy ===== *)
theory Go_Path
  imports Go_Strings
begin

text \<open>\<^verbatim>\<open>path/filepath\<close> on Unix: \<^verbatim>\<open>Clean\<close> and \<^verbatim>\<open>Join\<close>, and the join of \<^verbatim>\<open>os.MkdirTemp\<close>.\<close>

text \<open>The components of a path, on a stack of those kept so far.\<close>

fun clean_parts :: "bool \<Rightarrow> string list \<Rightarrow> string list \<Rightarrow> string list" where
  "clean_parts rooted [] st = rev st"
| "clean_parts rooted (c # cs) st =
     (if c = [] \<or> c = ''.'' then clean_parts rooted cs st
      else if c = ''..'' then
        (case st of
           [] \<Rightarrow> clean_parts rooted cs (if rooted then [] else [''..''])
         | s # st' \<Rightarrow> clean_parts rooted cs (if s = ''..'' then ''..'' # st else st'))
      else clean_parts rooted cs (c # st))"

definition path_Clean :: "string \<Rightarrow> string" where
  "path_Clean p =
     (let rooted = HasPrefix p ''/''; parts = Join (clean_parts rooted (Split p (CHR ''/'')) []) ''/''
      in if rooted then ''/'' @ parts else if parts = [] then ''.'' else parts)"

definition path_Join :: "string \<Rightarrow> string \<Rightarrow> string" where
  "path_Join a b =
     (if a = [] \<and> b = [] then []
      else if a = [] then path_Clean b
      else if b = [] then path_Clean a
      else path_Clean (a @ ''/'' @ b))"

text \<open>\<^verbatim>\<open>os.joinPath\<close>, which \<^verbatim>\<open>MkdirTemp\<close> uses, does not clean.\<close>

definition os_joinPath :: "string \<Rightarrow> string \<Rightarrow> string" where
  "os_joinPath dir name = (if HasSuffix dir ''/'' then dir @ name else dir @ ''/'' @ name)"

section \<open>A name in a clean directory\<close>

definition plain_name :: "string \<Rightarrow> bool" where
  "plain_name n \<longleftrightarrow> n \<noteq> [] \<and> CHR ''/'' \<notin> set n \<and> n \<noteq> ''.'' \<and> n \<noteq> ''..''"

lemma clean_parts_snoc: "plain_name n \<Longrightarrow> clean_parts r (cs @ [n]) st = clean_parts r cs st @ [n]"
  by (induction r cs st rule: clean_parts.induct) (auto simp: plain_name_def split: list.splits)

lemma Split_not_Nil: "Split s c \<noteq> []"
  by (cases s) (auto split: list.splits)

lemma Split_join: "Split (a @ c # b) c = Split a c @ Split b c"
  by (induction a) (auto simp: Split_not_Nil split: list.splits)

lemma Join_snoc: "ws \<noteq> [] \<Longrightarrow> Join (ws @ [w]) sep = Join ws sep @ sep @ w"
  by (induction ws sep rule: Join.induct) auto

lemma clean_parts_plain: "[] \<notin> set st \<Longrightarrow> [] \<notin> set (clean_parts r cs st)"
  by (induction r cs st rule: clean_parts.induct) (auto split: list.splits)

lemma Join_Nil_iff: "[] \<notin> set ws \<Longrightarrow> Join ws sep = [] \<longleftrightarrow> ws = []"
  by (induction ws sep rule: Join.induct) auto

end
