(* ===== verification/Walk.thy ===== *)
theory Walk
  imports Errors Go_Path
begin

text \<open>
  \<^verbatim>\<open>directoryBytes\<close> of \<^verbatim>\<open>pkg/metrics/background.go\<close>: the size of what is under a path, walked
  without following links, each entry taken from a budget.
\<close>

text \<open>An error of the file system names its path; \<^verbatim>\<open>errors.As\<close> and \<^verbatim>\<open>errors.Is\<close> look at no more of it.\<close>

datatype walk_error =
    PathError (err_path: string) (err_missing: bool) string
  | WalkError goerr

datatype dirent = Regular int | Directory | Unsupported string

text \<open>
  The state \<open>'w\<close> is whatever the walk runs in. A directory that can be opened gives the names its
  \<^verbatim>\<open>ReadDir\<close> calls return, call by call, and the error other than the end of the file that the
  reading stops with, if any.
\<close>

record 'w walker =
  wk_Err :: "'w \<Rightarrow> goerr option"
  wk_Lstat :: "string \<Rightarrow> 'w \<Rightarrow> (walk_error + dirent) \<times> 'w"
  wk_Open :: "string \<Rightarrow> 'w \<Rightarrow> (walk_error + string list list \<times> walk_error option) \<times> 'w"

definition budget_exceeded :: walk_error where
  "budget_exceeded = WalkError (ErrText ''cache entry budget exceeded'')"

definition unsupported_entry :: "string \<Rightarrow> walk_error" where
  "unsupported_entry t = WalkError (ErrText (''unsupported cache entry type: '' @ t))"

function directoryBytes :: "'w walker \<Rightarrow> bool \<Rightarrow> string \<Rightarrow> int \<Rightarrow> 'w \<Rightarrow> (walk_error + int) \<times> int \<times> 'w"
    and entriesBytes :: "'w walker \<Rightarrow> bool \<Rightarrow> string \<Rightarrow> string list \<Rightarrow> walk_error option \<Rightarrow> int \<Rightarrow> int \<Rightarrow> 'w
      \<Rightarrow> (walk_error + int) \<times> int \<times> 'w" where
  "directoryBytes S skipUnsupported path remaining w =
     (case wk_Err S w of
        Some e \<Rightarrow> (Inl (WalkError e), remaining, w)
      | None \<Rightarrow>
          if remaining - 1 < 0 then (Inl budget_exceeded, remaining - 1, w)
          else (case wk_Lstat S path w of
            (Inl e, w) \<Rightarrow> (Inl e, remaining - 1, w)
          | (Inr (Regular n), w) \<Rightarrow> (Inr n, remaining - 1, w)
          | (Inr (Unsupported t), w) \<Rightarrow>
              (if skipUnsupported then Inr 0 else Inl (unsupported_entry t), remaining - 1, w)
          | (Inr Directory, w) \<Rightarrow>
              (case wk_Open S path w of
                 (Inl e, w) \<Rightarrow> (Inl e, remaining - 1, w)
               | (Inr (reads, fin), w) \<Rightarrow>
                   entriesBytes S skipUnsupported path (concat reads) fin 0 (remaining - 1) w)))"
| "entriesBytes S skipUnsupported path [] fin acc remaining w =
     (case fin of None \<Rightarrow> Inr acc | Some e \<Rightarrow> Inl e, remaining, w)"
| "entriesBytes S skipUnsupported path (n # ns) fin acc remaining w =
     (case directoryBytes S skipUnsupported (path_Join path n) remaining w of
        (Inl e, remaining, w) \<Rightarrow> (Inl e, remaining, w)
      | (Inr k, remaining, w) \<Rightarrow> entriesBytes S skipUnsupported path ns fin (acc + k) remaining w)"
  by pat_completeness auto

text \<open>Every entry costs one of the budget, which ends the recursion whatever the file system answers.\<close>

lemma walk_spends:
  "directoryBytes_entriesBytes_dom (Inl (S, sk, path, remaining, w)) \<Longrightarrow>
     fst (snd (directoryBytes S sk path remaining w)) \<le> remaining"
  "directoryBytes_entriesBytes_dom (Inr (S, sk, path, ns, fin, acc, remaining, w)) \<Longrightarrow>
     fst (snd (entriesBytes S sk path ns fin acc remaining w)) \<le> remaining"
proof (induction S sk path remaining w and S sk path ns fin acc remaining w rule: directoryBytes_entriesBytes.pinduct)
  case (1 S sk path remaining w)
  then show ?case
    by (auto simp: directoryBytes.psimps split: option.splits prod.splits sum.splits dirent.splits; fastforce)
next
  case (3 S sk path n ns fin acc remaining w)
  then show ?case
    by (auto simp: entriesBytes.psimps split: prod.splits sum.splits; fastforce)
qed (simp add: entriesBytes.psimps)

definition walk_measure ::
    "(('w walker \<times> bool \<times> string \<times> int \<times> 'w) +
      ('w walker \<times> bool \<times> string \<times> string list \<times> walk_error option \<times> int \<times> int \<times> 'w)) \<Rightarrow> nat \<times> nat" where
  "walk_measure x =
     (case x of Inl (S, sk, path, remaining, w) \<Rightarrow> (nat (remaining + 1), 0)
      | Inr (S, sk, path, ns, fin, acc, remaining, w) \<Rightarrow> (nat (remaining + 1), Suc (length ns)))"

termination directoryBytes
proof (relation "inv_image (less_than <*lex*> less_than) walk_measure")
  fix S :: "'w walker" and sk path n ns fin acc remaining w x y k r2 w2
  assume x: "(x, y) = directoryBytes S sk (path_Join path n) remaining w" "x = Inr k" "(r2, w2) = y"
    and dom: "directoryBytes_entriesBytes_dom (Inl (S, sk, path_Join path n, remaining, w))"
  have "r2 \<le> remaining" using walk_spends(1) [OF dom] x by (metis fst_conv snd_conv)
  then have "nat (r2 + 1) < nat (remaining + 1) \<or> nat (r2 + 1) = nat (remaining + 1)" by linarith
  then show "(Inr (S, sk, path, ns, fin, acc + k, r2, w2), Inr (S, sk, path, n # ns, fin, acc, remaining, w))
      \<in> inv_image (less_than <*lex*> less_than) walk_measure" by (auto simp: walk_measure_def)
qed (auto simp: walk_measure_def)

declare directoryBytes.simps [simp del]

section \<open>The budget bounds the walk\<close>

text \<open>Where the state counts the entries looked at, and opening a directory looks at none.\<close>

definition counts :: "('w \<Rightarrow> nat) \<Rightarrow> 'w walker \<Rightarrow> bool" where
  "counts looked S \<longleftrightarrow>
     (\<forall>p w. looked (snd (wk_Lstat S p w)) = looked w + 1) \<and> (\<forall>p w. looked (snd (wk_Open S p w)) = looked w)"

lemma walk_counts:
  assumes "counts looked S"
  shows "directoryBytes S sk path remaining w = (r, remaining', w') \<Longrightarrow>
      int (looked w') - int (looked w) \<le> max 0 remaining - max 0 remaining'"
    and "entriesBytes S sk path ns fin acc remaining w = (r, remaining', w') \<Longrightarrow>
      int (looked w') - int (looked w) \<le> max 0 remaining - max 0 remaining'"
  using assms
proof (induction S sk path remaining w and S sk path ns fin acc remaining w arbitrary: r remaining' w' and r remaining' w'
    rule: directoryBytes_entriesBytes.induct)
  case (1 S sk path remaining w)
  note l = 1(3) [unfolded counts_def]
  obtain x1 w1 where 1: "wk_Lstat S path w = (x1, w1)" by fastforce
  obtain x2 w2 where 2: "wk_Open S path w1 = (x2, w2)" by fastforce
  have "looked w1 = looked w + 1" "looked w2 = looked w1" using l 1 2 by (metis snd_conv)+
  then show ?case using "1.IH" "1.prems" 1 2
    by (auto simp: directoryBytes.simps split: option.splits if_splits sum.splits dirent.splits prod.splits; fastforce)
next
  case (3 S sk path n ns fin acc remaining w)
  obtain x1 r1 w1 where 1: "directoryBytes S sk (path_Join path n) remaining w = (x1, r1, w1)" by (metis prod_cases3)
  show ?case
  proof (cases x1)
    case (Inl e)
    then show ?thesis using "3.IH"(1) [OF 1] "3.prems" 1 by auto
  next
    case (Inr k)
    then show ?thesis using "3.IH"(1) [OF 1] "3.IH"(2) "3.prems" 1 by fastforce
  qed
qed auto

section \<open>What the walk computes\<close>

datatype tree = File int | Special string | Dir "(string \<times> tree) list"

fun tree_bytes :: "tree \<Rightarrow> int" where
  "tree_bytes (File n) = n"
| "tree_bytes (Special t) = 0"
| "tree_bytes (Dir es) = sum_list (map (\<lambda>(n, t). tree_bytes t) es)"

fun tree_entries :: "tree \<Rightarrow> int" where
  "tree_entries (Dir es) = 1 + sum_list (map (\<lambda>(n, t). tree_entries t) es)"
| "tree_entries t = 1"

fun supported :: "bool \<Rightarrow> tree \<Rightarrow> bool" where
  "supported sk (File n) \<longleftrightarrow> True"
| "supported sk (Special t) \<longleftrightarrow> sk"
| "supported sk (Dir es) \<longleftrightarrow> list_all (\<lambda>(n, t). supported sk t) es"

text \<open>A tree that is at a path and stays there, in however many reads its directories are listed.\<close>

fun mounted :: "'w walker \<Rightarrow> string \<Rightarrow> tree \<Rightarrow> bool" where
  "mounted S p (File n) \<longleftrightarrow> (\<forall>w. fst (wk_Lstat S p w) = Inr (Regular n))"
| "mounted S p (Special t) \<longleftrightarrow> (\<forall>w. fst (wk_Lstat S p w) = Inr (Unsupported t))"
| "mounted S p (Dir es) \<longleftrightarrow> (\<forall>w. fst (wk_Lstat S p w) = Inr Directory) \<and>
     (\<forall>w. \<exists>reads. concat reads = map fst es \<and> fst (wk_Open S p w) = Inr (reads, None)) \<and>
     list_all (\<lambda>(n, t). mounted S (path_Join p n) t) es"

lemma tree_entries_pos: "0 < tree_entries t"
proof (induction t)
  case (Dir es)
  then have "0 \<le> sum_list (map (\<lambda>(n, t). tree_entries t) es)" by (intro sum_list_nonneg) fastforce
  then show ?case by simp
qed auto

lemma entries_nonneg: "0 \<le> sum_list (map (\<lambda>(n, t). tree_entries t) es)"
  by (rule sum_list_nonneg) (auto intro: less_imp_le [OF tree_entries_pos])

text \<open>The outcome of a walk that needs \<open>cost\<close> entries: its total, or the error that the budget is spent.\<close>

definition settles :: "(walk_error + int) \<times> int \<times> 'w \<Rightarrow> int \<Rightarrow> int \<Rightarrow> int \<Rightarrow> bool" where
  "settles out remaining cost bytes \<longleftrightarrow>
     (if cost \<le> remaining then fst out = Inr bytes \<and> fst (snd out) = remaining - cost else fst out = Inl budget_exceeded)"

lemma entries_settle:
  assumes "\<And>n t remaining w. (n, t) \<in> set es \<Longrightarrow> 0 \<le> remaining \<Longrightarrow>
      settles (directoryBytes S sk (path_Join p n) remaining w) remaining (tree_entries t) (tree_bytes t)"
    and "0 \<le> remaining"
  shows "settles (entriesBytes S sk p (map fst es) None acc remaining w) remaining
      (sum_list (map (\<lambda>(n, t). tree_entries t) es)) (acc + sum_list (map (\<lambda>(n, t). tree_bytes t) es))"
  using assms
proof (induction es arbitrary: acc remaining w)
  case (Cons e es)
  obtain n t where e: "e = (n, t)" by fastforce
  obtain x r1 w1 where 1: "directoryBytes S sk (path_Join p n) remaining w = (x, r1, w1)" by (metis prod_cases3)
  have d: "settles (x, r1, w1) remaining (tree_entries t) (tree_bytes t)"
    using Cons.prems(1) [of n t remaining w] Cons.prems(2) by (simp add: e 1)
  show ?case
  proof (cases "tree_entries t \<le> remaining")
    case True
    then have x: "x = Inr (tree_bytes t)" "r1 = remaining - tree_entries t" using d by (auto simp: settles_def)
    have "settles (entriesBytes S sk p (map fst es) None (acc + tree_bytes t) r1 w1) r1
        (sum_list (map (\<lambda>(n, t). tree_entries t) es)) (acc + tree_bytes t + sum_list (map (\<lambda>(n, t). tree_bytes t) es))"
      using Cons.prems True by (intro Cons.IH) (auto simp: x(2))
    then show ?thesis by (simp add: e 1 x settles_def algebra_simps)
  next
    case False
    then have "x = Inl budget_exceeded" "\<not> tree_entries t + sum_list (map (\<lambda>(n, t). tree_entries t) es) \<le> remaining"
      using d entries_nonneg [of es] by (auto simp: settles_def)
    then show ?thesis by (simp add: e 1 settles_def)
  qed
qed (simp add: settles_def)

lemma walk_settles:
  assumes "\<And>w. wk_Err S w = None"
  shows "mounted S p t \<Longrightarrow> supported sk t \<Longrightarrow> 0 \<le> remaining \<Longrightarrow>
    settles (directoryBytes S sk p remaining w) remaining (tree_entries t) (tree_bytes t)"
proof (induction t arbitrary: p remaining w)
  case (File n)
  then obtain w1 where "wk_Lstat S p w = (Inr (Regular n), w1)" by (metis fst_conv mounted.simps(1) surj_pair)
  with File show ?case by (simp add: directoryBytes.simps assms settles_def)
next
  case (Special t)
  then obtain w1 where "wk_Lstat S p w = (Inr (Unsupported t), w1)" by (metis fst_conv mounted.simps(2) surj_pair)
  with Special show ?case by (simp add: directoryBytes.simps assms settles_def)
next
  case (Dir es)
  obtain w1 where l: "wk_Lstat S p w = (Inr Directory, w1)" using Dir.prems(1) by (metis fst_conv mounted.simps(3) surj_pair)
  obtain reads w2 where o: "wk_Open S p w1 = (Inr (reads, None), w2)" "concat reads = map fst es"
    using Dir.prems(1) by (metis fst_conv mounted.simps(3) surj_pair)
  show ?case
  proof (cases "remaining - 1 < 0")
    case True
    then show ?thesis using entries_nonneg [of es] Dir.prems(3) by (auto simp: directoryBytes.simps assms settles_def)
  next
    case False
    have "settles (entriesBytes S sk p (map fst es) None 0 (remaining - 1) w2) (remaining - 1)
        (sum_list (map (\<lambda>(n, t). tree_entries t) es)) (0 + sum_list (map (\<lambda>(n, t). tree_bytes t) es))"
    proof (rule entries_settle)
      fix n t r v assume e: "(n, t) \<in> set es" and r: "0 \<le> (r :: int)"
      have "mounted S (path_Join p n) t" "supported sk t" using e Dir.prems(1,2) by (auto simp: list_all_iff)
      then show "settles (directoryBytes S sk (path_Join p n) r v) r (tree_entries t) (tree_bytes t)"
        using Dir.IH e r by auto
    qed (use False in simp)
    then show ?thesis using False by (simp add: directoryBytes.simps assms l o settles_def)
  qed
qed

text \<open>
  C32. The size of a directory is exact or not given: with nothing unsupported in it, the walk of a tree
  of \<open>n\<close> entries gives the sum of the sizes of its files and takes \<open>n\<close> from a budget of at least \<open>n\<close>,
  and fails for any smaller budget. It never gives part of the sum.
\<close>

theorem directory_size_exact:
  assumes "\<And>w. wk_Err S w = None" "mounted S p t" "supported sk t" "0 \<le> remaining"
  shows "if tree_entries t \<le> remaining
    then fst (directoryBytes S sk p remaining w) = Inr (tree_bytes t) \<and>
         fst (snd (directoryBytes S sk p remaining w)) = remaining - tree_entries t
    else fst (directoryBytes S sk p remaining w) = Inl budget_exceeded"
  using walk_settles [OF assms] by (simp add: settles_def)

definition ex_tree :: tree where
  "ex_tree = Dir [(''a'', File 5), (''d'', Dir [(''l'', Special ''L''), (''b'', File 7)])]"

fun lookup_tree :: "tree \<Rightarrow> string list \<Rightarrow> tree option" where
  "lookup_tree t [] = Some t"
| "lookup_tree (Dir es) (n # ns) = (case map_of es n of None \<Rightarrow> None | Some t \<Rightarrow> lookup_tree t ns)"
| "lookup_tree t (n # ns) = None"

text \<open>A walker over a tree at \<open>/c\<close>; its state counts the entries looked at.\<close>

definition tree_walker :: "tree \<Rightarrow> nat walker" where
  "tree_walker t =
     \<lparr>wk_Err = (\<lambda>_. None),
      wk_Lstat = (\<lambda>p w. (case lookup_tree t (drop 2 (Split p (CHR ''/''))) of
          None \<Rightarrow> Inl (PathError p True ''lstat'')
        | Some (File n) \<Rightarrow> Inr (Regular n) | Some (Special x) \<Rightarrow> Inr (Unsupported x) | Some (Dir es) \<Rightarrow> Inr Directory, w + 1)),
      wk_Open = (\<lambda>p w. (case lookup_tree t (drop 2 (Split p (CHR ''/''))) of
          Some (Dir es) \<Rightarrow> Inr ([map fst es], None) | _ \<Rightarrow> Inl (PathError p True ''open''), w))\<rparr>"

lemma ex_joins:
  "path_Join ''/c'' ''a'' = ''/c/a''" "path_Join ''/c'' ''d'' = ''/c/d''" "path_Join ''/c/d'' ''l'' = ''/c/d/l''"
  "path_Join ''/c/d'' ''b'' = ''/c/d/b''"
  by (simp_all add: path_Join_def path_Clean_def HasPrefix_def Let_def)

lemma ex_tree_mounted: "mounted (tree_walker ex_tree) ''/c'' ex_tree"
proof -
  have "mounted (tree_walker ex_tree) ''/c'' (Dir [(''a'', File 5), (''d'', Dir [(''l'', Special ''L''), (''b'', File 7)])])"
    unfolding mounted.simps list.pred_inject prod.case ex_joins
    by (simp add: tree_walker_def ex_tree_def)
  then show ?thesis by (simp add: ex_tree_def)
qed

theorem directory_size_exact_witness:
  "fst (directoryBytes (tree_walker ex_tree) True ''/c'' 5 0) = Inr 12 \<and>
   fst (directoryBytes (tree_walker ex_tree) True ''/c'' 4 0) = Inl budget_exceeded"
proof -
  have "wk_Err (tree_walker ex_tree) w = None" for w by (simp add: tree_walker_def)
  note t = directory_size_exact [OF this ex_tree_mounted, of True]
  show ?thesis using t [of 5 0] t [of 4 0] by (simp add: ex_tree_def)
qed

end
