(* ===== verification/Background.thy ===== *)
theory Background
  imports Walk Host
begin

text \<open>
  \<^verbatim>\<open>pkg/metrics/background.go\<close>: the loop that samples the engine, the databases and the file
  systems. What it asks of the operating system and of \<^verbatim>\<open>encoding/json\<close> is the record \<open>sampler\<close>; the
  walk over directories is \<open>Walk\<close>. A written number stands for the \<^verbatim>\<open>float64\<close> of it.
\<close>

section \<open>Samples\<close>

record Statfs_t =
  Blocks :: int
  Bsize :: int
  Bavail :: int
  Files :: int
  Ffree :: int

record databaseMetadata =
  dm_Version :: int
  dm_UpdatedAt :: time
  dm_NextUpdate :: time
  dm_DownloadedAt :: time

record engineProbe =
  ep_Version :: string
  ep_VulnerabilityDB :: "int option"
  ep_JavaDB :: "int option"

text \<open>
  \<open>sp_Decode\<close> is \<^verbatim>\<open>Decode\<close> into \<^verbatim>\<open>databaseMetadata\<close> of the first value of a text, \<open>sp_Probe\<close> \<^verbatim>\<open>Unmarshal\<close>
  into \<^verbatim>\<open>engineProbe\<close>. The zero time is 0.
\<close>

record ('s, 'z) sampler =
  sp_Walk :: "('s, 'z) world_scheme walker"
  sp_Stat :: "string \<Rightarrow> (('s, 'z) world_scheme, walk_error + dirent) state"
  sp_Open :: "string \<Rightarrow> (('s, 'z) world_scheme, walk_error + string) state"
  sp_Statfs :: "string \<Rightarrow> (('s, 'z) world_scheme, goerr + Statfs_t) state"
  sp_Decode :: "string \<Rightarrow> goerr + databaseMetadata"
  sp_Probe :: "string \<Rightarrow> goerr + engineProbe"
  sp_TempDir :: string

definition not_exist :: "walk_error \<Rightarrow> bool" where
  "not_exist e = (case e of PathError p m t \<Rightarrow> m | WalkError e \<Rightarrow> False)"

definition gauge_bool :: "bool \<Rightarrow> mvalue" where
  "gauge_bool b = (if b then Num 1 else Num 0)"

text \<open>The context of a step that is given a timeout.\<close>

definition step_Err :: "time \<Rightarrow> ('s, 'z) world_scheme \<Rightarrow> goerr option" where
  "step_Err deadline w =
     (case parent_Err w of Some e \<Rightarrow> Some e | None \<Rightarrow> if clock w \<ge> deadline then Some DeadlineExceeded else None)"

section \<open>The engine\<close>

definition analysisCacheBackend :: "string \<Rightarrow> string" where
  "analysisCacheBackend configured =
     (if configured = [] \<or> configured = ''fs'' then ''filesystem''
      else if configured = ''memory'' then ''memory''
      else if HasPrefix configured ''redis://'' \<or> HasPrefix configured ''rediss://'' then ''redis''
      else ''unknown'')"

definition set_schema :: "string \<times> int option \<Rightarrow> Recorder \<Rightarrow> Recorder" where
  "set_schema db r =
     (case snd db of
        None \<Rightarrow> Delete ''db_schema_version'' [fst db] r
      | Some v \<Rightarrow> SetTo ''db_schema_version'' (Num v) [fst db] r)"

text \<open>What the probe's result does to the recorder, and the version it gives back.\<close>

definition probe_failed :: "Recorder \<Rightarrow> Recorder" where
  "probe_failed r =
     InvalidateVersion (Delete ''db_schema_version'' [''java''] (Delete ''db_schema_version'' [''vulnerability''] r))"

definition probe_read :: "string \<Rightarrow> string \<Rightarrow> engineProbe \<Rightarrow> string \<Rightarrow> time \<Rightarrow> Recorder \<Rightarrow> Recorder" where
  "probe_read adapterVersion previous info out now r =
     (let r = (if previous \<noteq> [] \<and> previous \<noteq> ep_Version info
               then Delete ''build_info'' [adapterVersion, previous] r else r);
          r = SetTo ''build_info'' (Num 1) [adapterVersion, ep_Version info] r;
          r = set_schema (''vulnerability'', ep_VulnerabilityDB info) r;
          r = set_schema (''java'', ep_JavaDB info) r
      in cacheVersion out now r)"

definition probeEngine ::
    "('s, 'z) host \<Rightarrow> ('s, 'z) sampler \<Rightarrow> Config \<Rightarrow> string \<Rightarrow> string \<Rightarrow> (('s, 'z) world_scheme, string) state" where
  "probeEngine H P cfg adapterVersion previous =
     State_Monad.bind Now (\<lambda>now.
     State_Monad.bind
       (Run H (step_Err (now + CollectionTimeout (c_Metrics cfg))) ''version''
          \<lparr>cmd_Path = ''trivy'',
           cmd_Args = [''trivy'', ''--cache-dir'', CacheDir (c_Trivy cfg), ''version'', ''--format'', ''json''],
           cmd_Env = None, cmd_WaitDelay = 0\<rparr>) (\<lambda>res.
     case (if run_err res \<noteq> None then None
           else case sp_Probe P (run_stdout res) of Inl e \<Rightarrow> None | Inr info \<Rightarrow> if ep_Version info = [] then None else Some info) of
       None \<Rightarrow> thenM (metric probe_failed) (State_Monad.return [])
     | Some info \<Rightarrow>
         State_Monad.bind Now (\<lambda>now.
         thenM (metric (probe_read adapterVersion previous info (run_stdout res) now)) (State_Monad.return (ep_Version info)))))"

section \<open>The databases\<close>

text \<open>The metadata of a database, or why there is none; at most 1 MiB and a byte of it is read.\<close>

definition read_metadata :: "('s, 'z) sampler \<Rightarrow> string \<Rightarrow> (('s, 'z) world_scheme, walk_error + databaseMetadata) state" where
  "read_metadata P path =
     State_Monad.bind (sp_Open P path) (\<lambda>r. State_Monad.return (
       case r of
         Inl e \<Rightarrow> Inl e
       | Inr content \<Rightarrow>
           (case sp_Decode P (take (2 ^ 20 + 1) content) of
              Inl e \<Rightarrow> Inl (WalkError e)
            | Inr meta \<Rightarrow>
                if dm_Version meta \<le> 0 \<or> dm_UpdatedAt meta = 0
                then Inl (WalkError (ErrText ''incomplete database metadata'')) else Inr meta)))"

text \<open>Whether the observation failed, and the metadata when the database is there.\<close>

definition database_seen :: "walk_error + dirent \<Rightarrow> walk_error + databaseMetadata \<Rightarrow> bool \<times> databaseMetadata option" where
  "database_seen db_file meta =
     (let regular = (case db_file of Inr (Regular n) \<Rightarrow> True | _ \<Rightarrow> False);
          failed = (case db_file of Inl e \<Rightarrow> \<not> not_exist e | Inr x \<Rightarrow> \<not> regular) \<or>
                   (case meta of Inl e \<Rightarrow> \<not> not_exist e | Inr m \<Rightarrow> False)
      in (failed, case meta of Inl e \<Rightarrow> None | Inr m \<Rightarrow> if regular then Some m else None))"

definition set_stamp :: "string \<Rightarrow> string \<Rightarrow> time option \<Rightarrow> Recorder \<Rightarrow> Recorder" where
  "set_stamp name db stamp r =
     (case stamp of
        None \<Rightarrow> Delete name [db] r
      | Some t \<Rightarrow> if t = 0 then Delete name [db] r else SetTo name (Num (Unix t)) [db] r)"

text \<open>The three stamps are written in an order Go does not fix; they are different series.\<close>

definition record_database :: "string \<Rightarrow> bool \<times> databaseMetadata option \<Rightarrow> Recorder \<Rightarrow> Recorder" where
  "record_database db seen r =
     (let r = (if fst seen then Delete ''db_present'' [db] r
               else SetTo ''db_present'' (gauge_bool (snd seen \<noteq> None)) [db] r);
          r = set_stamp ''db_updated_timestamp_seconds'' db (map_option dm_UpdatedAt (snd seen)) r;
          r = set_stamp ''db_next_update_timestamp_seconds'' db (map_option dm_NextUpdate (snd seen)) r
      in set_stamp ''db_downloaded_timestamp_seconds'' db (map_option dm_DownloadedAt (snd seen)) r)"

definition collectDatabase ::
    "('s, 'z) sampler \<Rightarrow> string \<Rightarrow> string \<times> string \<times> string \<Rightarrow> (('s, 'z) world_scheme, bool) state" where
  "collectDatabase P cacheDir db =
     (case db of (name, dir, db_file) \<Rightarrow>
        let root = path_Join cacheDir dir in
        State_Monad.bind (sp_Stat P (path_Join root db_file)) (\<lambda>st.
        State_Monad.bind (read_metadata P (path_Join root ''metadata.json'')) (\<lambda>meta.
        thenM (metric (record_database name (database_seen st meta)))
          (State_Monad.return (\<not> fst (database_seen st meta))))))"

definition collectMetadata :: "('s, 'z) sampler \<Rightarrow> TrivyConfig \<Rightarrow> bool \<Rightarrow> (('s, 'z) world_scheme, unit) state" where
  "collectMetadata P cfg versionOK =
     State_Monad.bind (collectDatabase P (CacheDir cfg) (''vulnerability'', ''db'', ''trivy.db'')) (\<lambda>ok1.
     State_Monad.bind (collectDatabase P (CacheDir cfg) (''java'', ''java-db'', ''trivy-java.db'')) (\<lambda>ok2.
     let ok = versionOK \<and> ok1 \<and> ok2 in
     thenM (metric (SetTo ''metadata_collection_success'' (gauge_bool ok) []))
       (if ok then State_Monad.bind Now (\<lambda>now. metric (SetTo ''metadata_last_success_timestamp_seconds'' (Num (Unix now)) []))
        else State_Monad.return ())))"

section \<open>The file systems\<close>

definition collectionResult :: "string \<Rightarrow> time \<Rightarrow> bool \<Rightarrow> (('s, 'z) world_scheme, unit) state" where
  "collectionResult collector started ok =
     State_Monad.bind Now (\<lambda>now.
     thenM (metric (SetTo ''storage_collection_success'' (gauge_bool ok) [collector]))
     (thenM (metric (Observe ''storage_collection_duration_seconds'' (Secs (now - started)) [collector]))
       (if ok then metric (SetTo ''storage_last_success_timestamp_seconds'' (Num (Unix now)) [collector])
        else State_Monad.return ())))"

text \<open>\<^verbatim>\<open>filesystem\<close> of \<^verbatim>\<open>platform_unix.go\<close>: capacity, available, and inodes or -1.\<close>

definition filesystem :: "Statfs_t \<Rightarrow> int \<times> int \<times> int" where
  "filesystem stat =
     (Blocks stat * Bsize stat, Bavail stat * Bsize stat, if Files stat > 0 then Ffree stat else - 1)"

definition record_filesystem :: "string \<Rightarrow> goerr + Statfs_t \<Rightarrow> Recorder \<Rightarrow> Recorder" where
  "record_filesystem area st r =
     (case st of
        Inl e \<Rightarrow> Delete ''storage_inodes_available'' [area]
                   (Delete ''storage_available_bytes'' [area] (Delete ''storage_capacity_bytes'' [area] r))
      | Inr stat \<Rightarrow>
          (case filesystem stat of (capacity, available, inodes) \<Rightarrow>
             let r = SetTo ''storage_available_bytes'' (Num available) [area]
                       (SetTo ''storage_capacity_bytes'' (Num capacity) [area] r)
             in if inodes \<ge> 0 then SetTo ''storage_inodes_available'' (Num inodes) [area] r
                else Delete ''storage_inodes_available'' [area] r))"

definition collectFilesystem :: "('s, 'z) sampler \<Rightarrow> string \<Rightarrow> string \<Rightarrow> (('s, 'z) world_scheme, unit) state" where
  "collectFilesystem P path area =
     State_Monad.bind Now (\<lambda>started.
     State_Monad.bind (sp_Statfs P path) (\<lambda>st.
     thenM (metric (record_filesystem area st))
       (collectionResult (area @ ''_filesystem'') started (\<not> isl st))))"

section \<open>The size of the cache\<close>

text \<open>
  The root of the children's temporary directories: the entries of one read, then read by read. A
  directory that went whole is skipped; when something in one vanished, no total is given.
\<close>

fun tempEntries ::
    "'w walker \<Rightarrow> string \<Rightarrow> string list \<Rightarrow> int \<Rightarrow> walk_error option \<Rightarrow> int \<Rightarrow> 'w
      \<Rightarrow> (walk_error + int \<times> walk_error option) \<times> int \<times> 'w" where
  "tempEntries S root [] acc partial remaining w = (Inr (acc, partial), remaining, w)"
| "tempEntries S root (n # ns) acc partial remaining w =
     (case directoryBytes S True (path_Join root n) remaining w of
        (Inr sz, remaining, w) \<Rightarrow> tempEntries S root ns (acc + sz) partial remaining w
      | (Inl e, remaining, w) \<Rightarrow>
          if not_exist e
          then tempEntries S root ns acc (if err_path e = path_Join root n then partial else Some e) remaining w
          else (Inl e, remaining, w))"

fun tempReads ::
    "'w walker \<Rightarrow> string \<Rightarrow> string list list \<Rightarrow> walk_error option \<Rightarrow> int \<Rightarrow> walk_error option \<Rightarrow> int \<Rightarrow> 'w
      \<Rightarrow> (walk_error + int) \<times> int \<times> 'w" where
  "tempReads S root [] fin acc partial remaining w =
     (case fin of
        Some e \<Rightarrow> Inl e
      | None \<Rightarrow> (case partial of None \<Rightarrow> Inr acc | Some e \<Rightarrow> Inl e), remaining, w)"
| "tempReads S root (b # bs) fin acc partial remaining w =
     (case wk_Err S w of
        Some e \<Rightarrow> (Inl (WalkError e), remaining, w)
      | None \<Rightarrow>
          (case tempEntries S root b acc partial remaining w of
             (Inl e, remaining, w) \<Rightarrow> (Inl e, remaining, w)
           | (Inr (acc, partial), remaining, w) \<Rightarrow> tempReads S root bs fin acc partial remaining w))"

definition trivyTempBytes :: "'w walker \<Rightarrow> string \<Rightarrow> int \<Rightarrow> 'w \<Rightarrow> (walk_error + int) \<times> int \<times> 'w" where
  "trivyTempBytes S root remaining w =
     (case wk_Open S root w of
        (Inl e, w) \<Rightarrow> (if not_exist e then Inr 0 else Inl e, remaining, w)
      | (Inr (reads, fin), w) \<Rightarrow>
          if remaining - 1 < 0 then (Inl budget_exceeded, remaining - 1, w)
          else tempReads S root reads fin 0 None (remaining - 1) w)"

text \<open>The walk as an operation on the world; the budget is passed on.\<close>

definition walk_op :: "(int \<Rightarrow> 'w \<Rightarrow> (walk_error + int) \<times> int \<times> 'w) \<Rightarrow> int \<Rightarrow> ('w, (walk_error + int) \<times> int) state" where
  "walk_op f remaining = State (\<lambda>w. case f remaining w of (r, remaining', w') \<Rightarrow> ((r, remaining'), w'))"

definition record_size :: "string \<Rightarrow> walk_error + int \<Rightarrow> Recorder \<Rightarrow> Recorder" where
  "record_size knd sz r =
     (case sz of
        Inl e \<Rightarrow> Delete ''cache_size_bytes'' [knd] r
      | Inr n \<Rightarrow> SetTo ''cache_size_bytes'' (Num n) [knd] r)"

definition collectPart ::
    "('s, 'z) sampler \<Rightarrow> (('s, 'z) world_scheme) walker \<Rightarrow> string \<Rightarrow> string \<Rightarrow> string \<times> string \<Rightarrow> int
      \<Rightarrow> (('s, 'z) world_scheme, bool \<times> int) state" where
  "collectPart P S root backend part remaining =
     (case part of (knd, dir) \<Rightarrow>
        if knd = ''analysis'' \<and> backend \<noteq> ''filesystem''
        then thenM (metric (Delete ''cache_size_bytes'' [knd])) (State_Monad.return (True, remaining))
        else let path = path_Join root dir in
          State_Monad.bind (walk_op (directoryBytes S False path) remaining) (\<lambda>(sz, remaining).
          State_Monad.bind
            (case sz of
               Inl e \<Rightarrow>
                 if not_exist e \<and> err_path e = path
                 then State_Monad.bind (sp_Stat P root) (\<lambda>st. State_Monad.return (if st = Inr Directory then Inr 0 else sz))
                 else State_Monad.return sz
             | Inr n \<Rightarrow> State_Monad.return sz) (\<lambda>sz.
          thenM (metric (record_size knd sz)) (State_Monad.return (\<not> isl sz, remaining)))))"

definition collectCache ::
    "('s, 'z) sampler \<Rightarrow> time \<Rightarrow> string \<Rightarrow> string \<Rightarrow> int \<Rightarrow> string \<Rightarrow> (('s, 'z) world_scheme, unit) state" where
  "collectCache P deadline root tempRoot maxFiles backend =
     (let S = sp_Walk P\<lparr>wk_Err := step_Err deadline\<rparr> in
      State_Monad.bind Now (\<lambda>started.
      State_Monad.bind (collectPart P S root backend (''analysis'', ''fanal'') maxFiles) (\<lambda>(ok1, remaining).
      State_Monad.bind (collectPart P S root backend (''vulnerability_db'', ''db'') remaining) (\<lambda>(ok2, remaining).
      State_Monad.bind (collectPart P S root backend (''java_db'', ''java-db'') remaining) (\<lambda>(ok3, remaining).
      State_Monad.bind (walk_op (trivyTempBytes S tempRoot) remaining) (\<lambda>(sz, remaining).
      thenM (metric (record_size ''tmp_trivy'' sz))
        (collectionResult ''cache_size'' started (ok1 \<and> ok2 \<and> ok3 \<and> \<not> isl sz))))))))"

section \<open>The loop\<close>

definition sample_once ::
    "('s, 'z) host \<Rightarrow> ('s, 'z) sampler \<Rightarrow> Config \<Rightarrow> string \<Rightarrow> string \<Rightarrow> string \<Rightarrow> (('s, 'z) world_scheme, string) state" where
  "sample_once H P cfg adapterVersion tempRoot version =
     State_Monad.bind (probeEngine H P cfg adapterVersion version) (\<lambda>probed.
     thenM (collectMetadata P (c_Trivy cfg) (probed \<noteq> []))
     (thenM (collectFilesystem P (CacheDir (c_Trivy cfg)) ''cache'')
     (thenM (collectFilesystem P (ReportsDir (c_Trivy cfg)) ''reports'')
     (thenM (collectFilesystem P (sp_TempDir P) ''tmp'')
     (thenM
       (if CacheSizeEnabled (c_Metrics cfg)
        then State_Monad.bind Now (\<lambda>now.
          collectCache P (now + CollectionTimeout (c_Metrics cfg)) (CacheDir (c_Trivy cfg)) tempRoot
            (CacheMaxFiles (c_Metrics cfg)) (analysisCacheBackend (CacheBackend (c_Trivy cfg))))
        else State_Monad.return ())
       (State_Monad.return (if probed \<noteq> [] then probed else version)))))))"

text \<open>
  The goroutine, for the times its timer fired before the context was seen to be done: each list
  element is the passing of one interval, which is the world's to decide.
\<close>

fun sample_loop ::
    "('s, 'z) host \<Rightarrow> ('s, 'z) sampler \<Rightarrow> Config \<Rightarrow> string \<Rightarrow> string \<Rightarrow> (('s, 'z) world_scheme \<Rightarrow> ('s, 'z) world_scheme) list
      \<Rightarrow> string \<Rightarrow> (('s, 'z) world_scheme, unit) state" where
  "sample_loop H P cfg adapterVersion tempRoot [] version = State_Monad.return ()"
| "sample_loop H P cfg adapterVersion tempRoot (wait # waits) version =
     State_Monad.bind (gets parent_Err) (\<lambda>stop.
     if stop \<noteq> None then State_Monad.return ()
     else State_Monad.bind (sample_once H P cfg adapterVersion tempRoot version) (\<lambda>version.
          thenM (modify wait) (sample_loop H P cfg adapterVersion tempRoot waits version)))"

text \<open>What \<^verbatim>\<open>Start\<close> sets before the loop. A duration is set in seconds.\<close>

definition start_gauges :: "Config \<Rightarrow> Recorder \<Rightarrow> Recorder" where
  "start_gauges cfg r =
     (let r = r\<lparr>ver_ttl := 2 * CollectionInterval (c_Metrics cfg)\<rparr>;
          r = SetTo ''worker_concurrency'' (Num (WorkerConcurrency (c_JobQueue cfg))) [] r;
          r = SetTo ''analysis_cache_backend_info'' (Num 1) [analysisCacheBackend (CacheBackend (c_Trivy cfg))] r;
          r = SetTo ''scan_timeout_seconds'' (Secs (Timeout (c_Trivy cfg))) [] r;
          r = SetTo ''scan_job_ttl_seconds'' (Secs (rs_ScanJobTTL (c_RedisStore cfg))) [] r;
          r = SetTo ''db_updates_enabled'' (gauge_bool (\<not> SkipDBUpdate (c_Trivy cfg))) [''vulnerability''] r
      in SetTo ''db_updates_enabled'' (gauge_bool (\<not> SkipJavaDBUpdate (c_Trivy cfg))) [''java''] r)"

definition recorder_Start ::
    "('s, 'z) host \<Rightarrow> ('s, 'z) sampler \<Rightarrow> Config \<Rightarrow> string \<Rightarrow> string \<Rightarrow> (('s, 'z) world_scheme \<Rightarrow> ('s, 'z) world_scheme) list
      \<Rightarrow> (('s, 'z) world_scheme, unit) state" where
  "recorder_Start H P cfg adapterVersion tempRoot waits =
     State_Monad.bind (gets recorder) (\<lambda>r.
     if r = None then State_Monad.return ()
     else thenM (metric (start_gauges cfg)) (sample_loop H P cfg adapterVersion tempRoot waits []))"

end
