(* ===== verification/Background_Spec.thy ===== *)
theory Background_Spec
  imports Background Ref_Host
begin

text \<open>What the background loop guarantees: its budget, its metrics, and that it leaves everything else alone.\<close>

section \<open>The budget of a sample\<close>

text \<open>The entries looked at and what is left of the budget stay within a bound.\<close>

definition within :: "('w \<Rightarrow> nat) \<Rightarrow> int \<Rightarrow> int \<Rightarrow> 'w \<Rightarrow> bool" where
  "within looked bound remaining w \<longleftrightarrow> int (looked w) + max 0 remaining \<le> bound"

definition spends :: "('w \<Rightarrow> nat) \<Rightarrow> (int \<Rightarrow> 'w \<Rightarrow> 'r \<times> int \<times> 'w) \<Rightarrow> bool" where
  "spends looked f \<longleftrightarrow> (\<forall>bound remaining w. within looked bound remaining w \<longrightarrow>
     within looked bound (fst (snd (f remaining w))) (snd (snd (f remaining w))))"

lemma spendsD: "spends looked f \<Longrightarrow> within looked bound remaining w \<Longrightarrow> f remaining w = (r, remaining', w') \<Longrightarrow>
    within looked bound remaining' w'"
  by (force simp: spends_def)

lemma spends_directoryBytes: "counts looked S \<Longrightarrow> spends looked (directoryBytes S sk path)"
proof (unfold spends_def, intro allI impI)
  fix bound remaining w
  assume c: "counts looked S" and b: "within looked bound remaining w"
  obtain r r1 w1 where 1: "directoryBytes S sk path remaining w = (r, r1, w1)" by (metis prod_cases3)
  show "within looked bound (fst (snd (directoryBytes S sk path remaining w))) (snd (snd (directoryBytes S sk path remaining w)))"
    using walk_counts(1) [OF c 1] b by (simp add: 1 within_def)
qed

lemma tempEntries_within:
  assumes c: "counts looked S"
  shows "within looked bound remaining w \<Longrightarrow> tempEntries S root ns acc partial remaining w = (r, remaining', w') \<Longrightarrow>
    within looked bound remaining' w'"
proof (induction ns arbitrary: acc partial remaining w)
  case (Cons n ns)
  obtain x r1 w1 where 1: "directoryBytes S True (path_Join root n) remaining w = (x, r1, w1)" by (metis prod_cases3)
  have "within looked bound r1 w1" by (rule spendsD [OF spends_directoryBytes [OF c] Cons.prems(1) 1])
  then show ?case using Cons.IH Cons.prems(2) by (auto simp: 1 split: sum.splits if_splits)
qed simp

lemma tempReads_within:
  assumes c: "counts looked S"
  shows "within looked bound remaining w \<Longrightarrow> tempReads S root bs fin acc partial remaining w = (r, remaining', w') \<Longrightarrow>
    within looked bound remaining' w'"
proof (induction bs arbitrary: acc partial remaining w)
  case (Cons b bs)
  obtain x r1 w1 where 1: "tempEntries S root b acc partial remaining w = (x, r1, w1)" by (metis prod_cases3)
  have "within looked bound r1 w1" by (rule tempEntries_within [OF c Cons.prems(1) 1])
  then show ?case using Cons.IH Cons.prems by (auto simp: 1 split: sum.splits option.splits)
qed simp

lemma spends_trivyTempBytes:
  assumes c: "counts looked S"
  shows "spends looked (trivyTempBytes S root)"
proof (unfold spends_def, intro allI impI)
  fix bound remaining w
  assume b: "within looked bound remaining w"
  obtain x w1 where o: "wk_Open S root w = (x, w1)" by fastforce
  have w1: "looked w1 = looked w" using c o by (metis counts_def snd_conv)
  show "within looked bound (fst (snd (trivyTempBytes S root remaining w))) (snd (snd (trivyTempBytes S root remaining w)))"
  proof (cases x)
    case (Inr y)
    obtain reads fin where y: "y = (reads, fin)" by fastforce
    obtain r r2 w2 where 2: "tempReads S root reads fin 0 None (remaining - 1) w1 = (r, r2, w2)" by (metis prod_cases3)
    have "within looked bound (remaining - 1) w1" using b w1 by (simp add: within_def)
    from this tempReads_within [OF c this 2] show ?thesis by (simp add: trivyTempBytes_def o Inr y 2)
  qed (use b w1 in \<open>simp add: trivyTempBytes_def o within_def\<close>)
qed

lemma wp_walk_op:
  "spends looked f \<Longrightarrow> wp (within looked bound remaining) (walk_op f remaining) (\<lambda>(r, remaining'). within looked bound remaining')"
  by (rule wpI) (auto simp: walk_op_def dest: spendsD split: prod.splits)

definition unseen :: "('w \<Rightarrow> nat) \<Rightarrow> ('w, 'a) state \<Rightarrow> bool" where
  "unseen looked m \<longleftrightarrow> (\<forall>w. looked (snd (run_state m w)) = looked w)"

lemma keeps_unseen: "unseen looked m \<Longrightarrow> keeps (within looked bound remaining) m"
  by (rule keepsI) (auto simp: unseen_def within_def, metis snd_conv)

lemma unseen_metric: "(\<And>w f. looked (w\<lparr>recorder := f\<rparr>) = looked w) \<Longrightarrow> unseen looked (metric f)"
  by (simp add: unseen_def metric_def)

lemma unseen_Now: "unseen looked Now"
  by (simp add: unseen_def Now_def)

lemma wp_collectPart:
  assumes c: "counts looked S" and rec: "\<And>w f. looked (w\<lparr>recorder := f\<rparr>) = looked w"
    and st: "\<And>p. unseen looked (sp_Stat P p)"
  shows "wp (within looked bound remaining) (collectPart P S root backend part remaining)
    (\<lambda>(ok, remaining'). within looked bound remaining')"
proof -
  note k = keeps_unseen [OF unseen_metric [OF rec]] keeps_unseen [OF st]
  obtain knd dir where p: "part = (knd, dir)" by fastforce
  show ?thesis
    unfolding collectPart_def p prod.case Let_def
  proof (intro wp_if)
    show "wp (within looked bound remaining) (thenM (metric (Delete ''cache_size_bytes'' [knd])) (State_Monad.return (True, remaining)))
      (\<lambda>(ok, remaining'). within looked bound remaining')"
      by (intro wp_then_keeps k wp_return) simp
  next
    let ?rest = "\<lambda>sz remaining'. State_Monad.bind
            (case sz of
               Inl e \<Rightarrow>
                 if not_exist e \<and> err_path e = path_Join root dir
                 then State_Monad.bind (sp_Stat P root) (\<lambda>st. State_Monad.return (if st = Inr Directory then Inr 0 else sz))
                 else State_Monad.return sz
             | Inr n \<Rightarrow> State_Monad.return sz) (\<lambda>sz.
          thenM (metric (record_size knd sz)) (State_Monad.return (\<not> isl sz, remaining')))"
    have rest: "wp (within looked bound r) (?rest sz r) (\<lambda>(ok, remaining'). within looked bound remaining')" for sz r
      by (rule wp_bind_keeps, intro wp_intros k, intro wp_then_keeps k wp_return) simp
    show "wp (within looked bound remaining)
        (State_Monad.bind (walk_op (directoryBytes S False (path_Join root dir)) remaining) (\<lambda>(sz, r). ?rest sz r))
        (\<lambda>(ok, remaining'). within looked bound remaining')"
    proof (rule wp_bind [OF wp_walk_op [OF spends_directoryBytes [OF c]]])
      fix sr :: "(walk_error + int) \<times> int"
      show "wp ((\<lambda>(r, remaining'). within looked bound remaining') sr) ((\<lambda>(sz, r). ?rest sz r) sr)
          (\<lambda>(ok, remaining'). within looked bound remaining')"
        using rest by (cases sr) simp
    qed
  qed
qed

lemma wp_bind_prod:
  assumes "wp P m (\<lambda>(a, b). R a b)" "\<And>a b. wp (R a b) (f a b) Q"
  shows "wp P (State_Monad.bind m (\<lambda>(a, b). f a b)) Q"
proof (rule wp_bind [OF assms(1)])
  fix r
  show "wp ((\<lambda>(a, b). R a b) r) ((\<lambda>(a, b). f a b) r) Q" using assms(2) by (cases r) simp
qed

lemma counts_ctx: "counts looked S \<Longrightarrow> counts looked (S\<lparr>wk_Err := g\<rparr>)"
  by (simp add: counts_def)

lemma unseen_step: "unseen looked m \<Longrightarrow> (\<And>r. unseen looked (f r)) \<Longrightarrow> unseen looked (State_Monad.bind m f)"
  by (simp add: unseen_def split: prod.split) (metis snd_conv)

lemma unseen_then: "unseen looked m \<Longrightarrow> unseen looked n \<Longrightarrow> unseen looked (thenM m n)"
  unfolding thenM_def by (rule unseen_step)

lemma unseen_return: "unseen looked (State_Monad.return x)"
  by (simp add: unseen_def)

lemma unseen_collectionResult:
  assumes rec: "\<And>w f. looked (w\<lparr>recorder := f\<rparr>) = looked w"
  shows "unseen looked (collectionResult c t ok)"
  unfolding collectionResult_def
  by (cases ok) (simp_all add: unseen_step unseen_then unseen_return unseen_Now unseen_metric rec)

text \<open>
  C33. One sample of the cache size looks at no more entries than its configured maximum, over the three
  parts of the cache and the children's temporary directories together, whatever the file system
  answers and however large or deep the directories are.
\<close>

theorem cache_sample_bounded:
  assumes c: "counts looked (sp_Walk P)" and rec: "\<And>w f. looked (w\<lparr>recorder := f\<rparr>) = looked w"
    and st: "\<And>p. unseen looked (sp_Stat P p)"
  shows "int (looked (snd (run_state (collectCache P deadline root tempRoot maxFiles backend) w))) \<le> int (looked w) + max 0 maxFiles"
proof -
  let ?b = "int (looked w) + max 0 maxFiles"
  let ?S = "sp_Walk P\<lparr>wk_Err := step_Err deadline\<rparr>"
  note c' = counts_ctx [OF c, of "step_Err deadline"]
  note part = wp_collectPart [OF c' rec st]
  have last: "wp (within looked ?b rm) (thenM (metric (record_size ''tmp_trivy'' sz)) (collectionResult ''cache_size'' t ok))
      (\<lambda>_. within looked ?b rm)" for rm sz t ok
    using keeps_unseen [OF unseen_then [OF unseen_metric [OF rec] unseen_collectionResult [OF rec]]]
    by (simp add: keeps_def)
  have total: "wp (within looked ?b maxFiles) (collectCache P deadline root tempRoot maxFiles backend) (\<lambda>_ w. int (looked w) \<le> ?b)"
    unfolding collectCache_def Let_def
    apply (rule wp_bind_keeps [OF keeps_unseen [OF unseen_Now]])
    apply (rule wp_bind_prod [OF part])+
    apply (rule wp_bind_prod [OF wp_walk_op [OF spends_trivyTempBytes [OF c']]])
    apply (rule wp_conseq [OF last])
     apply (simp_all add: within_def)
    done
  have "within looked ?b maxFiles w" by (simp add: within_def)
  from wpD [OF total this prod.collapse [symmetric]] show ?thesis .
qed

text \<open>An executable sampler over a tree at \<open>/c\<close>, in a world that counts the entries looked at.\<close>

record 's sworld = "'s hworld" +
  seen_entries :: nat

definition entry_of :: "tree \<Rightarrow> string \<Rightarrow> walk_error + dirent" where
  "entry_of t p =
     (case lookup_tree t (drop 2 (Split p (CHR ''/''))) of
        None \<Rightarrow> Inl (PathError p True ''lstat'')
      | Some (File n) \<Rightarrow> Inr (Regular n) | Some (Special x) \<Rightarrow> Inr (Unsupported x) | Some (Dir es) \<Rightarrow> Inr Directory)"

definition names_of :: "tree \<Rightarrow> string \<Rightarrow> walk_error + string list list \<times> walk_error option" where
  "names_of t p =
     (case lookup_tree t (drop 2 (Split p (CHR ''/''))) of
        Some (Dir es) \<Rightarrow> Inr ([map fst es], None) | _ \<Rightarrow> Inl (PathError p True ''open''))"

definition ref_sampler :: "tree \<Rightarrow> goerr + engineProbe \<Rightarrow> ('s, 'y sworld_ext hworld_ext) sampler" where
  "ref_sampler t probe =
     \<lparr>sp_Walk = \<lparr>wk_Err = (\<lambda>_. None),
        wk_Lstat = (\<lambda>p w. (entry_of t p, w\<lparr>seen_entries := seen_entries w + 1\<rparr>)),
        wk_Open = (\<lambda>p w. (names_of t p, w))\<rparr>,
      sp_Stat = (\<lambda>p. State_Monad.return (entry_of t p)),
      sp_Open = (\<lambda>p. State_Monad.return (Inl (PathError p True ''open''))),
      sp_Statfs = (\<lambda>p. State_Monad.return (Inr \<lparr>Blocks = 8, Bsize = 4, Bavail = 2, Files = 0, Ffree = 0\<rparr>)),
      sp_Decode = (\<lambda>s. Inl (ErrText s)), sp_Probe = (\<lambda>s. probe), sp_TempDir = ''/tmp''\<rparr>"

definition ex_sampler_world :: "ref sworld" where
  "ex_sampler_world =
     \<lparr>srv = ex_server, clock = 10 ^ 9, stopped = None, lost = False, turns = [], recorder = Some empty_recorder,
      entropy = [], hist = [], files = [], tmps = [], seen_entries = 0\<rparr>"

lemma ref_sampler_counts: "counts seen_entries (sp_Walk (ref_sampler t probe))"
  by (simp add: counts_def ref_sampler_def)

theorem cache_sample_bounded_witness:
  "int (seen_entries (snd (run_state (collectCache (ref_sampler ex_tree (Inl Canceled)) (10 ^ 12) ''/c'' ''/c/d'' 3 ''filesystem'')
     ex_sampler_world))) \<le> 3"
  using cache_sample_bounded [OF ref_sampler_counts, of ex_tree "Inl Canceled" "10 ^ 12" "''/c''" "''/c/d''" 3 "''filesystem''" ex_sampler_world]
  by (simp add: unseen_def ref_sampler_def ex_sampler_world_def)

section \<open>What the loop leaves alone\<close>

text \<open>A relation between the states before and after that every step of a walk is in.\<close>

definition walk_within :: "('w \<Rightarrow> 'w \<Rightarrow> bool) \<Rightarrow> 'w walker \<Rightarrow> bool" where
  "walk_within R S \<longleftrightarrow> reflp R \<and> transp R \<and> (\<forall>p w. R w (snd (wk_Lstat S p w))) \<and> (\<forall>p w. R w (snd (wk_Open S p w)))"

lemma walk_related:
  assumes "walk_within R S"
  shows "directoryBytes S sk path remaining w = (r, remaining', w') \<Longrightarrow> R w w'"
    and "entriesBytes S sk path ns fin acc remaining w = (r, remaining', w') \<Longrightarrow> R w w'"
  using assms
proof (induction S sk path remaining w and S sk path ns fin acc remaining w arbitrary: r remaining' w' and r remaining' w'
    rule: directoryBytes_entriesBytes.induct)
  case (1 S sk path remaining w)
  obtain x1 w1 where 1: "wk_Lstat S path w = (x1, w1)" by fastforce
  obtain x2 w2 where 2: "wk_Open S path w1 = (x2, w2)" by fastforce
  have R: "R w w" "R w w1" "R w1 w2" "transp R" using 1 2 "1.prems"(2) unfolding walk_within_def by (metis reflpD snd_conv)+
  then have step: "R w w2" "R w2 v \<Longrightarrow> R w v" for v by (metis transpD)+
  show ?case using "1.IH" "1.prems" 1 2 R step(1)
    by (auto simp: directoryBytes.simps intro: step split: option.splits if_splits sum.splits dirent.splits prod.splits)
next
  case (2 S sk path fin acc remaining w)
  then show ?case by (auto simp: walk_within_def dest: reflpD)
next
  case (3 S sk path n ns fin acc remaining w)
  obtain x1 r1 w1 where 1: "directoryBytes S sk (path_Join path n) remaining w = (x1, r1, w1)" by (metis prod_cases3)
  have R: "R w w1" "transp R" using "3.IH"(1) [OF 1] "3.prems"(2) by (simp_all add: walk_within_def)
  then have step: "R w1 v \<Longrightarrow> R w v" for v by (metis transpD)
  show ?case using "3.IH"(2) "3.prems" 1 R by (cases x1) (auto intro: step)
qed

lemma temp_entries_related:
  assumes "walk_within R S"
  shows "tempEntries S root ns acc partial remaining w = (r, remaining', w') \<Longrightarrow> R w w'"
proof (induction ns arbitrary: acc partial remaining w)
  case Nil
  then show ?case using assms by (auto simp: walk_within_def dest: reflpD)
next
  case (Cons n ns)
  obtain x r1 w1 where 1: "directoryBytes S True (path_Join root n) remaining w = (x, r1, w1)" by (metis prod_cases3)
  have R: "R w w1" "transp R" using walk_related(1) [OF assms 1] assms by (simp_all add: walk_within_def)
  then have step: "R w1 v \<Longrightarrow> R w v" for v by (metis transpD)
  show ?case using Cons R by (cases x) (auto simp: 1 split: if_splits intro: step)
qed

lemma temp_reads_related:
  assumes "walk_within R S"
  shows "tempReads S root bs fin acc partial remaining w = (r, remaining', w') \<Longrightarrow> R w w'"
proof (induction bs arbitrary: acc partial remaining w)
  case Nil
  then show ?case using assms by (auto simp: walk_within_def dest: reflpD)
next
  case (Cons b bs)
  obtain x r1 w1 where 1: "tempEntries S root b acc partial remaining w = (x, r1, w1)" by (metis prod_cases3)
  have R: "R w w1" "transp R" "R w w"
    using temp_entries_related [OF assms 1] assms by (auto simp: walk_within_def dest: reflpD)
  then have step: "R w1 v \<Longrightarrow> R w v" for v by (metis transpD)
  show ?case using Cons R by (cases x) (auto simp: 1 split: option.splits intro: step)
qed

lemma trivyTempBytes_related:
  assumes "walk_within R S" "trivyTempBytes S root remaining w = (r, remaining', w')"
  shows "R w w'"
proof -
  obtain x w1 where o: "wk_Open S root w = (x, w1)" by fastforce
  have R: "R w w1" "transp R" using assms(1) o unfolding walk_within_def by (metis snd_conv)+
  then have step: "R w1 v \<Longrightarrow> R w v" for v by (metis transpD)
  show ?thesis using assms(2) temp_reads_related [OF assms(1)] R
    by (auto simp: trivyTempBytes_def o split: sum.splits if_splits prod.splits intro: step)
qed

definition same :: "(('s, 'z) world_scheme \<Rightarrow> string set) \<Rightarrow> ('s, 'z) world_scheme \<Rightarrow> ('s, 'z) world_scheme \<Rightarrow> bool" where
  "same temps w w' \<longleftrightarrow> steady w w' \<and> temps w' = temps w"

lemma same_order: "reflp (same temps)" "transp (same temps)"
  by (auto simp: same_def steady_def intro: reflpI transpI)

lemma keeps_walk_op: "(\<And>w r rm w'. f remaining w = (r, rm, w') \<Longrightarrow> same temps w w') \<Longrightarrow> keeps (at temps S b h T) (walk_op f remaining)"
  by (rule keepsI) (fastforce simp: walk_op_def at_def same_def dest: steady_rec split: prod.splits)

text \<open>What the loop writes is in the catalog.\<close>

lemma background_records_ok:
  assumes "recorder_ok r"
  shows "recorder_ok (record_size knd sz r)" "recorder_ok (record_filesystem area st r)"
    "recorder_ok (record_database db seen r)" "recorder_ok (probe_failed r)"
    "recorder_ok (probe_read v previous info out now r)" "recorder_ok (start_gauges cfg r)"
  using assms
  by (auto simp: record_size_def record_filesystem_def record_database_def probe_failed_def probe_read_def
      start_gauges_def set_stamp_def set_schema_def InvalidateVersion_def cacheVersion_def recorder_ops record_ok Let_def
      split: sum.split option.split prod.split)

locale sampler_laws = host_laws H temps
  for H :: "('s, 'z) host" and temps :: "('s, 'z) world_scheme \<Rightarrow> string set" +
  fixes P :: "('s, 'z) sampler"
  assumes stat: "calm temps (sp_Stat P x)"
    and open_file: "calm temps (sp_Open P x)"
    and statfs: "calm temps (sp_Statfs P x)"
    and walk: "walk_within (same temps) (sp_Walk P)"
begin

lemma keeps_at_walk:
  "keeps (at temps S b h T) (walk_op (directoryBytes (sp_Walk P\<lparr>wk_Err := g\<rparr>) sk path) remaining)"
  "keeps (at temps S b h T) (walk_op (trivyTempBytes (sp_Walk P\<lparr>wk_Err := g\<rparr>) path) remaining)"
proof -
  have S: "walk_within (same temps) (sp_Walk P\<lparr>wk_Err := g\<rparr>)" using walk by (simp add: walk_within_def)
  show "keeps (at temps S b h T) (walk_op (directoryBytes (sp_Walk P\<lparr>wk_Err := g\<rparr>) sk path) remaining)"
    by (rule keeps_walk_op) (rule walk_related(1) [OF S])
  show "keeps (at temps S b h T) (walk_op (trivyTempBytes (sp_Walk P\<lparr>wk_Err := g\<rparr>) path) remaining)"
    by (rule keeps_walk_op) (rule trivyTempBytes_related [OF S])
qed

lemmas keeps_steps = keeps_at_walk keeps_calm [OF stat] keeps_calm [OF open_file] keeps_calm [OF statfs]
  keeps_at_Run keeps_at_Now

lemma keeps_set:
  "in_catalog OpSet n (length ls) \<Longrightarrow> keeps (at temps S b h T) (metric (SetTo n v ls))"
  "in_catalog OpDelete n (length ls) \<Longrightarrow> keeps (at temps S b h T) (metric (Delete n ls))"
  "in_catalog OpObserve n (length ls) \<Longrightarrow> keeps (at temps S b h T) (metric (Observe n v ls))"
  by (rule keeps_at_record, simp add: recorder_ops record_ok)+

lemma keeps_probe: "keeps (at temps S b h T) (probeEngine H P cfg v previous)"
  unfolding probeEngine_def
  by (intro wp_intros keeps_steps keeps_at_record background_records_ok) assumption+

lemma keeps_metadata: "keeps (at temps S b h T) (collectMetadata P cfg ok)"
  unfolding collectMetadata_def collectDatabase_def read_metadata_def Let_def prod.case
  by (intro wp_intros keeps_steps keeps_set keeps_at_record background_records_ok)
     (simp_all)

lemma keeps_result: "keeps (at temps S b h T) (collectionResult c t ok)"
  unfolding collectionResult_def by (intro wp_intros keeps_steps keeps_set) simp_all

lemma keeps_filesystem: "keeps (at temps S b h T) (collectFilesystem P path area)"
  unfolding collectFilesystem_def
  by (intro wp_intros keeps_steps keeps_result keeps_at_record background_records_ok) assumption

lemma keeps_part: "keeps (at temps S b h T) (collectPart P (sp_Walk P\<lparr>wk_Err := g\<rparr>) root backend part remaining)"
  unfolding collectPart_def Let_def
  by (intro wp_intros keeps_steps keeps_set keeps_at_record background_records_ok) simp_all

lemma keeps_cache: "keeps (at temps S b h T) (collectCache P deadline root tempRoot n backend)"
  unfolding collectCache_def Let_def
  by (intro wp_intros keeps_steps keeps_part keeps_result keeps_at_record background_records_ok) assumption

lemma keeps_sample: "keeps (at temps S b h T) (sample_once H P cfg v tempRoot version)"
  unfolding sample_once_def
  by (intro wp_intros keeps_at_Now keeps_probe keeps_metadata keeps_filesystem keeps_cache)

lemma keeps_loop:
  "(\<And>f. f \<in> set waits \<Longrightarrow> keeps (at temps S b h T) (modify f)) \<Longrightarrow>
   keeps (at temps S b h T) (sample_loop H P cfg v tempRoot waits version)"
proof (induction waits arbitrary: version)
  case (Cons f waits)
  then show ?case unfolding sample_loop.simps by (intro wp_intros keeps_sample) simp_all
qed (simp add: keeps_return)

lemma keeps_start:
  "(\<And>f. f \<in> set waits \<Longrightarrow> keeps (at temps S b h T) (modify f)) \<Longrightarrow>
   keeps (at temps S b h T) (recorder_Start H P cfg v tempRoot waits)"
  unfolding recorder_Start_def
  by (intro wp_intros keeps_loop keeps_at_record background_records_ok) assumption+

end

interpretation refs: sampler_laws "ref_host child images referrers" "\<lambda>w. set (tmps w)" "ref_sampler t probe"
  for child images referrers t probe
  by unfold_locales
    (auto simp: ref_sampler_def calm_def walk_within_def same_def steady_def intro: reflpI transpI)

text \<open>
  However long the background loop runs and whatever it finds, it writes no metric outside the
  catalog, never touches the Redis server and leaves no temporary file: it only samples.
\<close>

lemma background_only_samples:
  assumes laws: "sampler_laws H temps P" and ok: "rec_ok w"
    and waits: "\<forall>f \<in> set waits. \<forall>v. rec_ok v \<longrightarrow> rec_ok (f v) \<and> hist (f v) = hist v \<and> temps (f v) = temps v"
    and run: "run_state (recorder_Start H P cfg adapterVersion tempRoot waits) w = (u, w')"
  shows "rec_ok w' \<and> hist w' = hist w \<and> temps w' = temps w"
proof -
  have "keeps (at temps {} True (hist w) (temps w)) (modify f)" if "f \<in> set waits" for f
    using waits that by (auto simp: at_def intro: keeps_modify)
  then have "keeps (at temps {} True (hist w) (temps w)) (recorder_Start H P cfg adapterVersion tempRoot waits)"
    by (rule sampler_laws.keeps_start [OF laws])
  from keepsD [OF this _ run] show ?thesis using ok by (auto simp: at_def)
qed

lemma ex_sampler_world_ok: "rec_ok ex_sampler_world"
  by (simp add: rec_ok_def ex_sampler_world_def recorder_ok_def empty_recorder_def)

text \<open>For example two rounds, an interval of one second between them.\<close>

lemma background_only_samples_example:
  "\<forall>cfg. rec_ok (snd (run_state (recorder_Start (ref_host (\<lambda>_. ex_result) (\<lambda>_. Inl Canceled) []) (ref_sampler ex_tree (Inl Canceled))
     cfg ''v1'' ''/c/d'' [\<lambda>w. w\<lparr>clock := clock w + second\<rparr>, \<lambda>w. w\<lparr>clock := clock w + second\<rparr>]) ex_sampler_world))"
proof
  fix cfg
  let ?run = "run_state (recorder_Start (ref_host (\<lambda>_. ex_result) (\<lambda>_. Inl Canceled) []) (ref_sampler ex_tree (Inl Canceled))
     cfg ''v1'' ''/c/d'' [\<lambda>w. w\<lparr>clock := clock w + second\<rparr>, \<lambda>w. w\<lparr>clock := clock w + second\<rparr>]) ex_sampler_world"
  show "rec_ok (snd ?run)"
    using background_only_samples [OF refs.sampler_laws_axioms [where child = "\<lambda>_. ex_result" and images = "\<lambda>_. Inl Canceled"
            and referrers = "[]" and t = ex_tree and probe = "Inl Canceled"] ex_sampler_world_ok _ prod.collapse [symmetric],
        where waits = "[\<lambda>w. w\<lparr>clock := clock w + second\<rparr>, \<lambda>w. w\<lparr>clock := clock w + second\<rparr>]"
          and cfg = cfg and adapterVersion = "''v1''" and tempRoot = "''/c/d''"]
    by (simp add: rec_ok_def)
qed

section \<open>The engine's series\<close>

lemma normalize_two:
  "normalize ''build_info'' [a, b] = Some [a, b]"
  by (simp add: normalize_def catalog_def normalize_label_def allowed_values_def label_values_def)

lemma normalize_schema:
  "db \<in> {''vulnerability'', ''java''} \<Longrightarrow> normalize ''db_schema_version'' [db] = Some [db]"
  by (auto simp: normalize_def catalog_def normalize_label_def allowed_values_def label_values_def)

lemma gauge_op:
  assumes "normalize n l = Some l" "in_catalog mop n (length l)"
  shows "gauge_value name ls (registry (record_op mop n v l r)) =
    (if n = name \<and> l = ls \<and> mop = OpSet then Some v
     else if n = name \<and> l = ls \<and> mop = OpDelete then None else gauge_value name ls (registry r))"
  using assms by (simp add: record_op_eq gauge_value_append)

text \<open>
  C35. What a successful probe leaves on the scrape is what the engine said: its version is the current
  build, the build of a version it replaces is gone, a database that was not reported has no schema
  version rather than the last one, and the output is cached for the API with a new generation.
\<close>

theorem probe_reflects_engine:
  "let r' = probe_read adapter previous info out now r;
       gauge = (\<lambda>n ls. gauge_value n ls (registry r'))
   in gauge ''build_info'' [adapter, ep_Version info] = Some (Num 1) \<and>
      (previous \<noteq> [] \<and> previous \<noteq> ep_Version info \<longrightarrow> gauge ''build_info'' [adapter, previous] = None) \<and>
      gauge ''db_schema_version'' [''vulnerability''] = map_option Num (ep_VulnerabilityDB info) \<and>
      gauge ''db_schema_version'' [''java''] = map_option Num (ep_JavaDB info) \<and>
      (CachedVersion now r' = (if ver_ttl r > 0 \<and> out \<noteq> [] then Some (out, ver_generation r + 1) else None))"
proof -
  have other: "''build_info'' \<noteq> ''db_schema_version''" "''vulnerability'' \<noteq> ''java''" by simp_all
  note build = gauge_op [OF normalize_two, where v = "Num 1"] gauge_op [OF normalize_two, where v = "Num 0"]
  note schema = gauge_op [OF normalize_schema]
  show ?thesis
    by (cases "ep_VulnerabilityDB info"; cases "ep_JavaDB info")
       (simp_all add: probe_read_def set_schema_def cacheVersion_def CachedVersion_def Let_def recorder_ops build schema
          other other [symmetric] del: list.inject char.inject)
qed

theorem probe_reflects_engine_witness:
  "gauge_value ''build_info'' [''a'', ''1''] (registry (probe_read ''a'' ''1'' \<lparr>ep_Version = ''2'', ep_VulnerabilityDB = Some 2,
     ep_JavaDB = None\<rparr> ''o'' 5 (SetTo ''build_info'' (Num 1) [''a'', ''1''] empty_recorder))) = None"
  using probe_reflects_engine [of "''a''" "''1''" "\<lparr>ep_Version = ''2'', ep_VulnerabilityDB = Some 2, ep_JavaDB = None\<rparr>" "''o''" 5
      "SetTo ''build_info'' (Num 1) [''a'', ''1''] empty_recorder"]
  by (simp add: Let_def)

end
