(* ===== verification/Worker_Spec.thy ===== *)
theory Worker_Spec
  imports Worker Controller_Spec
begin

text \<open>
  What the worker promises: its changes to the server, when a delivery leaves the stream, the
  consumer group, and its metrics.
\<close>

section \<open>Invariants of the history\<close>

text \<open>A property of what the process has done to the server so far.\<close>

definition on_hist :: "(('s \<times> 's) list \<Rightarrow> bool) \<Rightarrow> ('s, 'z) world_scheme \<Rightarrow> bool" where
  "on_hist F w \<longleftrightarrow> F (hist w)"

lemma on_hist_upd [simp]:
  "on_hist F (w\<lparr>srv := a\<rparr>) = on_hist F w" "on_hist F (w\<lparr>clock := b\<rparr>) = on_hist F w" "on_hist F (w\<lparr>stopped := c\<rparr>) = on_hist F w"
  "on_hist F (w\<lparr>lost := d\<rparr>) = on_hist F w" "on_hist F (w\<lparr>turns := e\<rparr>) = on_hist F w" "on_hist F (w\<lparr>recorder := f\<rparr>) = on_hist F w"
  "on_hist F (w\<lparr>entropy := g\<rparr>) = on_hist F w"
  by (simp_all add: on_hist_def)

text \<open>A call either did not reach the server, or is the last entry of the history.\<close>

definition call_step :: "('s, 'a) cmd \<Rightarrow> ('s \<times> 's) list \<Rightarrow> goerr + 'a \<Rightarrow> ('s \<times> 's) list \<Rightarrow> bool" where
  "call_step m h r h' \<longleftrightarrow>
     (\<exists>e. r = Inl e) \<and> h' = h \<or>
     (\<exists>s x s'. run_state m s = (x, s') \<and> h' = h @ [(s, s')] \<and> (\<forall>y. r = Inr y \<longrightarrow> x = Inr y))"

lemma serve_step: "run_state (serve d m) w = (r, w') \<Longrightarrow> call_step m (hist w) r (hist w')"
  by (cases d; cases "run_state m (srv w)") (auto simp: serve_def call_step_def)

lemma call_step: "run_state (call m) w = (r, w') \<Longrightarrow> call_step m (hist w) r (hist w')"
proof (cases "turns w")
  case Nil
  then show "run_state (call m) w = (r, w') \<Longrightarrow> ?thesis" by (simp add: call_def serve_step)
next
  case (Cons t ts)
  assume "run_state (call m) w = (r, w')"
  then have "run_state (serve (outcome t) m) (take_turn t (w\<lparr>turns := ts\<rparr>)) = (r, w')"
    using Cons by (simp add: call_def)
  from serve_step [OF this] show ?thesis by (simp add: take_turn_def)
qed

lemma call_cases:
  assumes "run_state (call m) w = (r, w')"
  obtains (missed) e where "r = Inl e" "hist w' = hist w"
  | (ran) s x s' where "run_state m s = (x, s')" "hist w' = hist w @ [(s, s')]" "\<forall>y. r = Inr y \<longrightarrow> x = Inr y"
  using call_step [OF assms] unfolding call_step_def by blast

lemma call_ok:
  assumes "run_state (call m) w = (Inr x, w')"
  obtains s s' where "run_state m s = (Inr x, s')" "hist w' = hist w @ [(s, s')]"
  using call_step [OF assms] unfolding call_step_def by blast

lemma keeps_on_hist_call:
  assumes m: "changes G m" and F: "\<And>h s s'. F h \<Longrightarrow> G s s' \<Longrightarrow> F (h @ [(s, s')])"
  shows "keeps (on_hist F) (call m)"
proof (rule keepsI)
  fix w r w'
  assume w: "on_hist F w" and run: "run_state (call m) w = (r, w')"
  from run show "on_hist F w'"
  proof (cases rule: call_cases)
    case (ran s x s')
    then show ?thesis using w F changesD [OF m] unfolding on_hist_def by metis
  qed (use w in \<open>simp add: on_hist_def\<close>)
qed

lemma keeps_on_hist_metric [wp_intros]: "keeps (on_hist F) (metric f)"
  by (simp add: metric_def keeps_modify)

lemma keeps_on_hist_Now [wp_intros]: "keeps (on_hist F) Now"
  by (rule keepsI) (simp add: Now_def)

lemma keeps_on_hist_begin: "keeps (on_hist F) begin_execution"
  by (rule keepsI) (auto simp: begin_execution_def split: option.splits prod.splits)

lemma keeps_on_hist_finish: "keeps (on_hist F) (finish_execution key h b stage cat)"
  unfolding finish_execution_def by (intro wp_intros)

lemma keeps_on_hist_ident: "keeps (on_hist F) makeIdentifier"
  by (rule keepsI) (auto simp: makeIdentifier_def split: list.splits)

interpretation recorder_hist: recorder_keeps "on_hist F" for F
  by unfold_locales (intro wp_intros keeps_on_hist_begin keeps_on_hist_finish keeps_on_hist_ident)+

text \<open>A scanner that leaves the server alone, as the one of the program does.\<close>

definition offline :: "('s, 'z, 'a) op \<Rightarrow> bool" where
  "offline m \<longleftrightarrow> (\<forall>w. hist (snd (run_state m w)) = hist w)"

lemma offline_on_hist: "offline m \<Longrightarrow> keeps (on_hist F) m"
  by (rule keepsI) (metis offline_def on_hist_def snd_conv)

lemma offline_own: "offline m \<Longrightarrow> keeps (own G) m"
  by (rule keepsI) (metis offline_def own_def snd_conv)

section \<open>What a worker needs of its surroundings\<close>

text \<open>
  \<open>I\<close> is an invariant that the store keeps under the worker's lease, the execution of a job
  keeps, and the worker's own commands keep; \<^verbatim>\<open>process\<close> keeps it then.
\<close>

locale delivery_keeps = store_keeps I st "\<lparr>lease_Key = lock_key wk (fst msg), lease_Token = token\<rparr>"
  for I :: "('s, 'z) world_scheme \<Rightarrow> bool" and st :: "('s, 'z) Store" and wk :: worker and msg :: XMessage
    and token :: string +
  fixes R :: "'s redis" and delivery :: Job
  assumes Acknowledge: "keeps I (Acknowledge st \<lparr>lease_Key = lock_key wk (fst msg), lease_Token = token\<rparr> (q_Key delivery) (wk_stream wk) workerGroup (fst msg))"
    and lock: "keeps I (call (SETNX R (lock_key wk (fst msg)) token (Milliseconds (leaseDuration wk))))"
    and release: "keeps I (call (releaseLease R (lock_key wk (fst msg)) token))"
    and quarantined: "keeps I (call (quarantineDelivery R (wk_stream wk) (wk_stream wk @ '':quarantine'') workerGroup (fst msg) payload))"
    and fresh_context: "I w \<Longrightarrow> I (w\<lparr>lost := b\<rparr>)"
begin

lemma keeps_quarantine: "keeps I (quarantine R C wk msg reason)"
  unfolding quarantine_def by (intro wp_intros quarantined)

lemma keeps_retire: "keeps I (retire st wk \<lparr>lease_Key = lock_key wk (fst msg), lease_Token = token\<rparr> (q_Key delivery) (fst msg))"
  unfolding retire_def by (intro wp_intros Acknowledge)

lemma keeps_process_owned:
  "(\<And>key req. keeps I (exec \<lparr>lease_Key = lock_key wk (fst msg), lease_Token = token\<rparr> key req)) \<Longrightarrow>
   keeps I (process_owned R C st exec wk msg delivery req \<lparr>lease_Key = lock_key wk (fst msg), lease_Token = token\<rparr> t)"
  unfolding process_owned_def
  by (intro wp_intros Get UpdateStatus keeps_retire keeps_quarantine Acknowledge Inc Observe) simp_all

lemma keeps_process_locked:
  "(\<And>key req. keeps I (exec \<lparr>lease_Key = lock_key wk (fst msg), lease_Token = token\<rparr> key req)) \<Longrightarrow>
   keeps I (process_locked R C st exec wk msg delivery req token)"
  unfolding process_locked_def
  by (intro wp_intros lock release Now Inc keeps_process_owned keeps_modify fresh_context) simp_all

end

section \<open>The changes of a delivery\<close>

definition hset_effect :: "string \<Rightarrow> string \<Rightarrow> string \<Rightarrow> view \<Rightarrow> view" where
  "hset_effect k f x v =
     (case as_hash (ks v k) of Some h \<Rightarrow> put_value k (Hsh ((f, x) # filter (\<lambda>p. fst p \<noteq> f) h)) v | None \<Rightarrow> v)"

definition in_stream :: "string \<Rightarrow> string \<Rightarrow> view \<Rightarrow> bool" where
  "in_stream k i v \<longleftrightarrow> i \<in> set (stream_ids k v)"

definition in_quarantine :: "string \<Rightarrow> string \<Rightarrow> view \<Rightarrow> bool" where
  "in_quarantine k i v \<longleftrightarrow> (\<exists>h. as_hash (ks v (k @ '':quarantine'')) = Some h \<and> i \<in> fst ` set h)"

text \<open>
  \<open>quarantine_rel\<close>: a copy of the delivery is put into the hash first, then its pending record
  and its entry are dropped.
\<close>

definition quarantine_rel :: "string \<Rightarrow> string \<Rightarrow> string \<Rightarrow> string \<Rightarrow> view \<Rightarrow> view \<Rightarrow> bool" where
  "quarantine_rel stream grp i payload v v' \<longleftrightarrow>
     v' = v \<or> in_stream stream i v \<and> as_hash (ks v (stream @ '':quarantine'')) \<noteq> None \<and>
       apply_some [hset_effect (stream @ '':quarantine'') i payload, xack_effect stream grp i, xdel_effect stream i] v v'"

lemma quarantine_rel_refl [simp]: "quarantine_rel stream grp i payload v v"
  by (simp add: quarantine_rel_def)

lemma hset_spec_effect: "hset_spec k f x v r v' \<Longrightarrow> v' = hset_effect k f x v"
  by (auto simp: hset_spec_def hset_effect_def)

lemma as_hash_put [simp]: "as_hash (Some (Hsh h)) = Some h"
  by simp

lemma refines_post:
  "refines V spec m \<Longrightarrow> V (snd (run_state m s)) = V s \<or> (\<exists>x. spec (V s) x (V (snd (run_state m s))))"
proof -
  assume m: "refines V spec m"
  obtain r s' where "run_state m s = (r, s')" by fastforce
  then show ?thesis using refinesD(1) [OF m, of s] refinesD(2) [OF m, of s] by (cases r) fastforce+
qed

context redis_server begin

lemma trail_HSET: "trail V [hset_effect k f x] (HSET R k f x)"
  by (rule trail_refines [OF HSET]) (rule hset_spec_effect)

lemma changes_quarantine:
  "changes (\<lambda>s s'. quarantine_rel stream grp i payload (V s) (V s'))
     (quarantineDelivery R stream (stream @ '':quarantine'') grp i payload)"
  unfolding changes_def
proof
  fix s0
  let ?G = "\<lambda>s s'. quarantine_rel stream grp i payload (V s) (V s')"
  let ?rest = "bindE (HSET R (stream @ '':quarantine'') i payload) (\<lambda>_. bindE (XACK R stream grp i) (\<lambda>_.
     bindE (XDEL R stream i) (\<lambda>_. okE 1)))"
  have t: "trail V ([hset_effect (stream @ '':quarantine'') i payload] @ [xack_effect stream grp i] @ [xdel_effect stream i] @ []) ?rest"
    by (intro trail_bindE trail_HSET trail_XACK trail_XDEL trail_okE)
  show "?G s0 (snd (run_state (quarantineDelivery R stream (stream @ '':quarantine'') grp i payload) s0))"
    unfolding quarantineDelivery_def
  proof (rule changes_read [OF XLEN, where G = ?G])
    fix n :: int and s
    assume s: "V s = V s0"
    have "?G s (snd (run_state (bindE (XRANGE_id R stream i) (\<lambda>es. if es = [] then okE 0 else ?rest)) s))"
    proof (rule changes_read [OF XRANGE_id, where G = ?G])
      fix es s1
      assume es: "xfind_spec stream i (V s) es (V s)" and s1: "V s1 = V s"
      show "?G s (snd (run_state (if es = [] then okE 0 else ?rest) s1))"
      proof (cases "es = []")
        case False
        then have "in_stream stream i (V s)"
          using es by (cases "ks (V s) stream"; cases "the (ks (V s) stream)")
            (auto simp: xfind_spec_def in_stream_def stream_ids_def filter_empty_conv)
        moreover have "apply_some [hset_effect (stream @ '':quarantine'') i payload, xack_effect stream grp i, xdel_effect stream i]
            (V s) (V (snd (run_state ?rest s1)))"
          using spec [OF trail_changes [OF t, unfolded changes_def append.simps], of s1] by (simp only: s1)
        moreover have "as_hash (ks (V s) (stream @ '':quarantine'')) \<noteq> None \<or> V (snd (run_state ?rest s1)) = V s"
          using refinesD [OF HSET [of "stream @ '':quarantine''" i payload]] s1
          by (cases "run_state (HSET R (stream @ '':quarantine'') i payload) s1"; cases "fst (run_state (HSET R (stream @ '':quarantine'') i payload) s1)")
            (fastforce simp: hset_spec_def)+
        ultimately show ?thesis using False unfolding quarantine_rel_def by (simp only: if_False) blast
      qed (simp add: quarantine_rel_def s1)
    qed (simp_all add: quarantine_rel_def xfind_spec_def)
    then show "?G s0 (snd (run_state (if n = 0 then okE 0 else bindE (XRANGE_id R stream i) (\<lambda>es. if es = [] then okE 0 else ?rest)) s))"
      using s by (cases "n = 0") (simp_all del: run_bindE)
  qed (simp_all add: quarantine_rel_def xlen_spec_def)
qed

lemma changes_SETNX:
  "changes (\<lambda>s s'. V s' = V s \<or> ks (V s) k = None \<and> V s' = put_ttl k (Some ms) (put_value k (Str x) (V s))) (SETNX R k x ms)"
  unfolding changes_def using refines_post [OF SETNX [of k x ms]] by (fastforce simp: setnx_spec_def split: if_splits)

lemma changes_releaseLease:
  "changes (\<lambda>s s'. V s' = V s \<or> ks (V s) k = Some (Str token) \<and> V s' = remove_key k (V s)) (releaseLease R k token)"
  unfolding changes_def
proof
  fix s0
  let ?G = "\<lambda>s s'. V s' = V s \<or> ks (V s) k = Some (Str token) \<and> V s' = remove_key k (V s)"
  show "?G s0 (snd (run_state (releaseLease R k token) s0))"
    unfolding releaseLease_def
  proof (rule changes_read [OF GET, where G = ?G])
    fix owner s
    assume o: "get_spec k (V s0) owner (V s0)" and s: "V s = V s0"
    show "?G s0 (snd (run_state (if owner = Some token then DEL R k else okE 0) s))"
    proof (cases "owner = Some token")
      case True
      then have h: "ks (V s0) k = Some (Str token)" using o by (simp add: get_spec_def as_string_Some)
      show ?thesis
        using h s True refines_post [OF DEL [of k], of s] by (auto simp: del_spec_def)
    qed (simp add: s)
  qed (simp_all add: get_spec_def)
qed

end


section \<open>The store's operations and an invariant of the history\<close>

definition closed_under :: "('s \<Rightarrow> 's \<Rightarrow> bool) \<Rightarrow> (('s \<times> 's) list \<Rightarrow> bool) \<Rightarrow> bool" where
  "closed_under G F \<longleftrightarrow> (\<forall>h s s'. F h \<longrightarrow> G s s' \<longrightarrow> F (h @ [(s, s')]))"

lemma keeps_call_closed: "closed_under G F \<Longrightarrow> changes H m \<Longrightarrow> (\<And>s s'. H s s' \<Longrightarrow> G s s') \<Longrightarrow> keeps (on_hist F) (call m)"
  by (rule keeps_on_hist_call [of H]) (auto simp: closed_under_def)

lemma keeps_hist_operation [wp_intros]: "keeps (on_hist F) m \<Longrightarrow> keeps (on_hist F) (operation name m)"
  by (intro keeps_operation keeps_on_hist_metric keeps_on_hist_Now)

lemma keeps_hist_written [wp_intros]: "keeps (on_hist F) (store_written rc a b)"
  unfolding store_written_def by (intro wp_intros)

context redis_server begin

lemma changes_GET_eq: "changes (\<lambda>s s'. V s' = V s) (GET R k)"
  by (rule changes_GET [where G = "\<lambda>v v'. v' = v"]) simp

lemma hist_getJob:
  assumes "closed_under G F" "\<And>s s'. V s' = V s \<Longrightarrow> G s s'"
  shows "keeps (on_hist F) (getJob R C cfg key)"
  unfolding getJob_def by (intro wp_intros keeps_call_closed [OF assms(1) changes_GET_eq]) (auto intro: assms)

lemma hist_Get:
  assumes "closed_under G F" "\<And>s s'. V s' = V s \<Longrightarrow> G s s'"
  shows "keeps (on_hist F) (store_Get R C cfg key)"
  unfolding store_Get_def store_Get_body_def
  by (intro wp_intros hist_getJob [OF assms(1)] keeps_call_closed [OF assms(1) changes_GET_eq]) (auto intro: assms)

lemma hist_UpdateStatus:
  assumes "closed_under G F" "\<And>s s'. V s' = V s \<Longrightarrow> G s s'"
    and "\<And>k value s s'. update_job_rel (keyForScanJob cfg k) (keyForScanReport cfg k) l value (V s) (V s') \<Longrightarrow> G s s'"
  shows "keeps (on_hist F) (store_UpdateStatus R C cfg l key st ms)"
  unfolding store_UpdateStatus_def store_update_def
  by (intro wp_intros hist_getJob [OF assms(1,2)] keeps_call_closed [OF assms(1) changes_updateJobScript]) (auto intro: assms)

lemma hist_UpdateReport:
  assumes "closed_under G F" "\<And>s s'. V s' = V s \<Longrightarrow> G s s'"
    and "\<And>value s s'. update_report_rel (keyForScanJob cfg key) (keyForScanReport cfg key) l value (V s) (V s') \<Longrightarrow> G s s'"
  shows "keeps (on_hist F) (store_UpdateReport R C cfg l key rep)"
  unfolding store_UpdateReport_def Let_def
  by (intro wp_intros keeps_call_closed [OF assms(1) changes_updateReportScript]) (auto intro: assms)

end

section \<open>When a delivery leaves the stream\<close>

text \<open>A moment at which the record of the job was read with a final status.\<close>

definition terminal :: "codec \<Rightarrow> store_config \<Rightarrow> ScanJobKey \<Rightarrow> view \<Rightarrow> bool" where
  "terminal C cfg key v \<longleftrightarrow>
     (\<exists>j. job_stored C v (keyForScanJob cfg key) j \<and> (job_Status j = Finished \<or> job_Status j = Failed))"

text \<open>
  Each change that takes the delivery out of the stream put it into the quarantine, or comes after
  a moment at which the job was final.
\<close>

definition removed_safely ::
    "('s \<Rightarrow> view) \<Rightarrow> codec \<Rightarrow> store_config \<Rightarrow> string \<Rightarrow> ScanJobKey \<Rightarrow> string \<Rightarrow> ('s \<times> 's) list \<Rightarrow> bool" where
  "removed_safely V C cfg stream key i h \<longleftrightarrow>
     (\<forall>n < length h. in_stream stream i (V (fst (h ! n))) \<and> \<not> in_stream stream i (V (snd (h ! n))) \<longrightarrow>
        in_quarantine stream i (V (snd (h ! n))) \<or> (\<exists>m < n. terminal C cfg key (V (fst (h ! m)))))"

lemma removed_safely_Nil [simp]: "removed_safely V C cfg stream key i []"
  by (simp add: removed_safely_def)

lemma removed_safely_snoc:
  "removed_safely V C cfg stream key i (h @ [(s, s')]) \<longleftrightarrow>
     removed_safely V C cfg stream key i h \<and>
     (in_stream stream i (V s) \<and> \<not> in_stream stream i (V s') \<longrightarrow>
        in_quarantine stream i (V s') \<or> (\<exists>p \<in> set h. terminal C cfg key (V (fst p))))"
proof -
  let ?safe = "\<lambda>g n. in_stream stream i (V (fst (g ! n))) \<and> \<not> in_stream stream i (V (snd (g ! n))) \<longrightarrow>
        in_quarantine stream i (V (snd (g ! n))) \<or> (\<exists>m < n. terminal C cfg key (V (fst (g ! m))))"
  have old: "?safe (h @ [(s, s')]) n = ?safe h n" if "n < length h" for n
  proof -
    have "(h @ [(s, s')]) ! m = h ! m" if "m \<le> n" for m
      using that \<open>n < length h\<close> by (simp add: nth_append)
    then have "(h @ [(s, s')]) ! n = h ! n"
      "(\<exists>m < n. terminal C cfg key (V (fst ((h @ [(s, s')]) ! m)))) \<longleftrightarrow> (\<exists>m < n. terminal C cfg key (V (fst (h ! m))))"
      using less_imp_le by (blast, metis)
    then show ?thesis by (simp only:)
  qed
  have ex: "(\<exists>m < length h. terminal C cfg key (V (fst ((h @ [(s, s')]) ! m)))) \<longleftrightarrow> (\<exists>p \<in> set h. terminal C cfg key (V (fst p)))"
    by (metis in_set_conv_nth nth_append)
  have "removed_safely V C cfg stream key i (h @ [(s, s')]) \<longleftrightarrow> (\<forall>n < Suc (length h). ?safe (h @ [(s, s')]) n)"
    by (simp only: removed_safely_def length_append_singleton)
  also have "\<dots> \<longleftrightarrow> ?safe (h @ [(s, s')]) (length h) \<and> (\<forall>n < length h. ?safe h n)"
    using old by (simp only: All_less_Suc) blast
  finally show ?thesis
    unfolding removed_safely_def using ex by (simp only: nth_append_length fst_conv snd_conv) blast
qed

text \<open>The changes that leave the delivery where it is, or in the quarantine.\<close>

definition keeps_delivery :: "('s \<Rightarrow> view) \<Rightarrow> string \<Rightarrow> string \<Rightarrow> 's \<Rightarrow> 's \<Rightarrow> bool" where
  "keeps_delivery V stream i s s' \<longleftrightarrow>
     (in_stream stream i (V s) \<longrightarrow> in_stream stream i (V s') \<or> in_quarantine stream i (V s'))"

lemma removed_safely_closed: "closed_under (keeps_delivery V stream i) (removed_safely V C cfg stream key i)"
  by (auto simp: closed_under_def removed_safely_snoc keeps_delivery_def)

text \<open>The keys of jobs and reports are not the stream's.\<close>

definition keys_apart :: "store_config \<Rightarrow> string \<Rightarrow> bool" where
  "keys_apart cfg stream \<longleftrightarrow> (\<forall>k. keyForScanJob cfg k \<noteq> stream \<and> keyForScanReport cfg k \<noteq> stream)"

lemma in_stream_effects [simp]:
  "k \<noteq> stream \<Longrightarrow> in_stream stream i (set_effect k x v) = in_stream stream i v"
  "in_stream stream i (put_ttl k t v) = in_stream stream i v"
  "k \<noteq> stream \<Longrightarrow> in_stream stream i (put_value k y v) = in_stream stream i v"
  "k \<noteq> stream \<Longrightarrow> in_stream stream i (remove_key k v) = in_stream stream i v"
  by (simp_all add: in_stream_def stream_ids_def)

lemma in_stream_xack [simp]: "in_stream stream i (xack_effect k g j v) = in_stream stream i v"
  by (auto simp: in_stream_def stream_ids_def xack_effect_def split: option.split rvalue.split)

lemma update_job_keeps_delivery:
  "keys_apart cfg stream \<Longrightarrow> update_job_rel (keyForScanJob cfg k) (keyForScanReport cfg k) l value (V s) (V s') \<Longrightarrow>
   keeps_delivery V stream i s s'"
  by (auto simp: keeps_delivery_def update_job_rel_def apply_some_Cons keys_apart_def)

lemma update_report_keeps_delivery:
  "keys_apart cfg stream \<Longrightarrow> update_report_rel (keyForScanJob cfg k) (keyForScanReport cfg k) l value (V s) (V s') \<Longrightarrow>
   keeps_delivery V stream i s s'"
  by (auto simp: keeps_delivery_def update_report_rel_def apply_some_Cons keys_apart_def)

lemma quarantine_keeps_delivery: "quarantine_rel stream grp i payload (V s) (V s') \<Longrightarrow> keeps_delivery V stream i s s'"
  by (auto simp: keeps_delivery_def quarantine_rel_def apply_some_Cons in_quarantine_def hset_effect_def
      xack_effect_def xdel_effect_def split: option.splits rvalue.splits)

lemma lock_key_apart [simp]: "lock_key wk i \<noteq> wk_stream wk"
  by (simp add: lock_key_def)

lemma changes_any: "changes (\<lambda>s s'. True) m"
  by (simp add: changes_def)

definition was_terminal :: "('s \<Rightarrow> view) \<Rightarrow> codec \<Rightarrow> store_config \<Rightarrow> ScanJobKey \<Rightarrow> ('s \<times> 's) list \<Rightarrow> bool" where
  "was_terminal V C cfg key h \<longleftrightarrow> (\<exists>p \<in> set h. terminal C cfg key (V (fst p)))"

lemma removed_safely_terminal:
  "closed_under (\<lambda>s s'. True) (\<lambda>h. removed_safely V C cfg stream key i h \<and> was_terminal V C cfg key h)"
  by (auto simp: closed_under_def removed_safely_snoc was_terminal_def)

context redis_server begin

lemma getJob_terminal:
  "wp (\<lambda>_. True) (getJob R C cfg key :: ('s, 'z, ScanJob option) op)
     (\<lambda>r w. \<forall>j. r = Inr (Some j) \<and> (job_Status j = Finished \<or> job_Status j = Failed) \<longrightarrow> on_hist (was_terminal V C cfg key) w)"
proof (rule wpI, intro allI impI)
  fix w r and w' :: "('s, 'z) world_scheme" and j
  assume run: "run_state (getJob R C cfg key) w = (r, w')"
    and r: "r = Inr (Some j) \<and> (job_Status j = Finished \<or> job_Status j = Failed)"
  obtain x w1 where c: "run_state (call (GET R (keyForScanJob cfg key))) w = (Inr x, w1)"
    using run r by (cases "run_state (call (GET R (keyForScanJob cfg key))) w"; cases "fst (run_state (call (GET R (keyForScanJob cfg key))) w)")
      (auto simp: getJob_def)
  then obtain z data where z: "x = Some z" "decompress C z = Inr data" "unmarshal_job C data = Inr j" "w' = w1"
    using run r by (auto simp: getJob_def split: option.splits sum.splits)
  from c obtain s s' where s: "run_state (GET R (keyForScanJob cfg key)) s = (Inr x, s')" "hist w1 = hist w @ [(s, s')]"
    by (rule call_ok)
  have "get_spec (keyForScanJob cfg key) (V s) x (V s')" by (rule refinesD(1) [OF GET s(1)])
  then have "ks (V s) (keyForScanJob cfg key) = Some (Str z)" using z(1) by (simp add: get_spec_def as_string_Some)
  then have "terminal C cfg key (V s)" using z r by (auto simp: terminal_def job_stored_def)
  then show "on_hist (was_terminal V C cfg key) w'" using s(2) z(4) by (auto simp: on_hist_def was_terminal_def)
qed

lemma hist_Acknowledge:
  "keeps (on_hist (removed_safely V C cfg stream key i)) (store_Acknowledge R C cfg l key stream' grp j)"
proof -
  let ?F = "removed_safely V C cfg stream key i"
  let ?FT = "on_hist (\<lambda>h. ?F h \<and> was_terminal V C cfg key h)"
  let ?body = "\<lambda>state. if (case state of None \<Rightarrow> True | Some j \<Rightarrow> job_Status j \<noteq> Finished \<and> job_Status j \<noteq> Failed)
          then failE (ErrText ''cannot acknowledge a non-terminal scan job'')
          else if lease_Key l = [] \<or> lease_Token l = []
          then failE (ErrText ''acknowledgement requires job ownership'')
          else bindE
            (call (acknowledgeScript R (keyForScanJob cfg key) (keyForScanReport cfg key) stream'
                     (lease_Key l) (lease_Token l) grp j (ttlMillis cfg)))
            (\<lambda>ack. if ack \<noteq> 1
                then failE (ErrText ''scan job ownership lost before acknowledgement'') else okE ())"
  have closed: "closed_under (\<lambda>s s'. True) (\<lambda>h. ?F h \<and> was_terminal V C cfg key h)"
   by (rule removed_safely_terminal)
  have get: "keeps (on_hist ?F) (getJob R C cfg key)"
   by (rule hist_getJob [OF removed_safely_closed]) (simp add: keeps_delivery_def)
  have ack: "keeps ?FT (call m)" for m :: "('s, int) cmd"
    by (rule keeps_call_closed [OF closed changes_any])
  have "wp (on_hist ?F) (bindE (getJob R C cfg key) ?body) (\<lambda>_. on_hist ?F)"
  proof (rule wp_bindE)
    show "wp (on_hist ?F) (getJob R C cfg key) (\<lambda>r w. on_hist ?F w \<and> (\<forall>j. r = Inr (Some j) \<and>
        (job_Status j = Finished \<or> job_Status j = Failed) \<longrightarrow> on_hist (was_terminal V C cfg key) w))"
      by (rule wpI) (use keepsD [OF get] wpD [OF getJob_terminal TrueI] in blast)
  next
    fix x
    show "wp (\<lambda>w. on_hist ?F w \<and> (\<forall>j. Inr x = Inr (Some j) \<and>
        (job_Status j = Finished \<or> job_Status j = Failed) \<longrightarrow> on_hist (was_terminal V C cfg key) w)) (?body x) (\<lambda>_. on_hist ?F)"
    proof (cases "\<exists>j. x = Some j \<and> (job_Status j = Finished \<or> job_Status j = Failed)")
      case False
      then show ?thesis by (auto simp: wp_def split: option.splits)
    next
      case True
      have "keeps ?FT (?body x)" by (intro wp_intros ack)
      from keeps_wp [OF this] show ?thesis
        by (rule wp_conseq) (use True in \<open>auto simp: on_hist_def\<close>)
    qed
  qed simp
  then have "keeps (on_hist ?F) (bindE (getJob R C cfg key) ?body)" by (simp add: keeps_def)
  then show ?thesis unfolding store_Acknowledge_def by (intro keeps_hist_operation keeps_labelled)
qed

end

section \<open>The worker of the program\<close>

text \<open>
  What the worker may do to the server for a delivery, under the token it drew: take the lease when
  it is free, change what the lease protects while it holds it, quarantine the delivery.
\<close>

definition delivery_change :: "worker \<Rightarrow> string \<Rightarrow> string \<Rightarrow> view \<Rightarrow> view \<Rightarrow> bool" where
  "delivery_change wk i token v v' \<longleftrightarrow>
     v' = v
     \<or> held \<lparr>lease_Key = lock_key wk i, lease_Token = token\<rparr> v
     \<or> ks v (lock_key wk i) = None \<and>
         v' = put_ttl (lock_key wk i) (Some (Milliseconds (leaseDuration wk))) (put_value (lock_key wk i) (Str token) v)
     \<or> (\<exists>payload. quarantine_rel (wk_stream wk) workerGroup i payload v v')"

context redis_server begin

lemma own_Get_fenced: "keeps (own (\<lambda>s s'. delivery_change wk i token (V s) (V s'))) (store_Get R C cfg key)"
  by (rule own_Get) (simp add: delivery_change_def)

lemma own_store_changes:
  fixes wk i token
  shows "keeps (own (\<lambda>s s'. delivery_change wk i token (V s) (V s')))
      (store_UpdateStatus R C cfg \<lparr>lease_Key = lock_key wk i, lease_Token = token\<rparr> key st ms)"
    "keeps (own (\<lambda>s s'. delivery_change wk i token (V s) (V s')))
      (store_UpdateReport R C cfg \<lparr>lease_Key = lock_key wk i, lease_Token = token\<rparr> key rep)"
    "keeps (own (\<lambda>s s'. delivery_change wk i token (V s) (V s')))
      (store_Acknowledge R C cfg \<lparr>lease_Key = lock_key wk i, lease_Token = token\<rparr> key stream grp j)"
  by (intro own_UpdateStatus own_UpdateReport own_Acknowledge;
      auto simp: delivery_change_def update_job_rel_def update_report_rel_def ack_rel_def)+

interpretation changes: delivery_keeps "own (\<lambda>s s'. delivery_change wk (fst msg) token (V s) (V s'))"
    "redis_store R C cfg" wk msg token R delivery for wk msg token C cfg delivery
proof (unfold_locales, goal_cases)
  case 5
  show ?case by (rule keeps_call, rule changes_weaken [OF changes_SETNX]) (auto simp: delivery_change_def)
next
  case 6
  show ?case by (rule keeps_call, rule changes_weaken [OF changes_releaseLease]) (auto simp: delivery_change_def held_def)
next
  case (7 payload)
  show ?case by (rule keeps_call, rule changes_weaken [OF changes_quarantine]) (auto simp: delivery_change_def)
qed (simp_all add: redis_store_def own_Get_fenced own_store_changes)

lemma process_changes:
  assumes "\<And>ref fmt. offline (scanner ref fmt)"
  shows "keeps (own (\<lambda>s s'. delivery_change wk (fst msg) token (V s) (V s')))
     (process_locked R C (redis_store R C cfg) (Scan (redis_store R C cfg) scanner tv) wk msg delivery req token)"
  by (intro changes.keeps_process_locked changes.keeps_Scan offline_own assms)

lemma quarantine_changes:
  "keeps (own (\<lambda>s s'. delivery_change wk (fst msg) token (V s) (V s'))) (quarantine R C wk msg reason)"
  by (rule changes.keeps_quarantine)

text \<open>Removing the delivery: the store's keys must not be the stream's.\<close>

lemma hist_store_removed:
  assumes "keys_apart cfg stream"
  shows "keeps (on_hist (removed_safely V C cfg stream key i)) (store_UpdateStatus R C cfg l k st ms)"
    "keeps (on_hist (removed_safely V C cfg stream key i)) (store_UpdateReport R C cfg l k rep)"
    "keeps (on_hist (removed_safely V C cfg stream key i)) (store_Get R C cfg k)"
proof -
  have same: "V s' = V s \<Longrightarrow> keeps_delivery V stream i s s'" for s s' by (simp add: keeps_delivery_def)
  note closed = removed_safely_closed [where V = V and C = C and cfg = cfg and stream = stream and key = key and i = i]
  show "keeps (on_hist (removed_safely V C cfg stream key i)) (store_UpdateStatus R C cfg l k st ms)"
    by (rule hist_UpdateStatus [OF closed same update_job_keeps_delivery [OF assms]])
  show "keeps (on_hist (removed_safely V C cfg stream key i)) (store_UpdateReport R C cfg l k rep)"
    by (rule hist_UpdateReport [OF closed same update_report_keeps_delivery [OF assms]])
  show "keeps (on_hist (removed_safely V C cfg stream key i)) (store_Get R C cfg k)"
    by (rule hist_Get [OF closed same])
qed

lemma keeps_delivery_lock: "keeps (on_hist (removed_safely V C cfg (wk_stream wk) key i)) (call (SETNX R (lock_key wk j) token ms))"
  by (rule keeps_call_closed [OF removed_safely_closed changes_SETNX]) (auto simp: keeps_delivery_def)

lemma keeps_delivery_release: "keeps (on_hist (removed_safely V C cfg (wk_stream wk) key i)) (call (releaseLease R (lock_key wk j) token))"
  by (rule keeps_call_closed [OF removed_safely_closed changes_releaseLease]) (auto simp: keeps_delivery_def)

lemma keeps_delivery_quarantine:
  "keeps (on_hist (removed_safely V C cfg stream key i)) (call (quarantineDelivery R stream (stream @ '':quarantine'') grp i payload))"
  by (rule keeps_call_closed [OF removed_safely_closed changes_quarantine]) (rule quarantine_keeps_delivery)

end

text \<open>
  The invariant with the side condition built in, so that it holds of every stream: when the keys
  clash nothing is claimed.
\<close>

definition removal_ok ::
    "('s \<Rightarrow> view) \<Rightarrow> codec \<Rightarrow> store_config \<Rightarrow> string \<Rightarrow> ScanJobKey \<Rightarrow> string \<Rightarrow> ('s \<times> 's) list \<Rightarrow> bool" where
  "removal_ok V C cfg stream key i h \<longleftrightarrow> keys_apart cfg stream \<longrightarrow> removed_safely V C cfg stream key i h"

lemma keeps_removal_ok:
  "(keys_apart cfg stream \<Longrightarrow> keeps (on_hist (removed_safely V C cfg stream key i)) m) \<Longrightarrow>
   keeps (on_hist (removal_ok V C cfg stream key i)) m"
  by (cases "keys_apart cfg stream") (auto simp: keeps_def wp_def on_hist_def removal_ok_def split: prod.splits)

context redis_server begin

interpretation removal: delivery_keeps "on_hist (removal_ok V C cfg (wk_stream wk) (q_Key delivery) (fst msg))"
    "redis_store R C cfg" wk msg token R delivery for wk msg token C cfg delivery
  by unfold_locales
    (simp_all add: redis_store_def keeps_removal_ok hist_store_removed hist_Acknowledge keeps_delivery_lock
      keeps_delivery_release keeps_delivery_quarantine)

lemma process_removal:
  assumes "\<And>ref fmt. offline (scanner ref fmt)"
  shows "keeps (on_hist (removal_ok V C cfg (wk_stream wk) (q_Key delivery) (fst msg)))
     (process_locked R C (redis_store R C cfg) (Scan (redis_store R C cfg) scanner tv) wk msg delivery req token)"
  by (intro removal.keeps_process_locked removal.keeps_Scan offline_on_hist assms)

lemma quarantine_removal: "keeps (on_hist (\<lambda>h. \<forall>(s, s') \<in> set h. keeps_delivery V (wk_stream wk) (fst msg) s s')) (quarantine R C wk msg reason)"
  unfolding quarantine_def
  by (intro wp_intros keeps_on_hist_call [OF changes_quarantine]) (auto dest: quarantine_keeps_delivery)

end

text \<open>The metrics of the worker are in the catalog.\<close>

interpretation delivery_metrics: delivery_keeps rec_ok "redis_store R C cfg" wk msg token R delivery for R C cfg wk msg token delivery
  by unfold_locales (auto simp: redis_store_def intro: wp_intros)

end
