(* ===== verification/Delivery_Spec.thy ===== *)
theory Delivery_Spec
  imports Worker_Spec
begin

text \<open>
  The properties of the worker's handling of one delivery, of the consumer group and of its
  bookkeeping.
\<close>

section \<open>What is done to the server\<close>

lemma hist_metric: "run_state (metric f) w = (u, w') \<Longrightarrow> hist w' = hist w"
  by (auto simp: metric_def)

lemma hist_makeIdentifier: "run_state makeIdentifier w = (u, w') \<Longrightarrow> hist w' = hist w"
  by (auto simp: makeIdentifier_def split: list.splits)

lemma run_process_undecodable:
  "decode_delivery C msg = None \<Longrightarrow>
   run_state (process R C st exec wk msg) w =
   run_state (thenM (metric (Inc ''job_dispatch_total'' [''decode_error''])) (quarantine R C wk msg ''undecodable payload'')) w"
  by (simp add: process_def)

lemma run_process_decodable:
  "decode_delivery C msg = Some (delivery, req) \<Longrightarrow> run_state makeIdentifier w = (token, w0) \<Longrightarrow>
   run_state (process R C st exec wk msg) w = run_state (process_locked R C st exec wk msg delivery req token) w0"
  by (simp add: process_def)

text \<open>
  C10. Everything a worker does to the server while it handles a delivery is one of: taking the
  lease of the delivery when nobody holds it, with the token it drew for this attempt; a change
  made at a moment when the lease still holds that token; or moving its own delivery, while it is
  in the stream, to the quarantine.
\<close>

theorem delivery_changes_owned:
  assumes V: "redis_server R V" and scanner: "\<And>ref fmt. offline (scanner ref fmt)"
    and h: "hist w = []" and token: "run_state makeIdentifier w = (token, w0)"
    and run: "run_state (process R C (redis_store R C cfg) (Scan (redis_store R C cfg) scanner tv) wk msg) w = (r, w')"
    and s: "(s, s') \<in> set (hist w')"
  shows "delivery_change wk (fst msg) token (V s) (V s')"
proof -
  let ?I = "own (\<lambda>s s'. delivery_change wk (fst msg) token (V s) (V s'))"
  have "?I w'"
  proof (cases "decode_delivery C msg")
    case None
    have "keeps ?I (thenM (metric (Inc ''job_dispatch_total'' [''decode_error''])) (quarantine R C wk msg ''undecodable payload''))"
      by (intro wp_intros redis_server.quarantine_changes [OF V])
    from keepsD [OF this _ run [unfolded run_process_undecodable [OF None]]] show ?thesis by (simp add: own_def h)
  next
    case (Some d)
    obtain delivery req where d: "decode_delivery C msg = Some (delivery, req)" using Some by (cases d) auto
    have "?I w0" using hist_makeIdentifier [OF token] h by (simp add: own_def)
    then show ?thesis
      by (rule keepsD [OF redis_server.process_changes [OF V, where scanner = scanner, OF scanner] _
            run [unfolded run_process_decodable [OF d token]]])
  qed
  then show ?thesis using s by (auto simp: own_def)
qed

text \<open>A worker, and a stream that holds a delivery it cannot decode.\<close>

definition ex_worker :: worker where
  "ex_worker = \<lparr>wk_stream = ''st'', wk_consumer = ''c'', leaseDuration = 60 * 10 ^ 9\<rparr>"

definition ex_msg :: XMessage where
  "ex_msg = (''1-0'', [(''job'', ''x'')])"

definition ex_queue :: "ref world" where
  "ex_queue = world_of (ex_server\<lparr>rv := put_value ''st''
     (Strm [ex_msg] [\<lparr>grp_name = ''scanner'', grp_pending = [(''1-0'', ''c'')]\<rparr>]) (rv ex_server)\<rparr>)"

lemma ex_msg_bad: "decode_delivery ref_codec ex_msg = None"
  by code_simp

lemma ex_quarantined_run:
  "case run_state (process ref_redis ref_codec (redis_store ref_redis ref_codec ex_cfg) exec ex_worker ex_msg) ex_queue of
     (r, w') \<Rightarrow> r = Inr () \<and> (case hist w' of
        [(s, s')] \<Rightarrow> in_stream ''st'' ''1-0'' (rv s) \<and> \<not> in_stream ''st'' ''1-0'' (rv s') | _ \<Rightarrow> False)"
  unfolding run_process_undecodable [OF ex_msg_bad] by code_simp

lemma ex_quarantined:
  obtains w' s s' where
    "run_state (process ref_redis ref_codec (redis_store ref_redis ref_codec ex_cfg) exec ex_worker ex_msg) ex_queue = (Inr (), w')"
    "hist w' = [(s, s')]" "in_stream ''st'' ''1-0'' (rv s)" "\<not> in_stream ''st'' ''1-0'' (rv s')"
proof -
  obtain r w' where run: "run_state (process ref_redis ref_codec (redis_store ref_redis ref_codec ex_cfg) exec ex_worker ex_msg) ex_queue = (r, w')"
    by fastforce
  then have *: "r = Inr ()" "case hist w' of [(s, s')] \<Rightarrow> in_stream ''st'' ''1-0'' (rv s) \<and> \<not> in_stream ''st'' ''1-0'' (rv s') | _ \<Rightarrow> False"
    using ex_quarantined_run [of exec] by simp_all
  then obtain p where "hist w' = [p]" by (cases "hist w'"; cases "tl (hist w')") auto
  then show thesis using that run * by (cases p) simp
qed

lemma offline_failE: "offline (failE e)"
  by (simp add: offline_def)

theorem delivery_changes_owned_witness:
  "\<exists>w' s s'. run_state (process ref_redis ref_codec (redis_store ref_redis ref_codec ex_cfg)
       (Scan (redis_store ref_redis ref_codec ex_cfg) (\<lambda>_ _. failE Canceled) None) ex_worker ex_msg) ex_queue = (Inr (), w') \<and>
     hist w' = [(s, s')] \<and> delivery_change ex_worker ''1-0'' (hex (replicate 12 CHR ''a'')) (rv s) (rv s')"
proof -
  let ?st = "redis_store ref_redis ref_codec ex_cfg"
  let ?scan = "\<lambda>_ _. failE Canceled :: (ref, unit, Report) op"
  obtain w' s s' where run: "run_state (process ref_redis ref_codec ?st (Scan ?st ?scan None) ex_worker ex_msg) ex_queue = (Inr (), w')"
    and h: "hist w' = [(s, s')]"
    using ex_quarantined [of "Scan ?st ?scan None"] by blast
  obtain w0 where token: "run_state makeIdentifier ex_queue = (hex (replicate 12 CHR ''a''), w0)"
    by (simp add: makeIdentifier_def ex_queue_def world_of_def)
  have h0: "hist ex_queue = []" by (simp add: ex_queue_def world_of_def)
  from delivery_changes_owned [OF ref.redis_server_axioms offline_failE h0 token run] h run
  show ?thesis by (auto simp: ex_msg_def)
qed

text \<open>
  C11. A delivery is never lost: each change of the worker that takes the delivery out of the
  stream leaves a copy in the quarantine or, for a delivery that names a job, comes after a moment
  at which the record of that job was Finished or Failed. Keys of the store must not coincide with
  the stream's.
\<close>

theorem delivery_removed_safely:
  assumes V: "redis_server R V" and scanner: "\<And>ref fmt. offline (scanner ref fmt)"
    and h: "hist w = []" and apart: "keys_apart cfg (wk_stream wk)"
    and run: "run_state (process R C (redis_store R C cfg) (Scan (redis_store R C cfg) scanner tv) wk msg) w = (r, w')"
    and n: "n < length (hist w')" "hist w' ! n = (s, s')"
    and gone: "in_stream (wk_stream wk) (fst msg) (V s)" "\<not> in_stream (wk_stream wk) (fst msg) (V s')"
  shows "in_quarantine (wk_stream wk) (fst msg) (V s') \<or>
    (\<exists>delivery req m s0 s1. decode_delivery C msg = Some (delivery, req) \<and> m < n \<and> hist w' ! m = (s0, s1) \<and>
       terminal C cfg (q_Key delivery) (V s0))"
proof (cases "decode_delivery C msg")
  case None
  let ?I = "on_hist (\<lambda>h. \<forall>(s, s') \<in> set h. keeps_delivery V (wk_stream wk) (fst msg) s s')"
  have "keeps ?I (thenM (metric (Inc ''job_dispatch_total'' [''decode_error''])) (quarantine R C wk msg ''undecodable payload''))"
    by (intro wp_intros redis_server.quarantine_removal [OF V])
  from keepsD [OF this _ run [unfolded run_process_undecodable [OF None]]] have "?I w'" by (simp add: on_hist_def h)
  moreover have "(s, s') \<in> set (hist w')" using nth_mem [OF n(1)] n(2) by simp
  ultimately have "keeps_delivery V (wk_stream wk) (fst msg) s s'" by (auto simp: on_hist_def)
  then show ?thesis using gone by (simp add: keeps_delivery_def)
next
  case (Some d)
  obtain delivery req where d: "decode_delivery C msg = Some (delivery, req)" using Some by (cases d) auto
  obtain token w0 where token: "run_state makeIdentifier w = (token, w0)" by fastforce
  let ?I = "on_hist (removal_ok V C cfg (wk_stream wk) (q_Key delivery) (fst msg))"
  have "?I w0" using hist_makeIdentifier [OF token] h by (simp add: on_hist_def removal_ok_def)
  then have "?I w'"
    by (rule keepsD [OF redis_server.process_removal [OF V, where scanner = scanner, OF scanner] _
          run [unfolded run_process_decodable [OF d token]]])
  then have "in_quarantine (wk_stream wk) (fst msg) (V s') \<or> (\<exists>m < n. terminal C cfg (q_Key delivery) (V (fst (hist w' ! m))))"
    using apart n gone by (auto simp: on_hist_def removal_ok_def removed_safely_def)
  then show ?thesis using d by (metis prod.collapse)
qed

theorem delivery_removed_safely_witness:
  "\<exists>w' s s'. hist ex_queue = [] \<and> keys_apart ex_cfg (wk_stream ex_worker) \<and>
     run_state (process ref_redis ref_codec (redis_store ref_redis ref_codec ex_cfg)
       (Scan (redis_store ref_redis ref_codec ex_cfg) (\<lambda>_ _. failE Canceled) None) ex_worker ex_msg) ex_queue = (Inr (), w') \<and>
     hist w' ! 0 = (s, s') \<and> 0 < length (hist w') \<and>
     in_stream (wk_stream ex_worker) (fst ex_msg) (rv s) \<and> \<not> in_stream (wk_stream ex_worker) (fst ex_msg) (rv s') \<and>
     in_quarantine (wk_stream ex_worker) (fst ex_msg) (rv s')"
proof -
  let ?st = "redis_store ref_redis ref_codec ex_cfg"
  let ?scan = "\<lambda>_ _. failE Canceled :: (ref, unit, Report) op"
  obtain w' s s' where run: "run_state (process ref_redis ref_codec ?st (Scan ?st ?scan None) ex_worker ex_msg) ex_queue = (Inr (), w')"
    and h: "hist w' = [(s, s')]" and g: "in_stream ''st'' ''1-0'' (rv s)" "\<not> in_stream ''st'' ''1-0'' (rv s')"
    using ex_quarantined [of "Scan ?st ?scan None"] by blast
  have apart: "keys_apart ex_cfg (wk_stream ex_worker)"
    by (simp add: keys_apart_def keyForScanJob_def keyForScanReport_def ex_cfg_def ex_worker_def)
  have h0: "hist ex_queue = []" by (simp add: ex_queue_def world_of_def)
  have id: "wk_stream ex_worker = ''st''" "fst ex_msg = ''1-0''" by (simp_all add: ex_worker_def ex_msg_def)
  from delivery_removed_safely [OF ref.redis_server_axioms offline_failE h0 apart run, of 0 s s'] h g
  have "in_quarantine (wk_stream ex_worker) (fst ex_msg) (rv s')" unfolding id by (auto simp: ex_msg_bad)
  then show ?thesis using g h h0 apart run unfolding id by auto
qed

end
