(* ===== verification/Work_Queue.thy ===== *)
theory Work_Queue
  imports Delivery_Spec
begin

text \<open>
  What the stream, the leases and the quarantine together promise for one delivery: an abstract work
  queue, shared by any number of workers that may stop at any point, and the simulation of the
  worker of \<^verbatim>\<open>pkg/queue/stream.go\<close> by it.
\<close>

section \<open>The abstract work queue\<close>

text \<open>
  The life of one delivery: who holds it, whether it is in the queue or set aside, whether its job has
  an outcome, and whether some worker has seen that it had.
\<close>

record lifecycle =
  holder :: "string option"
  queued :: bool
  parked :: bool
  has_outcome :: bool
  seen :: bool

definition noted :: "lifecycle \<Rightarrow> lifecycle" where
  "noted s = s\<lparr>seen := seen s \<or> has_outcome s\<rparr>"

text \<open>
  What a worker may do under the token it drew. The steps of a script that the server stopped half-way
  are steps of their own: a delivery may be set aside and still be queued, or retired and still be held.
\<close>

inductive worker_step :: "string \<Rightarrow> lifecycle \<Rightarrow> lifecycle \<Rightarrow> bool" for t where
  Idle: "worker_step t s (noted s)"
| Take: "holder s = None \<Longrightarrow> worker_step t s (noted s\<lparr>holder := Some t\<rparr>)"
| Update: "holder s = Some t \<Longrightarrow> worker_step t s (noted s\<lparr>has_outcome := b\<rparr>)"
| Retire: "holder s = Some t \<Longrightarrow> seen s \<or> parked s \<Longrightarrow> h \<in> {None, Some t} \<Longrightarrow>
    worker_step t s (noted s\<lparr>queued := False, holder := h\<rparr>)"
| Release: "holder s = Some t \<Longrightarrow> worker_step t s (noted s\<lparr>holder := None\<rparr>)"
| Park: "queued s \<Longrightarrow> worker_step t s (noted s\<lparr>parked := True, queued := b\<rparr>)"

text \<open>Between the steps of the workers a lease may expire, and the record of a delivery that has left the queue.\<close>

inductive queue_step :: "lifecycle \<Rightarrow> lifecycle \<Rightarrow> bool" where
  Worker: "worker_step t s s' \<Longrightarrow> queue_step s s'"
| Lapse: "queue_step s (s\<lparr>holder := None\<rparr>)"
| Forget: "\<not> queued s \<Longrightarrow> queue_step s (s\<lparr>has_outcome := False\<rparr>)"

inductive queue_run :: "lifecycle \<Rightarrow> lifecycle \<Rightarrow> bool" where
  none: "queue_run s s"
| more: "queue_run s s' \<Longrightarrow> queue_step s' s'' \<Longrightarrow> queue_run s s''"

definition enqueued :: lifecycle where
  "enqueued = \<lparr>holder = None, queued = True, parked = False, has_outcome = False, seen = False\<rparr>"

inductive_cases worker_stepE: "worker_step t s s'"

text \<open>Nothing is lost: what has left the queue was set aside or had an outcome.\<close>

lemma worker_step_conserves: "worker_step t s s' \<Longrightarrow> queued s \<or> parked s \<or> seen s \<Longrightarrow> queued s' \<or> parked s' \<or> seen s'"
  by (induction rule: worker_step.induct) (auto simp: noted_def)

lemma queue_conserves: "queue_run enqueued s \<Longrightarrow> queued s \<or> parked s \<or> seen s"
proof (induction "enqueued" s rule: queue_run.induct)
  case none
  show ?case by (simp add: enqueued_def)
next
  case (more s' s'')
  from more.hyps(3) show ?case using more.hyps(2) worker_step_conserves by (cases rule: queue_step.cases) auto
qed

text \<open>Only the holder changes the outcome or gives the lease up, and nobody takes a lease that is held.\<close>

lemma worker_step_exclusive:
  "worker_step t s s' \<Longrightarrow> holder s = Some t' \<Longrightarrow> t \<noteq> t' \<Longrightarrow> holder s' = holder s \<and> has_outcome s' = has_outcome s"
  by (elim worker_stepE) (auto simp: noted_def)

section \<open>The worker's changes\<close>

text \<open>As \<open>delivery_change\<close>, with what each change under the lease is.\<close>

definition worker_change :: "store_config \<Rightarrow> worker \<Rightarrow> string \<Rightarrow> string \<Rightarrow> view \<Rightarrow> view \<Rightarrow> bool" where
  "worker_change cfg wk i t v v' \<longleftrightarrow>
     (let l = \<lparr>lease_Key = lock_key wk i, lease_Token = t\<rparr> in
      v' = v
      \<or> ks v (lock_key wk i) = None \<and>
          v' = put_ttl (lock_key wk i) (Some (Milliseconds (leaseDuration wk))) (put_value (lock_key wk i) (Str t) v)
      \<or> (\<exists>k x. update_job_rel (keyForScanJob cfg k) (keyForScanReport cfg k) l x v v')
      \<or> (\<exists>k x. update_report_rel (keyForScanJob cfg k) (keyForScanReport cfg k) l x v v')
      \<or> (\<exists>k ms. ack_rel (keyForScanJob cfg k) (keyForScanReport cfg k) (wk_stream wk) l workerGroup i ms v v')
      \<or> held l v \<and> v' = remove_key (lock_key wk i) v
      \<or> (\<exists>payload. quarantine_rel (wk_stream wk) workerGroup i payload v v'))"

text \<open>The keys of jobs and reports are not those of the queue.\<close>

definition keys_free :: "store_config \<Rightarrow> worker \<Rightarrow> string \<Rightarrow> bool" where
  "keys_free cfg wk i \<longleftrightarrow>
     (\<forall>k. {keyForScanJob cfg k, keyForScanReport cfg k} \<inter> {wk_stream wk, wk_stream wk @ '':quarantine'', lock_key wk i} = {})"

definition lifecycle_of :: "codec \<Rightarrow> store_config \<Rightarrow> worker \<Rightarrow> string \<Rightarrow> ScanJobKey \<Rightarrow> bool \<Rightarrow> view \<Rightarrow> lifecycle" where
  "lifecycle_of C cfg wk i key known v =
     \<lparr>holder = (case ks v (lock_key wk i) of Some (Str t) \<Rightarrow> Some t | _ \<Rightarrow> None),
      queued = in_stream (wk_stream wk) i v, parked = in_quarantine (wk_stream wk) i v,
      has_outcome = terminal C cfg key v, seen = known\<rparr>"

section \<open>The simulation\<close>

lemma worker_step_eqs:
  "s' = noted s \<Longrightarrow> worker_step t s s'"
  "s' = noted s\<lparr>holder := Some t\<rparr> \<Longrightarrow> holder s = None \<Longrightarrow> worker_step t s s'"
  "s' = noted s\<lparr>has_outcome := b\<rparr> \<Longrightarrow> holder s = Some t \<Longrightarrow> worker_step t s s'"
  "s' = noted s\<lparr>queued := False, holder := h\<rparr> \<Longrightarrow> holder s = Some t \<Longrightarrow> seen s \<or> parked s \<Longrightarrow> h \<in> {None, Some t} \<Longrightarrow> worker_step t s s'"
  "s' = noted s\<lparr>holder := None\<rparr> \<Longrightarrow> holder s = Some t \<Longrightarrow> worker_step t s s'"
  "s' = noted s\<lparr>parked := True, queued := q\<rparr> \<Longrightarrow> queued s \<Longrightarrow> worker_step t s s'"
  by (simp_all add: worker_step.intros)

text \<open>What the abstraction reads: a change elsewhere leaves it as it is.\<close>

lemma lifecycle_of_cong:
  assumes "ks v' (lock_key wk i) = ks v (lock_key wk i)" "ks v' (wk_stream wk) = ks v (wk_stream wk)"
    "ks v' (wk_stream wk @ '':quarantine'') = ks v (wk_stream wk @ '':quarantine'')"
  shows "lifecycle_of C cfg wk i key known v' = (lifecycle_of C cfg wk i key known v)\<lparr>has_outcome := terminal C cfg key v'\<rparr>"
  using assms by (simp add: lifecycle_of_def in_stream_def stream_ids_def in_quarantine_def)

lemma terminal_cong: "ks v' (keyForScanJob cfg key) = ks v (keyForScanJob cfg key) \<Longrightarrow> terminal C cfg key v' = terminal C cfg key v"
  by (simp add: terminal_def job_stored_def)

lemma noted_lifecycle: "noted (lifecycle_of C cfg wk i key known v) = lifecycle_of C cfg wk i key (known \<or> terminal C cfg key v) v"
  by (simp add: noted_def lifecycle_of_def)

lemma noted_holder: "holder s = Some t \<Longrightarrow> (noted s)\<lparr>holder := Some t\<rparr> = noted s"
  by (cases s) (simp add: noted_def)

lemma held_holder:
  "held \<lparr>lease_Key = lock_key wk i, lease_Token = t\<rparr> v \<Longrightarrow> holder (lifecycle_of C cfg wk i key known v) = Some t"
  by (simp add: held_def lifecycle_of_def)

lemma lock_key_not_quarantine [simp]: "lock_key wk i \<noteq> wk_stream wk @ '':quarantine''"
  by (simp add: lock_key_def)

lemma keys_freeD:
  assumes "keys_free cfg wk i"
  shows "keyForScanJob cfg k \<noteq> wk_stream wk" "keyForScanJob cfg k \<noteq> wk_stream wk @ '':quarantine''" "keyForScanJob cfg k \<noteq> lock_key wk i"
    "keyForScanReport cfg k \<noteq> wk_stream wk" "keyForScanReport cfg k \<noteq> wk_stream wk @ '':quarantine''" "keyForScanReport cfg k \<noteq> lock_key wk i"
  using spec [OF assms [unfolded keys_free_def], of k] by auto

lemma outcome_step:
  assumes held: "held \<lparr>lease_Key = lock_key wk i, lease_Token = t\<rparr> v"
    and same: "ks v' (lock_key wk i) = ks v (lock_key wk i)" "ks v' (wk_stream wk) = ks v (wk_stream wk)"
      "ks v' (wk_stream wk @ '':quarantine'') = ks v (wk_stream wk @ '':quarantine'')"
  shows "worker_step t (lifecycle_of C cfg wk i key known v) (lifecycle_of C cfg wk i key (known \<or> terminal C cfg key v) v')"
  by (rule worker_step_eqs(3) [where b = "terminal C cfg key v'"])
    (simp_all add: noted_lifecycle lifecycle_of_cong [OF same] held_holder [OF held])

lemma update_steps:
  assumes "keys_free cfg wk i"
  shows "update_job_rel (keyForScanJob cfg k) (keyForScanReport cfg k) \<lparr>lease_Key = lock_key wk i, lease_Token = t\<rparr> x v v' \<Longrightarrow>
      worker_step t (lifecycle_of C cfg wk i key known v) (lifecycle_of C cfg wk i key (known \<or> terminal C cfg key v) v')"
    "update_report_rel (keyForScanJob cfg k) (keyForScanReport cfg k) \<lparr>lease_Key = lock_key wk i, lease_Token = t\<rparr> x v v' \<Longrightarrow>
      worker_step t (lifecycle_of C cfg wk i key known v) (lifecycle_of C cfg wk i key (known \<or> terminal C cfg key v) v')"
  using keys_freeD [OF assms, of k]
  by (auto simp: update_job_rel_def update_report_rel_def apply_some_Cons noted_lifecycle [symmetric]
      intro: worker_step.Idle) (auto simp: noted_lifecycle intro!: outcome_step)

lemma ks_stream_effects:
  "k' \<noteq> k \<Longrightarrow> ks (xack_effect k g i v) k' = ks v k'" "k' \<noteq> k \<Longrightarrow> ks (xdel_effect k i v) k' = ks v k'"
  "0 < ms \<Longrightarrow> ks (pexpire_effect j ms v) = ks v"
  by (auto simp: xack_effect_def xdel_effect_def pexpire_effect_def split: option.split rvalue.split)

text \<open>What any prefix of the acknowledgement leaves.\<close>

definition acked :: "worker \<Rightarrow> string \<Rightarrow> view \<Rightarrow> view \<Rightarrow> bool" where
  "acked wk i v v' \<longleftrightarrow>
     (\<forall>k. k \<noteq> wk_stream wk \<longrightarrow> k \<noteq> lock_key wk i \<longrightarrow> ks v' k = ks v k) \<and>
     ks v' (lock_key wk i) \<in> {ks v (lock_key wk i), None} \<and>
     (in_stream (wk_stream wk) i v' \<longrightarrow> in_stream (wk_stream wk) i v)"

lemma acked_step:
  "acked wk i v v1 \<Longrightarrow> acked wk i v (xack_effect (wk_stream wk) g i v1)"
  "acked wk i v v1 \<Longrightarrow> acked wk i v (xdel_effect (wk_stream wk) i v1)"
  "acked wk i v v1 \<Longrightarrow> 0 < ms \<Longrightarrow> acked wk i v (pexpire_effect k ms v1)"
  "acked wk i v v1 \<Longrightarrow> acked wk i v (remove_key (lock_key wk i) v1)"
proof -
  have gone: "\<not> in_stream (wk_stream wk) i (xdel_effect (wk_stream wk) i v1)" by (simp add: in_stream_def stream_ids_xdel)
  show "acked wk i v v1 \<Longrightarrow> acked wk i v (xdel_effect (wk_stream wk) i v1)"
    using gone by (auto simp: acked_def ks_stream_effects)
  show "acked wk i v v1 \<Longrightarrow> acked wk i v (xack_effect (wk_stream wk) g i v1)"
    by (auto simp: acked_def ks_stream_effects)
qed (auto simp: acked_def ks_stream_effects in_stream_def stream_ids_def)

lemma apply_some_rel:
  "apply_some fs v v' \<Longrightarrow> P v \<Longrightarrow> (\<And>f x. f \<in> set fs \<Longrightarrow> P x \<Longrightarrow> P (f x)) \<Longrightarrow> P v'"
  by (induction fs arbitrary: v) (auto simp: apply_some_Cons)

lemma ack_acked:
  assumes "ack_rel jobk repk (wk_stream wk) \<lparr>lease_Key = lock_key wk i, lease_Token = t\<rparr> g i ms v v'"
  shows "v' = v \<or> held \<lparr>lease_Key = lock_key wk i, lease_Token = t\<rparr> v \<and> acked wk i v v'"
proof -
  have "acked wk i v v'" if "apply_some (ack_steps jobk repk (wk_stream wk) (lock_key wk i) g i ms) v v'"
    using that
  proof (rule apply_some_rel)
    fix f x
    assume "f \<in> set (ack_steps jobk repk (wk_stream wk) (lock_key wk i) g i ms)" "acked wk i v x"
    then show "acked wk i v (f x)" by (auto simp: ack_steps_def intro: acked_step split: if_splits)
  qed (simp add: acked_def)
  then show ?thesis using assms by (auto simp: ack_rel_def)
qed

lemma lifecycle_acked:
  assumes free: "keys_free cfg wk i" and a: "acked wk i v v'"
  shows "lifecycle_of C cfg wk i key known v' =
    (lifecycle_of C cfg wk i key known v)\<lparr>queued := in_stream (wk_stream wk) i v', holder := holder (lifecycle_of C cfg wk i key known v')\<rparr>"
    and "holder (lifecycle_of C cfg wk i key known v') \<in> {None, holder (lifecycle_of C cfg wk i key known v)}"
proof -
  have other: "k \<noteq> wk_stream wk \<Longrightarrow> k \<noteq> lock_key wk i \<Longrightarrow> ks v' k = ks v k" for k using a by (simp add: acked_def)
  have job: "ks v' (keyForScanJob cfg key) = ks v (keyForScanJob cfg key)"
    by (rule other [OF keys_freeD(1) [OF free] keys_freeD(3) [OF free]])
  have hash: "ks v' (wk_stream wk @ '':quarantine'') = ks v (wk_stream wk @ '':quarantine'')"
    by (rule other) (simp_all add: lock_key_def)
  show "lifecycle_of C cfg wk i key known v' =
    (lifecycle_of C cfg wk i key known v)\<lparr>queued := in_stream (wk_stream wk) i v', holder := holder (lifecycle_of C cfg wk i key known v')\<rparr>"
    by (simp add: lifecycle_of_def terminal_cong [OF job] in_quarantine_def hash)
  show "holder (lifecycle_of C cfg wk i key known v') \<in> {None, holder (lifecycle_of C cfg wk i key known v)}"
    using a by (auto simp: lifecycle_of_def acked_def)
qed

lemma ack_step:
  assumes free: "keys_free cfg wk i"
    and ack: "ack_rel jobk repk (wk_stream wk) \<lparr>lease_Key = lock_key wk i, lease_Token = t\<rparr> g i ms v v'"
    and safe: "in_stream (wk_stream wk) i v \<Longrightarrow> \<not> in_stream (wk_stream wk) i v' \<Longrightarrow> in_quarantine (wk_stream wk) i v' \<or> known"
  shows "worker_step t (lifecycle_of C cfg wk i key known v) (lifecycle_of C cfg wk i key (known \<or> terminal C cfg key v) v')"
proof -
  let ?s = "lifecycle_of C cfg wk i key known v"
  let ?k = "known \<or> terminal C cfg key v"
  let ?s' = "lifecycle_of C cfg wk i key ?k v'"
  from ack_acked [OF ack] show ?thesis
  proof
    assume "v' = v"
    then show ?thesis by (simp add: worker_step.Idle noted_lifecycle [symmetric])
  next
    assume "held \<lparr>lease_Key = lock_key wk i, lease_Token = t\<rparr> v \<and> acked wk i v v'"
    then have h: "holder ?s = Some t" and a: "acked wk i v v'" by (auto intro: held_holder)
    note s' = lifecycle_acked(1) [OF free a, where C = C and key = key and known = ?k]
    have hol: "holder ?s' \<in> {None, Some t}"
      using lifecycle_acked(2) [OF free a, where C = C and key = key and known = ?k] h by (simp add: lifecycle_of_def)
    show ?thesis
    proof (cases "in_stream (wk_stream wk) i v' = in_stream (wk_stream wk) i v")
      case True
      then have q: "?s' = (noted ?s)\<lparr>holder := holder ?s'\<rparr>"
        by (subst s') (simp add: noted_lifecycle, simp add: lifecycle_of_def)
      show ?thesis
      proof (cases "holder ?s' = None")
        case True
        show ?thesis by (rule worker_step_eqs(5) [OF q [unfolded True] h])
      next
        case False
        then have "holder ?s' = Some t" using hol by (elim insertE) simp_all
        then have "?s' = noted ?s" using q noted_holder [OF h] by simp
        then show ?thesis by (rule worker_step_eqs(1))
      qed
    next
      case False
      then have gone: "in_stream (wk_stream wk) i v" "\<not> in_stream (wk_stream wk) i v'" using a by (auto simp: acked_def)
      have q: "?s' = (noted ?s)\<lparr>queued := False, holder := holder ?s'\<rparr>"
        by (subst s') (simp add: noted_lifecycle gone)
      have "parked ?s' = parked ?s" by (subst s') (simp add: lifecycle_of_def)
      then have "seen ?s \<or> parked ?s" using safe [OF gone] by (auto simp: lifecycle_of_def)
      from worker_step_eqs(4) [OF q h this hol] show ?thesis .
    qed
  qed
qed

lemma take_step:
  assumes free: "keys_free cfg wk i" and none: "ks v (lock_key wk i) = None"
  shows "worker_step t (lifecycle_of C cfg wk i key known v)
    (lifecycle_of C cfg wk i key (known \<or> terminal C cfg key v) (put_ttl (lock_key wk i) ms (put_value (lock_key wk i) (Str t) v)))"
proof (rule worker_step_eqs(2))
  let ?v' = "put_ttl (lock_key wk i) ms (put_value (lock_key wk i) (Str t) v)"
  have job: "ks ?v' (keyForScanJob cfg key) = ks v (keyForScanJob cfg key)" using keys_freeD(3) [OF free, of key] by simp
  show "lifecycle_of C cfg wk i key (known \<or> terminal C cfg key v) ?v' = noted (lifecycle_of C cfg wk i key known v)\<lparr>holder := Some t\<rparr>"
    unfolding noted_lifecycle
    by (simp add: lifecycle_of_def terminal_cong [OF job] in_stream_def stream_ids_def in_quarantine_def
        lock_key_not_quarantine [symmetric] lock_key_apart [symmetric])
qed (simp add: lifecycle_of_def none)

lemma release_step:
  assumes free: "keys_free cfg wk i" and held: "held \<lparr>lease_Key = lock_key wk i, lease_Token = t\<rparr> v"
  shows "worker_step t (lifecycle_of C cfg wk i key known v)
    (lifecycle_of C cfg wk i key (known \<or> terminal C cfg key v) (remove_key (lock_key wk i) v))"
proof (rule worker_step_eqs(5) [OF _ held_holder [OF held]])
  have job: "ks (remove_key (lock_key wk i) v) (keyForScanJob cfg key) = ks v (keyForScanJob cfg key)"
    using keys_freeD(3) [OF free, of key] by simp
  show "lifecycle_of C cfg wk i key (known \<or> terminal C cfg key v) (remove_key (lock_key wk i) v) =
      noted (lifecycle_of C cfg wk i key known v)\<lparr>holder := None\<rparr>"
    unfolding noted_lifecycle
    by (simp add: lifecycle_of_def terminal_cong [OF job] in_stream_def stream_ids_def in_quarantine_def
        lock_key_not_quarantine [symmetric] lock_key_apart [symmetric])
qed

text \<open>Once the copy is in the hash, nothing the script does afterwards touches it, the lease or the job.\<close>

definition set_aside :: "worker \<Rightarrow> string \<Rightarrow> view \<Rightarrow> view \<Rightarrow> bool" where
  "set_aside wk i v v' \<longleftrightarrow>
     (\<forall>k. k \<noteq> wk_stream wk \<longrightarrow> k \<noteq> wk_stream wk @ '':quarantine'' \<longrightarrow> ks v' k = ks v k) \<and> in_quarantine (wk_stream wk) i v'"

lemma set_aside_step:
  "set_aside wk i v v1 \<Longrightarrow> set_aside wk i v (xack_effect (wk_stream wk) g i v1)"
  "set_aside wk i v v1 \<Longrightarrow> set_aside wk i v (xdel_effect (wk_stream wk) i v1)"
  by (auto simp: set_aside_def ks_stream_effects in_quarantine_def)

lemma quarantine_set_aside:
  assumes "quarantine_rel (wk_stream wk) g i payload v v'"
  shows "v' = v \<or> in_stream (wk_stream wk) i v \<and> set_aside wk i v v'"
proof -
  have first: "as_hash (ks v (wk_stream wk @ '':quarantine'')) \<noteq> None \<Longrightarrow>
      set_aside wk i v (hset_effect (wk_stream wk @ '':quarantine'') i payload v)"
    by (auto simp: set_aside_def hset_effect_def in_quarantine_def)
  have "set_aside wk i v v'" if "as_hash (ks v (wk_stream wk @ '':quarantine'')) \<noteq> None"
      "apply_some [xack_effect (wk_stream wk) g i, xdel_effect (wk_stream wk) i]
        (hset_effect (wk_stream wk @ '':quarantine'') i payload v) v'"
    using that(2) by (rule apply_some_rel) (auto intro: set_aside_step first [OF that(1)])
  then show ?thesis using assms unfolding quarantine_rel_def by (subst (asm) apply_some_Cons) blast
qed

lemma park_step:
  assumes free: "keys_free cfg wk i" and q: "quarantine_rel (wk_stream wk) g i payload v v'"
  shows "worker_step t (lifecycle_of C cfg wk i key known v) (lifecycle_of C cfg wk i key (known \<or> terminal C cfg key v) v')"
  using quarantine_set_aside [OF q]
proof
  assume "v' = v"
  then show ?thesis by (simp add: worker_step.Idle noted_lifecycle [symmetric])
next
  assume a: "in_stream (wk_stream wk) i v \<and> set_aside wk i v v'"
  then have other: "k \<noteq> wk_stream wk \<Longrightarrow> k \<noteq> wk_stream wk @ '':quarantine'' \<Longrightarrow> ks v' k = ks v k" for k by (simp add: set_aside_def)
  have job: "ks v' (keyForScanJob cfg key) = ks v (keyForScanJob cfg key)"
    by (rule other [OF keys_freeD(1,2) [OF free]])
  have lock: "ks v' (lock_key wk i) = ks v (lock_key wk i)" by (rule other) simp_all
  have "lifecycle_of C cfg wk i key (known \<or> terminal C cfg key v) v' =
      (noted (lifecycle_of C cfg wk i key known v))\<lparr>parked := True, queued := in_stream (wk_stream wk) i v'\<rparr>"
    unfolding noted_lifecycle using a by (simp add: lifecycle_of_def terminal_cong [OF job] lock set_aside_def)
  then show ?thesis by (rule worker_step_eqs(6)) (use a in \<open>simp add: lifecycle_of_def\<close>)
qed

lemma worker_change_step:
  assumes free: "keys_free cfg wk i" and ch: "worker_change cfg wk i t v v'"
    and safe: "in_stream (wk_stream wk) i v \<Longrightarrow> \<not> in_stream (wk_stream wk) i v' \<Longrightarrow> in_quarantine (wk_stream wk) i v' \<or> known"
  shows "worker_step t (lifecycle_of C cfg wk i key known v) (lifecycle_of C cfg wk i key (known \<or> terminal C cfg key v) v')"
  using ch unfolding worker_change_def Let_def
proof (elim disjE exE conjE)
  assume "v' = v"
  then show ?thesis by (simp add: worker_step.Idle noted_lifecycle [symmetric])
next
  fix payload assume "quarantine_rel (wk_stream wk) workerGroup i payload v v'"
  then show ?thesis by (rule park_step [OF free])
qed (auto intro: take_step [OF free] update_steps [OF free] ack_step [OF free _ safe] release_step [OF free])

section \<open>The worker of the program\<close>

context redis_server begin

lemma own_worker_changes:
  fixes wk i t
  shows "keeps (own (\<lambda>s s'. worker_change cfg wk i t (V s) (V s')))
      (store_UpdateStatus R C cfg \<lparr>lease_Key = lock_key wk i, lease_Token = t\<rparr> key st ms)"
    "keeps (own (\<lambda>s s'. worker_change cfg wk i t (V s) (V s')))
      (store_UpdateReport R C cfg \<lparr>lease_Key = lock_key wk i, lease_Token = t\<rparr> key rep)"
    "keeps (own (\<lambda>s s'. worker_change cfg wk i t (V s) (V s')))
      (store_Acknowledge R C cfg \<lparr>lease_Key = lock_key wk i, lease_Token = t\<rparr> key (wk_stream wk) workerGroup i)"
    "keeps (own (\<lambda>s s'. worker_change cfg wk i t (V s) (V s'))) (store_Get R C cfg key)"
  by (intro own_UpdateStatus own_UpdateReport own_Acknowledge own_Get; unfold worker_change_def Let_def; blast)+

interpretation worker_changes: delivery_keeps "own (\<lambda>s s'. worker_change cfg wk (fst msg) t (V s) (V s'))"
    "redis_store R C cfg" wk msg t R delivery for wk msg t C cfg delivery
proof (unfold_locales, goal_cases)
  case 5
  show ?case by (rule keeps_call, rule changes_weaken [OF changes_SETNX]) (auto simp: worker_change_def Let_def)
next
  case 6
  show ?case by (rule keeps_call, rule changes_weaken [OF changes_releaseLease]) (auto simp: worker_change_def held_def Let_def)
next
  case (7 payload)
  show ?case by (rule keeps_call, rule changes_weaken [OF changes_quarantine]) (auto simp: worker_change_def Let_def)
qed (simp_all add: redis_store_def own_worker_changes)

lemma process_worker_changes:
  assumes "\<And>ref fmt. offline (scanner ref fmt)"
  shows "keeps (own (\<lambda>s s'. worker_change cfg wk (fst msg) t (V s) (V s')))
     (process_locked R C (redis_store R C cfg) (Scan (redis_store R C cfg) scanner tv) wk msg delivery req t)"
  by (intro worker_changes.keeps_process_locked worker_changes.keeps_Scan offline_own assms)

lemma quarantine_worker_changes:
  "keeps (own (\<lambda>s s'. worker_change cfg wk (fst msg) t (V s) (V s'))) (quarantine R C wk msg reason)"
  by (rule worker_changes.keeps_quarantine)

end

text \<open>Whether the job of a delivery had been seen with an outcome before the \<open>n\<close>-th change.\<close>

definition known_before :: "('s \<Rightarrow> view) \<Rightarrow> codec \<Rightarrow> store_config \<Rightarrow> ScanJobKey \<Rightarrow> ('s \<times> 's) list \<Rightarrow> nat \<Rightarrow> bool" where
  "known_before V C cfg key h n \<longleftrightarrow> (\<exists>m < n. terminal C cfg key (V (fst (h ! m))))"

lemma known_before_Suc: "h ! n = (s, s') \<Longrightarrow> known_before V C cfg key h (Suc n) \<longleftrightarrow> known_before V C cfg key h n \<or> terminal C cfg key (V s)"
  by (auto simp: known_before_def less_Suc_eq)

text \<open>
  C36. The worker implements the work queue: whatever the other workers, the expiry of leases and the
  server's failures do between its commands, each change it makes to the server while it handles a
  decodable delivery is a step of the abstract queue under the token it drew. In particular it touches
  the outcome only while it holds the delivery, and drops the delivery only when it has seen the
  outcome or has set the delivery aside.
\<close>

theorem worker_implements_queue:
  assumes V: "redis_server R V" and scanner: "\<And>ref fmt. offline (scanner ref fmt)" and h: "hist w = []"
    and free: "keys_free cfg wk (fst msg)" and d: "decode_delivery C msg = Some (delivery, req)"
    and token: "run_state makeIdentifier w = (t, w0)"
    and run: "run_state (process R C (redis_store R C cfg) (Scan (redis_store R C cfg) scanner tv) wk msg) w = (r, w')"
    and n: "n < length (hist w')" "hist w' ! n = (s, s')"
  shows "worker_step t
    (lifecycle_of C cfg wk (fst msg) (q_Key delivery) (known_before V C cfg (q_Key delivery) (hist w') n) (V s))
    (lifecycle_of C cfg wk (fst msg) (q_Key delivery) (known_before V C cfg (q_Key delivery) (hist w') (Suc n)) (V s'))"
proof -
  have apart: "keys_apart cfg (wk_stream wk)" using keys_freeD [OF free] by (simp add: keys_apart_def)
  have run': "run_state (process_locked R C (redis_store R C cfg) (Scan (redis_store R C cfg) scanner tv) wk msg delivery req t) w0 = (r, w')"
    using run run_process_decodable [OF d token] by simp
  have h0: "hist w0 = []" using hist_makeIdentifier [OF token] h by simp
  have "own (\<lambda>s s'. worker_change cfg wk (fst msg) t (V s) (V s')) w'"
    by (rule keepsD [OF redis_server.process_worker_changes [OF V, where scanner = scanner, OF scanner] _ run']) (simp add: own_def h0)
  then have ch: "worker_change cfg wk (fst msg) t (V s) (V s')" using n nth_mem by (fastforce simp: own_def)
  have "on_hist (removal_ok V C cfg (wk_stream wk) (q_Key delivery) (fst msg)) w'"
    by (rule keepsD [OF redis_server.process_removal [OF V, where scanner = scanner, OF scanner] _ run'])
      (simp add: on_hist_def removal_ok_def h0)
  then have "removed_safely V C cfg (wk_stream wk) (q_Key delivery) (fst msg) (hist w')" using apart by (simp add: on_hist_def removal_ok_def)
  then have safe: "in_stream (wk_stream wk) (fst msg) (V s) \<Longrightarrow> \<not> in_stream (wk_stream wk) (fst msg) (V s') \<Longrightarrow>
      in_quarantine (wk_stream wk) (fst msg) (V s') \<or> known_before V C cfg (q_Key delivery) (hist w') n"
    using n by (auto simp: removed_safely_def known_before_def)
  show ?thesis
    unfolding known_before_Suc [OF n(2)] by (rule worker_change_step [OF free ch safe])
qed

text \<open>A delivery whose lease is taken although the answer is lost on the way back.\<close>

definition ex_delivery :: Job where
  "ex_delivery = \<lparr>EnqueuedAt = 0, q_Name = scanArtifactJobName, q_Key = ex_key, q_ScanRequest = Some ex_request\<rparr>"

definition ex_payload :: string where
  "ex_payload = (case Job_to_json ref_codec ex_delivery of Inr v \<Rightarrow> json_text ref_codec v | Inl e \<Rightarrow> [])"

definition ex_good :: XMessage where
  "ex_good = (''1-0'', [(''job'', ex_payload)])"

definition ex_reply_lost :: "ref world" where
  "ex_reply_lost = ex_queue\<lparr>turns := [\<lparr>others = \<lambda>s. s, elapsed = 0, stops = None, loses = False, outcome = ReplyLost Canceled\<rparr>]\<rparr>"

lemma ex_good_decodes: "decode_delivery ref_codec ex_good = Some (ex_delivery, ex_request)"
proof -
  obtain v where v: "Job_to_json ref_codec ex_delivery = Inr v" by (auto simp: Job_to_json_def ex_delivery_def)
  have "Job_of_json ref_codec v = Inr ex_delivery"
    by (rule refc.Job_json_round [OF v]) (simp_all add: ex_delivery_def ex_job_wf wf_request_def ex_request_def)
  then show ?thesis
    by (simp add: decode_delivery_def msg_value_def ex_good_def ex_payload_def v refc.json_round) (simp add: ex_delivery_def)
qed

lemma call_reply_lost:
  assumes "turns w = [\<lparr>others = f, elapsed = n, stops = x, loses = b, outcome = ReplyLost e\<rparr>]"
  shows "\<exists>w' s s'. run_state (call m) w = (Inl e, w') \<and> hist w' = hist w @ [(s, s')]"
  using assms by (cases "run_state m (f (srv w))") (simp add: call_def serve_def take_turn_def)

theorem worker_implements_queue_witness:
  "\<exists>w' s s'. run_state (process ref_redis ref_codec (redis_store ref_redis ref_codec ex_cfg)
       (Scan (redis_store ref_redis ref_codec ex_cfg) (\<lambda>_ _. failE Canceled) None) ex_worker ex_good) ex_reply_lost = (Inl Canceled, w') \<and>
     hist w' = [(s, s')] \<and>
     worker_step (hex (replicate 12 CHR ''a''))
       (lifecycle_of ref_codec ex_cfg ex_worker ''1-0'' ex_key False (rv s))
       (lifecycle_of ref_codec ex_cfg ex_worker ''1-0'' ex_key (known_before rv ref_codec ex_cfg ex_key [(s, s')] 1) (rv s'))"
proof -
  let ?st = "redis_store ref_redis ref_codec ex_cfg"
  let ?exec = "Scan ?st (\<lambda>_ _. failE Canceled) None"
  let ?t = "hex (replicate 12 CHR ''a'')"
  obtain w0 where token: "run_state makeIdentifier ex_reply_lost = (?t, w0)"
    and w0: "hist w0 = []" "turns w0 = turns ex_reply_lost" "recorder w0 = None" "srv w0 = srv ex_queue"
    by (simp add: makeIdentifier_def ex_reply_lost_def ex_queue_def world_of_def)
  obtain w1 s s' where c: "run_state (call (SETNX ref_redis (lock_key ex_worker ''1-0'') ?t (Milliseconds (leaseDuration ex_worker)))) w0 = (Inl Canceled, w1)"
    and h1: "hist w1 = [(s, s')]"
    using call_reply_lost [OF w0(2) [unfolded ex_reply_lost_def, simplified],
        of "SETNX ref_redis (lock_key ex_worker ''1-0'') ?t (Milliseconds (leaseDuration ex_worker))"] w0(1) by auto
  obtain w' where run: "run_state (process_locked ref_redis ref_codec ?st ?exec ex_worker ex_good ex_delivery ex_request ?t) w0 = (Inl Canceled, w')"
    and h: "hist w' = [(s, s')]"
    using c h1 by (auto simp: process_locked_def ex_good_def metric_def)
  have run': "run_state (process ref_redis ref_codec ?st ?exec ex_worker ex_good) ex_reply_lost = (Inl Canceled, w')"
    by (simp add: run_process_decodable [OF ex_good_decodes token] run)
  have free: "keys_free ex_cfg ex_worker (fst ex_good)"
    by (simp add: keys_free_def keyForScanJob_def keyForScanReport_def ex_cfg_def ex_worker_def lock_key_def)
  have h0: "hist ex_reply_lost = []" by (simp add: ex_reply_lost_def ex_queue_def world_of_def)
  have n: "0 < length (hist w')" "hist w' ! 0 = (s, s')" by (simp_all add: h)
  from worker_implements_queue [OF ref.redis_server_axioms offline_failE h0 free ex_good_decodes token run' n] run' h
  show ?thesis by (auto simp: ex_good_def ex_delivery_def known_before_def)
qed

end
