(* ===== verification/Worker_Stop.thy ===== *)
theory Worker_Stop
  imports Work_Queue
begin

text \<open>
  The worker's loops end when its context does. The turns of the world are what may happen between the
  calls of the worker; a stop is due when the context has ended or a turn to come ends it.
\<close>

definition reached :: "('s, 'z) world_scheme \<Rightarrow> ('s, 'z) world_scheme \<Rightarrow> bool" where
  "reached w0 w \<longleftrightarrow> (\<exists>ts. turns w0 = ts @ turns w \<and>
     (stopped w0 \<noteq> None \<or> (\<exists>t \<in> set ts. stops t \<noteq> None) \<longrightarrow> stopped w \<noteq> None))"

definition stop_due :: "('s, 'z) world_scheme \<Rightarrow> bool" where
  "stop_due w \<longleftrightarrow> stopped w \<noteq> None \<or> (\<exists>t \<in> set (turns w). stops t \<noteq> None)"

lemma reached_refl [simp]: "reached w w"
  by (simp add: reached_def)

lemma reached_same: "turns w' = turns w \<Longrightarrow> stopped w' = stopped w \<Longrightarrow> reached w0 w \<Longrightarrow> reached w0 w'"
  by (simp add: reached_def)

lemma stop_due_reached: "stop_due w0 \<Longrightarrow> reached w0 w \<Longrightarrow> stop_due w"
  by (fastforce simp: stop_due_def reached_def)

lemma reached_length: "reached w0 w \<Longrightarrow> length (turns w) \<le> length (turns w0)"
  by (auto simp: reached_def)

lemma serve_turns: "run_state (serve d m) w = (r, w') \<Longrightarrow> turns w' = turns w \<and> stopped w' = stopped w"
  by (cases d) (auto simp: serve_def split: prod.splits)

lemma call_turns:
  "run_state (call m) w = (r, w') \<Longrightarrow> turns w' = tl (turns w) \<and>
     (stopped w \<noteq> None \<or> (turns w \<noteq> [] \<and> stops (hd (turns w)) \<noteq> None) \<longrightarrow> stopped w' \<noteq> None)"
  by (cases "turns w") (auto simp: call_def take_turn_def dest!: serve_turns)

lemma reached_call: "keeps (reached w0) (call m)"
proof (rule keepsI)
  fix w r w'
  assume "reached w0 w" and run: "run_state (call m) w = (r, w')"
  then obtain ts where ts: "turns w0 = ts @ turns w" "stopped w0 \<noteq> None \<or> (\<exists>t \<in> set ts. stops t \<noteq> None) \<longrightarrow> stopped w \<noteq> None"
    by (auto simp: reached_def)
  note c = call_turns [OF run]
  show "reached w0 w'"
  proof (cases "turns w")
    case Nil
    then show ?thesis using ts c by (auto simp: reached_def)
  next
    case (Cons t rest)
    then show ?thesis using ts c unfolding reached_def by (intro exI [of _ "ts @ [t]"]) auto
  qed
qed

lemma reached_metric: "keeps (reached w0) (metric f)"
  by (rule keepsI) (auto simp: metric_def elim: reached_same [rotated 2])

lemma reached_Now: "keeps (reached w0) Now"
  by (rule keepsI) (simp add: Now_def)

lemma reached_ident: "keeps (reached w0) makeIdentifier"
  by (rule keepsI) (auto simp: makeIdentifier_def split: list.splits elim: reached_same [rotated 2])

lemma reached_modify: "(\<And>w. turns (f w) = turns w) \<Longrightarrow> (\<And>w. stopped (f w) = stopped w) \<Longrightarrow> keeps (reached w0) (modify f)"
  by (rule keeps_modify) (auto elim: reached_same [rotated 2])

lemma reached_begin: "keeps (reached w0) begin_execution"
  by (rule keepsI) (auto simp: begin_execution_def split: option.splits prod.splits elim: reached_same [rotated 2])

lemma reached_finish: "keeps (reached w0) (finish_execution key h b stage cat)"
  unfolding finish_execution_def by (intro wp_intros reached_metric reached_Now)

lemmas reached_steps = reached_call reached_metric reached_Now reached_ident

section \<open>Every operation goes forward\<close>

lemma reached_operation: "keeps (reached w0) m \<Longrightarrow> keeps (reached w0) (operation name m)"
  by (intro keeps_operation reached_metric reached_Now)

lemma reached_written: "keeps (reached w0) (store_written rc a b)"
  unfolding store_written_def by (intro wp_intros reached_steps)

lemma reached_getJob: "keeps (reached w0) (getJob R C cfg key)"
  unfolding getJob_def by (intro wp_intros reached_steps)

lemma reached_store:
  "keeps (reached w0) (store_Get R C cfg key)"
  "keeps (reached w0) (store_UpdateStatus R C cfg l key st ms)"
  "keeps (reached w0) (store_UpdateReport R C cfg l key rep)"
  "keeps (reached w0) (store_Acknowledge R C cfg l key stream grp i)"
  unfolding store_Get_def store_Get_body_def store_UpdateStatus_def store_update_def store_UpdateReport_def store_Acknowledge_def Let_def
  by (intro reached_operation wp_intros reached_steps reached_written reached_getJob)+

interpretation forward: delivery_keeps "reached w0" "redis_store R C cfg" wk msg t R delivery for w0 R C cfg wk msg t delivery
  by unfold_locales
    (auto simp: redis_store_def intro: reached_steps reached_begin reached_finish reached_store elim: reached_same [rotated 2])

lemma reached_process:
  assumes "\<And>w0 ref fmt. keeps (reached w0) (scanner ref fmt)"
  shows "keeps (reached w0) (process R C (redis_store R C cfg) (Scan (redis_store R C cfg) scanner tv) wk msg)"
  unfolding process_def
  by (intro wp_intros reached_steps forward.keeps_quarantine forward.keeps_process_locked forward.keeps_Scan assms)

lemma reached_process_all:
  assumes "\<And>w0 ref fmt. keeps (reached w0) (scanner ref fmt)"
  shows "keeps (reached w0) (process_all R C (redis_store R C cfg) (Scan (redis_store R C cfg) scanner tv) wk msgs)"
  by (induction msgs) (auto intro!: wp_intros reached_process assms)

lemma reached_waitRetry: "keeps (reached w0) waitRetry"
  by (rule keepsI) (auto simp: waitRetry_def split: if_splits elim: reached_same [rotated 2])

lemma reached_beat: "keeps (reached w0) beat"
  unfolding beat_def by (intro wp_intros reached_steps reached_modify) simp_all

lemma reached_ensureGroup: "keeps (reached w0) (ensureGroup R wk)"
  unfolding ensureGroup_def by (intro wp_intros reached_steps)

lemma reached_recover: "keeps (reached w0) (recoverMissingGroup R wk e)"
  unfolding recoverMissingGroup_def by (intro wp_intros reached_steps reached_modify reached_ensureGroup) simp_all

lemma reached_retry: "keeps (reached w0) (retry_with cursor observed)"
  unfolding retry_with_def by (intro wp_intros reached_waitRetry)

section \<open>An iteration uses up a turn\<close>

definition left :: "nat \<Rightarrow> ('s, 'z) world_scheme \<Rightarrow> bool" where
  "left n w \<longleftrightarrow> length (turns w) \<le> n"

lemma keeps_left: "(\<And>w0. keeps (reached w0) m) \<Longrightarrow> keeps (left n) m"
proof (rule keepsI)
  fix w r w'
  assume m: "\<And>w0. keeps (reached w0) m" and w: "left n w" and run: "run_state m w = (r, w')"
  have "reached w w'" by (rule keepsD [OF m reached_refl run])
  then show "left n w'" using w reached_length by (fastforce simp: left_def)
qed

lemma wp_left_call: "wp (left (Suc n)) (call m) (\<lambda>_. left n)"
  by (rule wpI) (auto simp: left_def dest!: call_turns)

lemma reached_iteration:
  assumes "\<And>w0 ref fmt. keeps (reached w0) (scanner ref fmt)"
  shows "keeps (reached w0) (run_iteration R C (redis_store R C cfg) (Scan (redis_store R C cfg) scanner tv) wk cursor observed)"
  unfolding run_iteration_def Let_def
  by (intro wp_intros reached_steps reached_beat reached_recover reached_retry reached_process_all assms)

lemma iteration_uses_turn:
  assumes scanner: "\<And>w0 ref fmt. keeps (reached w0) (scanner ref fmt)"
  shows "wp (left (Suc n)) (run_iteration R C (redis_store R C cfg) (Scan (redis_store R C cfg) scanner tv) wk cursor observed) (\<lambda>_. left n)"
  unfolding run_iteration_def
proof (rule wp_bind_keeps [OF keeps_left [OF reached_Now]], rule wp_bind_keeps, goal_cases)
  case 1
  show ?case by (rule keeps_left) (intro wp_intros reached_steps)
next
  case 2
  show ?case
    unfolding Let_def
    by (rule wp_bind [OF wp_left_call], rule keeps_wp, rule keeps_left)
       (intro wp_intros reached_steps reached_beat reached_recover reached_retry reached_process_all scanner)
qed

section \<open>The loops end\<close>

text \<open>A loop is left only when the context has ended.\<close>

lemma wp_process_all: "wp (\<lambda>_. True) (process_all R C st exec wk msgs) (\<lambda>go w. \<not> go \<longrightarrow> stopped w \<noteq> None)"
proof (induction msgs)
  case Nil
  show ?case by (simp add: wp_def)
next
  case (Cons msg msgs)
  have "wp (\<lambda>w. e = stopped w) (if e \<noteq> None then State_Monad.return False
      else State_Monad.bind (process R C st exec wk msg) (\<lambda>_. process_all R C st exec wk msgs))
      (\<lambda>go w. \<not> go \<longrightarrow> stopped w \<noteq> None)" for e
  proof (cases e)
    case None
    then show ?thesis by (simp add: wp_bind [OF wp_triv] Cons [unfolded not_None_eq])
  next
    case (Some a)
    then show ?thesis by (simp add: wp_def) metis
  qed
  then show ?case
    unfolding process_all.simps by (intro wp_bind [where R = "\<lambda>e w. e = stopped w"]) (simp_all add: wp_def parent_Err_def)
qed

definition left_stopped :: "'c option \<Rightarrow> ('s, 'z) world_scheme \<Rightarrow> bool" where
  "left_stopped r w \<longleftrightarrow> (r = None \<longrightarrow> stopped w \<noteq> None)"

lemma wp_retry: "wp (\<lambda>_. True) (retry_with cursor observed) left_stopped"
  by (auto simp: wp_def retry_with_def waitRetry_def parent_Err_def left_stopped_def)

lemma wp_left_loop: "wp (\<lambda>_. True) (State_Monad.bind (process_all R C st exec wk msgs) (\<lambda>go. State_Monad.return (if go then Some p else None)))
    left_stopped"
  by (rule wp_bind [OF wp_process_all]) (simp add: wp_def left_stopped_def)

lemma wp_go_on: "wp (\<lambda>_. True) (State_Monad.return (Some p)) left_stopped"
  by (simp add: wp_def left_stopped_def)

lemma iteration_leaves_stopped: "wp (\<lambda>_. True) (run_iteration R C st exec wk cursor observed) left_stopped"
  unfolding run_iteration_def Let_def
  by (intro wp_branches wp_retry wp_left_loop wp_go_on wp_bind [OF wp_triv] wp_thenM [OF wp_triv])

text \<open>Once there are more iterations than turns, one more changes nothing, and the context has ended.\<close>

lemma iteration_step:
  assumes scanner: "\<And>w0 ref fmt. keeps (reached w0) (scanner ref fmt)" and due: "stop_due w" and "stopped w = None"
    and run: "run_state (run_iteration R C (redis_store R C cfg) (Scan (redis_store R C cfg) scanner tv) wk cursor observed) w = (r, w')"
  shows "stop_due w'" "length (turns w') < length (turns w)"
proof -
  show "stop_due w'" by (rule stop_due_reached [OF due keepsD [OF reached_iteration [OF scanner] reached_refl run]])
  have ne: "turns w \<noteq> []" using due \<open>stopped w = None\<close> by (auto simp: stop_due_def)
  then have "left (Suc (length (turns w) - 1)) w" by (simp add: left_def)
  then have "left (length (turns w) - 1) w'" using wpD [OF iteration_uses_turn [OF scanner] _ run] by blast
  then show "length (turns w') < length (turns w)" using ne by (cases "turns w") (auto simp: left_def)
qed

lemma run_loop_enough:
  assumes scanner: "\<And>w0 ref fmt. keeps (reached w0) (scanner ref fmt)"
    and "stop_due w" "length (turns w) < n"
  shows "run_state (run_loop (Suc n) R C (redis_store R C cfg) (Scan (redis_store R C cfg) scanner tv) wk cursor observed) w =
    run_state (run_loop n R C (redis_store R C cfg) (Scan (redis_store R C cfg) scanner tv) wk cursor observed) w"
  using assms(2,3)
proof (induction n arbitrary: w cursor observed)
  case (Suc n)
  let ?it = "run_iteration R C (redis_store R C cfg) (Scan (redis_store R C cfg) scanner tv) wk cursor observed"
  obtain nxt w' where run: "run_state ?it w = (nxt, w')" by fastforce
  show ?case
  proof (cases "stopped w")
    case None
    note step = iteration_step [OF scanner Suc.prems(1) None run]
    then have fewer: "length (turns w') < n" using Suc.prems(2) by simp
    show ?thesis
    proof (cases nxt)
      case (Some p)
      obtain c ob where "p = (c, ob)" by fastforce
      then show ?thesis using None run Some Suc.IH [OF step(1) fewer, of c ob]
        by (subst (1 2) run_loop.simps) (simp add: parent_Err_def del: run_loop.simps)
    qed (use None run in \<open>simp add: parent_Err_def\<close>)
  qed (simp add: parent_Err_def)
qed simp

lemma run_loop_stops:
  assumes scanner: "\<And>w0 ref fmt. keeps (reached w0) (scanner ref fmt)"
    and "stop_due w" "length (turns w) < n"
  shows "stopped (snd (run_state (run_loop n R C (redis_store R C cfg) (Scan (redis_store R C cfg) scanner tv) wk cursor observed) w)) \<noteq> None"
  using assms(2,3)
proof (induction n arbitrary: w cursor observed)
  case (Suc n)
  let ?it = "run_iteration R C (redis_store R C cfg) (Scan (redis_store R C cfg) scanner tv) wk cursor observed"
  obtain nxt w' where run: "run_state ?it w = (nxt, w')" by fastforce
  have ended: "left_stopped nxt w'" using wpD [OF iteration_leaves_stopped _ run] by simp
  show ?case
  proof (cases "stopped w")
    case None
    note step = iteration_step [OF scanner Suc.prems(1) None run]
    then have fewer: "length (turns w') < n" using Suc.prems(2) by simp
    show ?thesis using None run ended Suc.IH [OF step(1) fewer]
      by (cases nxt) (auto simp: parent_Err_def left_stopped_def split: prod.split)
  qed (simp add: parent_Err_def)
qed simp

text \<open>Asking for the group.\<close>

lemma ensureGroup_uses_turn: "wp (left (Suc n)) (ensureGroup R wk) (\<lambda>_. left n)"
  unfolding ensureGroup_def
  by (rule wp_bind [OF wp_left_call], rule keeps_wp, rule keeps_left) (intro wp_intros)

lemma ensure_step:
  assumes due: "stop_due w" and "stopped w = None" and run: "run_state (ensureGroup R wk) w = (r, w')"
  shows "stop_due w'" "length (turns w') < length (turns w)"
proof -
  show "stop_due w'" by (rule stop_due_reached [OF due keepsD [OF reached_ensureGroup reached_refl run]])
  have ne: "turns w \<noteq> []" using due \<open>stopped w = None\<close> by (auto simp: stop_due_def)
  then have "left (Suc (length (turns w) - 1)) w" by (simp add: left_def)
  then have "left (length (turns w) - 1) w'" using wpD [OF ensureGroup_uses_turn _ run] by blast
  then show "length (turns w') < length (turns w)" using ne by (cases "turns w") (auto simp: left_def)
qed

lemma ensure_loop_result:
  assumes "stop_due w" "length (turns w) < n" "run_state (ensure_loop n R wk) w = (go, w')"
  shows "stop_due w' \<and> length (turns w') \<le> length (turns w) \<and> (\<not> go \<longrightarrow> stopped w' \<noteq> None) \<and>
     run_state (ensure_loop (Suc n) R wk) w = (go, w')"
  using assms
proof (induction n arbitrary: w)
  case (Suc n)
  obtain r w1 where run: "run_state (ensureGroup R wk) w = (r, w1)" by fastforce
  show ?case
  proof (cases "stopped w")
    case None
    note step = ensure_step [OF Suc.prems(1) None run]
    show ?thesis
    proof (cases "(\<exists>x. r = Inr x) \<or> stopped w1 \<noteq> None")
      case True
      then show ?thesis using None run Suc.prems(3) step by (auto simp: parent_Err_def waitRetry_def split: sum.splits)
    next
      case False
      then obtain e where e: "r = Inl e" "stopped w1 = None" by (cases r) auto
      let ?w = "w1\<lparr>clock := clock w1 + 10 ^ 9\<rparr>"
      have run': "run_state (ensure_loop n R wk) ?w = (go, w')"
        using None run e Suc.prems(3) by (simp add: parent_Err_def waitRetry_def)
      have "stop_due ?w" "length (turns ?w) < n" using step Suc.prems(2) by (simp_all add: stop_due_def)
      from Suc.IH [OF this run'] show ?thesis using None run e step
        by (subst ensure_loop.simps) (simp add: parent_Err_def waitRetry_def del: ensure_loop.simps)
    qed
  qed (use Suc.prems in \<open>auto simp: parent_Err_def\<close>)
qed simp

lemma worker_run_enough:
  assumes scanner: "\<And>w0 ref fmt. keeps (reached w0) (scanner ref fmt)" and due: "stop_due w" and n: "length (turns w) < n"
  shows "run_state (worker_run (Suc n) R C (redis_store R C cfg) (Scan (redis_store R C cfg) scanner tv) wk) w =
    run_state (worker_run n R C (redis_store R C cfg) (Scan (redis_store R C cfg) scanner tv) wk) w"
proof -
  obtain go w' where run: "run_state (ensure_loop n R wk) w = (go, w')" by fastforce
  note ens = ensure_loop_result [OF due n run]
  then have "length (turns w') < n" using n by simp
  then show ?thesis using ens run run_loop_enough [OF scanner, of w' n]
    by (cases go) (simp_all add: worker_run_def del: ensure_loop.simps run_loop.simps)
qed

lemma unit_run: "\<exists>w'. run_state m w = ((), w')"
  by (cases "run_state m w") simp

lemma call_stopped: "run_state (call m) w = (r, w') \<Longrightarrow> stopped w \<noteq> None \<Longrightarrow> stopped w' \<noteq> None"
  by (drule call_turns) blast

text \<open>
  C37. The worker stops: when the context has ended or one of the turns to come ends it, more
  iterations than turns are enough for \<^verbatim>\<open>run\<close> to return, no further iteration changes what it did,
  and it returns only with its context ended.
\<close>

theorem worker_stops:
  assumes "\<And>w0 ref fmt. keeps (reached w0) (scanner ref fmt)" and "stop_due w" and "length (turns w) < n"
  shows "run_state (worker_run n R C (redis_store R C cfg) (Scan (redis_store R C cfg) scanner tv) wk) w =
      run_state (worker_run (Suc (length (turns w))) R C (redis_store R C cfg) (Scan (redis_store R C cfg) scanner tv) wk) w
    \<and> parent_Err (snd (run_state (worker_run n R C (redis_store R C cfg) (Scan (redis_store R C cfg) scanner tv) wk) w)) \<noteq> None"
proof
  show "run_state (worker_run n R C (redis_store R C cfg) (Scan (redis_store R C cfg) scanner tv) wk) w =
      run_state (worker_run (Suc (length (turns w))) R C (redis_store R C cfg) (Scan (redis_store R C cfg) scanner tv) wk) w"
    using Suc_leI [OF assms(3)] by (induction rule: dec_induct) (simp_all add: worker_run_enough [OF assms(1,2)])
next
  obtain go w1 where run: "run_state (ensure_loop n R wk) w = (go, w1)" by fastforce
  note ens = ensure_loop_result [OF assms(2,3) run]
  have fewer: "length (turns w1) < n" using ens assms(3) by simp
  obtain w2 where w2: "run_state (if go then run_loop n R C (redis_store R C cfg) (Scan (redis_store R C cfg) scanner tv) wk ''0-0'' 0
      else State_Monad.return ()) w1 = ((), w2)"
    by (rule exE [OF unit_run])
  have "stopped w2 \<noteq> None"
  proof (cases go)
    case True
    have "stop_due w1" using ens by blast
    from run_loop_stops [where scanner = scanner, OF assms(1) this fewer, where R = R and C = C and cfg = cfg and tv = tv and wk = wk and cursor = "''0-0''" and observed = 0]
    show ?thesis using w2 True by (simp del: run_loop.simps)
  next
    case False
    then show ?thesis using w2 ens by simp
  qed
  then show "parent_Err (snd (run_state (worker_run n R C (redis_store R C cfg) (Scan (redis_store R C cfg) scanner tv) wk) w)) \<noteq> None"
    unfolding worker_run_def using run w2
    by (auto simp: parent_Err_def thenM_def split: prod.split dest!: call_stopped simp del: ensure_loop.simps run_loop.simps)
qed

text \<open>A worker whose context ends while it asks for its group.\<close>

definition ex_stopping :: "(ref, unit wworld_ext) world_scheme" where
  "ex_stopping = world.extend (world.truncate (world_of ex_server)\<lparr>turns := [\<lparr>others = \<lambda>s. s, elapsed = 0, stops = Some Canceled,
     loses = False, outcome = Delivered\<rparr>]\<rparr>)
     (wworld.fields 0 0 [] False)"

theorem worker_stops_witness:
  "\<forall>C cfg. parent_Err (snd (run_state (worker_run 3 ref_redis C (redis_store ref_redis C cfg)
       (Scan (redis_store ref_redis C cfg) (\<lambda>_ _. failE Canceled) None) ex_worker) ex_stopping)) \<noteq> None"
proof (intro allI)
  fix C cfg
  have k: "keeps (reached w0) (failE Canceled :: (ref, unit wworld_ext, Report) op)" for w0 :: "(ref, unit wworld_ext) world_scheme"
    by (intro wp_intros)
  have due: "stop_due ex_stopping" and "length (turns ex_stopping) < 3"
    by (simp_all add: stop_due_def ex_stopping_def world.defs wworld.defs world_of_def)
  from worker_stops [of "\<lambda>_ _. failE Canceled", OF k this]
  show "parent_Err (snd (run_state (worker_run 3 ref_redis C (redis_store ref_redis C cfg)
       (Scan (redis_store ref_redis C cfg) (\<lambda>_ _. failE Canceled) None) ex_worker) ex_stopping)) \<noteq> None"
    by (rule conjunct2)
qed

end
