(* ===== verification/Settled.thy ===== *)
theory Settled
  imports Work_Queue Worker_Stop
begin

text \<open>
  What becomes of a delivery that is handled without an error while nobody else touches the server:
  it leaves the stream, into the quarantine or with the outcome of its job stored; and the retry limit.
\<close>

section \<open>Acknowledgement\<close>

definition alone :: "('s, 'z) world_scheme \<Rightarrow> bool" where
  "alone w \<longleftrightarrow> turns w = []"

lemma alone_quiet: "alone w \<Longrightarrow> quiet V (V (srv w)) w"
  by (simp add: alone_def quiet_def)

lemma quiet_alone: "quiet V v w \<Longrightarrow> alone w"
  by (simp add: alone_def quiet_def)

lemma fold_ack_steps:
  "fold (\<lambda>f. f) (ack_steps jobk repk stream leasek grp i ms) v =
     remove_key leasek ((if ms > 0 then pexpire_effect repk ms \<circ> pexpire_effect jobk ms else id)
       (xdel_effect stream i (xack_effect stream grp i v)))"
  by (simp add: ack_steps_def)

lemma not_in_stream_xdel: "\<not> in_stream stream i (xdel_effect stream i v)"
  by (auto simp: in_stream_def stream_ids_def xdel_effect_def put_value_def split: option.split rvalue.split)

lemma pexpire_positive: "ms > 0 \<Longrightarrow> ks (pexpire_effect k ms v) = ks v"
  by (auto simp: pexpire_effect_def put_ttl_def)

lemma ks_xack_xdel: "k \<noteq> stream \<Longrightarrow> ks (xdel_effect stream i (xack_effect stream grp i v)) k = ks v k"
  by (auto simp: xdel_effect_def xack_effect_def put_value_def split: option.split rvalue.split)

lemma job_stored_cong: "ks v' k = ks v k \<Longrightarrow> job_stored C v' k j = job_stored C v k j"
  by (simp add: job_stored_def)

lemma in_stream_cong: "ks v' stream = ks v stream \<Longrightarrow> in_stream stream i v' = in_stream stream i v"
  by (simp add: in_stream_def stream_ids_def)

lemma ack_effects:
  assumes "stream \<noteq> leasek" "k \<notin> {stream, leasek}"
  shows "\<not> in_stream stream i (fold (\<lambda>f. f) (ack_steps jobk repk stream leasek grp i ms) v)"
    and "ks (fold (\<lambda>f. f) (ack_steps jobk repk stream leasek grp i ms) v) k = ks v k"
proof -
  let ?v = "xdel_effect stream i (xack_effect stream grp i v)"
  let ?p = "(if ms > 0 then pexpire_effect repk ms \<circ> pexpire_effect jobk ms else id) ?v"
  have p: "ks ?p = ks ?v" by (simp add: pexpire_positive)
  have "in_stream stream i (remove_key leasek ?p) = in_stream stream i ?v"
    by (rule in_stream_cong) (use p assms(1) in \<open>simp add: remove_key_def\<close>)
  then show "\<not> in_stream stream i (fold (\<lambda>f. f) (ack_steps jobk repk stream leasek grp i ms) v)"
    unfolding fold_ack_steps by (simp add: not_in_stream_xdel)
  show "ks (fold (\<lambda>f. f) (ack_steps jobk repk stream leasek grp i ms) v) k = ks v k"
    unfolding fold_ack_steps using p assms(2) by (simp add: remove_key_def ks_xack_xdel)
qed

context redis_server begin

lemma succeeds_acknowledgeScript:
  "succeeds V (\<lambda>v x v'. if ks v leasek \<noteq> Some (Str token) then x = 0 \<and> v' = v
       else if ks v jobk = None then x = 0 \<and> v' = v
       else x = 1 \<and> v' = fold (\<lambda>f. f) (ack_steps jobk repk stream leasek grp i ms) v)
     (acknowledgeScript R jobk repk stream leasek token grp i ms)"
proof -
  have pex: "trail V (if ms > 0 then [pexpire_effect jobk ms, pexpire_effect repk ms] else [])
      (if ms > 0 then bindE (PEXPIRE R jobk ms) (\<lambda>_. PEXPIRE R repk ms) else okE 0)"
    using trail_bindE [OF trail_PEXPIRE trail_PEXPIRE] by (simp add: trail_okE)
  have t: "trail V (ack_steps jobk repk stream leasek grp i ms)
     (bindE (XACK R stream grp i) (\<lambda>_. bindE (XDEL R stream i) (\<lambda>_.
      bindE (if ms > 0 then bindE (PEXPIRE R jobk ms) (\<lambda>_. PEXPIRE R repk ms) else okE 0) (\<lambda>_.
      bindE (DEL R leasek) (\<lambda>_. okE (1 :: int))))))"
    unfolding ack_steps_def
    using trail_bindE [OF trail_XACK trail_bindE [OF trail_XDEL trail_bindE [OF pex trail_bindE [OF trail_DEL trail_okE]]]]
    by (simp only: append.simps append_Nil2)
  show ?thesis
    unfolding acknowledgeScript_def
    by (rule succeeds_fenced [OF t]) (auto simp: succeeds_def split: prod.splits sum.splits if_splits)
qed

text \<open>The record that the acknowledgement reads.\<close>

lemma wp_getJob_found:
  "wp (quiet V v) (getJob R C cfg key)
     (\<lambda>r w. \<forall>x. r = Inr x \<longrightarrow> quiet V v w \<and> (x = None \<longrightarrow> ks v (keyForScanJob cfg key) = None) \<and>
        (\<forall>j. x = Some j \<longrightarrow> job_stored C v (keyForScanJob cfg key) j))"
  unfolding getJob_def
proof (rule wp_bindE [OF quiet_call [OF succeeds_refines [OF GET]]], goal_cases)
  case (2 val)
  show ?case
    by (rule wpI) (auto simp: get_spec_def job_stored_def as_string_Some elim: as_string.elims split: option.splits sum.splits)
qed simp

lemma wp_Acknowledge:
  assumes apart: "keyForScanJob cfg key \<notin> {stream, lease_Key l}" "stream \<noteq> lease_Key l"
  shows "wp (quiet V v) (store_Acknowledge R C cfg l key stream grp i)
    (\<lambda>r w. r = Inr () \<longrightarrow> (\<exists>v'. quiet V v' w \<and> \<not> in_stream stream i v' \<and> terminal C cfg key v' \<and>
       (\<forall>k. k \<notin> {stream, lease_Key l} \<longrightarrow> ks v' k = ks v k)))"
  (is "wp _ _ ?Q")
proof -
  let ?k = "keyForScanJob cfg key"
  have script: "wp (quiet V v)
      (bindE (call (acknowledgeScript R ?k (keyForScanReport cfg key) stream (lease_Key l) (lease_Token l) grp i (ttlMillis cfg)))
         (\<lambda>ack. if ack \<noteq> 1 then failE (ErrText ''scan job ownership lost before acknowledgement'') else okE ())) ?Q"
    if j: "job_stored C v ?k j" "job_Status j = Finished \<or> job_Status j = Failed" for j
  proof (rule wp_bindE [OF quiet_call [OF succeeds_acknowledgeScript]], goal_cases)
    case (2 ack)
    let ?v = "fold (\<lambda>f. f) (ack_steps ?k (keyForScanReport cfg key) stream (lease_Key l) grp i (ttlMillis cfg)) v"
    have v: "\<not> in_stream stream i ?v" "\<And>k. k \<notin> {stream, lease_Key l} \<Longrightarrow> ks ?v k = ks v k"
      using ack_effects [of stream "lease_Key l"] apart by auto
    then have "terminal C cfg key ?v" using j job_stored_cong [OF v(2) [OF apart(1)]] by (auto simp: terminal_def)
    then show ?case using v by (intro wpI) (auto split: if_splits)
  qed simp
  have inner: "wp (quiet V v) (bindE (getJob R C cfg key) (\<lambda>state.
          if (case state of None \<Rightarrow> True | Some j \<Rightarrow> job_Status j \<noteq> Finished \<and> job_Status j \<noteq> Failed)
          then failE (ErrText ''cannot acknowledge a non-terminal scan job'')
          else if lease_Key l = [] \<or> lease_Token l = []
          then failE (ErrText ''acknowledgement requires job ownership'')
          else bindE (call (acknowledgeScript R ?k (keyForScanReport cfg key) stream (lease_Key l) (lease_Token l) grp i (ttlMillis cfg)))
            (\<lambda>ack. if ack \<noteq> 1 then failE (ErrText ''scan job ownership lost before acknowledgement'') else okE ()))) ?Q"
  proof (rule wp_bindE [OF wp_getJob_found], goal_cases)
    case (2 x)
    show ?case
    proof (cases "\<exists>j. x = Some j \<and> job_stored C v ?k j \<and> (job_Status j = Finished \<or> job_Status j = Failed) \<and> lease_Key l \<noteq> [] \<and> lease_Token l \<noteq> []")
      case True
      then obtain j where j: "x = Some j" "job_stored C v ?k j" "job_Status j = Finished \<or> job_Status j = Failed"
          "lease_Key l \<noteq> []" "lease_Token l \<noteq> []" by blast
      then show ?thesis using script [OF j(2,3)] by (auto simp: wp_def)
    next
      case False
      then show ?thesis by (cases x) (auto simp: wp_def)
    qed
  qed simp
  show ?thesis
    unfolding store_Acknowledge_def labelled_def
    by (rule wp_operation, rule wp_bind [OF inner], rule wp_return) auto
qed

section \<open>Quarantine\<close>

lemma stream_ids_read: "as_stream (ks v k) = Some (es, gs) \<Longrightarrow> stream_ids k v = map fst es"
  by (auto simp: stream_ids_def elim: as_stream.elims)

lemma succeeds_quarantine:
  "succeeds V (\<lambda>v x v'. \<not> in_stream stream i v' \<and> (in_stream stream i v \<longrightarrow> in_quarantine stream i v') \<and>
      (\<forall>k. k \<notin> {stream, stream @ '':quarantine''} \<longrightarrow> ks v' k = ks v k))
     (quarantineDelivery R stream (stream @ '':quarantine'') grp i payload)"
  unfolding succeeds_def
proof (intro allI impI)
  fix s x s'
  let ?q = "stream @ '':quarantine''"
  assume run: "run_state (quarantineDelivery R stream ?q grp i payload) s = (Inr x, s')"
  obtain n s1 where 1: "run_state (XLEN R stream) s = (Inr n, s1)"
    using run by (auto simp: quarantineDelivery_def split: prod.splits sum.splits)
  then have n: "V s1 = V s" "\<exists>es gs. as_stream (ks (V s) stream) = Some (es, gs) \<and> n = int (length es)"
    using refinesD(1) [OF XLEN] by (auto simp: xlen_spec_def)
  show "\<not> in_stream stream i (V s') \<and> (in_stream stream i (V s) \<longrightarrow> in_quarantine stream i (V s')) \<and>
      (\<forall>k. k \<notin> {stream, stream @ '':quarantine''} \<longrightarrow> ks (V s') k = ks (V s) k)"
  proof (cases "n = 0")
    case True
    then have "V s' = V s" using run 1 n(1) by (simp add: quarantineDelivery_def)
    moreover have "\<not> in_stream stream i (V s)" using n(2) True stream_ids_read by (fastforce simp: in_stream_def)
    ultimately show ?thesis by simp
  next
    case False
    obtain es s2 where 2: "run_state (XRANGE_id R stream i) s1 = (Inr es, s2)"
      using run 1 False by (auto simp: quarantineDelivery_def split: prod.splits sum.splits)
    then have es: "V s2 = V s" "\<exists>fs gs. as_stream (ks (V s) stream) = Some (fs, gs) \<and> es = take 1 (filter (\<lambda>e. fst e = i) fs)"
      using refinesD(1) [OF XRANGE_id] n(1) by (fastforce simp: xfind_spec_def)+
    show ?thesis
    proof (cases "es = []")
      case True
      then have "V s' = V s" using run 1 2 False es(1) by (simp add: quarantineDelivery_def)
      moreover have "\<not> in_stream stream i (V s)"
        using es(2) True stream_ids_read by (fastforce simp: in_stream_def filter_empty_conv)
      ultimately show ?thesis by simp
    next
      case some: False
      obtain m s3 where 3: "run_state (HSET R ?q i payload) s2 = (Inr m, s3)"
        using run 1 2 False some by (auto simp: quarantineDelivery_def split: prod.splits sum.splits)
      obtain h where h: "V s3 = put_value ?q (Hsh ((i, payload) # filter (\<lambda>p. fst p \<noteq> i) h)) (V s)"
        using refinesD(1) [OF HSET 3] es(1) by (auto simp: hset_spec_def)
      have rest: "run_state (bindE (XACK R stream grp i) (\<lambda>_. bindE (XDEL R stream i) (\<lambda>_. okE 1))) s3 = (Inr x, s')"
        using run 1 2 3 False some by (simp add: quarantineDelivery_def)
      have "trail V ([xack_effect stream grp i] @ [xdel_effect stream i] @ []) (bindE (XACK R stream grp i) (\<lambda>_. bindE (XDEL R stream i) (\<lambda>_. okE 1)))"
        by (intro trail_bindE trail_XACK trail_XDEL trail_okE)
      from trailD(2) [OF this rest] have v: "V s' = xdel_effect stream i (xack_effect stream grp i (V s3))" by simp
      have keys: "ks (V s') k = ks (V s3) k" if "k \<noteq> stream" for k unfolding v by (rule ks_xack_xdel [OF that])
      have "in_quarantine stream i (V s')" unfolding in_quarantine_def using keys [of ?q] by (simp add: h put_value_def)
      then show ?thesis using keys not_in_stream_xdel by (auto simp: v h put_value_def)
    qed
  qed
qed

section \<open>The lock\<close>

lemma succeeds_release: "succeeds V (\<lambda>v x v'. \<forall>k. k \<noteq> lk \<longrightarrow> ks v' k = ks v k) (releaseLease R lk token)"
  unfolding succeeds_def releaseLease_def
  by (auto simp: get_spec_def del_spec_def remove_key_def dest!: refinesD(1) [OF GET] refinesD(1) [OF DEL] split: prod.splits sum.splits if_splits)

lemma release_failed: "run_state (releaseLease R lk token) s = (Inl e, s') \<Longrightarrow> V s' = V s"
  unfolding releaseLease_def
  by (auto dest!: refinesD [OF GET] refinesD [OF DEL] simp: get_spec_def split: prod.splits sum.splits if_splits)

lemma wp_release:
  assumes "\<And>v v'. (\<And>k. k \<noteq> lk \<Longrightarrow> ks v' k = ks v k) \<Longrightarrow> F v \<Longrightarrow> F v'"
  shows "keeps (\<lambda>w. alone w \<and> F (V (srv w))) (call (releaseLease R lk token))"
proof (rule keepsI)
  fix w r w'
  assume w: "alone w \<and> F (V (srv w))" and run: "run_state (call (releaseLease R lk token)) w = (r, w')"
  obtain x s where x: "run_state (releaseLease R lk token) (srv w) = (x, s)" by fastforce
  have "\<forall>k. k \<noteq> lk \<longrightarrow> ks (V s) k = ks (V (srv w)) k"
    using x release_failed succeeds_release [unfolded succeeds_def] by (cases x) auto
  then have "F (V s)" using assms [of "V s" "V (srv w)"] w by blast
  then show "alone w' \<and> F (V (srv w'))" using run w x by (auto simp: alone_def call_quiet)
qed

end

section \<open>Handling a delivery\<close>

text \<open>
  The delivery left the stream, and if it was there it is in the quarantine or the job it names has its
  outcome.
\<close>

definition retired :: "codec \<Rightarrow> store_config \<Rightarrow> string \<Rightarrow> string \<Rightarrow> ScanJobKey \<Rightarrow> view \<Rightarrow> view \<Rightarrow> bool" where
  "retired C cfg stream i key v0 v \<longleftrightarrow>
     \<not> in_stream stream i v \<and> (in_stream stream i v0 \<longrightarrow> in_quarantine stream i v \<or> terminal C cfg key v)"

lemma retired_cong:
  assumes "ks v' stream = ks v stream" "ks v' (stream @ '':quarantine'') = ks v (stream @ '':quarantine'')"
    "ks v' (keyForScanJob cfg key) = ks v (keyForScanJob cfg key)"
  shows "retired C cfg stream i key v0 v' = retired C cfg stream i key v0 v"
  using assms by (simp add: retired_def in_stream_def stream_ids_def in_quarantine_def terminal_def job_stored_def)

lemma keeps_alone: "(\<And>w0. keeps (reached w0) m) \<Longrightarrow> keeps alone m"
proof (rule keepsI)
  fix w r w'
  assume m: "\<And>w0. keeps (reached w0) m" and w: "alone w" and run: "run_state m w = (r, w')"
  have "reached w w'" by (rule keepsD [OF m reached_refl run])
  then show "alone w'" using w by (simp add: alone_def reached_def)
qed

definition put_aside :: "string \<Rightarrow> string \<Rightarrow> view \<Rightarrow> view \<Rightarrow> bool" where
  "put_aside stream i v0 v \<longleftrightarrow> \<not> in_stream stream i v \<and> (in_stream stream i v0 \<longrightarrow> in_quarantine stream i v)"

definition read_as :: "codec \<Rightarrow> string \<Rightarrow> view \<Rightarrow> ScanJob option \<Rightarrow> bool" where
  "read_as C k v x \<longleftrightarrow> (x = None \<longrightarrow> ks v k = None) \<and> (\<forall>j'. x = Some j' \<longrightarrow> (\<exists>j rep. job_stored C v k j \<and> j' = j\<lparr>job_Report := rep\<rparr>))"

definition got :: "codec \<Rightarrow> store_config \<Rightarrow> ScanJobKey \<Rightarrow> view \<Rightarrow> ScanJob option \<Rightarrow> bool" where
  "got C cfg key v x \<longleftrightarrow>
     (case x of
        None \<Rightarrow> ks v (keyForScanJob cfg key) = None
      | Some j' \<Rightarrow> \<exists>j. job_stored C v (keyForScanJob cfg key) j \<and>
          (case ks v (keyForScanReport cfg key) of
             None \<Rightarrow> j' = j
           | Some _ \<Rightarrow> \<exists>rep. report_stored C v (keyForScanReport cfg key) rep \<and> j' = j\<lparr>job_Report := rep\<rparr>))"

text \<open>A delivery whose keys do not coincide with those of the store.\<close>

lemma keys_freeE:
  assumes "keys_free cfg wk i"
  shows "keyForScanJob cfg key \<notin> {wk_stream wk, lock_key wk i}" "wk_stream wk \<noteq> lock_key wk i"
    "wk_stream wk @ '':quarantine'' \<noteq> lock_key wk i" "keyForScanJob cfg key \<noteq> wk_stream wk @ '':quarantine''"
  using spec [OF assms [unfolded keys_free_def], of key] by (auto simp: lock_key_def)

context redis_server begin

lemma wp_alone: "keeps alone m \<Longrightarrow> wp (quiet V v) m (\<lambda>_. alone)"
  by (rule wpI) (auto dest: keepsD quiet_alone)

text \<open>The record that \<^verbatim>\<open>Get\<close> returns is the stored one, with the report stored apart if there is one.\<close>

lemma wp_Get_exact:
  "wp (quiet V v) (store_Get R C cfg key) (\<lambda>r w. \<forall>x. r = Inr x \<longrightarrow> quiet V v w \<and> got C cfg key v x)"
  (is "wp _ _ ?Q")
proof -
  have b: "wp (quiet V v) (store_Get_body R C cfg key) ?Q"
    unfolding store_Get_body_def
  proof (rule wp_bindE [OF wp_getJob_found], goal_cases)
    case (2 found)
    show ?case
    proof (cases found)
      case None
      then show ?thesis by (auto simp: wp_def got_def)
    next
      case (Some j)
      have "wp (\<lambda>w. job_stored C v (keyForScanJob cfg key) j \<and> quiet V v w)
         (bindE (call (GET R (keyForScanReport cfg key))) (\<lambda>value.
             case value of
               None \<Rightarrow> okE (Some j)
             | Some v \<Rightarrow>
                 (case decompress C v of
                    Inl e \<Rightarrow> failE (Wrap ''decompressing scan report'' e)
                  | Inr data \<Rightarrow>
                      (case unmarshal_report C data of
                         Inl e \<Rightarrow> failE (Wrap ''unmarshaling scan report'' (ErrText e))
                       | Inr rep \<Rightarrow> okE (Some (j\<lparr>job_Report := rep\<rparr>)))))) ?Q"
      proof (rule wp_pre_conj, rule wp_bindE [OF quiet_call [OF succeeds_refines [OF GET]]], goal_cases)
        case (2 val)
        show ?case
          by (rule wpI) (use 2 in \<open>auto simp: get_spec_def got_def report_stored_def as_string_Some
              elim!: as_string.elims split: option.splits sum.splits\<close>)
      qed simp
      then show ?thesis using Some by (auto simp: wp_def)
    qed
  qed simp
  show ?thesis
    unfolding store_Get_def by (rule wp_operation, rule wp_bind [OF b], rule wp_return) auto
qed

lemma got_read_as: "got C cfg key v x \<Longrightarrow> read_as C (keyForScanJob cfg key) v x"
proof -
  have own: "\<exists>rep. j = j\<lparr>job_Report := rep\<rparr>" for j :: ScanJob by (rule exI [of _ "job_Report j"]) simp
  then show "got C cfg key v x \<Longrightarrow> ?thesis" by (fastforce simp: got_def read_as_def split: option.splits)
qed

lemma wp_Get_found:
  "wp (quiet V v) (store_Get R C cfg key) (\<lambda>r w. \<forall>x. r = Inr x \<longrightarrow> quiet V v w \<and> read_as C (keyForScanJob cfg key) v x)"
  by (rule wp_conseq [OF wp_Get_exact]) (auto intro: got_read_as)

definition settles :: "(view \<Rightarrow> bool) \<Rightarrow> view \<Rightarrow> ('s, 'z, unit) op \<Rightarrow> bool" where
  "settles F v m \<longleftrightarrow> wp (quiet V v) m (\<lambda>r w. r = Inr () \<longrightarrow> alone w \<and> F (V (srv w)))"

lemma settlesI: "wp (quiet V v) m (\<lambda>r w. r = Inr () \<longrightarrow> (\<exists>v'. quiet V v' w \<and> F v')) \<Longrightarrow> settles F v m"
  unfolding settles_def by (rule wpI) (auto simp: quiet_def alone_def dest!: wpD)

lemma settles_fail: "settles F v (failE e)"
  by (simp add: settles_def wp_def)

lemma settles_after:
  assumes "wp (quiet V v) m (\<lambda>r w. alone w)" "\<And>v x. settles F v (f x)"
  shows "settles F v (State_Monad.bind m f)"
  unfolding settles_def
proof (rule wp_bind [OF assms(1)])
  fix x
  show "wp alone (f x) (\<lambda>r w. r = Inr () \<longrightarrow> alone w \<and> F (V (srv w)))"
    by (rule wpI) (use assms(2) in \<open>auto simp: settles_def dest: wpD alone_quiet\<close>)
qed

lemma settles_acknowledge:
  assumes "keys_free cfg wk i"
  shows "settles (retired C cfg (wk_stream wk) i key v0) v
    (store_Acknowledge R C cfg \<lparr>lease_Key = lock_key wk i, lease_Token = t\<rparr> key (wk_stream wk) workerGroup i)"
  by (rule settlesI, rule wp_conseq [OF wp_Acknowledge]) (use keys_freeE [OF assms] in \<open>auto simp: retired_def\<close>)

text \<open>What the acknowledgement does not touch.\<close>

lemma settles_acknowledged:
  assumes free: "keys_free cfg wk i"
    and F: "\<And>v'. (\<And>k. k \<notin> {wk_stream wk, lock_key wk i} \<Longrightarrow> ks v' k = ks v k) \<Longrightarrow> F v'"
  shows "settles F v (store_Acknowledge R C cfg \<lparr>lease_Key = lock_key wk i, lease_Token = t\<rparr> key (wk_stream wk) workerGroup i)"
proof (rule settlesI, rule wp_conseq [OF wp_Acknowledge [of cfg key "wk_stream wk" "\<lparr>lease_Key = lock_key wk i, lease_Token = t\<rparr>"]])
  fix r and w :: "('s, 'z) world_scheme"
  assume "r = Inr () \<longrightarrow> (\<exists>v'. quiet V v' w \<and> \<not> in_stream (wk_stream wk) i v' \<and> terminal C cfg key v' \<and>
     (\<forall>k. k \<notin> {wk_stream wk, lease_Key \<lparr>lease_Key = lock_key wk i, lease_Token = t\<rparr>} \<longrightarrow> ks v' k = ks v k))"
  then show "r = Inr () \<longrightarrow> (\<exists>v'. quiet V v' w \<and> F v')" using F by (metis Lease.select_convs(1))
qed (use keys_freeE [OF free] in auto)

lemma settles_retire:
  assumes "keys_free cfg wk i"
  shows "settles (retired C cfg (wk_stream wk) i key v0) v
    (retire (redis_store R C cfg) wk \<lparr>lease_Key = lock_key wk i, lease_Token = t\<rparr> key i)"
  unfolding retire_def
  by (rule settles_after, rule wpI) (auto simp: quiet_alone redis_store_def settles_fail settles_acknowledge [OF assms] split: option.split)

lemma settles_put_aside:
  assumes "in_stream (wk_stream wk) (fst msg) v = in_stream (wk_stream wk) (fst msg) v0"
  shows "settles (put_aside (wk_stream wk) (fst msg) v0) v (quarantine R C' wk msg reason)"
  unfolding quarantine_def
  by (rule settlesI, rule wp_bind [OF quiet_call [OF succeeds_quarantine]])
    (use assms in \<open>auto simp: wp_def put_aside_def split: sum.split\<close>)

lemma settles_mono: "settles F v m \<Longrightarrow> (\<And>v. F v \<Longrightarrow> F' v) \<Longrightarrow> settles F' v m"
  unfolding settles_def by (erule wp_conseq) auto

lemma settles_quarantine:
  assumes "in_stream (wk_stream wk) (fst msg) v = in_stream (wk_stream wk) (fst msg) v0"
  shows "settles (retired C cfg (wk_stream wk) (fst msg) key v0) v (quarantine R C' wk msg reason)"
  by (rule settles_mono [OF settles_put_aside [OF assms]]) (auto simp: put_aside_def retired_def)

lemma settles_then: "keeps (quiet V v) m \<Longrightarrow> settles F v n \<Longrightarrow> settles F v (thenM m n)"
  unfolding settles_def by (rule wp_then_keeps)

lemma settles_bindE:
  assumes "wp (quiet V v) m (\<lambda>r w. alone w)" "\<And>v x. settles F v (f x)"
  shows "settles F v (bindE m f)"
  unfolding bindE_def by (rule settles_after [OF assms(1)]) (auto simp: assms(2) settles_fail [unfolded failE_def] split: sum.split)

lemma settles_case: "(x = None \<Longrightarrow> settles F v m) \<Longrightarrow> (\<And>a. x = Some a \<Longrightarrow> settles F v (g a)) \<Longrightarrow> settles F v (case x of None \<Rightarrow> m | Some a \<Rightarrow> g a)"
  by (cases x) auto

text \<open>After the record was read, the rest may use what it is.\<close>

lemma settles_Get:
  assumes "\<And>x. read_as C (keyForScanJob cfg key) v x \<Longrightarrow> settles F v (f x)"
  shows "settles F v (bindE (store_Get R C cfg key) f)"
  unfolding settles_def
proof (rule wp_bindE [OF wp_Get_found], goal_cases)
  case (2 x)
  show ?case
  proof (cases "read_as C (keyForScanJob cfg key) v x")
    case True
    then show ?thesis using assms [OF True] by (auto simp: settles_def wp_def)
  next
    case False
    then show ?thesis by (intro wpI) blast
  qed
qed simp

lemma settles_owned:
  assumes scanner: "\<And>w0 ref fmt. keeps (reached w0) (scanner ref fmt)" and free: "keys_free cfg wk (fst msg)"
    and same: "in_stream (wk_stream wk) (fst msg) v = in_stream (wk_stream wk) (fst msg) v0"
  shows "settles (retired C cfg (wk_stream wk) (fst msg) (q_Key delivery) v0) v
    (process_owned R C (redis_store R C cfg) (Scan (redis_store R C cfg) scanner tv) wk msg delivery req
      \<lparr>lease_Key = lock_key wk (fst msg), lease_Token = t\<rparr> claimedAt)"
  (is "settles ?F v _")
proof -
  let ?st = "redis_store R C cfg" and ?l = "\<lparr>lease_Key = lock_key wk (fst msg), lease_Token = t\<rparr>"
  have st: "Get ?st = store_Get R C cfg" "UpdateStatus ?st = store_UpdateStatus R C cfg" "Acknowledge ?st = store_Acknowledge R C cfg"
    by (simp_all add: redis_store_def)
  have upd: "wp (quiet V v) (store_UpdateStatus R C cfg ?l key s ms) (\<lambda>r. alone)" for v key s ms
    by (rule wp_alone [OF keeps_alone [OF reached_store(2)]])
  have ex: "wp (quiet V v) (Scan ?st scanner tv ?l key rq) (\<lambda>r. alone)" for v key rq
    by (rule wp_alone [OF keeps_alone [OF forward.keeps_Scan [OF scanner]]])
  note parts = settles_acknowledge [OF free] settles_retire [OF free] settles_quarantine [OF same] quiet_metric
  show ?thesis
    unfolding process_owned_def st
    by (rule settles_Get)
      (auto intro!: settles_case settles_then settles_bindE upd ex parts keeps_if keeps_return)
qed

text \<open>A job that has used up its attempts is failed, whatever its execution would do.\<close>

lemma settles_limit:
  assumes free: "keys_free cfg wk (fst msg)" and laws: "codec_laws C"
    and j: "job_stored C v (keyForScanJob cfg (q_Key delivery)) j" "job_Key j = q_Key delivery" "wf_job j" "int64 (Attempts j + 1)"
      "job_Status j \<noteq> Finished" "job_Status j \<noteq> Failed" "3 \<le> Attempts j"
    and sizes: "\<And>now z n. marshalSized C (ScanJob_to_json C (with_status Failed [retry_limit_message] now j)) = Inr (z, n) \<Longrightarrow> n \<le> maxDecompressedSize"
  shows "settles (\<lambda>v'. \<exists>now. job_stored C v' (keyForScanJob cfg (q_Key delivery)) (with_status Failed [retry_limit_message] now j)) v
    (process_owned R C (redis_store R C cfg) exec wk msg delivery req \<lparr>lease_Key = lock_key wk (fst msg), lease_Token = t\<rparr> claimedAt)"
  (is "settles ?F v _")
proof -
  let ?st = "redis_store R C cfg" and ?l = "\<lparr>lease_Key = lock_key wk (fst msg), lease_Token = t\<rparr>" and ?k = "keyForScanJob cfg (q_Key delivery)"
  have st: "Get ?st = store_Get R C cfg" "UpdateStatus ?st = store_UpdateStatus R C cfg" "Acknowledge ?st = store_Acknowledge R C cfg"
    by (simp_all add: redis_store_def)
  have ack: "settles ?F v' (store_Acknowledge R C cfg ?l (q_Key delivery) (wk_stream wk) workerGroup (fst msg))" if F: "?F v'" for v'
  proof (rule settles_acknowledged [OF free])
    fix v'' :: view
    assume "\<And>k. k \<notin> {wk_stream wk, lock_key wk (fst msg)} \<Longrightarrow> ks v'' k = ks v' k"
    then have "ks v'' ?k = ks v' ?k" using keys_freeE(1) [OF free] .
    then show "?F v''" using F job_stored_cong by blast
  qed
  have fail: "settles ?F v (bindE (store_UpdateStatus R C cfg ?l (q_Key delivery) Failed [retry_limit_message])
      (\<lambda>_. store_Acknowledge R C cfg ?l (q_Key delivery) (wk_stream wk) workerGroup (fst msg)))"
    unfolding settles_def
  proof (rule wp_bindE [OF wp_UpdateStatus [OF j(1,2)]], goal_cases)
    case (2 u)
    show ?case
    proof (rule wpI)
      fix w r w'
      assume "\<forall>ua. Inr u = Inr ua \<longrightarrow> (\<exists>now z n v'. marshalSized C (ScanJob_to_json C (with_status Failed [retry_limit_message] now j)) = Inr (z, n) \<and>
          held ?l v \<and> ks v ?k \<noteq> None \<and> v' = put_ttl (keyForScanReport cfg (q_Key delivery)) None (set_effect ?k z v) \<and> quiet V v' w)"
        and run: "run_state (store_Acknowledge R C cfg ?l (q_Key delivery) (wk_stream wk) workerGroup (fst msg)) w = (r, w')"
      then obtain now z n v' where m: "marshalSized C (ScanJob_to_json C (with_status Failed [retry_limit_message] now j)) = Inr (z, n)"
        and v': "v' = put_ttl (keyForScanReport cfg (q_Key delivery)) None (set_effect ?k z v)" and q: "quiet V v' w" by blast
      obtain data where d: "decompress C z = Inr data" "unmarshal_job C data = Inr (with_status Failed [retry_limit_message] now j)"
        using codec_laws.stored_job_read [OF laws m sizes [OF m] with_status_wf [OF j(3) _ j(4)]] by (auto simp: int64_def Failed_def)
      have "job_stored C v' ?k (with_status Failed [retry_limit_message] now j)" using d by (auto simp: v' job_stored_def)
      then show "r = Inr () \<longrightarrow> alone w' \<and> ?F (V (srv w'))"
        using wpD [OF ack [unfolded settles_def, of v'] q run] by blast
    qed
  qed simp
  show ?thesis
    unfolding process_owned_def st
  proof (rule settles_Get)
    fix x
    assume "read_as C ?k v x"
    then obtain j' rep where "x = Some (j'\<lparr>job_Report := rep\<rparr>)" "job_stored C v ?k j'"
      using j(1) by (cases x) (auto simp: read_as_def job_stored_def)
    then have "x = Some (j\<lparr>job_Report := rep\<rparr>)" using j(1) by (auto simp: job_stored_def)
    then show "settles ?F v (case x of
       None \<Rightarrow>
         thenM (metric (Inc ''job_dispatch_total'' [''not_found'']))
           (quarantine R C wk msg (''job metadata missing for '' @ key_ID (q_Key delivery)))
     | Some j \<Rightarrow>
         if job_Status j \<noteq> Finished \<and> job_Status j \<noteq> Failed
         then if Attempts j \<ge> 3
              then bindE (store_UpdateStatus R C cfg ?l (q_Key delivery) Failed [retry_limit_message])
                     (\<lambda>_. store_Acknowledge R C cfg ?l (q_Key delivery) (wk_stream wk) workerGroup (fst msg))
              else thenM
                (if Attempts j > 0 then metric (Inc ''scan_retries_total'' [])
                 else if EnqueuedAt delivery \<noteq> 0 \<and> claimedAt - EnqueuedAt delivery \<ge> 0
                 then metric (Observe ''queue_wait_duration_seconds'' (Secs (claimedAt - EnqueuedAt delivery))
                                [fst (JobLabels (q_Key delivery))])
                 else State_Monad.return ())
                (bindE (exec ?l (q_Key delivery) req)
                   (\<lambda>_. retire ?st wk ?l (q_Key delivery) (fst msg)))
         else retire ?st wk ?l (q_Key delivery) (fst msg))"
      using fail j(5-7) by simp
  qed
qed

lemma settles_keep: "keeps (quiet V v) m \<Longrightarrow> (\<And>x. settles F v (f x)) \<Longrightarrow> settles F v (State_Monad.bind m f)"
  unfolding settles_def by (rule wp_bind_keeps)

lemma settles_released:
  assumes m: "settles F v m" and F: "\<And>v v'. (\<And>k. k \<noteq> lk \<Longrightarrow> ks v' k = ks v k) \<Longrightarrow> F v \<Longrightarrow> F v'"
  shows "settles F v (State_Monad.bind m (\<lambda>r. State_Monad.bind (call (releaseLease R lk token)) (\<lambda>_. State_Monad.return r)))"
  unfolding settles_def
proof (rule wp_bind [OF m [unfolded settles_def]])
  fix r
  have rel: "keeps (\<lambda>w. alone w \<and> F (V (srv w))) (call (releaseLease R lk token))"
    by (rule wp_release) (rule F)
  show "wp (\<lambda>w. r = Inr () \<longrightarrow> alone w \<and> F (V (srv w)))
     (State_Monad.bind (call (releaseLease R lk token)) (\<lambda>_. State_Monad.return r)) (\<lambda>r w. r = Inr () \<longrightarrow> alone w \<and> F (V (srv w)))"
  proof (cases "r = Inr ()")
    case True
    then show ?thesis using wp_bind_keeps [OF rel, of "\<lambda>_. State_Monad.return (Inr ())" "\<lambda>r w. r = Inr () \<longrightarrow> alone w \<and> F (V (srv w))"]
      by (simp add: wp_def)
  next
    case False
    then show ?thesis by (simp add: wp_def split: prod.split)
  qed
qed

lemma settles_locked:
  assumes owned: "\<And>v' t claimedAt. (\<And>k. k \<noteq> lock_key wk (fst msg) \<Longrightarrow> ks v' k = ks v k) \<Longrightarrow>
      settles F v' (process_owned R C st exec wk msg delivery req \<lparr>lease_Key = lock_key wk (fst msg), lease_Token = t\<rparr> claimedAt)"
    and F: "\<And>v v'. (\<And>k. k \<noteq> lock_key wk (fst msg) \<Longrightarrow> ks v' k = ks v k) \<Longrightarrow> F v \<Longrightarrow> F v'"
    and unlocked: "ks v (lock_key wk (fst msg)) = None"
  shows "settles F v (process_locked R C st exec wk msg delivery req token)"
  unfolding settles_def process_locked_def
proof (rule wp_bind [OF quiet_call [OF succeeds_refines [OF SETNX]]])
  fix r
  let ?lk = "lock_key wk (fst msg)" and ?ms = "Milliseconds (leaseDuration wk)"
  let ?rest = "State_Monad.bind Now (\<lambda>claimedAt.
           thenM (metric (Inc ''job_dispatch_total'' [''lock_acquired'']))
           (thenM (modify (\<lambda>w. w\<lparr>lost := False\<rparr>))
           (State_Monad.bind
             (process_owned R C st exec wk msg delivery req \<lparr>lease_Key = ?lk, lease_Token = token\<rparr> claimedAt) (\<lambda>r.
            State_Monad.bind (call (releaseLease R ?lk token)) (\<lambda>_. State_Monad.return r)))))"
  show "wp (\<lambda>w. \<forall>x. r = Inr x \<longrightarrow> (\<exists>v'. setnx_spec ?lk token ?ms v x v' \<and> quiet V v' w))
     (case r of
       Inl e \<Rightarrow> thenM (metric (Inc ''job_dispatch_total'' [''lock_error''])) (failE e)
     | Inr owned \<Rightarrow> if \<not> owned then thenM (metric (Inc ''job_dispatch_total'' [''lock_busy''])) (okE ()) else ?rest)
     (\<lambda>r w. r = Inr () \<longrightarrow> alone w \<and> F (V (srv w)))"
  proof (rule wpI)
    fix w r' w'
    assume pre: "\<forall>x. r = Inr x \<longrightarrow> (\<exists>v'. setnx_spec ?lk token ?ms v x v' \<and> quiet V v' w)"
      and run: "run_state (case r of
         Inl e \<Rightarrow> thenM (metric (Inc ''job_dispatch_total'' [''lock_error''])) (failE e)
       | Inr owned \<Rightarrow> if \<not> owned then thenM (metric (Inc ''job_dispatch_total'' [''lock_busy''])) (okE ()) else ?rest) w = (r', w')"
    show "r' = Inr () \<longrightarrow> alone w' \<and> F (V (srv w'))"
    proof (cases r)
      case (Inl e)
      then show ?thesis using run by (auto simp: metric_def)
    next
      case (Inr x)
      then obtain v' where v': "setnx_spec ?lk token ?ms v x v'" "quiet V v' w" using pre by blast
      then have x: "x" "v' = put_ttl ?lk (Some ?ms) (put_value ?lk (Str token) v)" using unlocked by (auto simp: setnx_spec_def)
      have same: "k \<noteq> ?lk \<Longrightarrow> ks v' k = ks v k" for k by (simp add: x(2) put_ttl_def put_value_def)
      have lost: "keeps (quiet V v') (modify (\<lambda>w. w\<lparr>lost := False\<rparr>))" by (rule keeps_modify) (simp add: quiet_def)
      have "settles F v' (State_Monad.bind
             (process_owned R C st exec wk msg delivery req \<lparr>lease_Key = ?lk, lease_Token = token\<rparr> claimedAt) (\<lambda>r.
            State_Monad.bind (call (releaseLease R ?lk token)) (\<lambda>_. State_Monad.return r)))" for claimedAt
        by (rule settles_released [OF owned [OF same] F])
      then have "settles F v' ?rest" by (intro settles_keep [OF quiet_Now] settles_then quiet_metric lost)
      then show ?thesis using run x(1) Inr v'(2) by (auto simp: settles_def dest: wpD)
    qed
  qed
qed

lemma settlesD: "settles F (V (srv w)) m \<Longrightarrow> turns w = [] \<Longrightarrow> run_state m w = (Inr (), w') \<Longrightarrow> alone w' \<and> F (V (srv w'))"
  unfolding settles_def by (drule wpD) (auto simp: quiet_def)

lemma process_undecodable:
  assumes "decode_delivery C msg = None" "turns w = []"
    and "run_state (process R C st exec wk msg) w = (Inr (), w')"
  shows "put_aside (wk_stream wk) (fst msg) (V (srv w)) (V (srv w'))"
proof -
  have "settles (put_aside (wk_stream wk) (fst msg) (V (srv w))) (V (srv w)) (process R C st exec wk msg)"
    unfolding process_def assms(1) option.case by (intro settles_then quiet_metric settles_put_aside refl)
  then show ?thesis using settlesD assms(2,3) by blast
qed

lemma process_settles:
  assumes d: "decode_delivery C msg = Some (delivery, req)" and "turns w = []"
    and run: "run_state (process R C st exec wk msg) w = (Inr (), w')"
    and locked: "\<And>token. settles F (V (srv w)) (process_locked R C st exec wk msg delivery req token)"
  shows "alone w' \<and> F (V (srv w'))"
proof -
  obtain t w0 where t: "run_state makeIdentifier w = (t, w0)" by fastforce
  then have w0: "turns w0 = turns w" "srv w0 = srv w" by (auto simp: makeIdentifier_def split: list.splits)
  have "run_state (process_locked R C st exec wk msg delivery req t) w0 = (Inr (), w')"
    using run run_process_decodable [OF d t] by simp
  from settlesD [OF _ _ this, of F] show ?thesis using locked [of t] assms(2) w0 by simp
qed

lemmas process_decodable = process_settles [THEN conjunct2]

lemma process_retires:
  assumes d: "decode_delivery C msg = Some (delivery, req)" and quiet: "turns w = []"
    and scanner: "\<And>w0 ref fmt. keeps (reached w0) (scanner ref fmt)" and free: "keys_free cfg wk (fst msg)"
    and unlocked: "ks (V (srv w)) (lock_key wk (fst msg)) = None"
    and run: "run_state (process R C (redis_store R C cfg) (Scan (redis_store R C cfg) scanner tv) wk msg) w = (Inr (), w')"
  shows "retired C cfg (wk_stream wk) (fst msg) (q_Key delivery) (V (srv w)) (V (srv w'))"
proof (rule process_decodable [OF d quiet run], rule settles_locked [OF _ _ unlocked], goal_cases)
  case (1 token v' t claimedAt)
  have "in_stream (wk_stream wk) (fst msg) v' = in_stream (wk_stream wk) (fst msg) (V (srv w))"
    by (rule in_stream_cong) (use 1 keys_freeE [OF free] in auto)
  then show ?case by (rule settles_owned [OF scanner free])
next
  case (2 token v v')
  have "retired C cfg (wk_stream wk) (fst msg) (q_Key delivery) (V (srv w)) v' =
      retired C cfg (wk_stream wk) (fst msg) (q_Key delivery) (V (srv w)) v"
    by (rule retired_cong) (use 2(1) keys_freeE [OF free] in auto)
  then show ?case using 2(2) by simp
qed

lemma process_limits:
  assumes d: "decode_delivery C msg = Some (delivery, req)" and quiet: "turns w = []"
    and free: "keys_free cfg wk (fst msg)" and laws: "codec_laws C"
    and unlocked: "ks (V (srv w)) (lock_key wk (fst msg)) = None"
    and j: "job_stored C (V (srv w)) (keyForScanJob cfg (q_Key delivery)) j" "job_Key j = q_Key delivery" "wf_job j" "int64 (Attempts j + 1)"
      "job_Status j \<noteq> Finished" "job_Status j \<noteq> Failed" "3 \<le> Attempts j"
    and sizes: "\<And>now z n. marshalSized C (ScanJob_to_json C (with_status Failed [retry_limit_message] now j)) = Inr (z, n) \<Longrightarrow> n \<le> maxDecompressedSize"
    and run: "run_state (process R C (redis_store R C cfg) exec wk msg) w = (Inr (), w')"
  shows "\<exists>now. job_stored C (V (srv w')) (keyForScanJob cfg (q_Key delivery)) (with_status Failed [retry_limit_message] now j)"
proof (rule process_decodable [OF d quiet run], rule settles_locked [OF _ _ unlocked], goal_cases)
  case (1 token v' t claimedAt)
  have "ks v' (keyForScanJob cfg (q_Key delivery)) = ks (V (srv w)) (keyForScanJob cfg (q_Key delivery))"
    using 1 keys_freeE [OF free] by auto
  then have "job_stored C v' (keyForScanJob cfg (q_Key delivery)) j" using j(1) job_stored_cong by blast
  then show ?case by (rule settles_limit [OF free laws _ j(2-7) sizes])
next
  case (2 token v v')
  have "ks v' (keyForScanJob cfg (q_Key delivery)) = ks v (keyForScanJob cfg (q_Key delivery))"
    using 2(1) keys_freeE [OF free] by auto
  then show ?case using 2(2) job_stored_cong by blast
qed

end

text \<open>
  C40. A handled delivery is settled: when a delivery is handled without an error, with its lease free
  and nobody else at the server, it has left the stream, and either it is in the quarantine or the job
  it names has its outcome stored. A job that had been attempted three times is failed for that reason,
  whatever executing it would have done.
\<close>

theorem handled_delivery_settled:
  assumes server: "redis_server R V" and scanner: "\<And>w0 ref fmt. keeps (reached w0) (scanner ref fmt)"
    and free: "keys_free cfg wk (fst msg)" and quiet: "turns w = []" and unlocked: "ks (V (srv w)) (lock_key wk (fst msg)) = None"
    and there: "in_stream (wk_stream wk) (fst msg) (V (srv w))"
    and run: "run_state (process R C (redis_store R C cfg) (Scan (redis_store R C cfg) scanner tv) wk msg) w = (Inr (), w')"
  shows "\<not> in_stream (wk_stream wk) (fst msg) (V (srv w')) \<and>
    (in_quarantine (wk_stream wk) (fst msg) (V (srv w')) \<or>
     (\<exists>delivery req. decode_delivery C msg = Some (delivery, req) \<and> terminal C cfg (q_Key delivery) (V (srv w')))) \<and>
    (\<forall>delivery req j. decode_delivery C msg = Some (delivery, req) \<and> codec_laws C \<and>
       job_stored C (V (srv w)) (keyForScanJob cfg (q_Key delivery)) j \<and> job_Key j = q_Key delivery \<and> wf_job j \<and> int64 (Attempts j + 1) \<and>
       job_Status j \<notin> {Finished, Failed} \<and> 3 \<le> Attempts j \<and>
       (\<forall>now z n. marshalSized C (ScanJob_to_json C (with_status Failed [retry_limit_message] now j)) = Inr (z, n) \<longrightarrow> n \<le> maxDecompressedSize)
       \<longrightarrow> (\<exists>now. job_stored C (V (srv w')) (keyForScanJob cfg (q_Key delivery)) (with_status Failed [retry_limit_message] now j)))"
proof (intro conjI)
  note facts = redis_server.process_undecodable [OF server _ quiet run] redis_server.process_retires [OF server _ quiet scanner free unlocked run]
  show "\<not> in_stream (wk_stream wk) (fst msg) (V (srv w'))"
    using facts by (cases "decode_delivery C msg") (auto simp: put_aside_def retired_def)
  show "in_quarantine (wk_stream wk) (fst msg) (V (srv w')) \<or>
     (\<exists>delivery req. decode_delivery C msg = Some (delivery, req) \<and> terminal C cfg (q_Key delivery) (V (srv w')))"
    using facts there by (cases "decode_delivery C msg") (auto simp: put_aside_def retired_def)
qed (use redis_server.process_limits [OF server _ quiet free _ unlocked _ _ _ _ _ _ _ _ run] in blast)

theorem handled_delivery_settled_witness:
  "\<exists>w'. run_state (process ref_redis ref_codec (redis_store ref_redis ref_codec ex_cfg)
       (Scan (redis_store ref_redis ref_codec ex_cfg) (\<lambda>_ _. failE Canceled) None) ex_worker ex_msg) ex_queue = (Inr (), w') \<and>
     \<not> in_stream ''st'' ''1-0'' (rv (srv w')) \<and> in_quarantine ''st'' ''1-0'' (rv (srv w'))"
proof -
  let ?st = "redis_store ref_redis ref_codec ex_cfg"
  let ?scan = "\<lambda>_ _. failE Canceled :: (ref, unit, Report) op"
  obtain w' where run: "run_state (process ref_redis ref_codec ?st (Scan ?st ?scan None) ex_worker ex_msg) ex_queue = (Inr (), w')"
    using ex_quarantined [of "Scan ?st ?scan None"] by blast
  have k: "keeps (reached w0) (failE Canceled :: (ref, unit, Report) op)" for w0 :: "ref world"
    by (intro wp_intros)
  have free: "keys_free ex_cfg ex_worker (fst ex_msg)"
    by (simp add: keys_free_def keyForScanJob_def keyForScanReport_def ex_cfg_def ex_worker_def lock_key_def ex_msg_def)
  have q: "turns ex_queue = []" "ks (rv (srv ex_queue)) (lock_key ex_worker (fst ex_msg)) = None"
    "in_stream (wk_stream ex_worker) (fst ex_msg) (rv (srv ex_queue))"
    by (simp_all add: ex_queue_def world_of_def ex_server_def put_value_def lock_key_def ex_worker_def ex_msg_def in_stream_def stream_ids_def)
  from handled_delivery_settled [OF ref.redis_server_axioms k free q run] run
  show ?thesis by (auto simp: ex_worker_def ex_msg_def ex_msg_bad [unfolded ex_msg_def])
qed

end
