(* ===== verification/Reaper.thy ===== *)
theory Reaper
  imports Ref_Host Go_Path
begin

text \<open>
  \<^verbatim>\<open>pkg/trivy/tempdir.go\<close> and \<^verbatim>\<open>reaper.go\<close>: the root an adapter process makes for the scratch
  directories of its children, and the removal of the roots that dead processes left beside it.
\<close>

section \<open>The temp root\<close>

definition AdapterTempPrefix :: string where
  "AdapterTempPrefix = ''harbor-scanner-trivy-''"

record TempRoot =
  tr_path :: string

definition NewTempRoot :: "('s, 'z) host \<Rightarrow> ('s, 'z, TempRoot) op" where
  "NewTempRoot H =
     State_Monad.bind (os_MkdirTemp H (os_TempDir H) AdapterTempPrefix) (\<lambda>r.
     case r of
       Inl err \<Rightarrow> failE (Wrap ''creating the adapter temp root'' err)
     | Inr path \<Rightarrow> okE \<lparr>tr_path = path\<rparr>)"

text \<open>The methods accept a nil root.\<close>

definition root_Path :: "TempRoot option \<Rightarrow> string" where
  "root_Path t = (case t of None \<Rightarrow> [] | Some t \<Rightarrow> tr_path t)"

definition root_Close :: "('s, 'z) host \<Rightarrow> TempRoot option \<Rightarrow> ('s, 'z, unit) op" where
  "root_Close H t = (case t of None \<Rightarrow> okE () | Some t \<Rightarrow> os_RemoveAll H (tr_path t))"

section \<open>The reaper\<close>

record Reaper =
  rp_root :: string
  rp_own :: "TempRoot option"

definition NewReaper :: "('s, 'z) host \<Rightarrow> TempRoot option \<Rightarrow> Reaper" where
  "NewReaper H mine = \<lparr>rp_root = os_TempDir H, rp_own = mine\<rparr>"

fun reap_entries :: "('s, 'z) host \<Rightarrow> Reaper \<Rightarrow> (string \<times> bool) list \<Rightarrow> (('s, 'z) world_scheme, unit) state" where
  "reap_entries H rp [] = State_Monad.return ()"
| "reap_entries H rp ((name, isDir) # entries) =
     (if \<not> isDir \<or> \<not> HasPrefix name AdapterTempPrefix then reap_entries H rp entries
      else let path = path_Join (rp_root rp) name in
        if path = root_Path (rp_own rp) then reap_entries H rp entries
        else State_Monad.bind (os_RemoveAll H path) (\<lambda>r.
          case r of
            Inl err \<Rightarrow> reap_entries H rp entries
          | Inr _ \<Rightarrow> thenM (metric (Inc ''temp_dirs_reaped_total'' [])) (reap_entries H rp entries)))"

definition reapSiblings :: "('s, 'z) host \<Rightarrow> Reaper \<Rightarrow> (('s, 'z) world_scheme, unit) state" where
  "reapSiblings H rp =
     State_Monad.bind (os_ReadDir H (rp_root rp)) (\<lambda>r.
     case r of
       Inl err \<Rightarrow> State_Monad.return ()
     | Inr entries \<Rightarrow> reap_entries H rp entries)"

definition childCount :: "('s, 'z) host \<Rightarrow> string \<Rightarrow> (('s, 'z) world_scheme, int) state" where
  "childCount H root =
     State_Monad.bind (os_ReadDir H root) (\<lambda>r.
     State_Monad.return (case r of Inl err \<Rightarrow> 0 | Inr entries \<Rightarrow> int (length (filter snd entries))))"

definition sample_present :: "('s, 'z) host \<Rightarrow> Reaper \<Rightarrow> (('s, 'z) world_scheme, unit) state" where
  "sample_present H rp =
     State_Monad.bind (childCount H (root_Path (rp_own rp))) (\<lambda>n. metric (SetTo ''temp_dirs_present'' (Num n) []))"

text \<open>
  What \<^verbatim>\<open>Start\<close> has done when it returns; and its goroutine, for the intervals that pass before it sees
  the context done.
\<close>

definition reaper_Start :: "('s, 'z) host \<Rightarrow> Reaper \<Rightarrow> (('s, 'z) world_scheme, unit) state" where
  "reaper_Start H rp = thenM (reapSiblings H rp) (sample_present H rp)"

fun present_loop ::
    "('s, 'z) host \<Rightarrow> Reaper \<Rightarrow> (('s, 'z) world_scheme \<Rightarrow> ('s, 'z) world_scheme) list \<Rightarrow> (('s, 'z) world_scheme, unit) state" where
  "present_loop H rp [] = State_Monad.return ()"
| "present_loop H rp (wait # waits) =
     thenM (modify wait) (thenM (sample_present H rp) (present_loop H rp waits))"

section \<open>The own root among the entries\<close>

text \<open>In a clean directory \<^verbatim>\<open>filepath.Join\<close> gives the path that \<^verbatim>\<open>MkdirTemp\<close> made.\<close>

lemma Split_plain: "w \<in> set (Split s c) \<Longrightarrow> c \<notin> set w"
  by (induction s arbitrary: w) (auto split: list.splits if_splits)

lemma clean_parts_from: "set (clean_parts r cs st) \<subseteq> set cs \<union> set st \<union> {''..''}"
  by (induction r cs st rule: clean_parts.induct) (auto split: list.splits if_splits)

lemma Join_last:
  assumes "ws \<noteq> []" "last ws \<noteq> []"
  shows "last (Join ws sep) = last (last ws)"
proof -
  obtain ys w where "ws = ys @ [w]" using assms(1) by (cases ws rule: rev_cases) auto
  then show ?thesis using assms(2) by (cases "ys = []") (simp_all add: Join_snoc)
qed

lemma Split_name: "plain_name n \<Longrightarrow> Split n (CHR ''/'') = [n]"
proof -
  have "m \<noteq> [] \<Longrightarrow> c \<notin> set m \<Longrightarrow> Split m c = [m]" for m c by (induction m) auto
  then show "plain_name n \<Longrightarrow> ?thesis" by (simp add: plain_name_def)
qed

lemma clean_dir_slash:
  assumes "path_Clean d = d" "HasPrefix d ''/''" "HasSuffix d ''/''"
  shows "d = ''/''"
proof (rule ccontr)
  assume other: "d \<noteq> ''/''"
  let ?c = "CHR ''/''"
  let ?parts = "clean_parts True (Split d ?c) []"
  have d: "d = ''/'' @ Join ?parts ''/''" using assms by (simp add: path_Clean_def Let_def)
  then have some: "?parts \<noteq> []" using other by auto
  have ne: "[] \<notin> set ?parts" by (rule clean_parts_plain) simp
  have "last ?parts \<in> set ?parts" using some by (rule last_in_set)
  then have "last ?parts \<noteq> []" "?c \<notin> set (last ?parts)"
    using ne clean_parts_from [of True "Split d ?c" "[]"] Split_plain [of _ d ?c] by auto
  then have "last (last ?parts) \<noteq> ?c" by (metis last_in_set)
  then have "last d \<noteq> ?c" using \<open>last ?parts \<noteq> []\<close>
    by (subst d) (simp add: Join_last some Join_Nil_iff [OF ne] last_append split: if_splits)
  moreover have "last d = ?c" using assms(3) other by (auto simp: HasSuffix_def dest!: arg_cong [of _ _ last])
  ultimately show False by blast
qed

lemma Join_clean_dir:
  assumes clean: "path_Clean d = d" and rooted: "HasPrefix d ''/''" and n: "plain_name n"
  shows "path_Join d n = os_joinPath d n"
proof -
  let ?c = "CHR ''/''"
  let ?parts = "clean_parts True (Split d ?c) []"
  have d: "d = ''/'' @ Join ?parts ''/''" using clean rooted by (simp add: path_Clean_def Let_def)
  have "path_Join d n = ''/'' @ Join (clean_parts True (Split (d @ ?c # n) ?c) []) ''/''"
    using rooted n by (auto simp: path_Join_def path_Clean_def Let_def HasPrefix_iff plain_name_def)
  then have j: "path_Join d n = ''/'' @ Join (?parts @ [n]) ''/''"
    by (simp add: Split_join Split_name [OF n] clean_parts_snoc [OF n])
  show ?thesis
  proof (cases "?parts = []")
    case True
    then have "d = ''/''" using d by simp
    then show ?thesis using j True by (simp add: os_joinPath_def HasSuffix_def)
  next
    case False
    have "Join ?parts ''/'' \<noteq> []" using Join_Nil_iff [OF clean_parts_plain] False by simp
    then have "\<not> HasSuffix d ''/''" using clean_dir_slash [OF clean rooted] d by auto
    then show ?thesis using j d by (simp add: Join_snoc [OF False] os_joinPath_def)
  qed
qed

lemma clean_joined:
  assumes "path_Clean d = d" "HasPrefix d ''/''" "plain_name n"
  shows "path_Clean (os_joinPath d n) = os_joinPath d n"
proof (cases "HasSuffix d ''/''")
  case True
  then have "d = ''/''" using clean_dir_slash assms by blast
  then show ?thesis using clean_parts_snoc [OF assms(3), of True "[[]]"] assms(3)
    by (simp add: os_joinPath_def HasSuffix_def path_Clean_def Let_def Split_name)
next
  case False
  then have "path_Clean (os_joinPath d n) = path_Join d n"
    using assms by (auto simp: os_joinPath_def path_Join_def plain_name_def)
  then show ?thesis by (simp add: Join_clean_dir [OF assms])
qed

lemma os_joinPath_inj: "os_joinPath d a = os_joinPath d b \<Longrightarrow> a = b"
  by (simp add: os_joinPath_def split: if_splits)

lemma plain_prefixed: "CHR ''/'' \<notin> set n \<Longrightarrow> plain_name (AdapterTempPrefix @ n)"
  by (simp add: plain_name_def AdapterTempPrefix_def)

section \<open>What is removed\<close>

text \<open>
  \<open>dirs\<close> are the directories below the temp directory, by their clean paths. \<^verbatim>\<open>os.MkdirTemp\<close> puts a random
  text in place of the star of its pattern, here at its end, and joins the name to the directory;
  \<^verbatim>\<open>RemoveAll\<close> removes nothing but what is at or below its path, and all of that when it succeeds; a
  listing gives names and changes nothing.
\<close>

definition at_or_below :: "string \<Rightarrow> string \<Rightarrow> bool" where
  "at_or_below x q \<longleftrightarrow> q = path_Clean x \<or> HasPrefix q (path_Clean x @ ''/'')"

definition below :: "string \<Rightarrow> string set" where
  "below x = Collect (at_or_below x)"

lemma not_below:
  assumes dir: "path_Clean d = d" "HasPrefix d ''/''" and a: "plain_name a" and b: "plain_name b"
    and ne: "os_joinPath d b \<noteq> os_joinPath d a"
  shows "os_joinPath d a \<notin> below (os_joinPath d b)"
proof -
  obtain J where J: "\<And>n. os_joinPath d n = J @ n" by (cases "HasSuffix d ''/''") (auto simp: os_joinPath_def)
  have "a \<noteq> b @ ''/'' @ r" for r using a by (auto simp: plain_name_def)
  then show ?thesis using ne unfolding below_def at_or_below_def clean_joined [OF dir b] by (auto simp: J HasPrefix_iff)
qed

locale temp_dirs =
  fixes H :: "('s, 'z) host" and dirs :: "('s, 'z) world_scheme \<Rightarrow> string set"
  assumes temp_made: "run_state (os_MkdirTemp H (os_TempDir H) p) w = (Inr x, w') \<Longrightarrow>
      \<exists>n. x = os_joinPath (os_TempDir H) (p @ n) \<and> CHR ''/'' \<notin> set n \<and> dirs w' = insert (path_Clean x) (dirs w)"
    and removed: "run_state (os_RemoveAll H x) w = (r, w') \<Longrightarrow>
      dirs w - below x \<subseteq> dirs w' \<and> dirs w' \<subseteq> dirs w \<and> (r = Inr () \<longrightarrow> dirs w' \<inter> below x = {})"
    and listing: "run_state (os_ReadDir H d) w = (l, w') \<Longrightarrow>
      dirs w' = dirs w \<and> (\<forall>entries. l = Inr entries \<longrightarrow> list_all (\<lambda>e. plain_name (fst e)) entries)"
    and dirs_rec: "dirs (w\<lparr>recorder := f\<rparr>) = dirs w"

text \<open>The paths that the sweep removes.\<close>

definition siblings :: "Reaper \<Rightarrow> (string \<times> bool) list \<Rightarrow> string set" where
  "siblings rp entries =
     {path_Join (rp_root rp) n |n. (n, True) \<in> set entries \<and> HasPrefix n AdapterTempPrefix} - {root_Path (rp_own rp)}"

lemma siblings_simps:
  "siblings rp [] = {}"
  "siblings rp ((n, b) # entries) =
     (if b \<and> HasPrefix n AdapterTempPrefix \<and> path_Join (rp_root rp) n \<noteq> root_Path (rp_own rp)
      then insert (path_Join (rp_root rp) n) (siblings rp entries) else siblings rp entries)"
  by (auto simp: siblings_def)

context temp_dirs begin

lemma dirs_metric: "run_state (metric f) w = (r, w') \<Longrightarrow> dirs w' = dirs w"
  by (auto simp: metric_def dirs_rec)

lemma dirs_reap_entries:
  "run_state (reap_entries H rp entries) w = (r, w') \<Longrightarrow>
   dirs w - (\<Union>x \<in> siblings rp entries. below x) \<subseteq> dirs w' \<and> dirs w' \<subseteq> dirs w \<and>
   ((\<forall>x v. fst (run_state (os_RemoveAll H x) v) = Inr ()) \<longrightarrow> dirs w' \<inter> (\<Union>x \<in> siblings rp entries. below x) = {})"
proof (induction entries arbitrary: w)
  case Nil
  then show ?case by (simp add: siblings_simps)
next
  case (Cons e entries)
  obtain name isDir where e: "e = (name, isDir)" by fastforce
  let ?path = "path_Join (rp_root rp) name"
  show ?case
  proof (cases "isDir \<and> HasPrefix name AdapterTempPrefix \<and> ?path \<noteq> root_Path (rp_own rp)")
    case False
    then have "run_state (reap_entries H rp entries) w = (r, w')" using Cons.prems by (auto simp: e Let_def split: if_splits)
    moreover have "siblings rp (e # entries) = siblings rp entries" using False by (auto simp: e siblings_simps)
    ultimately show ?thesis using Cons.IH by simp
  next
    case True
    obtain x w1 where rm: "run_state (os_RemoveAll H ?path) w = (x, w1)" by fastforce
    obtain w2 where m: "run_state (metric (Inc ''temp_dirs_reaped_total'' [])) w1 = ((), w2)" by (simp add: metric_def)
    have "\<exists>w3. dirs w3 = dirs w1 \<and> run_state (reap_entries H rp entries) w3 = (r, w')"
      using Cons.prems True rm m dirs_metric [OF m] by (cases x) (auto simp: e Let_def)
    then obtain w3 where w3: "dirs w3 = dirs w1" "run_state (reap_entries H rp entries) w3 = (r, w')" by blast
    note ih = Cons.IH [OF w3(2), unfolded w3(1)] and w1 = removed [OF rm]
    have sib: "(\<Union>x \<in> siblings rp (e # entries). below x) = below ?path \<union> (\<Union>x \<in> siblings rp entries. below x)"
      using True by (simp add: e siblings_simps)
    have "(\<forall>x v. fst (run_state (os_RemoveAll H x) v) = Inr ()) \<Longrightarrow> x = Inr ()" using rm by (metis fst_conv)
    then show ?thesis unfolding sib using ih w1 by blast
  qed
qed

lemma dirs_sample_present: "run_state (sample_present H rp) w = (r, w') \<Longrightarrow> dirs w' = dirs w"
  by (auto simp: sample_present_def childCount_def split: prod.splits dest!: listing dirs_metric)

lemma dirs_reaper_Start:
  assumes listed: "run_state (os_ReadDir H (rp_root rp)) w = (Inr entries, w1)" and run: "run_state (reaper_Start H rp) w = (r, w')"
  shows "dirs w - (\<Union>x \<in> siblings rp entries. below x) \<subseteq> dirs w' \<and> dirs w' \<subseteq> dirs w \<and>
   ((\<forall>x v. fst (run_state (os_RemoveAll H x) v) = Inr ()) \<longrightarrow> dirs w' \<inter> (\<Union>x \<in> siblings rp entries. below x) = {})"
proof -
  obtain w2 where reap: "run_state (reap_entries H rp entries) w1 = ((), w2)" by (cases "run_state (reap_entries H rp entries) w1") simp
  then have "run_state (sample_present H rp) w2 = (r, w')" using run listed by (simp add: reaper_Start_def reapSiblings_def)
  then show ?thesis using dirs_reap_entries [OF reap] dirs_sample_present listing [OF listed] by simp
qed

text \<open>The own root is at or below none of them.\<close>

lemma own_not_sibling:
  assumes dir: "path_Clean (os_TempDir H) = os_TempDir H" "HasPrefix (os_TempDir H) ''/''"
    and made: "run_state (NewTempRoot H) w = (Inr t, w1)"
    and plain: "list_all (\<lambda>e. plain_name (fst e)) entries"
  shows "tr_path t \<notin> (\<Union>x \<in> siblings (NewReaper H (Some t)) entries. below x) \<and> tr_path t \<in> dirs w1"
proof -
  let ?d = "os_TempDir H"
  have mk: "run_state (os_MkdirTemp H ?d AdapterTempPrefix) w = (Inr (tr_path t), w1)"
    using made by (auto simp: NewTempRoot_def split: sum.splits prod.splits)
  from temp_made [OF mk] obtain m where m: "tr_path t = os_joinPath ?d (AdapterTempPrefix @ m)" "CHR ''/'' \<notin> set m"
      "dirs w1 = insert (path_Clean (tr_path t)) (dirs w)" by blast
  have mine: "plain_name (AdapterTempPrefix @ m)" by (rule plain_prefixed [OF m(2)])
  have "tr_path t \<notin> below (path_Join ?d n)" if "plain_name n" "path_Join ?d n \<noteq> tr_path t" for n
    using that not_below [OF dir mine that(1)] unfolding Join_clean_dir [OF dir that(1)] m(1) by blast
  then show ?thesis using plain clean_joined [OF dir mine] m
    by (auto simp: siblings_def NewReaper_def root_Path_def list_all_iff)
qed

end

text \<open>
  C38. The startup sweep spares the root of its own process: in a clean absolute temp directory, when
  \<^verbatim>\<open>Start\<close> returns, the root that this process made is still there, what was removed is at or below a
  listed directory with the adapter's prefix, and when no removal fails none of those is left.
\<close>

theorem reaper_spares_own_root:
  assumes host: "temp_dirs H dirs"
    and dir: "path_Clean (os_TempDir H) = os_TempDir H" "HasPrefix (os_TempDir H) ''/''"
    and made: "run_state (NewTempRoot H) w = (Inr t, w1)"
    and listed: "run_state (os_ReadDir H (os_TempDir H)) w1 = (Inr entries, w2)"
    and run: "run_state (reaper_Start H (NewReaper H (Some t))) w1 = (r, w')"
  shows "let swept = (\<Union>x \<in> siblings (NewReaper H (Some t)) entries. below x)
    in tr_path t \<in> dirs w' \<and> dirs w1 - dirs w' \<subseteq> swept \<and>
       ((\<forall>x v. fst (run_state (os_RemoveAll H x) v) = Inr ()) \<longrightarrow> dirs w' = dirs w1 - swept)"
proof -
  have root: "rp_root (NewReaper H (Some t)) = os_TempDir H" by (simp add: NewReaper_def)
  note swept = temp_dirs.dirs_reaper_Start [OF host, of "NewReaper H (Some t)", unfolded root, OF listed run]
  have "list_all (\<lambda>e. plain_name (fst e)) entries" using temp_dirs.listing [OF host listed] by simp
  note own = temp_dirs.own_not_sibling [OF host dir made this]
  show ?thesis unfolding Let_def using swept own by blast
qed

section \<open>A temp directory\<close>

definition listed_name :: "string \<Rightarrow> string \<Rightarrow> string" where
  "listed_name d q = drop (length (os_joinPath (path_Clean d) [])) q"

definition temp_host :: "string \<Rightarrow> ('s, 'y hworld_ext) host" where
  "temp_host d = (ref_host (\<lambda>_. ex_result) (\<lambda>_. Inl Canceled) [])
     \<lparr>os_TempDir := d,
      os_MkdirTemp := (\<lambda>d p. State (\<lambda>w. let x = os_joinPath d (p @ replicate (length (tmps w)) CHR ''x'')
        in (Inr x, w\<lparr>tmps := path_Clean x # tmps w\<rparr>))),
      os_RemoveAll := (\<lambda>x. State (\<lambda>w. (Inr (), w\<lparr>tmps := filter (\<lambda>q. \<not> at_or_below x q) (tmps w)\<rparr>))),
      os_ReadDir := (\<lambda>d. State (\<lambda>w. (Inr (map (\<lambda>q. (listed_name d q, True))
        (filter (\<lambda>q. HasPrefix q (os_joinPath (path_Clean d) []) \<and> plain_name (listed_name d q)) (tmps w))), w)))\<rparr>"

interpretation temph: temp_dirs "temp_host d" "\<lambda>w. set (tmps w)" for d
proof (unfold_locales, goal_cases)
  case (1 p w x w')
  then show ?case by (intro exI [of _ "replicate (length (tmps w)) CHR ''x''"]) (auto simp: temp_host_def Let_def)
qed (auto simp: temp_host_def below_def list_all_iff)

lemma temp_host_simps:
  "os_TempDir (temp_host d) = d"
  "run_state (os_ReadDir (temp_host d) x) w = (Inr (map (\<lambda>q. (listed_name x q, True))
     (filter (\<lambda>q. HasPrefix q (os_joinPath (path_Clean x) []) \<and> plain_name (listed_name x q)) (tmps w))), w)"
  "fst (run_state (os_RemoveAll (temp_host d) x) w) = Inr ()"
  by (simp_all add: temp_host_def)

definition ex_temp_world :: "string list \<Rightarrow> ref hworld" where
  "ex_temp_world ts = (ex_host_world [])\<lparr>tmps := ts\<rparr>"

lemma ex_tmps [simp]: "tmps (ex_temp_world ts) = ts" "(ex_temp_world ts)\<lparr>tmps := us\<rparr> = ex_temp_world us"
  by (simp_all add: ex_temp_world_def)

text \<open>The root this process makes, one that a dead process left, and a directory of something else.\<close>

definition ex_mine :: string where "ex_mine = ''/tmp/harbor-scanner-trivy-xx''"
definition ex_left :: string where "ex_left = ''/tmp/harbor-scanner-trivy-old''"
definition ex_alien :: string where "ex_alien = ''/tmp/trivy-1''"
definition ex_mine_name :: string where "ex_mine_name = ''harbor-scanner-trivy-xx''"
definition ex_left_name :: string where "ex_left_name = ''harbor-scanner-trivy-old''"
definition ex_alien_name :: string where "ex_alien_name = ''trivy-1''"

lemma ex_paths:
  "os_joinPath ''/tmp'' (AdapterTempPrefix @ replicate 2 CHR ''x'') = ex_mine" "path_Clean ex_mine = ex_mine" "path_Clean ''/tmp'' = ''/tmp''"
  "HasPrefix ''/tmp'' ''/''" "path_Join ''/tmp'' ex_mine_name = ex_mine" "path_Join ''/tmp'' ex_left_name = ex_left" "ex_left \<noteq> ex_mine"
  by code_simp+

lemma ex_names:
  "listed_name ''/tmp'' ex_mine = ex_mine_name" "listed_name ''/tmp'' ex_left = ex_left_name" "listed_name ''/tmp'' ex_alien = ex_alien_name"
  "plain_name ex_mine_name" "plain_name ex_left_name" "plain_name ex_alien_name"
  "HasPrefix ex_mine (os_joinPath ''/tmp'' [])" "HasPrefix ex_left (os_joinPath ''/tmp'' [])" "HasPrefix ex_alien (os_joinPath ''/tmp'' [])"
  "HasPrefix ex_mine_name AdapterTempPrefix" "HasPrefix ex_left_name AdapterTempPrefix" "\<not> HasPrefix ex_alien_name AdapterTempPrefix"
  by code_simp+

lemma ex_below:
  "at_or_below ex_left ex_left" "\<not> at_or_below ex_left ex_alien" "\<not> at_or_below ex_left ex_mine"
  by code_simp+

definition ex_reaper :: Reaper where
  "ex_reaper = \<lparr>rp_root = ''/tmp'', rp_own = Some \<lparr>tr_path = ex_mine\<rparr>\<rparr>"

lemma ex_reaper: "NewReaper (temp_host ''/tmp'') (Some \<lparr>tr_path = ex_mine\<rparr>) = ex_reaper"
  by (simp add: NewReaper_def ex_reaper_def temp_host_simps(1))

lemma ex_made:
  "run_state (NewTempRoot (temp_host ''/tmp'')) (ex_temp_world [ex_left, ex_alien]) =
     (Inr \<lparr>tr_path = ex_mine\<rparr>, ex_temp_world [ex_mine, ex_left, ex_alien])"
  using ex_paths(1,2) by (simp add: NewTempRoot_def temp_host_def Let_def numeral_2_eq_2)

lemma ex_listed:
  "run_state (os_ReadDir (temp_host ''/tmp'') ''/tmp'') (ex_temp_world [ex_mine, ex_left, ex_alien]) =
     (Inr [(ex_mine_name, True), (ex_left_name, True), (ex_alien_name, True)], ex_temp_world [ex_mine, ex_left, ex_alien])"
  by (simp add: temp_host_simps ex_paths(3) ex_names)

lemma ex_siblings:
  "siblings ex_reaper
     [(ex_mine_name, True), (ex_left_name, True), (ex_alien_name, True)] = {ex_left}"
  by (simp add: siblings_simps ex_reaper_def root_Path_def ex_paths ex_names)

theorem reaper_spares_own_root_witness:
  "set (tmps (snd (run_state (reaper_Start (temp_host ''/tmp'') ex_reaper)
        (ex_temp_world [ex_mine, ex_left, ex_alien])))) = {ex_mine, ex_alien}"
proof -
  from reaper_spares_own_root [OF temph.temp_dirs_axioms, of "''/tmp''", unfolded temp_host_simps(1), OF ex_paths(3,4) ex_made ex_listed
      prod.collapse [symmetric], unfolded ex_reaper Let_def ex_siblings, THEN conjunct2, THEN conjunct2, THEN mp]
  have "set (tmps (snd (run_state (reaper_Start (temp_host ''/tmp'') ex_reaper)
        (ex_temp_world [ex_mine, ex_left, ex_alien])))) = {ex_mine, ex_left, ex_alien} - below ex_left"
    by (simp add: temp_host_simps(3))
  also have "\<dots> = {ex_mine, ex_alien}" using ex_below by (auto simp: below_def)
  finally show ?thesis .
qed

text \<open>
  A temp directory that is not written in its clean form, as \<^verbatim>\<open>TMPDIR=/tmp//\<close>: the listing of the sweep
  and the path of the root then differ, and the adapter removes its own root.
\<close>

lemma unclean_root_swept:
  "case run_state (NewTempRoot (temp_host ''/tmp//'')) (ex_host_world []) of (r, w) \<Rightarrow>
     (case r of Inl e \<Rightarrow> False | Inr t \<Rightarrow>
       tr_path t = ''/tmp//harbor-scanner-trivy-'' \<and> path_Clean (tr_path t) \<in> set (tmps w) \<and>
       set (tmps (snd (run_state (reaper_Start (temp_host ''/tmp//'') (NewReaper (temp_host ''/tmp//'') (Some t))) w))) = {})"
  by code_simp

end
