(* ===== verification/Queue_Metrics.thy ===== *)
theory Queue_Metrics
  imports Delivery_Spec
begin

text \<open>
  \<^verbatim>\<open>pkg/queue/metrics.go\<close>: the goroutine that samples the stream.
\<close>

section \<open>The sampler\<close>

text \<open>\<^verbatim>\<open>failed\<close>: the counter goes up, and the first failure is kept.\<close>

definition query_failed :: "string \<Rightarrow> goerr \<Rightarrow> goerr option \<Rightarrow> (('s, 'z) world_scheme, goerr option) state" where
  "query_failed query err failure =
     thenM (metric (Inc ''queue_collection_errors_total'' [query]))
       (State_Monad.return (if failure = None then Some (Wrap query err) else failure))"

text \<open>\<^verbatim>\<open>time.UnixMilli\<close>, on the clock of Go's zero time.\<close>

definition of_UnixMilli :: "int \<Rightarrow> time" where
  "of_UnixMilli ms = of_Unix 0 + ms * 10 ^ 6"

text \<open>
  The age of the oldest entry at a time, from its identifier, in nanoseconds. \<^verbatim>\<open>time.Since\<close> gives the
  longest duration for an older time.
\<close>

definition oldest_age :: "time \<Rightarrow> entry list \<Rightarrow> int" where
  "oldest_age now messages =
     (case messages of
        [] \<Rightarrow> 0
      | m # _ \<Rightarrow>
          (case ParseInt (fst (Cut (fst m) ''-'')) of
             None \<Rightarrow> 0
           | Some ms \<Rightarrow> max 0 (min (2 ^ 63 - 1) (now - of_UnixMilli ms))))"

definition reportCollection :: "goerr option \<Rightarrow> (('s, 'y) wworld_scheme, unit) state" where
  "reportCollection failure =
     (if failure \<noteq> None
      then thenM (metric (SetTo ''queue_collection_success'' (Num 0) [])) (modify (\<lambda>w. w\<lparr>collectionFailing := True\<rparr>))
      else
        thenM (metric (SetTo ''queue_collection_success'' (Num 1) []))
        (State_Monad.bind Now (\<lambda>now.
         thenM (metric (SetTo ''queue_collection_last_success_timestamp_seconds'' (Num (Unix now)) []))
           (modify (\<lambda>w. w\<lparr>collectionFailing := False\<rparr>)))))"

definition observeQueue :: "'s redis \<Rightarrow> worker \<Rightarrow> (('s, 'y) wworld_scheme, unit) state" where
  "observeQueue R wk =
     State_Monad.bind (call (HLEN R (wk_stream wk @ '':quarantine''))) (\<lambda>r.
     State_Monad.bind
       (case r of
          Inr count \<Rightarrow> thenM (metric (SetTo ''queue_quarantined_jobs'' (Num count) [])) (State_Monad.return None)
        | Inl err \<Rightarrow> State_Monad.bind (query_failed ''quarantine'' err None) (\<lambda>failure.
            thenM (metric (Delete ''queue_quarantined_jobs'' [])) (State_Monad.return failure))) (\<lambda>failure.
     State_Monad.bind (call (XLEN R (wk_stream wk))) (\<lambda>r.
     State_Monad.bind
       (case r of
          Inr depth \<Rightarrow> thenM (metric (SetTo ''queue_unacknowledged_jobs'' (Num depth) [])) (State_Monad.return failure)
        | Inl err \<Rightarrow> State_Monad.bind (query_failed ''length'' err failure) (\<lambda>failure.
            thenM (metric (Delete ''queue_unacknowledged_jobs'' [])) (State_Monad.return failure))) (\<lambda>failure.
     State_Monad.bind (call (XINFO_GROUPS R (wk_stream wk))) (\<lambda>r.
     State_Monad.bind
       (case r of
          Inl err \<Rightarrow> query_failed ''group'' err failure
        | Inr groups \<Rightarrow>
            if workerGroup \<notin> set groups then query_failed ''group'' (missing_group wk) failure
            else State_Monad.return failure) (\<lambda>failure.
     State_Monad.bind (call (XRANGE_first R (wk_stream wk))) (\<lambda>r.
     State_Monad.bind
       (case r of
          Inr messages \<Rightarrow> State_Monad.bind Now (\<lambda>now.
            thenM (metric (SetTo ''queue_oldest_age_seconds'' (Secs (oldest_age now messages)) [])) (State_Monad.return failure))
        | Inl err \<Rightarrow> State_Monad.bind (query_failed ''oldest'' err failure) (\<lambda>failure.
            thenM (metric (Delete ''queue_oldest_age_seconds'' [])) (State_Monad.return failure))) (\<lambda>failure.
     State_Monad.bind (gets parent_Err) (\<lambda>e.
     if e \<noteq> None then State_Monad.return () else reportCollection failure)))))))))"

text \<open>
  The goroutine, for the samples it takes before it sees the context done: the first follows the wait
  for the group or the end of its grace, each later one a tick.
\<close>

fun monitor_loop ::
    "'s redis \<Rightarrow> worker \<Rightarrow> (('s, 'y) wworld_scheme \<Rightarrow> ('s, 'y) wworld_scheme) list
      \<Rightarrow> (('s, 'y) wworld_scheme, unit) state" where
  "monitor_loop R wk [] = State_Monad.return ()"
| "monitor_loop R wk (wait # waits) =
     thenM (modify wait) (thenM (observeQueue R wk) (monitor_loop R wk waits))"

definition monitorQueue ::
    "'s redis \<Rightarrow> worker \<Rightarrow> (('s, 'y) wworld_scheme \<Rightarrow> ('s, 'y) wworld_scheme) list
      \<Rightarrow> (('s, 'y) wworld_scheme, unit) state" where
  "monitorQueue R wk waits =
     State_Monad.bind (gets recorder) (\<lambda>r. if r = None then State_Monad.return () else monitor_loop R wk waits)"

section \<open>What a sample shows\<close>

text \<open>A command does not look at the recorder.\<close>

lemma serve_recorder: "run_state (serve d m) w = (r, w') \<Longrightarrow> run_state (serve d m) (w\<lparr>recorder := f\<rparr>) = (r, w'\<lparr>recorder := f\<rparr>)"
  by (cases d) (auto simp: serve_def split: prod.splits)

lemma take_turn_recorder: "take_turn t (w\<lparr>recorder := f, turns := ts\<rparr>) = (take_turn t (w\<lparr>turns := ts\<rparr>))\<lparr>recorder := f\<rparr>"
  by (simp add: take_turn_def)

lemma call_recorder: "run_state (call m) w = (r, w') \<Longrightarrow> run_state (call m) (w\<lparr>recorder := f\<rparr>) = (r, w'\<lparr>recorder := f\<rparr>)"
proof (cases "turns w")
  case (Cons t ts)
  assume "run_state (call m) w = (r, w')"
  then have "run_state (serve (outcome t) m) (take_turn t (w\<lparr>turns := ts\<rparr>)) = (r, w')" using Cons by (simp add: call_def)
  from serve_recorder [OF this] show ?thesis using Cons by (simp add: call_def take_turn_recorder)
qed (simp add: call_def serve_recorder)

lemma serve_keeps_recorder: "run_state (serve d m) w = (r, w') \<Longrightarrow> recorder w' = recorder w"
  by (cases d) (auto simp: serve_def split: prod.splits)

lemma call_keeps_recorder: "run_state (call m) w = (r, w') \<Longrightarrow> recorder w' = recorder w"
  by (cases "turns w") (auto simp: call_def take_turn_def dest!: serve_keeps_recorder)

text \<open>A measurement sets its gauge, or counts the failure and takes the gauge off the scrape.\<close>

definition recorded :: "string \<Rightarrow> string \<Rightarrow> ('a \<Rightarrow> mvalue) \<Rightarrow> goerr + 'a \<Rightarrow> Recorder \<Rightarrow> Recorder" where
  "recorded g query v r rec =
     (case r of
        Inr x \<Rightarrow> SetTo g (v x) [] rec
      | Inl e \<Rightarrow> Delete g [] (Inc ''queue_collection_errors_total'' [query] rec))"

definition shown :: "('a \<Rightarrow> mvalue) \<Rightarrow> goerr + 'a \<Rightarrow> mvalue option" where
  "shown v r = (case r of Inl e \<Rightarrow> None | Inr x \<Rightarrow> Some (v x))"

definition queue_gauges :: "string list" where
  "queue_gauges = [''queue_quarantined_jobs'', ''queue_unacknowledged_jobs'', ''queue_oldest_age_seconds'',
     ''queue_collection_success'', ''queue_collection_last_success_timestamp_seconds'']"

lemma queue_gauge_facts:
  "list_all (\<lambda>n. normalize n [] = Some [] \<and> in_catalog OpSet n 0 \<and> in_catalog OpDelete n 0 \<and> n \<noteq> ''queue_collection_errors_total'') queue_gauges"
  by code_simp

lemma gauge_set_queue:
  assumes "g \<in> set queue_gauges"
  shows "gauge_value g' [] (registry (SetTo g v [] rec)) = (if g' = g then Some v else gauge_value g' [] (registry rec))"
    and "gauge_value g' [] (registry (Delete g [] rec)) = (if g' = g then None else gauge_value g' [] (registry rec))"
  using queue_gauge_facts assms by (auto simp: list_all_iff SetTo_def Delete_def record_op_eq gauge_value_append)

lemma gauge_recorded:
  assumes "g \<in> set queue_gauges" "g' \<in> set queue_gauges"
  shows "gauge_value g' [] (registry (recorded g q v r rec)) = (if g' = g then shown v r else gauge_value g' [] (registry rec))"
  using queue_gauge_facts assms
  by (cases r) (auto simp: recorded_def shown_def gauge_set_queue list_all_iff Inc_def Add_def gauge_record_other)

definition no_group :: "goerr + string list \<Rightarrow> bool" where
  "no_group r = (case r of Inl e \<Rightarrow> True | Inr groups \<Rightarrow> workerGroup \<notin> set groups)"

definition group_counted :: "goerr + string list \<Rightarrow> Recorder \<Rightarrow> Recorder" where
  "group_counted r rec = (if no_group r then Inc ''queue_collection_errors_total'' [''group''] rec else rec)"

lemma gauge_group_counted:
  "g \<in> set queue_gauges \<Longrightarrow> gauge_value g [] (registry (group_counted r rec)) = gauge_value g [] (registry rec)"
  using queue_gauge_facts by (auto simp: group_counted_def list_all_iff Inc_def Add_def gauge_record_other)

text \<open>The recorder after the four measurements.\<close>

definition collected :: "goerr + int \<Rightarrow> goerr + int \<Rightarrow> goerr + string list \<Rightarrow> goerr + entry list \<Rightarrow> time \<Rightarrow> Recorder \<Rightarrow> Recorder" where
  "collected r1 r2 r3 r4 now rec =
     recorded ''queue_oldest_age_seconds'' ''oldest'' (\<lambda>m. Secs (oldest_age now m)) r4
       (group_counted r3
         (recorded ''queue_unacknowledged_jobs'' ''length'' Num r2
           (recorded ''queue_quarantined_jobs'' ''quarantine'' Num r1 rec)))"

definition healthy :: "goerr + int \<Rightarrow> goerr + int \<Rightarrow> goerr + string list \<Rightarrow> goerr + entry list \<Rightarrow> bool" where
  "healthy r1 r2 r3 r4 \<longleftrightarrow> \<not> isl r1 \<and> \<not> isl r2 \<and> \<not> no_group r3 \<and> \<not> isl r4"

definition first_failure :: "worker \<Rightarrow> goerr + int \<Rightarrow> goerr + int \<Rightarrow> goerr + string list \<Rightarrow> goerr + entry list \<Rightarrow> goerr option" where
  "first_failure wk r1 r2 r3 r4 =
     (case r1 of Inl e \<Rightarrow> Some (Wrap ''quarantine'' e)
      | Inr _ \<Rightarrow> case r2 of Inl e \<Rightarrow> Some (Wrap ''length'' e)
      | Inr _ \<Rightarrow> case r3 of Inl e \<Rightarrow> Some (Wrap ''group'' e)
      | Inr groups \<Rightarrow> if workerGroup \<notin> set groups then Some (Wrap ''group'' (missing_group wk))
        else case r4 of Inl e \<Rightarrow> Some (Wrap ''oldest'' e) | Inr _ \<Rightarrow> None)"

lemma first_failure_None: "first_failure wk r1 r2 r3 r4 = None \<longleftrightarrow> healthy r1 r2 r3 r4"
  by (auto simp: first_failure_def healthy_def no_group_def split: sum.splits)

lemma observeQueue_run:
  assumes c1: "run_state (call (HLEN R (wk_stream wk @ '':quarantine''))) w = (r1, w1)"
    and c2: "run_state (call (XLEN R (wk_stream wk))) w1 = (r2, w2)"
    and c3: "run_state (call (XINFO_GROUPS R (wk_stream wk))) w2 = (r3, w3)"
    and c4: "run_state (call (XRANGE_first R (wk_stream wk))) w3 = (r4, w4)"
    and rec: "recorder w = Some rec" and going: "stopped w4 = None"
  shows "run_state (observeQueue R wk) w =
      run_state (reportCollection (first_failure wk r1 r2 r3 r4)) (w4\<lparr>recorder := Some (collected r1 r2 r3 r4 (clock w4) rec)\<rparr>)"
proof -
  have k: "recorder w1 = Some rec" using call_keeps_recorder [OF c1] rec by simp
  note calls = c1 call_recorder [OF c2] call_recorder [OF c3] call_recorder [OF c4]
  show ?thesis
    by (cases r1; cases r2; cases r3; cases r4)
      (simp_all add: observeQueue_def calls k metric_def query_failed_def Now_def parent_Err_def going collected_def recorded_def
        group_counted_def no_group_def first_failure_def)
qed

text \<open>
  C39. A sample of the queue tells the truth: unless the context ended during it, each measurement that
  was answered is shown as answered and one that failed is taken off the scrape rather than left stale;
  the collection is a success exactly when all four commands were answered and the consumer group is
  there, and only then does the time of the last success move.
\<close>

theorem queue_sample_truthful:
  assumes "run_state (call (HLEN R (wk_stream wk @ '':quarantine''))) w = (r1, w1)"
    and "run_state (call (XLEN R (wk_stream wk))) w1 = (r2, w2)"
    and "run_state (call (XINFO_GROUPS R (wk_stream wk))) w2 = (r3, w3)"
    and "run_state (call (XRANGE_first R (wk_stream wk))) w3 = (r4, w4)"
    and "recorder w = Some rec" and "stopped w4 = None"
    and run: "run_state (observeQueue R wk) w = (u, w')"
  shows "\<exists>rec'. recorder w' = Some rec' \<and>
    (let gauge = (\<lambda>n. gauge_value n [] (registry rec')) in
     gauge ''queue_quarantined_jobs'' = shown Num r1 \<and>
     gauge ''queue_unacknowledged_jobs'' = shown Num r2 \<and>
     gauge ''queue_oldest_age_seconds'' = shown (\<lambda>m. Secs (oldest_age (clock w4) m)) r4 \<and>
     gauge ''queue_collection_success'' = Some (Num (if healthy r1 r2 r3 r4 then 1 else 0)) \<and>
     gauge ''queue_collection_last_success_timestamp_seconds'' =
       (if healthy r1 r2 r3 r4 then Some (Num (Unix (clock w4)))
        else gauge_value ''queue_collection_last_success_timestamp_seconds'' [] (registry rec)))"
proof -
  note o = observeQueue_run [OF assms(1-6)]
  show ?thesis
    using run unfolding o
    using first_failure_None [of wk r1 r2 r3 r4]
    by (cases "first_failure wk r1 r2 r3 r4")
      (auto simp: reportCollection_def metric_def Now_def Let_def collected_def gauge_set_queue gauge_recorded
        gauge_group_counted queue_gauges_def)
qed

text \<open>A stream with its group and one entry, of one millisecond after 1970, looked at a second after 1970.\<close>

definition ex_sampled :: "(ref, unit wworld_ext) world_scheme" where
  "ex_sampled = world.extend (world.truncate ex_queue\<lparr>recorder := Some empty_recorder, clock := of_Unix 1\<rparr>) (wworld.fields 0 0 [] False)"

lemma ex_queue_keys: "ks (rv (srv ex_queue)) ''st'' = Some (Strm [ex_msg] [\<lparr>grp_name = ''scanner'', grp_pending = [(''1-0'', ''c'')]\<rparr>])"
    "ks (rv (srv ex_queue)) ''st:quarantine'' = None"
  by (simp_all add: ex_queue_def world_of_def ex_server_def put_value_def)

lemma ex_reads:
  "run_state (HLEN ref_redis ''st:quarantine'') (srv ex_queue) = (Inr 0, srv ex_queue)"
  "run_state (XLEN ref_redis ''st'') (srv ex_queue) = (Inr 1, srv ex_queue)"
  "run_state (XINFO_GROUPS ref_redis ''st'') (srv ex_queue) = (Inr [''scanner''], srv ex_queue)"
  "run_state (XRANGE_first ref_redis ''st'') (srv ex_queue) = (Inr [ex_msg], srv ex_queue)"
  by (simp_all add: ref_redis_def change_def with_stream_def of_opt_def ex_queue_keys)

definition ex_settled :: "(ref, 'z) world_scheme \<Rightarrow> bool" where
  "ex_settled w \<longleftrightarrow> turns w = [] \<and> srv w = srv ex_queue \<and> clock w = of_Unix 1 \<and> stopped w = None"

lemma ex_call:
  "ex_settled w \<Longrightarrow> run_state m (srv ex_queue) = (Inr x, srv ex_queue) \<Longrightarrow> \<exists>w'. run_state (call m) w = (Inr x, w') \<and> ex_settled w'"
  by (simp add: ex_settled_def call_def serve_def)

theorem queue_sample_truthful_witness:
  "\<exists>rec'. recorder (snd (run_state (observeQueue ref_redis ex_worker) ex_sampled)) = Some rec' \<and>
       gauge_value ''queue_unacknowledged_jobs'' [] (registry rec') = Some (Num 1) \<and>
       gauge_value ''queue_oldest_age_seconds'' [] (registry rec') = Some (Secs 999000000) \<and>
       gauge_value ''queue_collection_success'' [] (registry rec') = Some (Num 1) \<and>
       gauge_value ''queue_collection_last_success_timestamp_seconds'' [] (registry rec') = Some (Num 1)"
proof -
  have s: "wk_stream ex_worker = ''st''" "wk_stream ex_worker @ '':quarantine'' = ''st:quarantine''" by (simp_all add: ex_worker_def)
  have s0: "ex_settled ex_sampled" "recorder ex_sampled = Some empty_recorder"
    by (simp_all add: ex_settled_def ex_sampled_def world.defs wworld.defs ex_queue_def world_of_def)
  obtain w1 where w1: "run_state (call (HLEN ref_redis (wk_stream ex_worker @ '':quarantine''))) ex_sampled = (Inr 0, w1)" "ex_settled w1"
    using ex_call [OF s0(1) ex_reads(1)] unfolding s(2) by (elim exE conjE) (rule that [unfolded s(2)])
  obtain w2 where w2: "run_state (call (XLEN ref_redis (wk_stream ex_worker))) w1 = (Inr 1, w2)" "ex_settled w2"
    using ex_call [OF w1(2) ex_reads(2)] unfolding s(1) by (elim exE conjE) (rule that [unfolded s(1)])
  obtain w3 where w3: "run_state (call (XINFO_GROUPS ref_redis (wk_stream ex_worker))) w2 = (Inr [''scanner''], w3)" "ex_settled w3"
    using ex_call [OF w2(2) ex_reads(3)] unfolding s(1) by (elim exE conjE) (rule that [unfolded s(1)])
  obtain w4 where w4: "run_state (call (XRANGE_first ref_redis (wk_stream ex_worker))) w3 = (Inr [ex_msg], w4)" "ex_settled w4"
    using ex_call [OF w3(2) ex_reads(4)] unfolding s(1) by (elim exE conjE) (rule that [unfolded s(1)])
  have age: "oldest_age (of_Unix 1) [ex_msg] = 999000000" by (simp add: oldest_age_def of_UnixMilli_def of_Unix_def ex_msg_def Cut_def ParseInt_def ParseUint_def digit_of_def)
  have unix: "Unix (of_Unix 1) = 1" by (simp add: Unix_def of_Unix_def)
  have ok: "healthy (Inr 0) (Inr 1) (Inr [''scanner'']) (Inr [ex_msg])" by (simp add: healthy_def no_group_def workerGroup_def)
  have t: "clock w4 = of_Unix 1" "stopped w4 = None" using w4(2) by (simp_all add: ex_settled_def)
  from queue_sample_truthful [OF w1(1) w2(1) w3(1) w4(1) s0(2) t(2) prod.collapse [symmetric]]
  show ?thesis by (auto simp: Let_def shown_def ok t(1) age unix)
qed

end
