(* ===== verification/Ref_Run.thy ===== *)
theory Ref_Run
  imports Settled
begin

text \<open>
  Runs on the reference server, for the examples: the operations of the store, an execution and a
  handled delivery that succeed while nobody interferes and the clock stands still.
\<close>

definition idle :: "view \<Rightarrow> string list \<Rightarrow> ref world \<Rightarrow> bool" where
  "idle v e w \<longleftrightarrow> turns w = [] \<and> srv w = \<lparr>rv = v, oom = []\<rparr> \<and> clock w = 5 \<and> stopped w = None \<and> lost w = False \<and>
     recorder w = None \<and> entropy w = e"

lemmas idle_ops = operation_def labelled_def Now_def metric_def Let_def store_written_def call_quiet ref_redis_def change_def of_opt_def

lemma idle_metric: "idle v e w \<Longrightarrow> run_state (metric f) w = ((), w)"
  by (cases w) (simp add: idle_def metric_def)

lemma idle_Enqueue:
  assumes "idle v e w" "marshalSized C (ScanJob_to_json C j) = Inr (z, n)" "ks v (keyForScanJob cfg (job_Key j)) = None" "ks v stream = None"
  shows "\<exists>w'. run_state (store_Enqueue ref_redis C cfg j stream payload) w = (Inr (), w') \<and>
    idle (set_effect (keyForScanJob cfg (job_Key j)) z (put_value stream (Strm [(fresh_id [], [(''job'', payload)])] []) v)) e w'"
  using assms
  by (simp add: idle_def store_Enqueue_def idle_ops quiet_def enqueueScript_def with_stream_def set_effect_def)

lemma idle_Get:
  assumes "idle v e w" "job_stored C v (keyForScanJob cfg key) j" "ks v (keyForScanReport cfg key) = None"
  shows "\<exists>w'. run_state (store_Get ref_redis C cfg key) w = (Inr (Some j), w') \<and> idle v e w'"
  using assms
  by (auto simp: idle_def store_Get_def store_Get_body_def getJob_def idle_ops job_stored_def)

lemma idle_Get_report:
  assumes "idle v e w" "job_stored C v (keyForScanJob cfg key) j" "report_stored C v (keyForScanReport cfg key) rep"
  shows "\<exists>w'. run_state (store_Get ref_redis C cfg key) w = (Inr (Some (j\<lparr>job_Report := rep\<rparr>)), w') \<and> idle v e w'"
  using assms
  by (auto simp: idle_def store_Get_def store_Get_body_def getJob_def idle_ops job_stored_def report_stored_def)

lemma idle_UpdateStatus:
  assumes "idle v e w" "job_stored C v (keyForScanJob cfg key) j" "job_Key j = key" "held l v" "lease_Key l \<noteq> []" "lease_Token l \<noteq> []"
    and m: "marshalSized C (ScanJob_to_json C (with_status st ms 5 j)) = Inr (z, n)"
  shows "\<exists>w'. run_state (store_UpdateStatus ref_redis C cfg l key st ms) w = (Inr (), w') \<and>
    idle (put_ttl (keyForScanReport cfg key) None (set_effect (keyForScanJob cfg key) z v)) e w'"
  using assms
  by (auto simp: idle_def store_UpdateStatus_def getJob_def idle_ops store_update_def updateJobScript_def job_stored_def held_def set_effect_def)

lemma idle_UpdateReport:
  assumes "idle v e w" "ks v (keyForScanJob cfg key) \<noteq> None" "held l v" "lease_Key l \<noteq> []" "lease_Token l \<noteq> []"
    and m: "marshalSized C (ScanReport_to_json C rep) = Inr (z, n)"
  shows "\<exists>w'. run_state (store_UpdateReport ref_redis C cfg l key rep) w = (Inr (), w') \<and>
    idle (put_ttl (keyForScanJob cfg key) None (set_effect (keyForScanReport cfg key) z v)) e w'"
  using assms
  by (auto simp: idle_def store_UpdateReport_def idle_ops updateReportScript_def held_def set_effect_def case_prod_beta)

lemma idle_Acknowledge:
  assumes i: "idle v e w" and "job_stored C v (keyForScanJob cfg key) j" "job_Status j = Finished" "held l v" "lease_Key l \<noteq> []" "lease_Token l \<noteq> []"
    and s: "ks v stream = Some (Strm es gs)" and apart: "keyForScanJob cfg key \<notin> {stream, lease_Key l}" "stream \<noteq> lease_Key l"
  shows "\<exists>w' v'. run_state (store_Acknowledge ref_redis C cfg l key stream grp i) w = (Inr (), w') \<and> idle v' e w' \<and>
    (\<forall>k. k \<notin> {stream, lease_Key l} \<longrightarrow> ks v' k = ks v k)"
proof -
  have "\<exists>w' v'. run_state (store_Acknowledge ref_redis C cfg l key stream grp i) w = (Inr (), w') \<and> idle v' e w'"
    using assms(1-7)
    by (auto simp: idle_def store_Acknowledge_def getJob_def idle_ops acknowledgeScript_def job_stored_def held_def with_stream_def put_value_def)
  then obtain w' v' where run: "run_state (store_Acknowledge ref_redis C cfg l key stream grp i) w = (Inr (), w')" and i': "idle v' e w'" by blast
  have "quiet rv v w" "rv (srv w') = v'" using i i' by (simp_all add: idle_def quiet_def)
  with wpD [OF redis_server.wp_Acknowledge [OF ref.redis_server_axioms apart] _ run] have "\<forall>k. k \<notin> {stream, lease_Key l} \<longrightarrow> ks v' k = ks v k"
    by (auto simp: quiet_def)
  then show ?thesis using run i' by blast
qed

lemma idle_lock:
  assumes "idle v e w" "ks v lk = None"
  shows "\<exists>w'. run_state (call (SETNX ref_redis lk token ms)) w = (Inr True, w') \<and> idle (put_ttl lk (Some ms) (put_value lk (Str token) v)) e w'"
  using assms by (simp add: idle_def idle_ops)

lemma idle_release:
  assumes "idle v e w"
  shows "\<exists>r w' v'. run_state (call (releaseLease ref_redis lk token)) w = (r, w') \<and> idle v' e w' \<and> (\<forall>k. k \<noteq> lk \<longrightarrow> ks v' k = ks v k)"
proof -
  obtain r w' where run: "run_state (call (releaseLease ref_redis lk token)) w = (r, w')" by fastforce
  obtain v' where i: "idle v' e w'"
    using assms run
    by (auto simp: idle_def idle_ops releaseLease_def split: option.splits sum.splits prod.splits if_splits rvalue.splits)
  have "keeps (\<lambda>w. alone w \<and> (\<forall>k. k \<noteq> lk \<longrightarrow> ks (rv (srv w)) k = ks v k)) (call (releaseLease ref_redis lk token))"
    by (rule redis_server.wp_release [OF ref.redis_server_axioms, where F = "\<lambda>v'. \<forall>k. k \<noteq> lk \<longrightarrow> ks v' k = ks v k"]) simp
  from keepsD [OF this _ run] have "\<forall>k. k \<noteq> lk \<longrightarrow> ks v' k = ks v k" using assms i by (simp add: idle_def alone_def)
  then show ?thesis using run i by blast
qed

text \<open>A run of the controller that succeeds, on the reference server.\<close>

lemma idle_Scan:
  assumes i: "idle v e w" and j: "job_stored ref_codec v (keyForScanJob cfg key) j" "job_Key j = key" "wf_job j" "int64 (Attempts j + 1)"
    and held: "held l v" "lease_Key l \<noteq> []" "lease_Token l \<noteq> []" "lease_Key l \<notin> {keyForScanJob cfg key, keyForScanReport cfg key}"
    and none: "ks v (keyForScanReport cfg key) = None"
    and image: "GetImageRef req = Inr (imageRef, nonSSL)" "ToRegistryAuth (reg_Authorization (req_Registry req)) = Returned auth"
    and found: "scanner \<lparr>ir_Name = imageRef, ir_Auth = auth, ir_NonSSL = nonSSL\<rparr> (determineFormat (key_MediaType key)) = okE rep"
    and m: "marshalSized ref_codec (ScanJob_to_json ref_codec (with_status Pending [] 5 j)) = Inr (z1, n1)" "n1 \<le> maxDecompressedSize"
      "marshalSized ref_codec (ScanJob_to_json ref_codec (with_status Finished [] 5 (with_status Pending [] 5 j))) = Inr (z2, n2)"
      "n2 \<le> maxDecompressedSize"
      "marshalSized ref_codec (ScanReport_to_json ref_codec (Transform tv 5 (key_MediaType key) req rep)) = Inr (z3, n3)" "n3 \<le> maxDecompressedSize"
    and wf: "wf_report (Transform tv 5 (key_MediaType key) req rep)"
  shows "\<exists>w' v'. run_state (Scan (redis_store ref_redis ref_codec cfg) scanner tv l key req) w = (Inr (), w') \<and> idle v' e w' \<and>
    job_stored ref_codec v' (keyForScanJob cfg key) (with_status Finished [] 5 (with_status Pending [] 5 j)) \<and>
    report_stored ref_codec v' (keyForScanReport cfg key) (Transform tv 5 (key_MediaType key) req rep) \<and>
    (\<forall>k. k \<notin> {keyForScanJob cfg key, keyForScanReport cfg key} \<longrightarrow> ks v' k = ks v k)"
proof -
  let ?jk = "keyForScanJob cfg key" and ?rk = "keyForScanReport cfg key"
  let ?p = "with_status Pending [] 5 j" and ?f = "with_status Finished [] 5 (with_status Pending [] 5 j)"
  have p: "wf_job ?p" "job_Key ?p = key" using with_status_wf [OF j(3) _ j(4), of Pending] j(2) by (simp_all add: int64_def Pending_def)
  have f: "wf_job ?f" using p(1) by (auto simp: with_status_def Let_def status_defs wf_job_def int64_def)
  obtain data1 where d1: "decompress ref_codec z1 = Inr data1" "unmarshal_job ref_codec data1 = Inr ?p"
    using codec_laws.stored_job_read [OF refc.codec_laws_axioms m(1,2) p(1)] .
  obtain data2 where d2: "decompress ref_codec z2 = Inr data2" "unmarshal_job ref_codec data2 = Inr ?f"
    using codec_laws.stored_job_read [OF refc.codec_laws_axioms m(3,4) f] .
  obtain data3 where d3: "decompress ref_codec z3 = Inr data3"
    "unmarshal_report ref_codec data3 = Inr (Transform tv 5 (key_MediaType key) req rep)"
    using codec_laws.stored_report_read [OF refc.codec_laws_axioms m(5,6) wf] .
  have b: "run_state begin_execution w = (None, w)" using i by (simp add: begin_execution_def idle_def)
  obtain w1 v1 where 1: "run_state (store_UpdateStatus ref_redis ref_codec cfg l key Pending []) w = (Inr (), w1)" "idle v1 e w1"
    and v1: "v1 = put_ttl ?rk None (set_effect ?jk z1 v)"
    using idle_UpdateStatus [OF i j(1,2) held(1-3) m(1)] by blast
  have s1: "job_stored ref_codec v1 ?jk ?p" "held l v1" "ks v1 ?rk = None" "ks v1 ?jk \<noteq> None"
    using d1 held none by (auto simp: v1 job_stored_def set_effect_def put_ttl_def put_value_def held_def)
  obtain w2 v2 where 2: "run_state (store_UpdateReport ref_redis ref_codec cfg l key (Transform tv 5 (key_MediaType key) req rep)) w1 = (Inr (), w2)" "idle v2 e w2"
    and v2: "v2 = put_ttl ?jk None (set_effect ?rk z3 v1)"
    using idle_UpdateReport [OF 1(2) s1(4,2) held(2,3) m(5)] by blast
  have s2: "job_stored ref_codec v2 ?jk ?p" "held l v2"
    using s1 held by (auto simp: v2 job_stored_def set_effect_def put_ttl_def put_value_def held_def)
  obtain w3 v3 where 3: "run_state (store_UpdateStatus ref_redis ref_codec cfg l key Finished []) w2 = (Inr (), w3)" "idle v3 e w3"
    and v3: "v3 = put_ttl ?rk None (set_effect ?jk z2 v2)"
    using idle_UpdateStatus [OF 2(2) s2(1) p(2) s2(2) held(2,3) m(3)] by blast
  have "run_state (Scan (redis_store ref_redis ref_codec cfg) scanner tv l key req) w = (Inr (), w3)"
    using b 1 2(1) 3(1) image found by (simp add: Scan_def controller_scan_def redis_store_def finish_execution_def Now_def idle_def)
  moreover have "job_stored ref_codec v3 ?jk ?f" "report_stored ref_codec v3 ?rk (Transform tv 5 (key_MediaType key) req rep)"
    using d2 d3 by (auto simp: v3 v2 job_stored_def report_stored_def set_effect_def put_ttl_def put_value_def)
  moreover have "\<forall>k. k \<notin> {?jk, ?rk} \<longrightarrow> ks v3 k = ks v k"
    by (simp add: v3 v2 v1 set_effect_def put_ttl_def put_value_def)
  ultimately show ?thesis using 3(2) by blast
qed

text \<open>A delivery handled there.\<close>

lemma idle_process:
  assumes i: "idle v (b # bs) w" "12 \<le> length b" and decode: "decode_delivery ref_codec msg = Some (delivery, req)" "q_Key delivery = key"
    and j: "job_stored ref_codec v (keyForScanJob cfg key) j" "job_Key j = key" "wf_job j" "job_Status j = Queued" "Attempts j = 0"
    and free: "keys_free cfg wk (fst msg)" "ks v (lock_key wk (fst msg)) = None"
    and stream: "ks v (wk_stream wk) = Some (Strm es gs)"
    and none: "ks v (keyForScanReport cfg key) = None"
    and scan: "\<And>l v' e w. idle v' e w \<Longrightarrow> job_stored ref_codec v' (keyForScanJob cfg key) j \<Longrightarrow> held l v' \<Longrightarrow> lease_Key l = lock_key wk (fst msg) \<Longrightarrow>
      lease_Token l \<noteq> [] \<Longrightarrow> ks v' (keyForScanReport cfg key) = None \<Longrightarrow>
      \<exists>w' v''. run_state (exec l key req) w = (Inr (), w') \<and> idle v'' e w' \<and> job_stored ref_codec v'' (keyForScanJob cfg key) f \<and>
        report_stored ref_codec v'' (keyForScanReport cfg key) rep \<and>
        (\<forall>k. k \<notin> {keyForScanJob cfg key, keyForScanReport cfg key} \<longrightarrow> ks v'' k = ks v' k)"
    and f: "job_Status f = Finished"
  shows "\<exists>w' v'. run_state (process ref_redis ref_codec (redis_store ref_redis ref_codec cfg) exec wk msg) w = (Inr (), w') \<and>
    idle v' bs w' \<and> job_stored ref_codec v' (keyForScanJob cfg key) f \<and> report_stored ref_codec v' (keyForScanReport cfg key) rep"
proof -
  let ?jk = "keyForScanJob cfg key" and ?rk = "keyForScanReport cfg key" and ?lk = "lock_key wk (fst msg)" and ?st = "redis_store ref_redis ref_codec cfg"
  let ?t = "hex (take 12 b)"
  let ?l = "\<lparr>lease_Key = ?lk, lease_Token = ?t\<rparr>"
  have apart: "?jk \<notin> {wk_stream wk, ?lk}" "?rk \<notin> {wk_stream wk, ?lk}" "wk_stream wk \<noteq> ?lk" "?lk \<noteq> []"
    using spec [OF free(1) [unfolded keys_free_def], of key] by (auto simp: lock_key_def)
  have t: "?t \<noteq> []" using i(2) by (cases b) (auto simp: hex_def hex_of_char_def Let_def)
  obtain w0 where token: "run_state makeIdentifier w = (?t, w0)" and i0: "idle v bs w0"
    using i by (simp add: makeIdentifier_def idle_def)
  obtain w1 v1 where 1: "run_state (call (SETNX ref_redis ?lk ?t (Milliseconds (leaseDuration wk)))) w0 = (Inr True, w1)" "idle v1 bs w1"
    and v1: "v1 = put_ttl ?lk (Some (Milliseconds (leaseDuration wk))) (put_value ?lk (Str ?t) v)"
    using idle_lock [OF i0 free(2)] by blast
  let ?w1 = "w1\<lparr>lost := False\<rparr>"
  have i1: "idle v1 bs ?w1" and clock: "clock w1 = 5" using 1(2) by (simp_all add: idle_def)
  have s1: "job_stored ref_codec v1 ?jk j" "held ?l v1" "ks v1 ?rk = None" "ks v1 (wk_stream wk) = ks v (wk_stream wk)"
    using j(1) none apart by (auto simp: v1 job_stored_def put_ttl_def put_value_def held_def)
  obtain w2 where 2: "run_state (store_Get ref_redis ref_codec cfg key) ?w1 = (Inr (Some j), w2)" "idle v1 bs w2"
    using idle_Get [OF i1 s1(1,3)] by blast
  obtain w3 v3 where 3: "run_state (exec ?l key req) w2 = (Inr (), w3)" "idle v3 bs w3" "job_stored ref_codec v3 ?jk f"
    "report_stored ref_codec v3 ?rk rep" "\<forall>k. k \<notin> {?jk, ?rk} \<longrightarrow> ks v3 k = ks v1 k"
    using scan [OF 2(2) s1(1,2) _ _ s1(3)] t by auto
  have s3: "held ?l v3" "ks v3 (wk_stream wk) = Some (Strm es gs)" using 3(5) s1(2,4) apart stream by (auto simp: held_def)
  obtain w4 v4 where 4: "run_state (store_Acknowledge ref_redis ref_codec cfg ?l key (wk_stream wk) workerGroup (fst msg)) w3 = (Inr (), w4)"
    "idle v4 bs w4" "\<forall>k. k \<notin> {wk_stream wk, ?lk} \<longrightarrow> ks v4 k = ks v3 k"
    using idle_Acknowledge [OF 3(2,3) f s3(1) _ _ s3(2), of workerGroup "fst msg"] apart t by auto
  obtain r w5 v5 where 5: "run_state (call (releaseLease ref_redis ?lk ?t)) w4 = (r, w5)" "idle v5 bs w5" "\<forall>k. k \<noteq> ?lk \<longrightarrow> ks v5 k = ks v4 k"
    using idle_release [OF 4(2)] by blast
  have ret: "run_state (retire ?st wk ?l key (fst msg)) w3 = (Inr (), w4)"
    using 4(1) 3(2) by (simp add: retire_def redis_store_def ctx_Err_def idle_def)
  have owned: "run_state (process_owned ref_redis ref_codec ?st exec wk msg delivery req ?l 5) ?w1 = (Inr (), w4)"
    using 2 3(1) ret j(4,5) decode(2) idle_metric [OF 2(2)] by (simp add: process_owned_def redis_store_def status_defs)
  have "run_state (process_locked ref_redis ref_codec ?st exec wk msg delivery req ?t) w0 = (Inr (), w5)"
    using 1 owned 5(1) clock idle_metric [OF 1(2)] by (simp add: process_locked_def Now_def)
  then have "run_state (process ref_redis ref_codec ?st exec wk msg) w = (Inr (), w5)"
    by (simp add: run_process_decodable [OF decode(1) token])
  moreover have "ks v5 ?jk = ks v3 ?jk" "ks v5 ?rk = ks v3 ?rk" using 5(3) 4(3) apart by auto
  then have "job_stored ref_codec v5 ?jk f" "report_stored ref_codec v5 ?rk rep"
    using 3(3,4) by (auto simp: job_stored_def report_stored_def)
  ultimately show ?thesis using 5(2) by blast
qed

end
