(* ===== verification/Journey.thy ===== *)
theory Journey
  imports Ref_Run Handler_Spec
begin

text \<open>
  The way of one scan request through the adapter: the API accepts it, the enqueuer stores its job
  with the delivery, the worker takes the delivery and has the controller execute the job, and the
  next fetch of the report answers with what the scanner gave.
\<close>

section \<open>Records as they were written\<close>

definition wrote_job :: "codec \<Rightarrow> view \<Rightarrow> string \<Rightarrow> ScanJob \<Rightarrow> bool" where
  "wrote_job C v k j \<longleftrightarrow> (\<exists>z n. ks v k = Some (Str z) \<and> marshalSized C (ScanJob_to_json C j) = Inr (z, n))"

definition wrote_report :: "codec \<Rightarrow> view \<Rightarrow> string \<Rightarrow> ScanReport \<Rightarrow> bool" where
  "wrote_report C v k r \<longleftrightarrow> (\<exists>z n. ks v k = Some (Str z) \<and> marshalSized C (ScanReport_to_json C r) = Inr (z, n))"

lemma wrote_cong:
  assumes "ks v' k = ks v k"
  shows "wrote_job C v' k j = wrote_job C v k j" "wrote_report C v' k r = wrote_report C v k r"
  using assms by (simp_all add: wrote_job_def wrote_report_def)

text \<open>Whatever could be read back of a record is what was written: the text may be too long to be read at all.\<close>

context codec_laws begin

lemma marshalSized_decompress:
  assumes "marshalSized C x = Inr (z, n)" "decompress C z = Inr data"
  shows "\<exists>v. x = Inr v \<and> data = json_text C v"
proof -
  obtain v where x: "x = Inr v" using assms(1) by (cases x) (auto simp: marshalSized_def)
  then have z: "gzip C (json_text C v) = Inr z"
    using assms(1) by (auto simp: marshalSized_def Let_def split: sum.splits)
  obtain rest where "z = CHR 0x1F # CHR 0x8B # rest"
    using gzip_magic [OF z] by (cases z; cases "tl z") auto
  then show ?thesis using gzip_round [OF z] assms(2) x by (auto simp: decompress_def split: if_splits)
qed

lemma wrote_job_read: "wrote_job C v k j \<Longrightarrow> wf_job j \<Longrightarrow> job_stored C v k j' \<Longrightarrow> j' = j"
  by (auto simp: wrote_job_def job_stored_def unmarshal_job_def json_round ScanJob_json_round dest!: marshalSized_decompress)

lemma wrote_report_read: "wrote_report C v k r \<Longrightarrow> wf_report r \<Longrightarrow> report_stored C v k r' \<Longrightarrow> r' = r"
  by (auto simp: wrote_report_def report_stored_def unmarshal_report_def json_round ScanReport_round dest!: marshalSized_decompress)

end

section \<open>Writing the outcome\<close>

lemma record_failure_persistence:
  "run_state (record_failure st l key (PersistenceError e)) w = (r, w') \<Longrightarrow> r \<noteq> Inr ()"
  by (auto simp: record_failure_def split: option.splits)

text \<open>
  What executing a job that was written as \<open>j\<close> leaves when it ends without an error: the result of a
  run of the scanner, as a report and the status Finished or as the message of the status Failed.
\<close>

definition scanned ::
    "codec \<Rightarrow> store_config \<Rightarrow> ('s, 'z, Report) op \<Rightarrow> string option \<Rightarrow> ScanJobKey \<Rightarrow> ScanRequest \<Rightarrow> ScanJob \<Rightarrow> view \<Rightarrow> bool" where
  "scanned C cfg scan tv key req j v \<longleftrightarrow>
     (\<exists>w0 r w1 m n. run_state scan w0 = (r, w1) \<and>
        (case r of
           Inr rep \<Rightarrow> wrote_job C v (keyForScanJob cfg key) (with_status Finished [] n (with_status Pending [] m j)) \<and>
             (\<exists>t. wrote_report C v (keyForScanReport cfg key) (Transform tv t (key_MediaType key) req rep))
         | Inl e \<Rightarrow> wrote_job C v (keyForScanJob cfg key)
               (with_status Failed [failure_message (Wrap ''running trivy wrapper'' e)] n (with_status Pending [] m j)) \<and>
             ks v (keyForScanReport cfg key) = None))"

lemma scanned_cong:
  assumes "ks v' (keyForScanJob cfg key) = ks v (keyForScanJob cfg key)" "ks v' (keyForScanReport cfg key) = ks v (keyForScanReport cfg key)"
  shows "scanned C cfg scan tv key req j v' = scanned C cfg scan tv key req j v"
  by (simp only: scanned_def wrote_cong [OF assms(1)] wrote_cong [OF assms(2)] assms(2))

context redis_server begin

lemma settles_UpdateStatus:
  assumes laws: "codec_laws C" and j: "wrote_job C v (keyForScanJob cfg key) j" "wf_job j" "job_Key j = key"
  shows "settles (\<lambda>v'. (\<exists>n. wrote_job C v' (keyForScanJob cfg key) (with_status st ms n j)) \<and>
      (\<forall>k. k \<noteq> keyForScanJob cfg key \<longrightarrow> ks v' k = ks v k)) v (store_UpdateStatus R C cfg l key st ms)"
  (is "settles ?F v _")
proof (cases "job_stored C v (keyForScanJob cfg key) j")
  case True
  show ?thesis
  proof (rule settlesI, rule wp_conseq [OF wp_UpdateStatus [OF True j(3)]], assumption, rule impI)
    fix r and w :: "('s, 'z) world_scheme"
    assume "\<forall>u. r = Inr u \<longrightarrow> (\<exists>now z n v'. marshalSized C (ScanJob_to_json C (with_status st ms now j)) = Inr (z, n) \<and>
        held l v \<and> ks v (keyForScanJob cfg key) \<noteq> None \<and>
        v' = put_ttl (keyForScanReport cfg key) None (set_effect (keyForScanJob cfg key) z v) \<and> quiet V v' w)" and "r = Inr ()"
    then obtain now z n v' where m: "marshalSized C (ScanJob_to_json C (with_status st ms now j)) = Inr (z, n)"
      and v': "v' = put_ttl (keyForScanReport cfg key) None (set_effect (keyForScanJob cfg key) z v)" and q: "quiet V v' w" by blast
    have "?F v'" using m by (auto simp: v' wrote_job_def set_effect_def put_ttl_def put_value_def)
    then show "\<exists>v'. quiet V v' w \<and> ?F v'" using q by blast
  qed
next
  case False
  have none: "\<not> job_stored C v (keyForScanJob cfg key) j'" for j'
    using False codec_laws.wrote_job_read [OF laws j(1,2)] by blast
  have fails: "wp (quiet V v) (store_UpdateStatus R C cfg l key st ms) (\<lambda>r _. r \<noteq> Inr ())"
    unfolding store_UpdateStatus_def labelled_def
  proof (rule wp_operation, rule wp_bind [where R = "\<lambda>r _. r \<noteq> Inr ()"], rule wp_bindE [OF wp_getJob_found], goal_cases)
    case (2 x)
    show ?case using none by (cases x) (auto simp: wp_def)
  qed (auto simp: wp_def)
  then show ?thesis unfolding settles_def by (rule wp_conseq) auto
qed

lemma settles_UpdateReport:
  "settles (\<lambda>v'. wrote_report C v' (keyForScanReport cfg key) rep \<and>
      (\<forall>k. k \<noteq> keyForScanReport cfg key \<longrightarrow> ks v' k = ks v k)) v (store_UpdateReport R C cfg l key rep)"
  (is "settles ?F v _")
proof (rule settlesI)
  let ?Q = "\<lambda>r w. r = Inr () \<longrightarrow> (\<exists>v'. quiet V v' w \<and> ?F v')"
  show "wp (quiet V v) (store_UpdateReport R C cfg l key rep) ?Q"
  proof (cases "marshalSized C (ScanReport_to_json C rep)")
    case (Inl e)
    then show ?thesis
      unfolding store_UpdateReport_def labelled_def by (intro wp_operation wp_bind [where R = ?Q]) (auto simp: wp_def)
  next
    case (Inr p)
    obtain z n where p: "p = (z, n)" by fastforce
    have script: "wp (quiet V v)
        (call (updateReportScript R (keyForScanJob cfg key) (keyForScanReport cfg key) (lease_Key l) z (lease_Token l)))
        (\<lambda>r w. \<forall>x. r = Inr x \<longrightarrow> x = 1 \<longrightarrow> (\<exists>v'. quiet V v' w \<and> ?F v'))"
    proof (rule wp_conseq [OF quiet_call [OF succeeds_updateReportScript]], assumption, intro allI impI)
      fix r x and w :: "('s, 'z) world_scheme"
      assume "\<forall>x. r = Inr x \<longrightarrow> (\<exists>v'. update_done (keyForScanJob cfg key) (keyForScanReport cfg key) (keyForScanJob cfg key) l z v x v' \<and>
          quiet V v' w)" and "r = Inr x" "x = 1"
      then obtain v' where u: "update_done (keyForScanJob cfg key) (keyForScanReport cfg key) (keyForScanJob cfg key) l z v 1 v'"
        and q: "quiet V v' w" by blast
      have "?F v'" using u Inr p by (auto simp: update_done_def wrote_report_def set_effect_def put_ttl_def put_value_def split: if_splits)
      then show "\<exists>v'. quiet V v' w \<and> ?F v'" using q by blast
    qed
    have range: "wp (quiet V v)
        (call (updateReportScript R (keyForScanJob cfg key) (keyForScanReport cfg key) (lease_Key l) z (lease_Token l)))
        (\<lambda>r _. \<forall>x. r = Inr x \<longrightarrow> x \<in> {- 1, 0, 1})"
      by (rule wp_conseq [OF quiet_call [OF succeeds_updateReportScript]]) (auto simp: update_done_def split: if_splits)
    show ?thesis
      unfolding store_UpdateReport_def labelled_def Inr p sum.case prod.case
    proof (rule wp_operation, rule wp_bind [where R = ?Q], goal_cases)
      case 1
      show ?case
      proof (rule wpI, rule impI)
        fix w r and w' :: "('s, 'z) world_scheme"
        assume q: "quiet V v w" and r: "r = Inr ()"
          and run: "run_state (if lease_Key l = [] \<or> lease_Token l = []
            then failE (ErrText ''scan report update requires ownership'')
            else State_Monad.bind
              (call (updateReportScript R (keyForScanJob cfg key) (keyForScanReport cfg key) (lease_Key l) z (lease_Token l)))
              (\<lambda>r. case r of
                 Inl e \<Rightarrow> failE (Wrap ''updating scan report'' e)
               | Inr applied \<Rightarrow>
                   if applied = 0 then failE (missingJob key)
                   else if applied = - 1 then failE (ErrText ''scan job ownership lost'')
                   else
                     (let (capability, format) = JobLabels key in
                      thenM (store_written ''report'' n (length z))
                      (thenM (metric (Observe ''report_size_bytes'' (Num (int n)) [capability, format, ''raw'']))
                      (thenM (metric (Observe ''report_size_bytes'' (Num (int (length z))) [capability, format, ''compressed'']))
                       (okE ())))))) w = (r, w')"
        have owned: "\<not> (lease_Key l = [] \<or> lease_Token l = [])" using run r by auto
        obtain y w1 where 0: "run_state (call (updateReportScript R (keyForScanJob cfg key) (keyForScanReport cfg key)
            (lease_Key l) z (lease_Token l))) w = (y, w1)" by fastforce
        obtain x where y: "y = Inr x" using run r owned 0 by (cases y) auto
        note 1 = 0 [unfolded y]
        have x: "x \<noteq> 0" "x \<noteq> - 1" using run r owned 0 y by auto
        have w': "\<exists>f. w' = w1\<lparr>recorder := f\<rparr>"
          using run owned 0 y x by (auto simp: store_written_def metric_def case_prod_beta Let_def)
        have "x = 1" using wpD [OF range q 1] x by simp
        then obtain v' where "quiet V v' w1" "?F v'" using wpD [OF script q 1] by blast
        then show "\<exists>v'. quiet V v' w' \<and> ?F v'" using w' by auto
      qed
    qed (auto simp: wp_def)
  qed
qed


text \<open>The controller's execution, from a job that was written as \<open>j\<close> and has no report yet.\<close>

lemma settles_Scan:
  fixes scanner :: "('s, 'z) scanner"
  assumes laws: "codec_laws C" and j: "wf_job j" "job_Key j = key" "int64 (Attempts j + 1)"
    and image: "GetImageRef req = Inr (imageRef, nonSSL)" "ToRegistryAuth (reg_Authorization (req_Registry req)) = Returned auth"
    and scan: "scan = scanner \<lparr>ir_Name = imageRef, ir_Auth = auth, ir_NonSSL = nonSSL\<rparr> (determineFormat (key_MediaType key))"
    and quiet: "\<And>u. keeps (quiet V u) scan"
    and wrote: "wrote_job C v (keyForScanJob cfg key) j" and none: "ks v (keyForScanReport cfg key) = None"
  shows "settles (scanned C cfg scan tv key req j) v (Scan (redis_store R C cfg) scanner tv l key req)"
  unfolding settles_def
proof (rule wpI, rule impI)
  let ?st = "redis_store R C cfg" and ?jk = "keyForScanJob cfg key" and ?rk = "keyForScanReport cfg key"
  let ?F = "scanned C cfg scan tv key req j"
  fix w r and w' :: "('s, 'z) world_scheme"
  assume q: "quiet V v w" and run: "run_state (Scan ?st scanner tv l key req) w = (r, w')" and r: "r = Inr ()"
  have st: "UpdateStatus ?st = store_UpdateStatus R C cfg" "UpdateReport ?st = store_UpdateReport R C cfg"
    by (simp_all add: redis_store_def)
  have status: "alone w2 \<and> (\<exists>n. wrote_job C (V (srv w2)) ?jk (with_status s ms n j')) \<and> (\<forall>k. k \<noteq> ?jk \<longrightarrow> ks (V (srv w2)) k = ks (V (srv w1)) k)"
    if "run_state (store_UpdateStatus R C cfg l key s ms) w1 = (Inr (), w2)" "alone w1" "wrote_job C (V (srv w1)) ?jk j'" "wf_job j'" "job_Key j' = key"
    for s ms j' and w1 w2 :: "('s, 'z) world_scheme"
    using wpD [OF settles_UpdateStatus [OF laws that(3,4,5), of s ms l, unfolded settles_def] alone_quiet [OF that(2)] that(1)] by simp
  obtain h w1 where 1: "run_state begin_execution w = (h, w1)" by fastforce
  then have q1: "alone w1" "V (srv w1) = v" using q by (auto simp: begin_execution_def quiet_def alone_def split: option.splits prod.splits)
  obtain e stage w2 where 2: "run_state (controller_scan ?st scanner tv l key req) w1 = ((e, stage), w2)" by (metis surj_pair)
  obtain r3 w3 where 3: "run_state (case e of None \<Rightarrow> okE () | Some err \<Rightarrow> record_failure ?st l key err) w2 = (r3, w3)" by fastforce
  have 4: "run_state (finish_execution key h (e = None) stage (failureCategory e stage)) w3 = ((), w')" "r3 = Inr ()"
    using run r 1 2 3 by (auto simp: Scan_def split: prod.splits)
  have final: "alone w' = alone w3 \<and> V (srv w') = V (srv w3)"
    using 4(1) by (auto simp: finish_execution_def Now_def metric_def alone_def split: option.splits prod.splits)
  have kept: "e \<noteq> Some (PersistenceError p)" for p
    using 3 4(2) record_failure_persistence by fastforce
  obtain ru wu where u: "run_state (store_UpdateStatus R C cfg l key Pending []) w1 = (ru, wu)" by fastforce
  have "ru = Inr ()" using 2 kept u by (cases ru) (auto simp: controller_scan_def st)
  note u = u [unfolded this]
  from status [OF u q1(1) _ j(1,2)] wrote q1(2)
  obtain m where su: "alone wu" "wrote_job C (V (srv wu)) ?jk (with_status Pending [] m j)" "\<forall>k. k \<noteq> ?jk \<longrightarrow> ks (V (srv wu)) k = ks v k"
    by auto
  let ?p = "with_status Pending [] m j"
  have p: "wf_job ?p" "job_Key ?p = key" using with_status_wf [OF j(1) _ j(3), of Pending] j(2) by (simp_all add: int64_def Pending_def)
  have rk: "ks (V (srv wu)) ?rk = None" using su(3) none by simp
  obtain rs ws where s: "run_state scan wu = (rs, ws)" by fastforce
  have sq: "alone ws" "V (srv ws) = V (srv wu)" using keepsD [OF quiet alone_quiet [OF su(1)] s] by (auto simp: quiet_def alone_def)
  show "alone w' \<and> ?F (V (srv w'))"
  proof (cases rs)
    case (Inl e0)
    then have e: "e = Some (Wrap ''running trivy wrapper'' e0)" "w2 = ws"
      using 2 u s image by (auto simp: controller_scan_def st scan)
    then have "run_state (store_UpdateStatus R C cfg l key Failed [failure_message (Wrap ''running trivy wrapper'' e0)]) ws = (Inr (), w3)"
      using 3 4(2) by (auto simp: record_failure_def st split: prod.splits sum.splits option.splits if_splits)
    from status [OF this sq(1) _ p] su(2) sq(2) rk
    obtain n where "alone w3" "wrote_job C (V (srv w3)) ?jk (with_status Failed [failure_message (Wrap ''running trivy wrapper'' e0)] n ?p)"
      "ks (V (srv w3)) ?rk = None" by auto
    then have "alone w3 \<and> ?F (V (srv w3))" unfolding scanned_def using s Inl by fastforce
    then show ?thesis using final by simp
  next
    case (Inr rep)
    obtain rr wr where rr: "run_state (store_UpdateReport R C cfg l key (Transform tv (clock ws) (key_MediaType key) req rep)) ws = (rr, wr)"
      by fastforce
    have "rr = Inr ()" using 2 kept u s image Inr rr by (cases rr) (auto simp: controller_scan_def st scan Now_def)
    note rr = rr [unfolded this]
    have sr: "alone wr" "wrote_report C (V (srv wr)) ?rk (Transform tv (clock ws) (key_MediaType key) req rep)"
      "\<forall>k. k \<noteq> ?rk \<longrightarrow> ks (V (srv wr)) k = ks (V (srv ws)) k"
      using wpD [OF settles_UpdateReport [unfolded settles_def] alone_quiet [OF sq(1)] rr] by simp_all
    obtain rf wf where f: "run_state (store_UpdateStatus R C cfg l key Finished []) wr = (rf, wf)" by fastforce
    have "rf = Inr ()" using 2 kept u s image Inr rr f by (cases rf) (auto simp: controller_scan_def st scan Now_def)
    note f = f [unfolded this]
    have "e = None" "w2 = wf" using 2 u s image Inr rr f by (auto simp: controller_scan_def st scan Now_def)
    then have w3: "w3 = wf" using 3 by simp
    have "wrote_job C (V (srv wr)) ?jk ?p" using su(2) sr(3) sq(2) wrote_cong(1) by (metis job_key_neq_report_key(1))
    from status [OF f sr(1) this p] sr(2)
    obtain n where "alone wf" "wrote_job C (V (srv wf)) ?jk (with_status Finished [] n ?p)"
      "wrote_report C (V (srv wf)) ?rk (Transform tv (clock ws) (key_MediaType key) req rep)"
      using wrote_cong(2) by (metis job_key_neq_report_key(2))
    then have "alone w3 \<and> ?F (V (srv w3))" unfolding scanned_def w3 using s Inr by fastforce
    then show ?thesis using final by simp
  qed
qed


lemma settles_sequel:
  assumes m: "settles G v m" and f: "\<And>v'. G v' \<Longrightarrow> settles F v' (f ())"
  shows "settles F v (bindE m f)"
  unfolding settles_def
proof (rule wp_bindE [OF m [unfolded settles_def]])
  fix x :: unit
  show "wp (\<lambda>w. Inr x = Inr () \<longrightarrow> alone w \<and> G (V (srv w))) (f x) (\<lambda>r w. r = Inr () \<longrightarrow> alone w \<and> F (V (srv w)))"
  proof (rule wpI)
    fix w r w'
    assume w: "Inr x = Inr () \<longrightarrow> alone w \<and> G (V (srv w))" and run: "run_state (f x) w = (r, w')"
    then have "alone w" "G (V (srv w))" by simp_all
    then show "r = Inr () \<longrightarrow> alone w' \<and> F (V (srv w'))"
      using wpD [OF f [unfolded settles_def] alone_quiet] run by simp
  qed
qed simp

text \<open>The worker's handling of a delivery whose job was written, is waiting, and has no report yet.\<close>

lemma process_scans:
  fixes scanner :: "('s, 'z) scanner"
  assumes d: "decode_delivery C msg = Some (delivery, req)" and key: "q_Key delivery = key"
    and w: "turns w = []" and free: "keys_free cfg wk (fst msg)" and unlocked: "ks (V (srv w)) (lock_key wk (fst msg)) = None"
    and laws: "codec_laws C" and j: "wf_job j" "job_Key j = key" "job_Status j = Queued" "Attempts j = 0"
    and image: "GetImageRef req = Inr (imageRef, nonSSL)" "ToRegistryAuth (reg_Authorization (req_Registry req)) = Returned auth"
    and scan: "scan = scanner \<lparr>ir_Name = imageRef, ir_Auth = auth, ir_NonSSL = nonSSL\<rparr> (determineFormat (key_MediaType key))"
    and quiet: "\<And>u. keeps (quiet V u) scan"
    and wrote: "wrote_job C (V (srv w)) (keyForScanJob cfg key) j" and none: "ks (V (srv w)) (keyForScanReport cfg key) = None"
    and run: "run_state (process R C (redis_store R C cfg) (Scan (redis_store R C cfg) scanner tv) wk msg) w = (Inr (), w')"
  shows "alone w' \<and> scanned C cfg scan tv key req j (V (srv w'))"
proof (rule process_settles [OF d w run], rule settles_locked [OF _ _ unlocked], goal_cases)
  let ?F = "scanned C cfg scan tv key req j" and ?st = "redis_store R C cfg"
  case (1 token v t claimedAt)
  let ?l = "\<lparr>lease_Key = lock_key wk (fst msg), lease_Token = t\<rparr>"
  have st: "Get ?st = store_Get R C cfg" "Acknowledge ?st = store_Acknowledge R C cfg" by (simp_all add: redis_store_def)
  have apart: "keyForScanJob cfg key \<noteq> lock_key wk (fst msg)" "keyForScanReport cfg key \<noteq> lock_key wk (fst msg)"
    "keyForScanReport cfg key \<noteq> wk_stream wk" "keyForScanJob cfg key \<noteq> wk_stream wk"
    using spec [OF free [unfolded keys_free_def], of key] by auto
  have same: "wrote_job C v (keyForScanJob cfg key) j" "ks v (keyForScanReport cfg key) = None"
    using wrote none wrote_cong(1) [OF 1 [OF apart(1)]] 1 [OF apart(2)] by simp_all
  have step: "int64 (Attempts j + 1)" using j(4) by (simp add: int64_def)
  have retire: "settles ?F v' (retire ?st wk ?l key (fst msg))" if F: "?F v'" for v'
  proof -
    have "settles ?F v' (store_Acknowledge R C cfg ?l key (wk_stream wk) workerGroup (fst msg))"
    proof (rule settles_acknowledged [OF free])
      fix v'' :: view
      assume k: "\<And>k. k \<notin> {wk_stream wk, lock_key wk (fst msg)} \<Longrightarrow> ks v'' k = ks v' k"
      show "?F v''" by (rule scanned_cong [THEN iffD2, OF _ _ F]) (use apart in \<open>auto intro!: k\<close>)
    qed
    moreover have "wp (quiet V v') (gets ctx_Err) (\<lambda>_. quiet V v')" by (rule wpI) auto
    ultimately show ?thesis
      unfolding retire_def st settles_def
      by (intro wp_bind [where R = "\<lambda>_. quiet V v'"] wp_branches) (auto simp: wp_failE)
  qed
  have "settles ?F v (bindE (Scan ?st scanner tv ?l key req) (\<lambda>_. retire ?st wk ?l key (fst msg)))"
  proof (rule settles_sequel)
    show "settles ?F v (Scan ?st scanner tv ?l key req)"
      by (rule settles_Scan [where scanner = scanner, OF laws j(1,2) step image scan quiet same])
  qed (rule retire)
  then have rest: "settles ?F v (thenM
      (if Attempts j > 0 then metric (Inc ''scan_retries_total'' [])
       else if EnqueuedAt delivery \<noteq> 0 \<and> claimedAt - EnqueuedAt delivery \<ge> 0
       then metric (Observe ''queue_wait_duration_seconds'' (Secs (claimedAt - EnqueuedAt delivery)) [fst (JobLabels key)])
       else State_Monad.return ()) (bindE (Scan ?st scanner tv ?l key req) (\<lambda>_. retire ?st wk ?l key (fst msg))))"
    by (intro settles_then keeps_if quiet_metric keeps_return)
  show ?case
    unfolding process_owned_def st key
  proof (rule settles_Get)
    fix x
    assume x: "read_as C (keyForScanJob cfg key) v x"
    obtain j' rep where "x = Some (j'\<lparr>job_Report := rep\<rparr>)" "job_stored C v (keyForScanJob cfg key) j'"
      using x same(1) by (cases x) (auto simp: read_as_def wrote_job_def)
    then have "x = Some (j\<lparr>job_Report := rep\<rparr>)" using codec_laws.wrote_job_read [OF laws same(1) j(1)] by simp
    then show "settles ?F v (case x of
       None \<Rightarrow>
         thenM (metric (Inc ''job_dispatch_total'' [''not_found'']))
           (quarantine R C wk msg (''job metadata missing for '' @ key_ID key))
     | Some j \<Rightarrow>
         if job_Status j \<noteq> Finished \<and> job_Status j \<noteq> Failed
         then if Attempts j \<ge> 3
              then bindE (UpdateStatus ?st ?l key Failed [retry_limit_message])
                     (\<lambda>_. store_Acknowledge R C cfg ?l key (wk_stream wk) workerGroup (fst msg))
              else thenM
                (if Attempts j > 0 then metric (Inc ''scan_retries_total'' [])
                 else if EnqueuedAt delivery \<noteq> 0 \<and> claimedAt - EnqueuedAt delivery \<ge> 0
                 then metric (Observe ''queue_wait_duration_seconds'' (Secs (claimedAt - EnqueuedAt delivery)) [fst (JobLabels key)])
                 else State_Monad.return ())
                (bindE (Scan ?st scanner tv ?l key req) (\<lambda>_. retire ?st wk ?l key (fst msg)))
         else retire ?st wk ?l key (fst msg))"
      using rest j(3,4) by (simp add: status_defs)
  qed
next
  case (2 token v v')
  have "keyForScanJob cfg key \<noteq> lock_key wk (fst msg)" "keyForScanReport cfg key \<noteq> lock_key wk (fst msg)"
    using spec [OF free [unfolded keys_free_def], of key] by auto
  then show ?case using scanned_cong [THEN iffD2, OF _ _ 2(2)] 2(1) by blast
qed

end

section \<open>The journey\<close>

definition stream_entries :: "string \<Rightarrow> view \<Rightarrow> entry list" where
  "stream_entries k v = (case ks v k of Some (Strm es gs) \<Rightarrow> es | _ \<Rightarrow> [])"

text \<open>What an enqueued job leaves on the server.\<close>

context redis_server begin

lemma enqueue_leaves:
  assumes "turns w = []" and "ks (V (srv w)) (keyForScanJob cfg (job_Key j)) = None"
      "ks (V (srv w)) (keyForScanReport cfg (job_Key j)) = None"
    and distinct: "stream \<noteq> keyForScanReport cfg (job_Key j)" "stream \<noteq> keyForScanJob cfg (job_Key j)"
    and run: "run_state (store_Enqueue R C cfg j stream payload) w = (Inr (), w1)"
  shows "alone w1 \<and> wrote_job C (V (srv w1)) (keyForScanJob cfg (job_Key j)) j \<and>
    ks (V (srv w1)) (keyForScanReport cfg (job_Key j)) = None \<and>
    (\<forall>msg \<in> set (stream_entries stream (V (srv w1))). fst msg \<notin> set (stream_ids stream (V (srv w))) \<longrightarrow> snd msg = [(''job'', payload)])"
proof -
  obtain z n where m: "marshalSized C (ScanJob_to_json C j) = Inr (z, n)"
  proof (cases "marshalSized C (ScanJob_to_json C j)")
    case (Inl e)
    then have False using run by (auto simp: store_Enqueue_def operation_def Now_def metric_def Let_def)
    then show ?thesis by simp
  qed (use that in auto)
  have "quiet V (V (srv w)) w" using assms(1) by (simp add: quiet_def)
  from wpD [OF wp_Enqueue [OF m] this run] obtain y v'
    where ed: "enqueue_done (keyForScanJob cfg (job_Key j)) stream z payload (V (srv w)) y v'" and q: "quiet V v' w1" by auto
  then obtain es gs i where e: "as_stream (ks (V (srv w)) stream) = Some (es, gs)"
    and v': "v' = set_effect (keyForScanJob cfg (job_Key j)) z (put_value stream (Strm (es @ [(i, [(''job'', payload)])]) gs) (V (srv w)))"
    using assms(2) by (auto simp: enqueue_done_def)
  have ids: "stream_ids stream (V (srv w)) = map fst es" by (rule stream_ids_read [OF e])
  have "stream_entries stream v' = es @ [(i, [(''job'', payload)])]"
    using distinct(2) by (simp add: stream_entries_def v' set_effect_def put_ttl_def put_value_def)
  moreover have "wrote_job C v' (keyForScanJob cfg (job_Key j)) j"
    using m by (simp add: wrote_job_def v' set_effect_def put_ttl_def put_value_def)
  moreover have "ks v' (keyForScanReport cfg (job_Key j)) = None"
    using assms(3) distinct(1) by (simp add: v' set_effect_def put_ttl_def put_value_def)
  ultimately show ?thesis using q ids by (auto simp: quiet_def alone_def)
qed

end

text \<open>The status and the body of the answer to a fetch, by the result of the scan.\<close>

definition answer_of ::
    "codec \<Rightarrow> string option \<Rightarrow> MediaType \<Rightarrow> ScanRequest \<Rightarrow> goerr + Report \<Rightarrow> Response \<Rightarrow> bool" where
  "answer_of C tv mediaType req result res \<longleftrightarrow>
     (case result of
        Inr rep \<Rightarrow> status res = Some 200 \<and>
          (\<exists>t v. ScanReport_to_json C (Transform tv t mediaType req rep) = Inr v \<and> body res = json_text C v @ [CHR 0x0A])
      | Inl e \<Rightarrow> status res = Some 500 \<and>
          body res = json_text C (Error_to_json \<lparr>HTTPCode = 500, Message = failure_message (Wrap ''running trivy wrapper'' e)\<rparr>) @ [CHR 0x0A])"

text \<open>
  An empty list of weaknesses is left out when a report is stored and read back as no list; the
  scanner's reports hold none.
\<close>

definition lists_no_empty_cwes :: "('s, 'z, Report) op \<Rightarrow> bool" where
  "lists_no_empty_cwes scan \<longleftrightarrow>
     (\<forall>w0 rep w1. run_state scan w0 = (Inr rep, w1) \<longrightarrow> (\<forall>x \<in> set (items (Vulnerabilities rep)). CweIDs x \<noteq> Some []))"

text \<open>What \<^verbatim>\<open>Get\<close> finds after the execution, and what a fetch makes of it.\<close>

lemma got_scanned:
  assumes laws: "codec_laws C" and s: "scanned C cfg scan tv key req j v" and got: "got C cfg key v found"
    and j: "wf_job j" "int64 (Attempts j + 1)"
    and tidy: "lists_no_empty_cwes scan"
  shows "\<exists>w0 r w1 j'. run_state scan w0 = (r, w1) \<and> found = Some j' \<and>
    (case r of
       Inr rep \<Rightarrow> job_Status j' = Finished \<and> (\<exists>t v. job_Report j' = Transform tv t (key_MediaType key) req rep \<and>
         ScanReport_to_json C (job_Report j') = Inr v)
     | Inl e \<Rightarrow> job_Status j' = Failed \<and> job_Error j' = failure_message (Wrap ''running trivy wrapper'' e))"
proof -
  let ?jk = "keyForScanJob cfg key" and ?rk = "keyForScanReport cfg key"
  obtain w0 r w1 m n where run: "run_state scan w0 = (r, w1)"
    and rest: "case r of
           Inr rep \<Rightarrow> wrote_job C v ?jk (with_status Finished [] n (with_status Pending [] m j)) \<and>
             (\<exists>t. wrote_report C v ?rk (Transform tv t (key_MediaType key) req rep))
         | Inl e \<Rightarrow> wrote_job C v ?jk
               (with_status Failed [failure_message (Wrap ''running trivy wrapper'' e)] n (with_status Pending [] m j)) \<and>
             ks v ?rk = None"
    using s unfolding scanned_def by blast
  have p: "wf_job (with_status Pending [] m j)" using with_status_wf [OF j(1) _ j(2)] by (simp add: int64_def Pending_def)
  have wf: "wf_job (with_status st ms n (with_status Pending [] m j))" if "st \<in> {Finished, Failed}" for st ms
  proof -
    have "with_status st ms n x = (with_status st ms n x)\<lparr>Attempts := Attempts x\<rparr>" for x
      using that by (auto simp: with_status_def Let_def status_defs)
    then show ?thesis using p that by (auto simp: with_status_def Let_def status_defs wf_job_def int64_def)
  qed
  show ?thesis
  proof (cases r)
    case (Inl e)
    let ?j = "with_status Failed [failure_message (Wrap ''running trivy wrapper'' e)] n (with_status Pending [] m j)"
    have w: "wrote_job C v ?jk ?j" "ks v ?rk = None" using rest Inl by simp_all
    have "found = Some ?j"
      using got w codec_laws.wrote_job_read [OF laws w(1) wf] by (auto simp: got_def wrote_job_def split: option.splits)
    moreover have "job_Status ?j = Failed" "job_Error ?j = failure_message (Wrap ''running trivy wrapper'' e)"
      by (simp_all add: with_status_def Let_def status_defs)
    ultimately show ?thesis using run Inl by fastforce
  next
    case (Inr rep)
    let ?j = "with_status Finished [] n (with_status Pending [] m j)"
    obtain t where w: "wrote_job C v ?jk ?j" "wrote_report C v ?rk (Transform tv t (key_MediaType key) req rep)"
      using rest Inr by auto
    have rw: "wf_report (Transform tv t (key_MediaType key) req rep)" by (rule Transform_wf) (use tidy run Inr in \<open>auto simp: lists_no_empty_cwes_def\<close>)
    have "found = Some (?j\<lparr>job_Report := Transform tv t (key_MediaType key) req rep\<rparr>)"
      using got w codec_laws.wrote_job_read [OF laws w(1) wf] codec_laws.wrote_report_read [OF laws w(2) rw]
      by (auto simp: got_def wrote_job_def wrote_report_def split: option.splits)
    moreover have "job_Status ?j = Finished" by (simp add: with_status_def Let_def status_defs)
    moreover obtain x where "ScanReport_to_json C (Transform tv t (key_MediaType key) req rep) = Inr x"
      using w(2) by (cases "ScanReport_to_json C (Transform tv t (key_MediaType key) req rep)") (auto simp: wrote_report_def marshalSized_def)
    ultimately show ?thesis using run Inr by fastforce
  qed
qed

text \<open>What an accepted request leaves for the worker: its job, no report, and a delivery that decodes to the job's key.\<close>

lemma accepted_leaves:
  assumes server: "redis_server R V" and laws: "codec_laws C"
    and h: "hd_codec h = C" "hd_Enqueue h = enqueuer_Enqueue (redis_store R C cfg) C namespace"
    and ent: "entropy w = b # bs" "12 \<le> length b" and quiet: "turns w = []"
    and request: "bindR (json_decode C (rq_Body req)) ScanRequest_of_json = Inr request"
      "job_keys (hex (take 12 b)) (with_capability request) = [k]" "wf_request (with_capability request)"
    and fresh: "ks (V (srv w)) (keyForScanJob cfg k) = None" "ks (V (srv w)) (keyForScanReport cfg k) = None"
    and accept: "run_state (AcceptScanRequest h req empty_response) w = (res, w1)" "status res = Some 202"
    and apart: "redisJobStream namespace \<noteq> keyForScanReport cfg k" "redisJobStream namespace \<noteq> keyForScanJob cfg k"
    and delivered: "msg \<in> set (stream_entries (redisJobStream namespace) (V (srv w1)))"
      "fst msg \<notin> set (stream_ids (redisJobStream namespace) (V (srv w)))"
    and mime: "supported_mime (key_MIMEType k)"
  shows "hex (take 12 b) = key_ID k \<and> wrote_job C (V (srv w1)) (keyForScanJob cfg k) (zero_ScanJob\<lparr>job_Key := k, job_Status := Queued\<rparr>) \<and>
    ks (V (srv w1)) (keyForScanReport cfg k) = None \<and>
    (\<exists>d. decode_delivery C msg = Some (d, with_capability request) \<and> q_Key d = k)"
proof -
  let ?j = "zero_ScanJob\<lparr>job_Key := k, job_Status := Queued\<rparr>" and ?req = "with_capability request" and ?stream = "redisJobStream namespace"
  let ?d = "\<lparr>EnqueuedAt = clock w, q_Name = scanArtifactJobName, q_Key = k, q_ScanRequest = Some ?req\<rparr>"
  obtain d w4 f where id: "hex (take 12 b) = key_ID k" and d: "Job_to_json C ?d = Inr d"
    and st: "run_state (store_Enqueue R C cfg ?j ?stream (json_text C d)) (w\<lparr>entropy := bs\<rparr>) = (Inr (), w4)"
    and w1: "w1 = w4\<lparr>recorder := f\<rparr>"
    using accepted_single [OF h ent request(1,2) accept] by blast
  have left: "wrote_job C (V (srv w1)) (keyForScanJob cfg k) ?j" "ks (V (srv w1)) (keyForScanReport cfg k) = None"
    "\<forall>m \<in> set (stream_entries ?stream (V (srv w1))). fst m \<notin> set (stream_ids ?stream (V (srv w))) \<longrightarrow> snd m = [(''job'', json_text C d)]"
    using redis_server.enqueue_leaves [OF server _ _ _ _ _ st] quiet fresh apart by (simp_all add: w1)
  have "Job_of_json C d = Inr ?d"
    by (rule codec_laws.Job_json_round [OF laws d]) (use mime request(3) in \<open>simp_all add: wf_key_def\<close>)
  then have "decode_delivery C msg = Some (?d, ?req)"
    using left(3) delivered by (simp add: decode_delivery_def msg_value_def codec_laws.json_round [OF laws])
  then show ?thesis using id left(1,2) by simp
qed

text \<open>
  C9. The journey of a request: a scan request that makes one job is accepted, the worker handles the
  delivery that was queued for it, and the report is fetched under the identifier of the answer. While
  nobody interferes, the fetch answers with the outcome of a run of the scanner on the image and with
  the credentials of the request: 200 with the report transformed for Harbor, or 500 with the message
  of the scanner's error; never with a pending or unknown job.
\<close>

theorem accepted_request_answered:
  fixes scanner :: "('s, 'z) scanner"
  assumes server: "redis_server R V" and laws: "codec_laws C"
    and h: "hd_codec h = C" "hd_Enqueue h = enqueuer_Enqueue (redis_store R C cfg) C namespace" "hd_Get h = store_Get R C cfg"
    and ent: "entropy w = b # bs" "12 \<le> length b" and quiet: "turns w = []"
    and request: "bindR (json_decode C (rq_Body req)) ScanRequest_of_json = Inr request"
      "job_keys (hex (take 12 b)) (with_capability request) = [k]" "wf_request (with_capability request)"
    and fresh: "ks (V (srv w)) (keyForScanJob cfg k) = None" "ks (V (srv w)) (keyForScanReport cfg k) = None"
    and accept: "run_state (AcceptScanRequest h req empty_response) w = (res, w1)" "status res = Some 202"
    and worker: "wk_stream wk = redisJobStream namespace" "keys_free cfg wk (fst msg)"
    and delivered: "msg \<in> set (stream_entries (wk_stream wk) (V (srv w1)))" "fst msg \<notin> set (stream_ids (wk_stream wk) (V (srv w)))"
    and taken: "turns w2 = []" "\<forall>x. x \<noteq> wk_stream wk \<longrightarrow> ks (V (srv w2)) x = ks (V (srv w1)) x"
      "ks (V (srv w2)) (lock_key wk (fst msg)) = None"
    and image: "GetImageRef (with_capability request) = Inr (imageRef, nonSSL)"
      "ToRegistryAuth (reg_Authorization (req_Registry (with_capability request))) = Returned auth"
    and scan: "scan = scanner \<lparr>ir_Name = imageRef, ir_Auth = auth, ir_NonSSL = nonSSL\<rparr> (determineFormat (key_MediaType k))"
      "\<And>u. keeps (quiet V u) scan"
      "lists_no_empty_cwes scan"
    and run: "run_state (process R C (redis_store R C cfg) (Scan (redis_store R C cfg) scanner tv) wk msg) w2 = (Inr (), w3)"
    and poll: "MIMEType_Parse (rq_Accept req') = Inr (key_MIMEType k)"
      "hd_decode h (rq_Query req') = Inr \<lparr>query_SBOMMediaType = key_MediaType k\<rparr>"
      "key_MIMEType k = MimeTypeSecuritySBOMReport \<longrightarrow> key_MediaType k \<noteq> []"
    and get: "run_state (store_Get R C cfg k) w3 = (Inr found, w4)"
    and fetch: "run_state (GetScanReport h (Some (hex (take 12 b))) req' empty_response) w3 = (res', w5)"
  shows "\<exists>w0 r w0'. run_state scan w0 = (r, w0') \<and> answer_of C tv (key_MediaType k) (with_capability request) r res'"
proof -
  let ?i = "hex (take 12 b)" and ?j = "zero_ScanJob\<lparr>job_Key := k, job_Status := Queued\<rparr>" and ?req = "with_capability request"
  have apart: "redisJobStream namespace \<noteq> keyForScanReport cfg k" "redisJobStream namespace \<noteq> keyForScanJob cfg k"
    using spec [OF worker(2) [unfolded keys_free_def], of k] worker(1) by auto
  have mime: "supported_mime (key_MIMEType k)" using MIMEType_Parse_supported poll(1) .
  have wf: "wf_job ?j"
    using mime by (simp add: wf_job_def wf_key_def zero_ScanJob_def int64_def Queued_def zero_Report_def wf_report_def valid_severity_def)
  obtain d where id: "?i = key_ID k" and left: "wrote_job C (V (srv w1)) (keyForScanJob cfg k) ?j" "ks (V (srv w1)) (keyForScanReport cfg k) = None"
    and decode: "decode_delivery C msg = Some (d, ?req)" "q_Key d = k"
    using accepted_leaves [OF server laws h(1,2) ent quiet request fresh accept apart delivered [unfolded worker(1)] mime] by blast
  have before: "wrote_job C (V (srv w2)) (keyForScanJob cfg k) ?j" "ks (V (srv w2)) (keyForScanReport cfg k) = None"
    using left(1,2) taken(2) apart worker(1) wrote_cong(1) by metis+
  have answered: "alone w3 \<and> scanned C cfg scan tv k ?req ?j (V (srv w3))"
    by (rule redis_server.process_scans [OF server decode taken(1) worker(2) taken(3) laws wf _ _ _ image scan(1,2) before run])
      (simp_all add: zero_ScanJob_def)
  then have got: "got C cfg k (V (srv w3)) found"
    using wpD [OF redis_server.wp_Get_exact [OF server] alone_quiet get] by blast
  have "int64 (Attempts ?j + 1)" by (simp add: zero_ScanJob_def int64_def)
  from got_scanned [OF laws conjunct2 [OF answered] got wf this scan(3)] obtain w0 r w0' j' where r: "run_state scan w0 = (r, w0')" and found: "found = Some j'"
    and j': "case r of
       Inr rep \<Rightarrow> job_Status j' = Finished \<and> (\<exists>t v. job_Report j' = Transform tv t (key_MediaType k) ?req rep \<and>
         ScanReport_to_json C (job_Report j') = Inr v)
     | Inl e \<Rightarrow> job_Status j' = Failed \<and> job_Error j' = failure_message (Wrap ''running trivy wrapper'' e)"
    by (elim exE conjE) blast+
  have key: "\<lparr>key_ID = ?i, key_MIMEType = key_MIMEType k, key_MediaType = query_SBOMMediaType \<lparr>query_SBOMMediaType = key_MediaType k\<rparr>\<rparr> = k"
    unfolding id by simp
  have "key_MIMEType k = MimeTypeSecuritySBOMReport \<longrightarrow> query_SBOMMediaType \<lparr>query_SBOMMediaType = key_MediaType k\<rparr> \<noteq> []" using poll(3) by simp
  from fetch_answers [OF poll(1,2) this _ fetch, unfolded key h(3), OF get]
  have ans: "status res' = Some (report_status found)"
    "\<And>v. job_Status j' = Finished \<Longrightarrow> ScanReport_to_json C (job_Report j') = Inr v \<Longrightarrow> body res' = json_text C v @ [CHR 0x0A]"
    "job_Status j' = Failed \<Longrightarrow> body res' = json_text C (Error_to_json \<lparr>HTTPCode = 500, Message = job_Error j'\<rparr>) @ [CHR 0x0A]"
    using found h(1) by auto
  have "answer_of C tv (key_MediaType k) ?req r res'"
    using ans j' found by (cases r) (fastforce simp: answer_of_def report_status_def status_defs)+
  then show ?thesis using r by blast
qed

text \<open>A request whose scan finds one vulnerability.\<close>

definition ex_journey_world :: "ref world" where
  "ex_journey_world = ex_world\<lparr>clock := 5, entropy := [replicate 12 CHR ''a'', replicate 12 CHR ''b'']\<rparr>"

definition ex_journey_worker :: worker where
  "ex_journey_worker = \<lparr>wk_stream = redisJobStream ''q'', wk_consumer = ''c'', leaseDuration = 60 * 10 ^ 9\<rparr>"

definition ex_found :: Report where
  "ex_found = \<lparr>SBOM = JNull, Vulnerabilities = Some [ex_vulnerability]\<rparr>"

abbreviation ex_req where "ex_req \<equiv> with_capability Handler_Spec.ex_request"

abbreviation ex_final :: ScanReport where "ex_final \<equiv> Transform None 5 [] ex_req ex_found"

lemma small_text:
  "(case x of Inr v \<Rightarrow> ilen (json_text ref_codec v) \<le> 10000 | Inl e \<Rightarrow> False) \<Longrightarrow>
   \<exists>z n. marshalSized ref_codec x = Inr (z, n) \<and> n \<le> maxDecompressedSize"
  by (auto simp: marshalSized_def Let_def ilen_length ref_codec_def maxDecompressedSize_def split: sum.splits)

lemma ex_journey_texts:
  "case ScanJob_to_json ref_codec ex_queued of Inr v \<Rightarrow> ilen (json_text ref_codec v) \<le> 10000 | Inl e \<Rightarrow> False"
  "case ScanJob_to_json ref_codec (with_status Pending [] 5 ex_queued) of Inr v \<Rightarrow> ilen (json_text ref_codec v) \<le> 10000 | Inl e \<Rightarrow> False"
  "case ScanJob_to_json ref_codec (with_status Finished [] 5 (with_status Pending [] 5 ex_queued)) of
     Inr v \<Rightarrow> ilen (json_text ref_codec v) \<le> 10000 | Inl e \<Rightarrow> False"
  "case ScanReport_to_json ref_codec ex_final of Inr v \<Rightarrow> ilen (json_text ref_codec v) \<le> 10000 | Inl e \<Rightarrow> False"
  by code_simp+

lemma ex_image: "GetImageRef ex_req = Inr (''r:443/p/i@sha256:d'', False)"
  by code_simp

lemma ex_journey_accepted:
  "\<exists>res w1 p. run_state (AcceptScanRequest ex_handler ex_post empty_response) ex_journey_world = (res, w1) \<and> status res = Some 202 \<and>
     decode_delivery ref_codec (fresh_id [], [(''job'', p)]) =
       Some (\<lparr>EnqueuedAt = 5, q_Name = scanArtifactJobName, q_Key = ex_id_key, q_ScanRequest = Some ex_req\<rparr>, ex_req) \<and>
     (\<exists>z n. marshalSized ref_codec (ScanJob_to_json ref_codec ex_queued) = Inr (z, n) \<and> n \<le> maxDecompressedSize \<and>
       idle (set_effect (keyForScanJob ex_cfg ex_id_key) z (put_value (redisJobStream ''q'') (Strm [(fresh_id [], [(''job'', p)])] []) (rv ex_server)))
         [replicate 12 CHR ''b''] w1)"
proof -
  let ?w = "ex_journey_world\<lparr>entropy := [replicate 12 CHR ''b'']\<rparr>"
  let ?job = "\<lparr>EnqueuedAt = 5, q_Name = scanArtifactJobName, q_Key = ex_id_key, q_ScanRequest = Some ex_req\<rparr>"
  have token: "run_state makeIdentifier ex_journey_world = (ex_id, ?w)"
    by (simp add: makeIdentifier_def ex_journey_world_def ex_world_def world_of_def ex_id_def)
  have i: "idle (rv ex_server) [replicate 12 CHR ''b''] ?w"
    by (simp add: idle_def ex_journey_world_def ex_world_def world_of_def ex_server_def)
  obtain z n where z: "marshalSized ref_codec (ScanJob_to_json ref_codec ex_queued) = Inr (z, n)" "n \<le> maxDecompressedSize"
    using small_text [OF ex_journey_texts(1)] by blast
  obtain d where d: "Job_to_json ref_codec ?job = Inr d" by (auto simp: Job_to_json_def ref_codec_def)
  have fresh: "ks (rv ex_server) x = None" for x by (simp add: ex_server_def)
  have key: "job_Key ex_queued = ex_id_key" by simp
  obtain w1 where 1: "run_state (store_Enqueue ref_redis ref_codec ex_cfg ex_queued (redisJobStream ''q'') (json_text ref_codec d)) ?w = (Inr (), w1)"
    and i1: "idle (set_effect (keyForScanJob ex_cfg ex_id_key) z
      (put_value (redisJobStream ''q'') (Strm [(fresh_id [], [(''job'', json_text ref_codec d)])] []) (rv ex_server))) [replicate 12 CHR ''b''] w1"
    using idle_Enqueue [OF i z(1), of ex_cfg "redisJobStream ''q''" "json_text ref_codec d"] fresh key by auto
  have "w1\<lparr>recorder := None\<rparr> = w1" "clock ?w = 5" using i1 i by (simp_all add: idle_def)
  then have "run_state (enqueue_keys (redis_store ref_redis ref_codec ex_cfg) ref_codec ''q'' ex_req [ex_id_key]) ?w = (Inr (), w1)"
    using 1 i1 by (simp add: enqueue_one_def Now_def d redis_store_def metric_def case_prod_beta idle_def)
  moreover have "items (req_Capabilities ex_req) \<noteq> []" by (simp add: with_capability_def)
  ultimately have "run_state (enqueuer_Enqueue (redis_store ref_redis ref_codec ex_cfg) ref_codec ''q'' ex_req) ex_journey_world = (Inr ex_id, w1)"
    using token ex_keys [of ex_id, folded ex_id_key_def] by (simp add: enqueuer_Enqueue_def)
  moreover have "hd_codec ex_handler = ref_codec" "hd_Enqueue ex_handler = enqueuer_Enqueue (redis_store ref_redis ref_codec ex_cfg) ref_codec ''q''"
    by (simp_all add: ex_handler_def)
  ultimately obtain res where "run_state (AcceptScanRequest ex_handler ex_post empty_response) ex_journey_world = (res, w1)" "status res = Some 202"
    by (simp add: AcceptScanRequest_def ex_post_decodes ex_request_valid Let_def)
  moreover have "wf_request ex_req"
    by (simp add: wf_request_def with_capability_def Handler_Spec.ex_request_def default_capability_def wf_capability_def supported_mime_def)
  then have "Job_of_json ref_codec d = Inr ?job"
    by (intro refc.Job_json_round [OF d]) (simp_all add: ex_id_key_def wf_key_def supported_mime_def)
  then have "decode_delivery ref_codec (fresh_id [], [(''job'', json_text ref_codec d)]) = Some (?job, ex_req)"
    by (simp add: decode_delivery_def msg_value_def refc.json_round)
  ultimately show ?thesis using z i1 by blast
qed

lemma ex_apart: "keys_free ex_cfg ex_journey_worker i"
  by (simp add: keys_free_def keyForScanJob_def keyForScanReport_def ex_cfg_def ex_journey_worker_def redisJobStream_def lock_key_def)

text \<open>The delivery of the example is handled, and its job found with the report.\<close>

lemma ex_journey_handled:
  assumes i: "idle (set_effect (keyForScanJob ex_cfg ex_id_key) z (put_value (redisJobStream ''q'') (Strm [(fresh_id [], [(''job'', p)])] []) (rv ex_server)))
        [replicate 12 CHR ''b''] w1"
    and z: "marshalSized ref_codec (ScanJob_to_json ref_codec ex_queued) = Inr (z, n)" "n \<le> maxDecompressedSize"
    and decode: "decode_delivery ref_codec (fresh_id [], [(''job'', p)]) = Some (delivery, ex_req)" "q_Key delivery = ex_id_key"
  shows "\<exists>w3 j w4. run_state (process ref_redis ref_codec (redis_store ref_redis ref_codec ex_cfg)
        (Scan (redis_store ref_redis ref_codec ex_cfg) (\<lambda>_ _. okE ex_found) None) ex_journey_worker (fresh_id [], [(''job'', p)])) w1 = (Inr (), w3) \<and>
     run_state (store_Get ref_redis ref_codec ex_cfg ex_id_key) w3 = (Inr (Some j), w4)"
proof -
  let ?v = "set_effect (keyForScanJob ex_cfg ex_id_key) z (put_value (redisJobStream ''q'') (Strm [(fresh_id [], [(''job'', p)])] []) (rv ex_server))"
  let ?st = "redis_store ref_redis ref_codec ex_cfg" and ?f = "with_status Finished [] 5 (with_status Pending [] 5 ex_queued)"
  have apart: "redisJobStream ''q'' \<noteq> keyForScanJob ex_cfg k" "redisJobStream ''q'' \<noteq> keyForScanReport ex_cfg k"
    "lock_key ex_journey_worker i \<noteq> redisJobStream ''q''"
    "lock_key ex_journey_worker i \<notin> {keyForScanJob ex_cfg k, keyForScanReport ex_cfg k}" "lock_key ex_journey_worker i \<noteq> []" for k i
    by (simp_all add: keyForScanJob_def keyForScanReport_def ex_cfg_def ex_journey_worker_def redisJobStream_def lock_key_def)
  have wf: "wf_job ex_queued"
    by (simp add: wf_job_def wf_key_def zero_ScanJob_def int64_def Queued_def zero_Report_def wf_report_def valid_severity_def
        ex_id_key_def supported_mime_def)
  obtain data where d: "decompress ref_codec z = Inr data" "unmarshal_job ref_codec data = Inr ex_queued"
    using codec_laws.stored_job_read [OF refc.codec_laws_axioms z wf] .
  have at_start: "job_stored ref_codec ?v (keyForScanJob ex_cfg ex_id_key) ex_queued" "ks ?v (lock_key ex_journey_worker i) = None"
    "ks ?v (wk_stream ex_journey_worker) = Some (Strm [(fresh_id [], [(''job'', p)])] [])" "ks ?v (keyForScanReport ex_cfg ex_id_key) = None" for i
    using d apart apart(1,2) [THEN not_sym]
    by (auto simp: job_stored_def set_effect_def put_ttl_def put_value_def ex_server_def) (simp add: ex_journey_worker_def)
  obtain z1 n1 z2 n2 z3 n3 where m:
    "marshalSized ref_codec (ScanJob_to_json ref_codec (with_status Pending [] 5 ex_queued)) = Inr (z1, n1)" "n1 \<le> maxDecompressedSize"
    "marshalSized ref_codec (ScanJob_to_json ref_codec ?f) = Inr (z2, n2)" "n2 \<le> maxDecompressedSize"
    "marshalSized ref_codec (ScanReport_to_json ref_codec ex_final) = Inr (z3, n3)" "n3 \<le> maxDecompressedSize"
    using small_text [OF ex_journey_texts(2)] small_text [OF ex_journey_texts(3)] small_text [OF ex_journey_texts(4)] by blast
  have key: "key_MediaType ex_id_key = []" by (simp add: ex_id_key_def)
  have report: "wf_report ex_final"
    by (rule Transform_wf) (simp add: ex_found_def ex_vulnerability_def zero_Vulnerability_def)
  have auth: "ToRegistryAuth (reg_Authorization (req_Registry ex_req)) = Returned NoAuth"
    by (simp add: ToRegistryAuth_def with_capability_def Handler_Spec.ex_request_def)
  have q: "job_Key ex_queued = ex_id_key" "job_Status ex_queued = Queued" "Attempts ex_queued = 0" "int64 (Attempts ex_queued + 1)"
    by (simp_all add: zero_ScanJob_def int64_def)
  have exec: "\<exists>w' v''. run_state (Scan ?st (\<lambda>_ _. okE ex_found) None l ex_id_key ex_req) w = (Inr (), w') \<and> idle v'' e w' \<and>
      job_stored ref_codec v'' (keyForScanJob ex_cfg ex_id_key) ?f \<and> report_stored ref_codec v'' (keyForScanReport ex_cfg ex_id_key) ex_final \<and>
      (\<forall>k. k \<notin> {keyForScanJob ex_cfg ex_id_key, keyForScanReport ex_cfg ex_id_key} \<longrightarrow> ks v'' k = ks v' k)"
    if "idle v' e w" "job_stored ref_codec v' (keyForScanJob ex_cfg ex_id_key) ex_queued" "held l v'"
      "lease_Key l = lock_key ex_journey_worker (fst (fresh_id [], [(''job'', p)]))" "lease_Token l \<noteq> []"
      "ks v' (keyForScanReport ex_cfg ex_id_key) = None" for l v' e w
  proof -
    have l: "lease_Key l \<noteq> []" "lease_Key l \<notin> {keyForScanJob ex_cfg ex_id_key, keyForScanReport ex_cfg ex_id_key}"
      using that(4) apart(4,5) by simp_all
    show ?thesis
      by (rule idle_Scan [where scanner = "\<lambda>_ _. okE ex_found" and key = ex_id_key and tv = None and rep = ex_found, unfolded key,
            OF that(1,2) q(1) wf q(4) that(3) l(1) that(5) l(2) that(6) ex_image auth refl m report])
  qed
  have b: "12 \<le> length (replicate 12 CHR ''b'')" by simp
  have "\<exists>w3 v3. run_state (process ref_redis ref_codec ?st (Scan ?st (\<lambda>_ _. okE ex_found) None) ex_journey_worker
      (fresh_id [], [(''job'', p)])) w1 = (Inr (), w3) \<and> idle v3 [] w3 \<and>
    job_stored ref_codec v3 (keyForScanJob ex_cfg ex_id_key) ?f \<and> report_stored ref_codec v3 (keyForScanReport ex_cfg ex_id_key) ex_final"
  proof (rule idle_process [OF i b decode at_start(1) q(1) wf q(2,3) ex_apart at_start(2-4)], goal_cases)
    case (1 l v' e w)
    then show ?case by (rule exec)
  qed (rule with_status_fields(1))
  then obtain w3 v3 where 3: "run_state (process ref_redis ref_codec ?st (Scan ?st (\<lambda>_ _. okE ex_found) None) ex_journey_worker
      (fresh_id [], [(''job'', p)])) w1 = (Inr (), w3)" "idle v3 [] w3"
    "job_stored ref_codec v3 (keyForScanJob ex_cfg ex_id_key) ?f" "report_stored ref_codec v3 (keyForScanReport ex_cfg ex_id_key) ex_final"
    by (elim exE conjE)
  from idle_Get_report [OF 3(2-4)] 3(1) show ?thesis by blast
qed

theorem accepted_request_answered_witness:
  "\<exists>res w1 msg w3 res' w5. run_state (AcceptScanRequest ex_handler ex_post empty_response) ex_journey_world = (res, w1) \<and> status res = Some 202 \<and>
     run_state (process ref_redis ref_codec (redis_store ref_redis ref_codec ex_cfg)
        (Scan (redis_store ref_redis ref_codec ex_cfg) (\<lambda>_ _. okE ex_found) None) ex_journey_worker msg) w1 = (Inr (), w3) \<and>
     run_state (GetScanReport ex_handler (Some ex_id) ex_fetch empty_response) w3 = (res', w5) \<and>
     answer_of ref_codec None [] ex_req (Inr ex_found) res'"
proof -
  let ?b = "replicate 12 CHR ''a''"
  obtain res w1 p z n where accept: "run_state (AcceptScanRequest ex_handler ex_post empty_response) ex_journey_world = (res, w1)" "status res = Some 202"
    and decode: "decode_delivery ref_codec (fresh_id [], [(''job'', p)]) =
       Some (\<lparr>EnqueuedAt = 5, q_Name = scanArtifactJobName, q_Key = ex_id_key, q_ScanRequest = Some ex_req\<rparr>, ex_req)"
    and z: "marshalSized ref_codec (ScanJob_to_json ref_codec ex_queued) = Inr (z, n)" "n \<le> maxDecompressedSize"
    and i: "idle (set_effect (keyForScanJob ex_cfg ex_id_key) z (put_value (redisJobStream ''q'') (Strm [(fresh_id [], [(''job'', p)])] []) (rv ex_server)))
         [replicate 12 CHR ''b''] w1"
    using ex_journey_accepted by blast
  let ?msg = "(fresh_id [], [(''job'', p)])"
  obtain w3 j w4 where run: "run_state (process ref_redis ref_codec (redis_store ref_redis ref_codec ex_cfg)
        (Scan (redis_store ref_redis ref_codec ex_cfg) (\<lambda>_ _. okE ex_found) None) ex_journey_worker ?msg) w1 = (Inr (), w3)"
    and get: "run_state (store_Get ref_redis ref_codec ex_cfg ex_id_key) w3 = (Inr (Some j), w4)"
    using ex_journey_handled [OF i z decode] by auto
  have h: "hd_codec ex_handler = ref_codec" "hd_Enqueue ex_handler = enqueuer_Enqueue (redis_store ref_redis ref_codec ex_cfg) ref_codec ''q''"
    "hd_Get ex_handler = store_Get ref_redis ref_codec ex_cfg" by (simp_all add: ex_handler_def)
  have ent: "entropy ex_journey_world = ?b # [replicate 12 CHR ''b'']" "12 \<le> length ?b" "turns ex_journey_world = []"
    by (simp_all add: ex_journey_world_def ex_world_def world_of_def)
  have id: "hex (take 12 ?b) = ex_id" unfolding ex_id_def by (rule arg_cong) simp
  have keys: "job_keys (hex (take 12 ?b)) ex_req = [ex_id_key]" unfolding id by (simp add: ex_keys ex_id_key_def)
  have wf: "wf_request ex_req"
    by (simp add: wf_request_def with_capability_def Handler_Spec.ex_request_def default_capability_def wf_capability_def supported_mime_def)
  have fresh: "ks (rv (srv ex_journey_world)) x = None" for x by (simp add: ex_journey_world_def ex_world_def world_of_def ex_server_def)
  have wk: "wk_stream ex_journey_worker = redisJobStream ''q''" by (simp add: ex_journey_worker_def)
  have apart: "redisJobStream ''q'' \<noteq> keyForScanJob ex_cfg k" "lock_key ex_journey_worker x \<noteq> keyForScanJob ex_cfg k"
    "lock_key ex_journey_worker x \<noteq> redisJobStream ''q''" for k x
    by (simp_all add: keyForScanJob_def ex_cfg_def ex_journey_worker_def redisJobStream_def lock_key_def)
  have stream: "?msg \<in> set (stream_entries (wk_stream ex_journey_worker) (rv (srv w1)))"
    "fst ?msg \<notin> set (stream_ids (wk_stream ex_journey_worker) (rv (srv ex_journey_world)))"
    "turns w1 = []" "ks (rv (srv w1)) (lock_key ex_journey_worker (fst ?msg)) = None"
    using i apart by (simp_all add: idle_def stream_entries_def stream_ids_def set_effect_def put_ttl_def put_value_def fresh wk ex_server_def)
  have auth: "ToRegistryAuth (reg_Authorization (req_Registry ex_req)) = Returned NoAuth"
    by (simp add: ToRegistryAuth_def with_capability_def Handler_Spec.ex_request_def)
  have poll: "MIMEType_Parse (rq_Accept ex_fetch) = Inr (key_MIMEType ex_id_key)"
    "hd_decode ex_handler (rq_Query ex_fetch) = Inr \<lparr>query_SBOMMediaType = key_MediaType ex_id_key\<rparr>"
    "key_MIMEType ex_id_key = MimeTypeSecuritySBOMReport \<longrightarrow> key_MediaType ex_id_key \<noteq> []"
    by (simp_all add: ex_fetch_def MIMEType_Parse_def ex_id_key_def ex_handler_def mime_defs)
  have tidy: "lists_no_empty_cwes (okE ex_found :: (ref, unit, Report) op)"
    by (simp add: lists_no_empty_cwes_def ex_found_def ex_vulnerability_def zero_Vulnerability_def)
  obtain res' w5 where fetch: "run_state (GetScanReport ex_handler (Some (hex (take 12 ?b))) ex_fetch empty_response) w3 = (res', w5)" by fastforce
  have "\<exists>w0 r w0'. run_state (okE ex_found :: (ref, unit, Report) op) w0 = (r, w0') \<and>
      answer_of ref_codec None (key_MediaType ex_id_key) ex_req r res'"
    by (rule accepted_request_answered [where scanner = "\<lambda>_ _. okE ex_found" and scan = "okE ex_found",
          OF ref.redis_server_axioms refc.codec_laws_axioms h ent ex_post_decodes keys wf fresh fresh accept wk ex_apart stream(1,2,3) _ stream(4)
             ex_image auth refl keeps_okE tidy run poll get fetch]) simp
  then have "answer_of ref_codec None [] ex_req (Inr ex_found) res'" by (simp add: ex_id_key_def)
  then show ?thesis using accept run fetch unfolding id by blast
qed

end
