(* ===== verification/Checker.thy ===== *)
theory Checker
  imports Ref_Host
begin

text \<open>
  \<^verbatim>\<open>pkg/etc/checker.go\<close>: what the adapter makes sure of before it starts. \<^verbatim>\<open>os.Stat\<close> and
  \<^verbatim>\<open>os.MkdirAll\<close> are the host's. A call returns, fails, or panics.
\<close>

section \<open>The check\<close>

type_synonym ('s, 'z, 'a) attempt = "(('s, 'z) world_scheme, 'a outcome_of) state"

definition bindO :: "('s, 'z, 'a) attempt \<Rightarrow> ('a \<Rightarrow> ('s, 'z, 'b) attempt) \<Rightarrow> ('s, 'z, 'b) attempt" where
  "bindO m f =
     State_Monad.bind m (\<lambda>r.
     case r of
       Returned x \<Rightarrow> f x
     | Err e \<Rightarrow> State_Monad.return (Err e)
     | Panic msg \<Rightarrow> State_Monad.return (Panic msg))"

text \<open>
  The file information of a failed \<^verbatim>\<open>Stat\<close> is nil: calling a method of it panics. Only the error that the
  file does not exist is looked for before.
\<close>

definition nil_info :: string where
  "nil_info = ''runtime error: invalid memory address or nil pointer dereference''"

definition dirExists :: "('s, 'z) host \<Rightarrow> string \<Rightarrow> ('s, 'z, bool) attempt" where
  "dirExists H name =
     State_Monad.bind (os_Stat H name) (\<lambda>info.
     State_Monad.return
       (case info of
          NotExist \<Rightarrow> Returned False
        | StatErr e \<Rightarrow> Panic nil_info
        | IsDir \<Rightarrow> Returned True
        | IsFile \<Rightarrow> Returned False))"

definition fileExists :: "('s, 'z) host \<Rightarrow> string \<Rightarrow> ('s, 'z, bool) attempt" where
  "fileExists H name =
     State_Monad.bind (os_Stat H name) (\<lambda>info.
     State_Monad.return
       (case info of
          NotExist \<Rightarrow> Returned False
        | StatErr e \<Rightarrow> Panic nil_info
        | IsDir \<Rightarrow> Returned False
        | IsFile \<Rightarrow> Returned True))"

definition ENOENT :: nat where "ENOENT = 2"

definition ensureDirExists :: "('s, 'z) host \<Rightarrow> string \<Rightarrow> string \<Rightarrow> ('s, 'z, unit) attempt" where
  "ensureDirExists H path description =
     bindO (dirExists H path) (\<lambda>found.
     bindO
       (if \<not> found
        then State_Monad.bind (os_MkdirAll H path) (\<lambda>r.
          State_Monad.return (case r of Inl err \<Rightarrow> Err (Wrap (''creating '' @ description) err) | Inr _ \<Rightarrow> Returned ()))
        else State_Monad.return (Returned ())) (\<lambda>_.
     State_Monad.bind (os_Stat H path) (\<lambda>fi.
     State_Monad.return
       (case fi of
          NotExist \<Rightarrow> Err (Wrap (''stat '' @ path) (Errno ENOENT))
        | StatErr err \<Rightarrow> Err err
        | _ \<Rightarrow> Returned ()))))"

definition require_file :: "('s, 'z) host \<Rightarrow> string \<Rightarrow> string \<Rightarrow> ('s, 'z, unit) attempt" where
  "require_file H what path =
     bindO (fileExists H path) (\<lambda>found.
     State_Monad.return (if \<not> found then Err (ErrText (what @ '' file does not exist: '' @ path)) else Returned ()))"

fun require_CAs :: "('s, 'z) host \<Rightarrow> string list \<Rightarrow> ('s, 'z, unit) attempt" where
  "require_CAs H [] = State_Monad.return (Returned ())"
| "require_CAs H (path # paths) = bindO (require_file H ''ClientCA'' path) (\<lambda>_. require_CAs H paths)"

definition Check :: "('s, 'z) host \<Rightarrow> Config \<Rightarrow> ('s, 'z, unit) attempt" where
  "Check H config =
     (if CacheDir (c_Trivy config) = [] then State_Monad.return (Err (ErrText ''trivy cache dir must not be blank''))
      else if ReportsDir (c_Trivy config) = [] then State_Monad.return (Err (ErrText ''trivy reports dir must not be blank''))
      else
        bindO (ensureDirExists H (CacheDir (c_Trivy config)) ''trivy cache dir'') (\<lambda>_.
        bindO (ensureDirExists H (ReportsDir (c_Trivy config)) ''trivy reports dir'') (\<lambda>_.
        if IsTLSEnabled (c_API config)
        then
          bindO (require_file H ''TLS certificate'' (TLSCertificate (c_API config))) (\<lambda>_.
          bindO (require_file H ''TLS private key'' (TLSKey (c_API config))) (\<lambda>_.
          require_CAs H (ClientCAs (c_API config))))
        else State_Monad.return (Returned ()))))"

section \<open>What a passed check means\<close>

text \<open>
  \<open>at_path w p\<close> is what is at a path. \<^verbatim>\<open>Stat\<close> tells it and changes nothing; a \<^verbatim>\<open>MkdirAll\<close> that succeeds
  leaves a directory at its path, and neither outcome takes a file or a directory away.
\<close>

locale path_laws =
  fixes H :: "('s, 'z) host" and at_path :: "('s, 'z) world_scheme \<Rightarrow> string \<Rightarrow> stat"
  assumes stat: "run_state (os_Stat H p) w = (at_path w p, w)"
    and mkdir: "run_state (os_MkdirAll H p) w = (r, w') \<Longrightarrow> r = Inr () \<Longrightarrow> at_path w' p = IsDir"
    and mkdir_keeps: "run_state (os_MkdirAll H p) w = (r, w') \<Longrightarrow> at_path w q \<in> {IsDir, IsFile} \<Longrightarrow> at_path w' q = at_path w q"

text \<open>What a step that returns establishes, and that it takes nothing away.\<close>

definition ensures :: "(('s, 'z) world_scheme \<Rightarrow> string \<Rightarrow> stat) \<Rightarrow> (string \<times> stat) set \<Rightarrow> ('s, 'z, unit) attempt \<Rightarrow> bool" where
  "ensures at_path S m \<longleftrightarrow>
     (\<forall>w. case run_state m w of (r, w') \<Rightarrow>
        (\<forall>q. at_path w q \<in> {IsDir, IsFile} \<longrightarrow> at_path w' q = at_path w q) \<and>
        (r = Returned () \<longrightarrow> (\<forall>(q, k) \<in> S. at_path w' q = k)))"

lemma ensures_bindO:
  assumes "ensures at_path S m" "ensures at_path T n" "\<forall>(q, k) \<in> S. k \<in> {IsDir, IsFile}"
  shows "ensures at_path (S \<union> T) (bindO m (\<lambda>_. n))"
  unfolding ensures_def
proof
  fix w
  obtain r w1 where m: "run_state m w = (r, w1)" by fastforce
  obtain r' w2 where n: "run_state n w1 = (r', w2)" by fastforce
  have 1: "\<forall>q. at_path w q \<in> {IsDir, IsFile} \<longrightarrow> at_path w1 q = at_path w q" "r = Returned () \<Longrightarrow> \<forall>(q, k) \<in> S. at_path w1 q = k"
    using spec [OF assms(1) [unfolded ensures_def], of w] m by auto
  have 2: "\<forall>q. at_path w1 q \<in> {IsDir, IsFile} \<longrightarrow> at_path w2 q = at_path w1 q" "r' = Returned () \<Longrightarrow> \<forall>(q, k) \<in> T. at_path w2 q = k"
    using spec [OF assms(2) [unfolded ensures_def], of w1] n by auto
  show "case run_state (bindO m (\<lambda>_. n)) w of (r, w') \<Rightarrow>
      (\<forall>q. at_path w q \<in> {IsDir, IsFile} \<longrightarrow> at_path w' q = at_path w q) \<and> (r = Returned () \<longrightarrow> (\<forall>(q, k) \<in> S \<union> T. at_path w' q = k))"
    using m n 1 2 assms(3) by (cases r) (fastforce simp: bindO_def)+
qed

lemma ensures_return: "r \<noteq> Returned () \<or> S = {} \<Longrightarrow> ensures at_path S (State_Monad.return r)"
  by (auto simp: ensures_def)

context path_laws begin

lemma ensures_dir: "ensures at_path {(path, IsDir)} (ensureDirExists H path description)"
  unfolding ensures_def
proof
  fix w
  obtain r w1 where mk: "run_state (os_MkdirAll H path) w = (r, w1)" by fastforce
  note facts = mkdir [OF mk] mkdir_keeps [OF mk]
  show "case run_state (ensureDirExists H path description) w of (r, w') \<Rightarrow>
      (\<forall>q. at_path w q \<in> {IsDir, IsFile} \<longrightarrow> at_path w' q = at_path w q) \<and>
      (r = Returned () \<longrightarrow> (\<forall>(q, k) \<in> {(path, IsDir)}. at_path w' q = k))"
    using facts by (cases "at_path w path"; cases r)
      (auto simp: ensureDirExists_def dirExists_def bindO_def stat mk split: stat.splits)
qed

lemma ensures_file: "ensures at_path {(path, IsFile)} (require_file H what path)"
  by (auto simp: ensures_def require_file_def fileExists_def bindO_def stat split: stat.splits)

lemma ensures_CAs: "ensures at_path ((\<lambda>p. (p, IsFile)) ` set paths) (require_CAs H paths)"
proof (induction paths)
  case (Cons p paths)
  from ensures_bindO [OF ensures_file this] show ?case by simp
qed (simp add: ensures_return)

lemma ensures_Check:
  assumes "run_state (Check H config) w = (Returned (), w')"
  shows "CacheDir (c_Trivy config) \<noteq> [] \<and> ReportsDir (c_Trivy config) \<noteq> [] \<and>
     at_path w' (CacheDir (c_Trivy config)) = IsDir \<and> at_path w' (ReportsDir (c_Trivy config)) = IsDir \<and>
     (IsTLSEnabled (c_API config) \<longrightarrow>
        (\<forall>p \<in> {TLSCertificate (c_API config), TLSKey (c_API config)} \<union> set (ClientCAs (c_API config)). at_path w' p = IsFile))"
proof -
  let ?cache = "CacheDir (c_Trivy config)" and ?reports = "ReportsDir (c_Trivy config)" and ?api = "c_API config"
  have ne: "?cache \<noteq> []" "?reports \<noteq> []" using assms by (auto simp: Check_def split: if_splits)
  let ?tls = "{(TLSCertificate ?api, IsFile)} \<union> ({(TLSKey ?api, IsFile)} \<union> (\<lambda>p. (p, IsFile)) ` set (ClientCAs ?api))"
  have "ensures at_path ({(?cache, IsDir)} \<union> ({(?reports, IsDir)} \<union> (if IsTLSEnabled ?api then ?tls else {}))) (Check H config)"
    unfolding Check_def using ne
    by (cases "IsTLSEnabled ?api")
      (simp_all only: if_True if_False simp_thms,
       (intro ensures_bindO ensures_dir ensures_file ensures_CAs ensures_return; simp)+)
  from spec [OF this [unfolded ensures_def], of w] assms
  have "\<forall>(q, k) \<in> {(?cache, IsDir)} \<union> ({(?reports, IsDir)} \<union> (if IsTLSEnabled ?api then ?tls else {})). at_path w' q = k"
    by simp
  then show ?thesis using ne by (cases "IsTLSEnabled ?api") (simp_all add: ball_Un)
qed

end

text \<open>The panic: a path that cannot be looked at, as one in a directory without search permission.\<close>

lemma check_panics:
  assumes "run_state (os_Stat H (CacheDir (c_Trivy config))) w = (StatErr e, w1)"
    and "CacheDir (c_Trivy config) \<noteq> []" "ReportsDir (c_Trivy config) \<noteq> []"
  shows "fst (run_state (Check H config) w) = Panic nil_info"
  using assms by (simp add: Check_def ensureDirExists_def dirExists_def bindO_def)

section \<open>A file system\<close>

definition ref_at :: "('s, 'y hworld_ext) world_scheme \<Rightarrow> string \<Rightarrow> stat" where
  "ref_at w p = (if p \<in> set (tmps w) then IsDir else if map_of (files w) p \<noteq> None then IsFile else NotExist)"

definition path_host :: "('s, 'y hworld_ext) host" where
  "path_host = (ref_host (\<lambda>_. ex_result) (\<lambda>_. Inl Canceled) [])
     \<lparr>os_Stat := (\<lambda>p. State (\<lambda>w. (ref_at w p, w))),
      os_MkdirAll := (\<lambda>p. State (\<lambda>w. if ref_at w p = IsFile then (Inl (Errno 20), w) else (Inr (), w\<lparr>tmps := p # tmps w\<rparr>)))\<rparr>"

interpretation refp: path_laws path_host ref_at
  by unfold_locales (auto simp: path_host_def ref_at_def split: if_splits)

text \<open>What a passed check gives on it.\<close>

lemmas checked_directories = refp.ensures_Check

end
