(* ===== verification/Pool.thy ===== *)
theory Pool
  imports Go_Url Config
begin

text \<open>
  \<^verbatim>\<open>pkg/redisx/pool.go\<close>: from the configured URL to the options of the Redis client. \<^verbatim>\<open>redis.ParseURL\<close>
  of the client library is a parameter; the text of a URL error is not modelled.
\<close>

section \<open>The options\<close>

text \<open>
  The options of a single server are those the library reads from the URL with the pool's own set over
  them. The connection hooks only log.
\<close>

record 'o InstanceOptions =
  io_Parsed :: 'o
  io_ContextTimeoutEnabled :: bool
  io_MaxIdleConns :: int
  io_MaxActiveConns :: int
  io_ConnMaxIdleTime :: int

datatype TLSVersion = VersionTLS12

record FailoverOptions =
  fo_ContextTimeoutEnabled :: bool
  MasterName :: string
  SentinelAddrs :: "string list"
  fo_DB :: int
  fo_Password :: string
  fo_Username :: string
  fo_DialTimeout :: int
  fo_ReadTimeout :: int
  fo_WriteTimeout :: int
  fo_MaxIdleConns :: int
  fo_MaxActiveConns :: int
  fo_ConnMaxIdleTime :: int
  fo_TLSConfig :: "TLSVersion option"

datatype 'o Client = InstanceClient "'o InstanceOptions" | FailoverClient FailoverOptions

record SentinelURL =
  su_Password :: string
  su_Username :: string
  su_Addrs :: "string list"
  su_MonitorName :: string
  su_Database :: int

section \<open>The URL of a Sentinel\<close>

definition getTLSconfig :: "URL \<Rightarrow> TLSVersion option" where
  "getTLSconfig configURL = (if Scheme configURL = ''rediss+sentinel'' then Some VersionTLS12 else None)"

definition ParseSentinelURL :: "URL \<Rightarrow> goerr + SentinelURL" where
  "ParseSentinelURL configURL =
     (let ps = Split (Path configURL) (CHR ''/'') in
      if length ps < 2 then Inl (ErrText ''invalid redis sentinel URL: no master name'')
      else
        let su = \<lparr>su_Password = (case User configURL of None \<Rightarrow> [] | Some user \<Rightarrow> (case password user of None \<Rightarrow> [] | Some p \<Rightarrow> p)),
                  su_Username = (case User configURL of None \<Rightarrow> [] | Some user \<Rightarrow> username user),
                  su_Addrs = Split (Host configURL) (CHR '',''),
                  su_MonitorName = ps ! 1,
                  su_Database = 0\<rparr>
        in if length ps > 2
           then (case ParseInt (ps ! 2) of
                   None \<Rightarrow> Inl (ErrText (''invalid redis sentinel URL: invalid database number: '' @ ps ! 2))
                 | Some db \<Rightarrow> Inr (su\<lparr>su_Database := db\<rparr>))
           else Inr su)"

section \<open>The client\<close>

definition newInstancePool :: "(string \<Rightarrow> goerr + 'o) \<Rightarrow> RedisPoolConfig \<Rightarrow> goerr + 'o Client" where
  "newInstancePool parseURL config =
     (let url = ReplaceAll (rp_URL config) ''idle_timeout_seconds='' ''idle_timeout='' in
      case parseURL url of
        Inl err \<Rightarrow> Inl (ErrText (''invalid redis URL: '' @ Error_text err))
      | Inr options \<Rightarrow>
          Inr (InstanceClient
            \<lparr>io_Parsed = options, io_ContextTimeoutEnabled = True, io_MaxIdleConns = MaxIdle config,
             io_MaxActiveConns = MaxActive config, io_ConnMaxIdleTime = rp_IdleTimeout config\<rparr>))"

text \<open>A limit of active connections of 0 is none: the field is not set here.\<close>

definition newSentinelPool :: "URL \<Rightarrow> RedisPoolConfig \<Rightarrow> goerr + 'o Client" where
  "newSentinelPool configURL config =
     (case ParseSentinelURL configURL of
        Inl err \<Rightarrow> Inl (ErrText (''invalid redis sentinel URL: '' @ Error_text err))
      | Inr sentinelURL \<Rightarrow>
          Inr (FailoverClient
            \<lparr>fo_ContextTimeoutEnabled = True, MasterName = su_MonitorName sentinelURL,
             SentinelAddrs = su_Addrs sentinelURL, fo_DB = su_Database sentinelURL,
             fo_Password = su_Password sentinelURL, fo_Username = su_Username sentinelURL,
             fo_DialTimeout = ConnectionTimeout config, fo_ReadTimeout = rp_ReadTimeout config,
             fo_WriteTimeout = rp_WriteTimeout config, fo_MaxIdleConns = MaxIdle config, fo_MaxActiveConns = 0,
             fo_ConnMaxIdleTime = rp_IdleTimeout config, fo_TLSConfig = getTLSconfig configURL\<rparr>))"

definition NewClient :: "(string \<Rightarrow> goerr + 'o) \<Rightarrow> RedisPoolConfig \<Rightarrow> goerr + 'o Client" where
  "NewClient parseURL config =
     (case url_Parse (rp_URL config) of
        None \<Rightarrow> Inl (ErrText ''invalid redis URL'')
      | Some configURL \<Rightarrow>
          if Scheme configURL \<in> {''redis'', ''rediss''} then newInstancePool parseURL config
          else if Scheme configURL \<in> {''redis+sentinel'', ''rediss+sentinel''} then newSentinelPool configURL config
          else Inl (ErrText (''invalid redis URL scheme: '' @ Scheme configURL)))"

section \<open>Escaped user information\<close>

lemma unhex_upper_hex: "d < 16 \<Longrightarrow> unhex (upper_hex d) = Some d"
  by (auto simp: unhex_def upper_hex_def Let_def of_char_of)

lemma unescape_percent: "unescape encodeUserPassword (percent c @ s) = map_option (\<lambda>r. c # r) (unescape encodeUserPassword s)"
proof -
  have "(of_char c :: nat) < 256" by simp
  then have "unhex (upper_hex (of_char c div 16)) = Some (of_char c div 16)" "unhex (upper_hex (of_char c mod 16)) = Some (of_char c mod 16)"
    by (simp_all add: unhex_upper_hex)
  then show ?thesis by (simp add: percent_def Let_def)
qed

lemma unescape_userinfo: "unescape encodeUserPassword (escape_userinfo s @ t) = map_option (\<lambda>r. s @ r) (unescape encodeUserPassword t)"
proof (induction s)
  case (Cons c s)
  show ?case
  proof (cases "is_letter c \<or> is_digit c \<or> c \<in> set ''-_.~$&+,;=''")
    case True
    then have "c \<noteq> CHR ''%''" by (auto simp: is_letter_def is_digit_def)
    then show ?thesis using True Cons by (simp add: escape_userinfo_def option.map_comp comp_def)
  next
    case False
    then have "escape_userinfo (c # s) @ t = percent c @ (escape_userinfo s @ t)" by (simp add: escape_userinfo_def)
    then show ?thesis unfolding \<open>escape_userinfo (c # s) @ t = _\<close> unescape_percent Cons by (simp add: option.map_comp comp_def)
  qed
qed (simp add: escape_userinfo_def option.map_ident)

end
