(* ===== verification/Adapter.thy ===== *)
theory Adapter
  imports Checker Pool Reaper Background Worker
begin

text \<open>
  \<^verbatim>\<open>cmd/scanner-trivy/main.go\<close> and \<^verbatim>\<open>pkg/http/api/server.go\<close>: how the adapter is put together, in which
  order it starts, and what it takes down again on each way out. Listening is \<^verbatim>\<open>net/http\<close>'s.
\<close>

section \<open>The server\<close>

datatype Curve = CurveP256 | CurveP384

datatype CipherSuite =
    TLS_ECDHE_ECDSA_WITH_AES_256_GCM_SHA384
  | TLS_ECDHE_RSA_WITH_AES_256_GCM_SHA384
  | TLS_ECDHE_ECDSA_WITH_AES_128_GCM_SHA256
  | TLS_ECDHE_RSA_WITH_AES_128_GCM_SHA256

datatype ClientAuthType = NoClientCert | RequireAndVerifyClientCert

record TLSConfig =
  MinVersion :: TLSVersion
  CurvePreferences :: "Curve list"
  CipherSuites :: "CipherSuite list"
  tls_ClientCAs :: "string list option"
  ClientAuth :: ClientAuthType

text \<open>The pool of client authorities is the texts it was filled with.\<close>

record Server =
  sv_config :: APIConfig
  sv_TLSConfig :: "TLSConfig option"

fun read_CAs :: "('s, 'z) host \<Rightarrow> string list \<Rightarrow> ('s, 'z, string list) op" where
  "read_CAs H [] = okE []"
| "read_CAs H (path # paths) =
     State_Monad.bind (ReadFile H path) (\<lambda>r.
     case r of
       Inl err \<Rightarrow> failE (Wrap (''could not read file '' @ path) err)
     | Inr clientCA \<Rightarrow> bindE (read_CAs H paths) (\<lambda>rest. okE (clientCA # rest)))"

definition base_tls :: TLSConfig where
  "base_tls =
     \<lparr>MinVersion = VersionTLS12, CurvePreferences = [CurveP256, CurveP384],
      CipherSuites = [TLS_ECDHE_ECDSA_WITH_AES_256_GCM_SHA384, TLS_ECDHE_RSA_WITH_AES_256_GCM_SHA384,
        TLS_ECDHE_ECDSA_WITH_AES_128_GCM_SHA256, TLS_ECDHE_RSA_WITH_AES_128_GCM_SHA256],
      tls_ClientCAs = None, ClientAuth = NoClientCert\<rparr>"

definition NewServer :: "('s, 'z) host \<Rightarrow> APIConfig \<Rightarrow> ('s, 'z, Server) op" where
  "NewServer H config =
     (if \<not> IsTLSEnabled config then okE \<lparr>sv_config = config, sv_TLSConfig = None\<rparr>
      else if ClientCAs config = [] then okE \<lparr>sv_config = config, sv_TLSConfig = Some base_tls\<rparr>
      else bindE (read_CAs H (ClientCAs config)) (\<lambda>pool.
        okE \<lparr>sv_config = config,
             sv_TLSConfig = Some (base_tls\<lparr>tls_ClientCAs := Some pool, ClientAuth := RequireAndVerifyClientCert\<rparr>)\<rparr>))"

text \<open>
  \<open>net_Serve\<close> is \<^verbatim>\<open>http.Server\<close>'s loop, with the certificate and the key when TLS is on; it ends with an
  error, which is \<open>ErrServerClosed\<close> after a shutdown.
\<close>

definition ErrServerClosed :: goerr where
  "ErrServerClosed = ErrText ''http: Server closed''"

definition listenAndServe :: "(Server \<Rightarrow> (string \<times> string) option \<Rightarrow> 'a) \<Rightarrow> Server \<Rightarrow> 'a" where
  "listenAndServe net_Serve s =
     (if IsTLSEnabled (sv_config s) then net_Serve s (Some (TLSCertificate (sv_config s), TLSKey (sv_config s)))
      else net_Serve s None)"

definition ListenAndServe ::
    "(Server \<Rightarrow> (string \<times> string) option \<Rightarrow> (('s, 'z) world_scheme, goerr) state) \<Rightarrow> Server
      \<Rightarrow> (('s, 'z) world_scheme, goerr option) state" where
  "ListenAndServe net_Serve s =
     State_Monad.bind (listenAndServe net_Serve s) (\<lambda>err.
     State_Monad.return (if errors_Is err ErrServerClosed then None else Some err))"

section \<open>The run of the adapter\<close>

text \<open>\<^verbatim>\<open>defer\<close>: the step runs on the way out, whatever the result.\<close>

definition defer_step :: "('w, unit) state \<Rightarrow> ('w, 'a) state \<Rightarrow> ('w, 'a) state" where
  "defer_step final m = State_Monad.bind m (\<lambda>r. thenM final (State_Monad.return r))"

definition ignore :: "('w, 'e + 'a) state \<Rightarrow> ('w, unit) state" where
  "ignore m = State_Monad.bind m (\<lambda>_. State_Monad.return ())"

text \<open>
  What the program is given: the parsed environment, the library's URL parser, how the client is
  closed, and \<open>parts\<close>: the worker, the samplers, the handler and the server at work side by side, from
  \<^verbatim>\<open>worker.Start\<close> to the server's last error. What the goroutines do is the model of their theories;
  how they interleave, and how they are stopped, is the subject of \<^verbatim>\<open>Lifecycle\<close>.
\<close>

record ('s, 'z, 'o) surroundings =
  env_parsed :: "goerr + Config"
  env_LookupEnv :: "string \<Rightarrow> string option"
  url_ok :: "string \<Rightarrow> bool"
  redis_ParseURL :: "string \<Rightarrow> goerr + 'o"
  client_Close :: "(('s, 'z) world_scheme, unit) state"
  parts :: "Config \<Rightarrow> TempRoot \<Rightarrow> Server \<Rightarrow> (('s, 'z) world_scheme, goerr option) state"

definition start_recorder :: "Config \<Rightarrow> (('s, 'z) world_scheme, unit) state" where
  "start_recorder config =
     thenM (modify (\<lambda>w. w\<lparr>recorder := NewRecorder (MetricsEnabled (c_API config))\<rparr>)) (metric (start_gauges config))"

text \<open>From the temp root on.\<close>

definition run_rooted :: "('s, 'z) host \<Rightarrow> ('s, 'z, 'o) surroundings \<Rightarrow> Config \<Rightarrow> TempRoot \<Rightarrow> (('s, 'z) world_scheme, goerr option) state" where
  "run_rooted H S config root =
     thenM (start_recorder config)
     (thenM (reaper_Start H (NewReaper H (Some root)))
     (State_Monad.bind (NewServer H (c_API config)) (\<lambda>r.
      case r of
        Inl err \<Rightarrow> State_Monad.return (Some (Wrap ''new api server'' err))
      | Inr server \<Rightarrow> parts S config root server)))"

text \<open>From the client on.\<close>

definition run_connected :: "('s, 'z) host \<Rightarrow> 's redis \<Rightarrow> ('s, 'z, 'o) surroundings \<Rightarrow> Config \<Rightarrow> (('s, 'z) world_scheme, goerr option) state" where
  "run_connected H R S config =
     State_Monad.bind (CheckBackend R) (\<lambda>r.
     case r of
       Inl err \<Rightarrow> State_Monad.return (Some err)
     | Inr _ \<Rightarrow>
         State_Monad.bind (NewTempRoot H) (\<lambda>r.
         case r of
           Inl err \<Rightarrow> State_Monad.return (Some err)
         | Inr root \<Rightarrow> defer_step (ignore (root_Close H (Some root))) (run_rooted H S config root)))"

text \<open>\<^verbatim>\<open>run\<close>: the error it returns, or a panic.\<close>

definition adapter_run :: "('s, 'z) host \<Rightarrow> 's redis \<Rightarrow> ('s, 'z, 'o) surroundings \<Rightarrow> ('s, 'z, unit) attempt" where
  "adapter_run H R S =
     (case GetConfig (env_parsed S) (env_LookupEnv S) (url_ok S) of
        Inl err \<Rightarrow> State_Monad.return (Err (Wrap ''getting config'' err))
      | Inr config \<Rightarrow>
          State_Monad.bind (Check H config) (\<lambda>checked.
          case checked of
            Panic msg \<Rightarrow> State_Monad.return (Panic msg)
          | Err err \<Rightarrow> State_Monad.return (Err (Wrap ''checking config'' err))
          | Returned _ \<Rightarrow>
              (case NewClient (redis_ParseURL S) (c_RedisPool config) of
                 Inl err \<Rightarrow> State_Monad.return (Err (Wrap ''constructing connection pool'' err))
               | Inr client \<Rightarrow>
                   State_Monad.bind (defer_step (client_Close S) (run_connected H R S config)) (\<lambda>r.
                   State_Monad.return (case r of None \<Rightarrow> Returned () | Some err \<Rightarrow> Err err)))))"

text \<open>The exit code of \<^verbatim>\<open>main\<close>; a panic ends a Go program with 2.\<close>

definition exit_code :: "unit outcome_of \<Rightarrow> int" where
  "exit_code r = (case r of Returned _ \<Rightarrow> 0 | Err _ \<Rightarrow> 1 | Panic _ \<Rightarrow> 2)"

section \<open>What it leaves\<close>

text \<open>A refused configuration touches nothing; a failed check opens no client and makes no temp root.\<close>

lemma refused_config: "GetConfig (env_parsed S) (env_LookupEnv S) (url_ok S) = Inl err \<Longrightarrow>
    run_state (adapter_run H R S) w = (Err (Wrap ''getting config'' err), w)"
  by (simp add: adapter_run_def)

lemma failed_check:
  assumes "GetConfig (env_parsed S) (env_LookupEnv S) (url_ok S) = Inr config"
    and "run_state (Check H config) w = (Err err, w')"
  shows "run_state (adapter_run H R S) w = (Err (Wrap ''checking config'' err), w')"
  using assms by (simp add: adapter_run_def)

text \<open>The root of the process is gone on every way out once it was made, if removing works.\<close>

lemma run_defer_step: "run_state (defer_step final m) w = (r, w') \<Longrightarrow> \<exists>w1. run_state m w = (r, w1) \<and> run_state final w1 = ((), w')"
  by (auto simp: defer_step_def split: prod.splits)

context temp_dirs begin

lemma run_connected_cleans:
  assumes ok: "\<And>x v. fst (run_state (os_RemoveAll H x) v) = Inr ()"
    and check: "run_state (CheckBackend R) w = (Inr (), w1)" and made: "run_state (NewTempRoot H) w1 = (Inr root, w2)"
    and run: "run_state (run_connected H R S config) w = (r, w')"
  shows "dirs w' \<inter> below (tr_path root) = {}"
proof -
  have "run_state (defer_step (ignore (root_Close H (Some root))) (run_rooted H S config root)) w2 = (r, w')"
    using run check made by (simp add: run_connected_def)
  from run_defer_step [OF this] obtain w3 where "run_state (ignore (root_Close H (Some root))) w3 = ((), w')"
    by (elim exE conjE)
  then obtain x where x: "run_state (os_RemoveAll H (tr_path root)) w3 = (x, w')"
    by (auto simp: ignore_def root_Close_def split: prod.splits)
  then have "x = Inr ()" using ok by (metis fst_conv)
  then show ?thesis using removed [OF x] by blast
qed

end

end
