(* ===== verification/Lifecycle.thy ===== *)
theory Lifecycle
  imports Adapter
begin

text \<open>
  The goroutines of \<^verbatim>\<open>cmd/scanner-trivy/main.go\<close>: what \<^verbatim>\<open>run\<close> starts, what it waits for, and in which
  order its deferred calls take things down, with every interleaving of the goroutines, the signals
  and the connections. What each goroutine does is the subject of its own theory.
\<close>

section \<open>The state\<close>

text \<open>The statement of \<^verbatim>\<open>run\<close> that comes next; the last two are the deferred calls and the end.\<close>

datatype phase =
    AtClient | AtCheck | AtRoot | AtMetrics | AtReaper | AtServer | AtSignals | AtWorker | AtListen
  | AtSelect | AtShutdown | AtReceive | AtReturn | AtEnd

fun rank :: "phase \<Rightarrow> nat" where
  "rank AtClient = 0" | "rank AtCheck = 1" | "rank AtRoot = 2" | "rank AtMetrics = 3" | "rank AtReaper = 4"
| "rank AtServer = 5" | "rank AtSignals = 6" | "rank AtWorker = 7" | "rank AtListen = 8" | "rank AtSelect = 9"
| "rank AtShutdown = 10" | "rank AtReceive = 11" | "rank AtReturn = 12" | "rank AtEnd = 13"

lemma rank_inject: "rank p = rank q \<longleftrightarrow> p = q"
  by (cases p; cases q) simp_all

instantiation phase :: linorder
begin

definition less_eq_phase :: "phase \<Rightarrow> phase \<Rightarrow> bool" where
  "p \<le> q \<longleftrightarrow> rank p \<le> rank q"

definition less_phase :: "phase \<Rightarrow> phase \<Rightarrow> bool" where
  "p < q \<longleftrightarrow> rank p < rank q"

instance
  by standard (auto simp: less_eq_phase_def less_phase_def rank_inject)

end

lemmas phase_order = less_eq_phase_def less_phase_def

text \<open>The goroutines that \<^verbatim>\<open>run\<close> starts, and its deferred calls.\<close>

datatype part = Sampler | ReaperLoop | WorkerLoop | QueueSampler | HttpServer

datatype cleanup = StopWorker | StopSignals | StopReaper | StopMetrics | CloseRoot | CloseClient

text \<open>The goroutines a deferred call cancels and waits for.\<close>

fun parts_of :: "cleanup \<Rightarrow> part set" where
  "parts_of StopWorker = {WorkerLoop, QueueSampler}"
| "parts_of StopReaper = {ReaperLoop}"
| "parts_of StopMetrics = {Sampler}"
| "parts_of _ = {}"

text \<open>
  \<open>told\<close> are the goroutines whose context has ended; \<open>conns\<close> counts the connections being served, each
  with any number of requests; \<open>root_there\<close> is the temp root from its making to its closing, and
  \<open>root_left\<close> says that closing it failed, which is only logged, and left the directory; \<open>serverDone\<close> is the channel of that name.
\<close>

record life =
  stmt :: phase
  deferred :: "cleanup list"
  going :: "part set"
  told :: "part set"
  client_open :: bool
  root_there :: bool
  root_left :: bool
  signalled :: bool
  closing :: bool
  conns :: nat
  serverDone :: "goerr option option"
  returned :: "goerr option"

definition birth :: life where
  "birth = \<lparr>stmt = AtClient, deferred = [], going = {}, told = {}, client_open = False, root_there = False, root_left = False,
     signalled = False, closing = False, conns = 0, serverDone = None, returned = None\<rparr>"

section \<open>The operations\<close>

text \<open>
  \<^verbatim>\<open>worker.Start\<close> starts two goroutines; \<^verbatim>\<open>Stop\<close>, like the functions that stop the reaper and the
  sampler, cancels a context and then waits until the goroutines under it are gone.
\<close>

definition worker_Start :: "life \<Rightarrow> life" where
  [simp]: "worker_Start s = s\<lparr>going := {WorkerLoop, QueueSampler} \<union> going s\<rparr>"

definition cancels :: "cleanup \<Rightarrow> life \<Rightarrow> life" where
  [simp]: "cancels c s = s\<lparr>told := parts_of c \<union> told s\<rparr>"

definition waited :: "cleanup \<Rightarrow> life \<Rightarrow> bool" where
  [simp]: "waited c s \<longleftrightarrow> parts_of c \<subseteq> told s \<and> parts_of c \<inter> going s = {}"

text \<open>\<^verbatim>\<open>Shutdown\<close> closes the listener, without a deadline, and returns when no connection is served any more.\<close>

definition server_closes :: "life \<Rightarrow> life" where
  [simp]: "server_closes s = s\<lparr>closing := True\<rparr>"

definition server_drained :: "life \<Rightarrow> bool" where
  [simp]: "server_drained s \<longleftrightarrow> closing s \<and> conns s = 0"

text \<open>A signal ends the context of \<^verbatim>\<open>NotifyContext\<close>, under which the worker runs.\<close>

definition notified :: "life \<Rightarrow> life" where
  [simp]: "notified s = s\<lparr>signalled := True, told := parts_of StopWorker \<union> told s\<rparr>"

section \<open>The steps\<close>

text \<open>
  The main goroutine. A constructor that fails makes \<^verbatim>\<open>run\<close> return its error; a deferred call that stops a
  goroutine cancels its context and waits until it is gone. \<open>metrics\<close> tells whether there is a recorder:
  without one \<^verbatim>\<open>Start\<close> starts nothing.
\<close>

inductive main_step :: "bool \<Rightarrow> life \<Rightarrow> life \<Rightarrow> bool" for metrics where
  client: "stmt s = AtClient \<Longrightarrow> main_step metrics s (s\<lparr>stmt := AtCheck, client_open := True, deferred := CloseClient # deferred s\<rparr>)"
| backend: "stmt s = AtCheck \<Longrightarrow> main_step metrics s (s\<lparr>stmt := AtRoot\<rparr>)"
| root: "stmt s = AtRoot \<Longrightarrow> main_step metrics s (s\<lparr>stmt := AtMetrics, root_there := True, deferred := CloseRoot # deferred s\<rparr>)"
| sampler: "stmt s = AtMetrics \<Longrightarrow> main_step metrics s
    (s\<lparr>stmt := AtReaper, going := (if metrics then insert Sampler (going s) else going s), deferred := StopMetrics # deferred s\<rparr>)"
| reaper: "stmt s = AtReaper \<Longrightarrow> main_step metrics s
    (s\<lparr>stmt := AtServer, going := insert ReaperLoop (going s), deferred := StopReaper # deferred s\<rparr>)"
| server: "stmt s = AtServer \<Longrightarrow> main_step metrics s (s\<lparr>stmt := AtSignals\<rparr>)"
| signals: "stmt s = AtSignals \<Longrightarrow> main_step metrics s (s\<lparr>stmt := AtWorker, deferred := StopSignals # deferred s\<rparr>)"
| worker: "stmt s = AtWorker \<Longrightarrow> main_step metrics s
    (worker_Start s\<lparr>stmt := AtListen, deferred := StopWorker # deferred s\<rparr>)"
| listen: "stmt s = AtListen \<Longrightarrow> main_step metrics s (s\<lparr>stmt := AtSelect, going := insert HttpServer (going s)\<rparr>)"
| failed: "stmt s \<in> {AtClient, AtCheck, AtRoot, AtServer} \<Longrightarrow> main_step metrics s (s\<lparr>stmt := AtReturn, returned := Some e\<rparr>)"
| server_first: "stmt s = AtSelect \<Longrightarrow> serverDone s = Some r \<Longrightarrow>
    main_step metrics s (s\<lparr>stmt := AtReturn, serverDone := None, returned := r\<rparr>)"
| signal_first: "stmt s = AtSelect \<Longrightarrow> signalled s \<Longrightarrow> main_step metrics s (s\<lparr>stmt := AtShutdown\<rparr>)"
| shutdown: "stmt s = AtShutdown \<Longrightarrow> main_step metrics s (server_closes s)"
| drained: "stmt s = AtShutdown \<Longrightarrow> server_drained s \<Longrightarrow> main_step metrics s (s\<lparr>stmt := AtReceive\<rparr>)"
| receive: "stmt s = AtReceive \<Longrightarrow> serverDone s = Some r \<Longrightarrow>
    main_step metrics s (s\<lparr>stmt := AtReturn, serverDone := None, returned := r\<rparr>)"
| tell: "stmt s = AtReturn \<Longrightarrow> deferred s = c # cs \<Longrightarrow> main_step metrics s (cancels c s)"
| stop: "stmt s = AtReturn \<Longrightarrow> deferred s = c # cs \<Longrightarrow> c \<in> {StopWorker, StopReaper, StopMetrics} \<Longrightarrow>
    waited c s \<Longrightarrow> main_step metrics s (s\<lparr>deferred := cs\<rparr>)"
| unsignal: "stmt s = AtReturn \<Longrightarrow> deferred s = StopSignals # cs \<Longrightarrow> main_step metrics s (s\<lparr>deferred := cs\<rparr>)"
| unroot: "stmt s = AtReturn \<Longrightarrow> deferred s = CloseRoot # cs \<Longrightarrow> main_step metrics s (s\<lparr>deferred := cs, root_there := False, root_left := left\<rparr>)"
| unclient: "stmt s = AtReturn \<Longrightarrow> deferred s = CloseClient # cs \<Longrightarrow> main_step metrics s (s\<lparr>deferred := cs, client_open := False\<rparr>)"
| return: "stmt s = AtReturn \<Longrightarrow> deferred s = [] \<Longrightarrow> main_step metrics s (s\<lparr>stmt := AtEnd\<rparr>)"

text \<open>
  Everything else. A signal ends the context the worker runs under; a goroutine of the adapter ends only
  after its context has (for the worker this is C37); \<^verbatim>\<open>ListenAndServe\<close> returns an error at any
  time, or nothing once \<^verbatim>\<open>Shutdown\<close> was called, after which no connection is taken.
\<close>

inductive other_step :: "life \<Rightarrow> life \<Rightarrow> bool" where
  signal: "StopSignals \<in> set (deferred s) \<Longrightarrow> other_step s (notified s)"
| ends: "p \<in> going s \<Longrightarrow> p \<in> told s \<Longrightarrow> p \<noteq> HttpServer \<Longrightarrow> other_step s (s\<lparr>going := going s - {p}\<rparr>)"
| server_fails: "HttpServer \<in> going s \<Longrightarrow> other_step s (s\<lparr>going := going s - {HttpServer}, serverDone := Some (Some e)\<rparr>)"
| server_closed: "HttpServer \<in> going s \<Longrightarrow> closing s \<Longrightarrow> other_step s (s\<lparr>going := going s - {HttpServer}, serverDone := Some None\<rparr>)"
| accepts: "HttpServer \<in> going s \<Longrightarrow> \<not> closing s \<Longrightarrow> other_step s (s\<lparr>conns := Suc (conns s)\<rparr>)"
| hangs_up: "conns s = Suc n \<Longrightarrow> other_step s (s\<lparr>conns := n\<rparr>)"

text \<open>Without a recorder \<^verbatim>\<open>monitorQueue\<close> returns at once.\<close>

inductive life_step :: "bool \<Rightarrow> life \<Rightarrow> life \<Rightarrow> bool" for metrics where
  main: "main_step metrics s s' \<Longrightarrow> life_step metrics s s'"
| other: "other_step s s' \<Longrightarrow> life_step metrics s s'"
| unmeasured: "\<not> metrics \<Longrightarrow> QueueSampler \<in> going s \<Longrightarrow> life_step metrics s (s\<lparr>going := going s - {QueueSampler}\<rparr>)"

inductive life_run :: "bool \<Rightarrow> life \<Rightarrow> life \<Rightarrow> bool" for metrics where
  here: "life_run metrics s s"
| more: "life_run metrics s s' \<Longrightarrow> life_step metrics s' s'' \<Longrightarrow> life_run metrics s s''"

inductive_cases main_stepE: "main_step metrics s s'"
inductive_cases other_stepE: "other_step s s'"
inductive_cases life_stepE: "life_step metrics s s'"

lemma life_run_trans: "life_run m s' s'' \<Longrightarrow> life_run m s s' \<Longrightarrow> life_run m s s''"
  by (induction rule: life_run.induct) (auto intro: life_run.more)

lemma life_run_step: "life_step m s s' \<Longrightarrow> life_run m s' s'' \<Longrightarrow> life_run m s s''"
  using life_run_trans [of m s' s'' s] life_run.more [OF life_run.here] by blast

section \<open>The order of taking down\<close>

text \<open>What has been deferred when \<^verbatim>\<open>run\<close> is at a statement.\<close>

definition all_deferred :: "cleanup list" where
  "all_deferred = [StopWorker, StopSignals, StopReaper, StopMetrics, CloseRoot, CloseClient]"

fun due :: "phase \<Rightarrow> nat" where
  "due AtClient = 0" | "due AtCheck = 1" | "due AtRoot = 1" | "due AtMetrics = 2" | "due AtReaper = 3"
| "due AtServer = 4" | "due AtSignals = 4" | "due AtWorker = 5" | "due _ = 6"

definition stack_ok :: "life \<Rightarrow> bool" where
  "stack_ok s \<longleftrightarrow>
     (if stmt s < AtReturn then deferred s = drop (6 - due (stmt s)) all_deferred
      else if stmt s = AtEnd then deferred s = []
      else \<exists>n. deferred s = drop n all_deferred)"

text \<open>What is deferred is what there is to take down: the root, the client, and whatever goroutine may run.\<close>

definition held_ok :: "life \<Rightarrow> bool" where
  "held_ok s \<longleftrightarrow>
     (root_there s \<longleftrightarrow> CloseRoot \<in> set (deferred s)) \<and> (client_open s \<longleftrightarrow> CloseClient \<in> set (deferred s)) \<and>
     (WorkerLoop \<in> going s \<or> QueueSampler \<in> going s \<longrightarrow> StopWorker \<in> set (deferred s)) \<and>
     (ReaperLoop \<in> going s \<longrightarrow> StopReaper \<in> set (deferred s)) \<and> (Sampler \<in> going s \<longrightarrow> StopMetrics \<in> set (deferred s))"

text \<open>The server runs, or has left its result, exactly while \<^verbatim>\<open>run\<close> waits for it; once drained no request is left.\<close>

definition server_ok :: "life \<Rightarrow> bool" where
  "server_ok s \<longleftrightarrow>
     (HttpServer \<in> going s \<longrightarrow> stmt s \<in> {AtSelect, AtShutdown, AtReceive}) \<and>
     (stmt s \<in> {AtSelect, AtShutdown, AtReceive} \<longrightarrow> HttpServer \<in> going s \<or> serverDone s \<noteq> None) \<and>
     (serverDone s \<noteq> None \<longrightarrow> HttpServer \<notin> going s \<and> stmt s \<in> {AtSelect, AtShutdown, AtReceive}) \<and>
     (closing s \<longrightarrow> stmt s \<in> {AtShutdown, AtReceive, AtReturn, AtEnd}) \<and> (stmt s = AtReceive \<longrightarrow> closing s) \<and>
     (closing s \<and> stmt s \<noteq> AtShutdown \<longrightarrow> conns s = 0)"

definition in_order :: "life \<Rightarrow> bool" where
  "in_order s \<longleftrightarrow> stack_ok s \<and> held_ok s \<and> server_ok s"

lemma distinct_deferred: "stack_ok s \<Longrightarrow> distinct (deferred s)"
  by (auto simp: stack_ok_def all_deferred_def intro: distinct_drop split: if_splits)

lemma stack_pop: "drop n all_deferred = c # cs \<Longrightarrow> cs = drop (Suc n) all_deferred"
  by (metis drop_Suc list.sel(3) tl_drop)

lemma in_order_birth: "in_order birth"
  by (simp add: in_order_def stack_ok_def held_ok_def server_ok_def birth_def all_deferred_def phase_order)

lemma stack_pops:
  assumes "stack_ok s" "stmt s = AtReturn" "deferred s = c # cs" "stmt s' = AtReturn" "deferred s' = cs"
  shows "stack_ok s'"
proof -
  obtain n where "drop n all_deferred = c # cs" using assms(1-3) by (auto simp: stack_ok_def phase_order)
  then have "cs = drop (Suc n) all_deferred" by (rule stack_pop)
  then show ?thesis using assms(4,5) by (auto simp: stack_ok_def phase_order)
qed

lemma stack_cong: "stmt s' = stmt s \<Longrightarrow> deferred s' = deferred s \<Longrightarrow> stack_ok s' = stack_ok s"
  by (simp add: stack_ok_def)

lemma stack_before: "stmt s < AtReturn \<Longrightarrow> stack_ok s \<longleftrightarrow> deferred s = drop (6 - due (stmt s)) all_deferred"
  by (simp add: stack_ok_def)

lemma stack_returns:
  assumes "stack_ok s" "stmt s < AtReturn" "stmt s' = AtReturn" "deferred s' = deferred s"
  shows "stack_ok s'"
proof -
  have "\<exists>n. deferred s' = drop n all_deferred" using assms(1,4) stack_before [OF assms(2)] by auto
  then show ?thesis using assms(3) by (simp add: stack_ok_def phase_order)
qed

lemma main_stack: "main_step metrics s s' \<Longrightarrow> stack_ok s \<Longrightarrow> stack_ok s'"
proof (induction rule: main_step.induct)
  case (failed s e)
  then show ?case by - (rule stack_returns [of s], auto simp: phase_order)
next
  case (server_first s r)
  then show ?case by - (rule stack_returns [of s], auto simp: phase_order)
next
  case (receive s r)
  then show ?case by - (rule stack_returns [of s], auto simp: phase_order)
next
  case (stop s c cs)
  then show ?case by - (rule stack_pops [of s c cs], simp_all)
next
  case (unsignal s cs)
  then show ?case by - (rule stack_pops [of s StopSignals cs], simp_all)
next
  case (unroot s cs)
  then show ?case by - (rule stack_pops [of s CloseRoot cs], simp_all)
next
  case (unclient s cs)
  then show ?case by - (rule stack_pops [of s CloseClient cs], simp_all)
next
  case (tell s c cs)
  then show ?case by (simp add: stack_ok_def)
next
  case (shutdown s)
  then show ?case by (simp add: stack_ok_def)
next
  case (return s)
  then show ?case by (simp add: stack_ok_def phase_order)
qed (simp_all add: stack_before phase_order all_deferred_def)

lemma main_held: "main_step metrics s s' \<Longrightarrow> distinct (deferred s) \<Longrightarrow> held_ok s \<Longrightarrow> held_ok s'"
  by (induction rule: main_step.induct) (auto simp: held_ok_def split: if_splits)

lemma main_server: "main_step metrics s s' \<Longrightarrow> server_ok s \<Longrightarrow> server_ok s'"
proof (induction rule: main_step.induct)
  case (failed s e)
  then show ?case by (elim insertE emptyE; simp add: server_ok_def)
next
  case (receive s r)
  then show ?case by (simp add: server_ok_def)
qed (simp_all add: server_ok_def)

lemma main_step_in_order: "main_step metrics s s' \<Longrightarrow> in_order s \<Longrightarrow> in_order s'"
  by (simp add: in_order_def main_stack main_held main_server distinct_deferred)

lemma other_stack: "other_step s s' \<Longrightarrow> stack_ok s' = stack_ok s"
  by (induction rule: other_step.induct) (simp_all add: stack_ok_def)

lemma other_held: "other_step s s' \<Longrightarrow> held_ok s \<Longrightarrow> held_ok s'"
  by (induction rule: other_step.induct) (auto simp: held_ok_def)

lemma other_server: "other_step s s' \<Longrightarrow> server_ok s \<Longrightarrow> server_ok s'"
proof (induction rule: other_step.induct)
  case (ends p s)
  then show ?case unfolding server_ok_def by (cases p) simp_all
next
  case (server_fails s e)
  then have "stmt s \<in> {AtSelect, AtShutdown, AtReceive}" by (simp add: server_ok_def)
  then show ?case using server_fails unfolding server_ok_def by simp
next
  case (server_closed s)
  then have "stmt s \<in> {AtSelect, AtShutdown, AtReceive}" by (simp add: server_ok_def)
  then show ?case using server_closed unfolding server_ok_def by simp
next
  case (hangs_up s n)
  then have "closing s \<longrightarrow> stmt s = AtShutdown" by (auto simp: server_ok_def)
  then show ?case using hangs_up(2) unfolding server_ok_def by simp blast
qed (simp_all add: server_ok_def, blast)

lemma other_step_in_order: "other_step s s' \<Longrightarrow> in_order s \<Longrightarrow> in_order s'"
  by (simp add: in_order_def other_stack other_held other_server)

lemma unmeasured_in_order: "in_order s \<Longrightarrow> in_order (s\<lparr>going := going s - {QueueSampler}\<rparr>)"
  by (auto simp: in_order_def stack_ok_def held_ok_def server_ok_def)

lemma life_run_in_order: "life_run metrics s s' \<Longrightarrow> in_order s \<Longrightarrow> in_order s'"
  by (induction rule: life_run.induct) (auto elim!: life_stepE intro: main_step_in_order other_step_in_order unmeasured_in_order)

text \<open>\<^verbatim>\<open>run\<close> never goes back, and once its end is reached it stays.\<close>

lemma phase_grows: "life_step metrics s s' \<Longrightarrow> stmt s \<le> stmt s'"
  by (auto elim!: life_stepE main_stepE other_stepE simp: phase_order)

section \<open>The end is always in reach\<close>

text \<open>A deferred call can be carried out: what it waits for ends, as its context has.\<close>

lemma parts_end:
  assumes "finite P" "P \<subseteq> told s" "HttpServer \<notin> P"
  shows "\<exists>s'. life_run metrics s s' \<and> s' = s\<lparr>going := going s - P\<rparr>"
  using assms
proof (induction P arbitrary: s rule: finite_induct)
  case empty
  then show ?case by (auto intro: life_run.here exI [of _ s])
next
  case (insert p P)
  show ?case
  proof (cases "p \<in> going s")
    case True
    then have "life_step metrics s (s\<lparr>going := going s - {p}\<rparr>)"
      using insert.prems by (intro life_step.other other_step.ends) auto
    moreover obtain s' where "life_run metrics (s\<lparr>going := going s - {p}\<rparr>) s'" "s' = s\<lparr>going := going s - {p} - P\<rparr>"
      using insert.IH [of "s\<lparr>going := going s - {p}\<rparr>"] insert.prems by auto
    moreover have "going s - {p} - P = going s - insert p P" by blast
    ultimately show ?thesis using life_run_step by metis
  next
    case False
    then show ?thesis using insert.IH [of s] insert.prems by simp
  qed
qed

lemma parts_of_simps: "finite (parts_of c)" "HttpServer \<notin> parts_of c"
  by (cases c; simp)+

lemma unwinds:
  assumes "stmt s = AtReturn"
  shows "\<exists>s'. life_run metrics s s' \<and> stmt s' = AtEnd"
  using assms
proof (induction "deferred s" arbitrary: s)
  case Nil
  then show ?case using life_step.main [OF main_step.return] life_run_step life_run.here by (metis (no_types, lifting) life.select_convs(1) life.surjective life.update_convs(1))
next
  case (Cons c cs)
  note d = Cons.hyps(2) [symmetric]
  let ?s1 = "cancels c s"
  let ?s2 = "?s1\<lparr>going := going ?s1 - parts_of c\<rparr>"
  have 1: "life_step metrics s ?s1" by (rule life_step.main [OF main_step.tell [OF Cons.prems d]])
  have 2: "life_run metrics ?s1 ?s2" using parts_end [of "parts_of c" ?s1 metrics] parts_of_simps by auto
  have s2: "stmt ?s2 = AtReturn" "deferred ?s2 = c # cs" using Cons.prems d by simp_all
  have "\<exists>s3. main_step metrics ?s2 s3 \<and> stmt s3 = AtReturn \<and> deferred s3 = cs"
  proof (cases "c \<in> {StopWorker, StopReaper, StopMetrics}")
    case True
    have "main_step metrics ?s2 (?s2\<lparr>deferred := cs\<rparr>)" by (rule main_step.stop [OF s2 True]) auto
    then show ?thesis using s2 by fastforce
  next
    case False
    then show ?thesis
      using s2 main_step.unsignal [of ?s2 cs] main_step.unroot [of ?s2 cs] main_step.unclient [of ?s2 cs] by (cases c) fastforce+
  qed
  then obtain s3 where 3: "main_step metrics ?s2 s3" "stmt s3 = AtReturn" "cs = deferred s3" by blast
  from Cons.hyps(1) [OF 3(3,2)] obtain s' where "life_run metrics s3 s'" "stmt s' = AtEnd" by blast
  then show ?case using 1 2 3(1) life_run_step life_run_trans life_step.main by meson
qed

text \<open>Before the deferred calls \<^verbatim>\<open>run\<close> can always go on: what it waits for may come.\<close>

lemma requests_end: "\<exists>s'. life_run metrics s s' \<and> s' = s\<lparr>conns := 0\<rparr>"
proof (induction "conns s" arbitrary: s)
  case 0
  then have "s = s\<lparr>conns := 0\<rparr>" by simp
  then show ?case using life_run.here by metis
next
  case (Suc n)
  have 1: "life_step metrics s (s\<lparr>conns := n\<rparr>)" by (rule life_step.other [OF other_step.hangs_up]) (rule Suc(2) [symmetric])
  have "n = conns (s\<lparr>conns := n\<rparr>)" by simp
  from Suc(1) [OF this] have "life_run metrics (s\<lparr>conns := n\<rparr>) (s\<lparr>conns := 0\<rparr>)" by simp
  then show ?case using life_run_step [OF 1] by blast
qed

lemma server_reports:
  assumes "server_ok s" "stmt s \<in> {AtSelect, AtShutdown, AtReceive}"
  shows "\<exists>s' r. life_run metrics s s' \<and> stmt s' = stmt s \<and> serverDone s' = Some r"
proof (cases "serverDone s")
  case None
  then have "HttpServer \<in> going s" using assms by (auto simp: server_ok_def)
  from life_run_step [OF life_step.other [OF other_step.server_fails [OF this, of undefined]] life_run.here]
  show ?thesis by fastforce
next
  case (Some r)
  then show ?thesis using life_run.here by blast
qed

lemma advances:
  assumes ok: "server_ok s" and early: "stmt s < AtReturn"
  shows "\<exists>s'. life_run metrics s s' \<and> stmt s < stmt s'"
proof -
  have one: ?thesis if "main_step metrics s s'" "stmt s < stmt s'" for s'
    using life_run_step [OF life_step.main [OF that(1)] life_run.here] that(2) by blast
  show ?thesis
  proof (cases "stmt s")
    case AtSelect
    then obtain s' r where s': "life_run metrics s s'" "stmt s' = AtSelect" "serverDone s' = Some r" using server_reports [OF ok, of metrics] by auto
    show ?thesis using life_run.more [OF s'(1) life_step.main [OF main_step.server_first [OF s'(2,3)]]] AtSelect
      by (fastforce simp: phase_order)
  next
    case AtShutdown
    let ?s1 = "server_closes s"
    have 1: "life_run metrics s (?s1\<lparr>conns := 0\<rparr>)"
      using life_run_step [OF life_step.main [OF main_step.shutdown [OF AtShutdown]]] requests_end [of metrics ?s1] by auto
    have "main_step metrics (?s1\<lparr>conns := 0\<rparr>) (?s1\<lparr>conns := 0, stmt := AtReceive\<rparr>)"
      using main_step.drained [of "?s1\<lparr>conns := 0\<rparr>" metrics] AtShutdown by simp
    from life_run.more [OF 1 life_step.main [OF this]] show ?thesis using AtShutdown by (fastforce simp: phase_order)
  next
    case AtReceive
    then obtain s' r where s': "life_run metrics s s'" "stmt s' = AtReceive" "serverDone s' = Some r" using server_reports [OF ok, of metrics] by auto
    show ?thesis using life_run.more [OF s'(1) life_step.main [OF main_step.receive [OF s'(2,3)]]] AtReceive
      by (fastforce simp: phase_order)
  next
    case AtClient
    show ?thesis by (rule one [OF main_step.client]) (simp_all add: AtClient phase_order)
  next
    case AtCheck
    show ?thesis by (rule one [OF main_step.backend]) (simp_all add: AtCheck phase_order)
  next
    case AtRoot
    show ?thesis by (rule one [OF main_step.root]) (simp_all add: AtRoot phase_order)
  next
    case AtMetrics
    show ?thesis by (rule one [OF main_step.sampler]) (simp_all add: AtMetrics phase_order)
  next
    case AtReaper
    show ?thesis by (rule one [OF main_step.reaper]) (simp_all add: AtReaper phase_order)
  next
    case AtServer
    show ?thesis by (rule one [OF main_step.server]) (simp_all add: AtServer phase_order)
  next
    case AtSignals
    show ?thesis by (rule one [OF main_step.signals]) (simp_all add: AtSignals phase_order)
  next
    case AtWorker
    show ?thesis by (rule one [OF main_step.worker]) (simp_all add: AtWorker phase_order)
  next
    case AtListen
    show ?thesis by (rule one [OF main_step.listen]) (simp_all add: AtListen phase_order)
  qed (use early in \<open>simp_all add: phase_order\<close>)
qed

lemma reaches_end: "in_order s \<Longrightarrow> \<exists>s'. life_run metrics s s' \<and> stmt s' = AtEnd"
proof (induction "rank AtEnd - rank (stmt s)" arbitrary: s rule: less_induct)
  case less
  consider "stmt s < AtReturn" | "stmt s = AtReturn" | "stmt s = AtEnd" by (cases "stmt s") (simp_all add: phase_order)
  then show ?case
  proof cases
    case 1
    then obtain s' where s': "life_run metrics s s'" "stmt s < stmt s'"
      using advances less.prems by (auto simp: in_order_def)
    then have "rank AtEnd - rank (stmt s') < rank AtEnd - rank (stmt s)" using 1 by (simp add: phase_order)
    from less.hyps [OF this life_run_in_order [OF s'(1) less.prems]] show ?thesis using life_run_trans s'(1) by blast
  next
    case 2
    then show ?thesis by (rule unwinds)
  next
    case 3
    then show ?thesis using life_run.here by blast
  qed
qed

text \<open>What runs has its ground under its feet.\<close>

lemma ground:
  assumes "in_order s" "p \<in> going s" "p \<noteq> HttpServer"
  shows "root_there s \<and> client_open s"
proof -
  obtain n where n: "deferred s = drop n all_deferred"
    using assms(1) by (auto simp: in_order_def stack_ok_def all_deferred_def split: if_splits intro: exI [of _ 6])
  have "{StopWorker, StopReaper, StopMetrics} \<inter> set (deferred s) \<noteq> {}"
    using assms by (cases p) (auto simp: in_order_def held_ok_def)
  then have "n \<le> 3" unfolding n all_deferred_def by (rule contrapos_np) (auto dest!: in_set_dropD simp: not_le drop_Cons' split: if_splits)
  then have "CloseRoot \<in> set (deferred s) \<and> CloseClient \<in> set (deferred s)"
    unfolding n all_deferred_def by (auto simp: le_Suc_eq numeral_eq_Suc)
  then show ?thesis using assms(1) by (simp add: in_order_def held_ok_def)
qed

text \<open>
  C34. However the goroutines, the signals and the connections interleave, the adapter is taken down in
  order: while the worker, a sampler or the reaper runs, the temp root is there and the Redis client is
  open; after a graceful shutdown no connection is being served when anything is taken down; when \<^verbatim>\<open>run\<close>
  has ended, no goroutine is left, the root is closed (a directory that could not be removed stays, which
  the code only logs) and so is the client; and wherever it is, it can come to its end.
\<close>

theorem lifecycle_orderly:
  assumes "life_run metrics birth s"
  shows "(\<forall>p. p \<in> going s \<and> p \<noteq> HttpServer \<longrightarrow> root_there s \<and> client_open s)
    \<and> (closing s \<and> AtShutdown < stmt s \<longrightarrow> conns s = 0)
    \<and> (stmt s = AtEnd \<longrightarrow> going s = {} \<and> \<not> root_there s \<and> \<not> client_open s)
    \<and> (\<exists>s'. life_run metrics s s' \<and> stmt s \<le> stmt s' \<and> stmt s' = AtEnd)"
proof (intro conjI impI allI)
  have ok: "in_order s" using life_run_in_order [OF assms in_order_birth] .
  have ended: "deferred s = []" "HttpServer \<notin> going s" if "stmt s = AtEnd"
    using that ok by (auto simp: in_order_def stack_ok_def server_ok_def phase_order)
  show "root_there s" "client_open s" if "p \<in> going s \<and> p \<noteq> HttpServer" for p using ground [OF ok] that by blast+
  show "conns s = 0" if "closing s \<and> AtShutdown < stmt s" using ok that by (auto simp: in_order_def server_ok_def)
  show root: "\<not> root_there s" "\<not> client_open s" if "stmt s = AtEnd"
    using ok ended [OF that] by (simp_all add: in_order_def held_ok_def)
  show "going s = {}" if "stmt s = AtEnd" using ground [OF ok] root [OF that] ended [OF that] by blast
  show "\<exists>s'. life_run metrics s s' \<and> stmt s \<le> stmt s' \<and> stmt s' = AtEnd"
    using reaches_end [OF ok, of metrics] by (cases "stmt s") (auto simp: phase_order)
qed

text \<open>The adapter at its work: the server listens and a connection is served.\<close>

definition at_work :: life where
  "at_work = \<lparr>stmt = AtSelect, deferred = all_deferred, going = {Sampler, ReaperLoop, WorkerLoop, QueueSampler, HttpServer},
     told = {}, client_open = True, root_there = True, root_left = False, signalled = False, closing = False, conns = 1, serverDone = None,
     returned = None\<rparr>"

lemma at_work_runs: "life_run True birth at_work"
proof -
  have step: "main_step True s s' \<Longrightarrow> life_run True b s \<Longrightarrow> life_run True b s'" for b s s'
    using life_run.more life_step.main by blast
  note run = life_run.here [of True birth]
  note run = step [OF main_step.client run, simplified birth_def, simplified]
  note run = step [OF main_step.backend run, simplified]
  note run = step [OF main_step.root run, simplified]
  note run = step [OF main_step.sampler run, simplified]
  note run = step [OF main_step.reaper run, simplified]
  note run = step [OF main_step.server run, simplified]
  note run = step [OF main_step.signals run, simplified]
  note run = step [OF main_step.worker run, simplified]
  note run = step [OF main_step.listen run, simplified]
  note run = life_run.more [OF run life_step.other [OF other_step.accepts], simplified]
  then show ?thesis by (simp add: at_work_def birth_def all_deferred_def insert_commute)
qed

theorem lifecycle_orderly_witness:
  "WorkerLoop \<in> going at_work \<and> root_there at_work \<and> client_open at_work \<and>
   (\<exists>s. life_run True at_work s \<and> stmt s = AtEnd)"
proof -
  have "stmt at_work \<noteq> AtEnd" "WorkerLoop \<in> going at_work" by (simp_all add: at_work_def)
  then show ?thesis using lifecycle_orderly [OF at_work_runs] by auto
qed

end
