(* ===== verification/Platform.thy ===== *)
theory Platform
  imports Background
begin

text \<open>
  What the recorder reads from its surroundings: \<^verbatim>\<open>pkg/metrics/platform_unix.go\<close> and
  \<^verbatim>\<open>platform_other.go\<close>, the statistics of the Redis client's pool (\<^verbatim>\<open>pkg/metrics/redis.go\<close>),
  and \<^verbatim>\<open>Optional\<close>.
\<close>

section \<open>A child that ended\<close>

text \<open>
  \<^verbatim>\<open>os.ProcessState\<close> as the platform gives it: \<open>ps_Sys\<close> is its \<^verbatim>\<open>syscall.WaitStatus\<close>, \<open>Some\<close> signal for a
  child that was killed, and \<open>ps_Maxrss\<close> the field of its \<^verbatim>\<open>syscall.Rusage\<close>; \<open>None\<close> where the value has
  another type.
\<close>

record os_ProcessState =
  ps_ExitCode :: int
  ps_Sys :: "int option option"
  ps_Maxrss :: "int option"

definition signalExitCode :: "os_ProcessState option \<Rightarrow> int option" where
  "signalExitCode state =
     (case state of
        None \<Rightarrow> None
      | Some p \<Rightarrow>
          (case ps_Sys p of
             None \<Rightarrow> None
           | Some None \<Rightarrow> None
           | Some (Some n) \<Rightarrow> Some (128 + n)))"

definition max_RSS :: "bool \<Rightarrow> os_ProcessState option \<Rightarrow> int option" where
  "max_RSS linux state =
     (case state of
        None \<Rightarrow> None
      | Some p \<Rightarrow>
          (case ps_Maxrss p of
             None \<Rightarrow> None
           | Some usage \<Rightarrow> if usage \<le> 0 then None else Some (if linux then usage * 1024 else usage)))"

text \<open>The other platforms know nothing.\<close>

definition other_signalExitCode :: "os_ProcessState option \<Rightarrow> int option" where
  "other_signalExitCode state = None"

definition other_maxRSS :: "os_ProcessState option \<Rightarrow> int option" where
  "other_maxRSS state = None"

definition other_filesystem :: "string \<Rightarrow> goerr + int \<times> int \<times> int" where
  "other_filesystem path = Inl (ErrText ''filesystem metrics unsupported on this platform'')"

text \<open>The state that the recorder is handed in \<^verbatim>\<open>Run\<close>: this one, read by the platform.\<close>

definition process_state :: "bool \<Rightarrow> os_ProcessState \<Rightarrow> ProcessState" where
  "process_state linux p = \<lparr>ExitCode = ps_ExitCode p, signal = (case ps_Sys p of Some s \<Rightarrow> s | None \<Rightarrow> None),
     maxRSS = max_RSS linux (Some p)\<rparr>"

text \<open>The exit status is the one a shell reports, not the -1 of Go; the peak is positive and in bytes.\<close>

lemma exitStatus_process_state:
  "exitStatus (process_state linux p) =
     dec_of_int (case signalExitCode (Some p) of Some code \<Rightarrow> code | None \<Rightarrow> ps_ExitCode p)"
  by (auto simp: exitStatus_def process_state_def signalExitCode_def split: option.split)

lemma max_RSS_positive: "max_RSS linux state = Some rss \<Longrightarrow> 0 < rss"
  by (auto simp: max_RSS_def split: option.splits if_splits)

text \<open>A child killed by SIGKILL or SIGTERM keeps its own label; any other signal is folded into \<^verbatim>\<open>other\<close>.\<close>

lemma killed_status:
  assumes "ps_Sys p = Some (Some n)" "n \<in> {9, 15}"
  shows "normalize_label ''subprocess_exit_code_total'' ''code'' (exitStatus (process_state linux p)) = dec_of_int (128 + n)"
  using assms by (auto simp: exitStatus_process_state signalExitCode_def, code_simp, code_simp)

section \<open>The pool of the Redis client\<close>

text \<open>The counters of \<^verbatim>\<open>redis.PoolStats\<close> are \<^verbatim>\<open>uint32\<close>; \<open>rc_PoolSize\<close> and the next are the client's options.\<close>

record PoolStats =
  Hits :: "32 word"
  Misses :: "32 word"
  Timeouts :: "32 word"
  WaitCount :: "32 word"
  WaitDurationNs :: int
  TotalConns :: "32 word"
  IdleConns :: "32 word"
  StaleConns :: "32 word"

record redis_client =
  rc_PoolSize :: int
  rc_MaxActiveConns :: int

record pool_metric =
  pm_Name :: string
  pm_ConstLabels :: "(string \<times> string) list"
  pm_Kind :: kind
  pm_read :: "PoolStats \<Rightarrow> mvalue"

definition pool_metric_of :: "string \<Rightarrow> (PoolStats \<Rightarrow> mvalue) \<Rightarrow> kind \<Rightarrow> (string \<times> string) list \<Rightarrow> pool_metric" where
  "pool_metric_of name read knd labels = \<lparr>pm_Name = name, pm_ConstLabels = labels, pm_Kind = knd, pm_read = read\<rparr>"

text \<open>
  \<^verbatim>\<open>MustRegister\<close> panics (\<open>None\<close>) when a metric of this name and these constant labels is there, or one
  of this name with other label names. The prefix is the same for all.
\<close>

definition MustRegister :: "pool_metric \<Rightarrow> pool_metric list \<Rightarrow> pool_metric list option" where
  "MustRegister m ms =
     (if \<exists>m' \<in> set ms. pm_Name m' = pm_Name m \<and>
           (pm_ConstLabels m' = pm_ConstLabels m \<or> map fst (pm_ConstLabels m') \<noteq> map fst (pm_ConstLabels m)) then None
      else Some (ms @ [m]))"

definition uint32_value :: "32 word \<Rightarrow> mvalue" where
  "uint32_value n = Num (uint n)"

definition pool_metrics :: "redis_client \<Rightarrow> pool_metric list" where
  "pool_metrics client =
     [pool_metric_of ''redis_pool_connections'' (\<lambda>s. uint32_value (TotalConns s)) Gauge [(''state'', ''total'')],
      pool_metric_of ''redis_pool_connections'' (\<lambda>s. uint32_value (IdleConns s)) Gauge [(''state'', ''idle'')],
      pool_metric_of ''redis_pool_requests_total'' (\<lambda>s. uint32_value (Hits s)) Counter [(''result'', ''hit'')],
      pool_metric_of ''redis_pool_requests_total'' (\<lambda>s. uint32_value (Misses s)) Counter [(''result'', ''miss'')],
      pool_metric_of ''redis_pool_timeouts_total'' (\<lambda>s. uint32_value (Timeouts s)) Counter [],
      pool_metric_of ''redis_pool_waits_total'' (\<lambda>s. uint32_value (WaitCount s)) Counter [],
      pool_metric_of ''redis_pool_wait_duration_seconds_total'' (\<lambda>s. Secs (WaitDurationNs s)) Counter [],
      pool_metric_of ''redis_pool_stale_connections_total'' (\<lambda>s. uint32_value (StaleConns s)) Counter [],
      pool_metric_of ''redis_pool_size'' (\<lambda>s. Num (rc_PoolSize client)) Gauge [],
      pool_metric_of ''redis_pool_max_active_connections'' (\<lambda>s. Num (rc_MaxActiveConns client)) Gauge []]"

fun register_all :: "pool_metric list \<Rightarrow> pool_metric list \<Rightarrow> pool_metric list option" where
  "register_all [] ms = Some ms"
| "register_all (x # xs) ms = (case MustRegister x ms of None \<Rightarrow> None | Some ms' \<Rightarrow> register_all xs ms')"

definition RegisterRedis :: "Recorder option \<Rightarrow> redis_client \<Rightarrow> pool_metric list \<Rightarrow> pool_metric list option" where
  "RegisterRedis r client ms = (if r = None then Some ms else register_all (pool_metrics client) ms)"

text \<open>
  Registering at the start does not panic; doing it twice would. No metric of the pool has the name of
  one of the catalog, and what a scrape reads of the counters is below their wrap.
\<close>

lemma registers: "RegisterRedis (Some r) client [] = Some (pool_metrics client)"
  by (simp add: RegisterRedis_def pool_metrics_def pool_metric_of_def MustRegister_def)

lemma registers_twice: "RegisterRedis (Some r) client (pool_metrics client) = None"
  by (simp add: RegisterRedis_def pool_metrics_def pool_metric_of_def MustRegister_def)

lemma pool_names: "map pm_Name (pool_metrics client) =
    [''redis_pool_connections'', ''redis_pool_connections'', ''redis_pool_requests_total'', ''redis_pool_requests_total'',
     ''redis_pool_timeouts_total'', ''redis_pool_waits_total'', ''redis_pool_wait_duration_seconds_total'',
     ''redis_pool_stale_connections_total'', ''redis_pool_size'', ''redis_pool_max_active_connections'']"
  by (simp add: pool_metrics_def pool_metric_of_def)

lemma pool_names_apart: "m \<in> set (pool_metrics client) \<Longrightarrow> map_of catalog (pm_Name m) = None"
proof -
  have "list_all (\<lambda>n. map_of catalog n = None)
    [''redis_pool_connections'', ''redis_pool_connections'', ''redis_pool_requests_total'', ''redis_pool_requests_total'',
     ''redis_pool_timeouts_total'', ''redis_pool_waits_total'', ''redis_pool_wait_duration_seconds_total'',
     ''redis_pool_stale_connections_total'', ''redis_pool_size'', ''redis_pool_max_active_connections'']"
    by code_simp
  then have "list_all (\<lambda>n. map_of catalog n = None) (map pm_Name (pool_metrics client))" by (simp only: pool_names)
  then show "m \<in> set (pool_metrics client) \<Longrightarrow> map_of catalog (pm_Name m) = None" by (simp add: list_all_iff)
qed

lemma pool_reading:
  assumes "m \<in> set (pool_metrics client)" "pm_Kind m = Counter"
  shows "pm_read m s = Secs (WaitDurationNs s) \<or> (\<exists>n \<in> {0..<2 ^ 32}. pm_read m s = Num n)"
  using assms uint_lt2p [where 'a = 32] by (auto simp: pool_metrics_def pool_metric_of_def uint32_value_def)

section \<open>An optional recorder\<close>

text \<open>\<^verbatim>\<open>Optional\<close>: the constructors take any number of recorders and use the first.\<close>

definition Optional :: "Recorder option list \<Rightarrow> Recorder option" where
  "Optional rs = (case rs of [] \<Rightarrow> None | r # _ \<Rightarrow> r)"

lemma Optional_hd: "Optional (r # rs) = r"
  by (simp add: Optional_def)

end
