(* ===== verification/Spec2Isabelle.thy ===== *)
theory Spec2Isabelle
  imports Controller_Spec Handler_Spec Govuln_Render Background_Spec Settled Reaper Queue_Metrics Journey Lifecycle
    Platform
begin

text \<open>
  A verification development of the Harbor scanner adapter for Trivy, a service in Go that lets the Harbor
  registry scan images. It models the Go code of the adapter and of its report tool as definitions that
  compute, and proves what they do. Paths below are relative to \<^verbatim>\<open>src/\<close>.

  \<^bold>\<open>The program.\<close> Harbor posts a scan request to the HTTP API (\<^verbatim>\<open>pkg/http/api/v1/handler.go\<close>). The
  enqueuer (\<^verbatim>\<open>pkg/queue/enqueuer.go\<close>) makes one job of it for every report that may be asked for; the job
  store (\<^verbatim>\<open>pkg/persistence/redis/store.go\<close>) writes the job and a delivery on a Redis stream in one script.
  The worker (\<^verbatim>\<open>pkg/queue/stream.go\<close>) reads a delivery, takes a lease on it and has the controller
  (\<^verbatim>\<open>pkg/scan/controller.go\<close>) execute the job: the wrapper (\<^verbatim>\<open>pkg/trivy/wrapper.go\<close>) runs Trivy as a
  child, the transformer makes Harbor's report of its output, and the store keeps report and outcome under
  the lease. A delivery that cannot be handled goes to the quarantine. Harbor polls the API for the report.
  Beside this run the startup sweep of temporary directories (\<^verbatim>\<open>pkg/trivy/reaper.go\<close>), the background
  sampler (\<^verbatim>\<open>pkg/metrics/background.go\<close>) and the sampler of the queue (\<^verbatim>\<open>pkg/queue/metrics.go\<close>).

  \<^bold>\<open>Theories, in the order of imports.\<close>
  \<^item> Shared: \<^verbatim>\<open>Prelude\<close> has the conventions for errors, the logic (\<^verbatim>\<open>wp\<close>, \<^verbatim>\<open>keeps\<close>) for operations on a state
    and its rules. \<^verbatim>\<open>Go_Strings\<close>, \<^verbatim>\<open>Go_Conv\<close>, \<^verbatim>\<open>Go_Path\<close>, \<^verbatim>\<open>Go_Url\<close> and \<^verbatim>\<open>Json\<close> are what the
    program uses of Go's \<^verbatim>\<open>strings\<close>, \<^verbatim>\<open>strconv\<close>, \<^verbatim>\<open>encoding/base64\<close>, \<^verbatim>\<open>path/filepath\<close>, \<^verbatim>\<open>net/url\<close> and
    \<^verbatim>\<open>encoding/json\<close>.
  \<^item> Data: \<^verbatim>\<open>Harbor\<close> and \<^verbatim>\<open>Harbor_Json\<close> (\<^verbatim>\<open>pkg/harbor/model.go\<close>), \<^verbatim>\<open>Api\<close> (\<^verbatim>\<open>pkg/http/api/base_handler.go\<close>),
    \<^verbatim>\<open>Job\<close> (\<^verbatim>\<open>pkg/job/model.go\<close>), \<^verbatim>\<open>Errors\<close> (\<^verbatim>\<open>pkg/trivy/errors.go\<close> and the errors the code distinguishes),
    \<^verbatim>\<open>Trivy_Model\<close> (\<^verbatim>\<open>pkg/trivy/model.go\<close> and \<^verbatim>\<open>pkg/scan/transformer.go\<close>), \<^verbatim>\<open>Config\<close> (\<^verbatim>\<open>pkg/etc/config.go\<close>).
  \<^item> The world: \<^verbatim>\<open>Metrics\<close> (\<^verbatim>\<open>pkg/metrics/recorder.go\<close>, \<^verbatim>\<open>process.go\<close>), \<^verbatim>\<open>Redis_Api\<close> (the commands and the laws
    of the server), \<^verbatim>\<open>World\<close> (the state all operations share), \<^verbatim>\<open>Host\<close> (\<^verbatim>\<open>pkg/ext/ambassador.go\<close> and \<^verbatim>\<open>os\<close>).
  \<^item> Jobs: \<^verbatim>\<open>Store\<close> and \<^verbatim>\<open>Store_Spec\<close>, \<^verbatim>\<open>Enqueuer\<close>, \<^verbatim>\<open>Controller\<close> and \<^verbatim>\<open>Controller_Spec\<close>.
  \<^item> The worker: \<^verbatim>\<open>Worker\<close> models \<^verbatim>\<open>pkg/queue/stream.go\<close> and \<^verbatim>\<open>quarantine.go\<close>; \<^verbatim>\<open>Worker_Spec\<close>,
    \<^verbatim>\<open>Delivery_Spec\<close>, \<^verbatim>\<open>Work_Queue\<close>, \<^verbatim>\<open>Worker_Stop\<close> and \<^verbatim>\<open>Settled\<close> are about it. \<^verbatim>\<open>Queue_Metrics\<close> is the sampler.
  \<^item> Trivy: \<^verbatim>\<open>Buffer\<close> (\<^verbatim>\<open>pkg/ext/buffer.go\<close>), \<^verbatim>\<open>Memory\<close> (\<^verbatim>\<open>memory.go\<close>), \<^verbatim>\<open>Target\<close> (\<^verbatim>\<open>target.go\<close>), \<^verbatim>\<open>Trivy_Env\<close>,
    \<^verbatim>\<open>Trivy_Output\<close> and \<^verbatim>\<open>Wrapper\<close> (\<^verbatim>\<open>wrapper.go\<close>), \<^verbatim>\<open>Reaper\<close> (\<^verbatim>\<open>tempdir.go\<close>, \<^verbatim>\<open>reaper.go\<close>), all of \<^verbatim>\<open>pkg/trivy\<close>.
  \<^item> The API: \<^verbatim>\<open>Handler\<close> and \<^verbatim>\<open>Handler_Spec\<close>.
  \<^item> The background: \<^verbatim>\<open>Walk\<close> (the bounded walk), \<^verbatim>\<open>Background\<close> and \<^verbatim>\<open>Background_Spec\<close> (\<^verbatim>\<open>background.go\<close>,
    \<^verbatim>\<open>platform_unix.go\<close>), \<^verbatim>\<open>Platform\<close> (the platform files and \<^verbatim>\<open>redis.go\<close> of \<^verbatim>\<open>pkg/metrics\<close>).
  \<^item> The process: \<^verbatim>\<open>Checker\<close> (\<^verbatim>\<open>pkg/etc/checker.go\<close>), \<^verbatim>\<open>Pool\<close> (\<^verbatim>\<open>pkg/redisx/pool.go\<close>), \<^verbatim>\<open>Adapter\<close>
    (\<^verbatim>\<open>cmd/scanner-trivy/main.go\<close>, \<^verbatim>\<open>pkg/http/api/server.go\<close>), \<^verbatim>\<open>Lifecycle\<close> (the goroutines of the same two
    files, started and stopped in every interleaving).
  \<^item> The whole: \<^verbatim>\<open>Journey\<close> follows a request through the API, the enqueuer, the store, the worker, the
    controller and the API again.
  \<^item> The report tool: \<^verbatim>\<open>Govuln_Report\<close> and \<^verbatim>\<open>Govuln_Render\<close> (\<^verbatim>\<open>tools/govulncheck-report\<close>).
  \<^item> Examples: \<^verbatim>\<open>Ref_Codec\<close> and \<^verbatim>\<open>Ref_Host\<close> are a codec and a host that compute; the reference server
    \<^verbatim>\<open>ref_redis\<close> is in \<^verbatim>\<open>Redis_Api\<close>, and what the operations do on it undisturbed in \<^verbatim>\<open>Ref_Run\<close>.

  \<^bold>\<open>The state.\<close> An operation is a state transformer on the record \<^verbatim>\<open>world\<close>: \<^verbatim>\<open>srv\<close> is the Redis server,
  \<^verbatim>\<open>clock\<close> the time, \<^verbatim>\<open>stopped\<close> the error of the parent context, \<^verbatim>\<open>lost\<close> whether the heartbeat gave the lease
  up, \<^verbatim>\<open>recorder\<close> the metrics sink (a nil recorder is \<^verbatim>\<open>None\<close>), \<^verbatim>\<open>entropy\<close> the random bytes to come, and \<^verbatim>\<open>hist\<close>
  what this process changed on the server, in order. The list \<^verbatim>\<open>turns\<close> is the interleaving: before each call to
  the server a turn lets all others change it in any way, time pass, the context end or the lease be lost,
  and decides whether the command is delivered, is not, or is executed with its reply lost. A theorem for
  every world is a theorem for every such schedule; \<^verbatim>\<open>turns w = []\<close> says that nobody interferes. The worker
  extends the record by its own fields (\<^verbatim>\<open>wworld\<close>), the examples' host by its files (\<^verbatim>\<open>hworld\<close>). A Go
  function that returns a value and an error is a sum, with the error on the left; a panic is a value of its
  own where the code can panic. Scripts run as one command on the server's state.

  \<^bold>\<open>Interfaces.\<close> \<^verbatim>\<open>redis_server\<close> states what a command does to the keys a view shows; \<^verbatim>\<open>codec_laws\<close> that
  decoding gives back what was encoded; \<^verbatim>\<open>host_laws\<close>, \<^verbatim>\<open>sampler_laws\<close>, \<^verbatim>\<open>temp_dirs\<close> and \<^verbatim>\<open>path_laws\<close> which
  operations of the operating system make and remove files, where a removal may fail. These five stand for code outside the
  repository and are interpreted on the reference implementations. \<^verbatim>\<open>store_keeps\<close>, \<^verbatim>\<open>terminal_store\<close> and
  \<^verbatim>\<open>enqueue_store\<close> are what the controller and the enqueuer ask of the job store, interpreted on
  \<^verbatim>\<open>redis_store\<close>, the model of the store; \<^verbatim>\<open>recorder_keeps\<close> is what the metrics must leave alone;
  \<^verbatim>\<open>delivery_keeps\<close> is what the worker's own calls must keep for a property of handling one delivery. The
  last is interpreted five times: on the changes made, the removals, the metrics, the steps of the
  abstract queue and the progress of the world.

  \<^bold>\<open>What is proved.\<close>
  \<^item> C1--C5: the store writes only under the lease, starts retention only at the acknowledgement, reads back
    what it wrote, and enqueues all or nothing unless the server refuses to undo.
  \<^item> C6--C8: the controller's credentials, its report and its outcome.
  \<^item> C9: the whole way of a request, from its acceptance to the report that is fetched.
  \<^item> C10, C11, C36, C37, C40: the worker. C36 is the refinement: each change it makes for a delivery is a step
    of the abstract queue of \<^verbatim>\<open>Work_Queue\<close>, whose invariants hold in every reachable state. C37 is termination
    of its loops, C40 says what has become of a delivery once it is handled, the retry limit included.
  \<^item> C12--C22: Trivy's side: the tail buffer equals its specification, the bounds of an accepted
    configuration and of the child's memory, the classes of failures, the child's environment and command
    line, redaction, clean-up, the version cache, the choice of the target.
  \<^item> C23--C28: the API: validation, acceptance, fetching, metrics, and that what was accepted can be polled.
  \<^item> C29--C31: the report tool.
  \<^item> C34: the state machine of the main program: nothing is taken down under what still runs, a graceful
    shutdown waits for the connections, everything is gone at the end, and the end stays in reach.
  \<^item> C32, C33, C35, C38, C39: the walk equals the sum over the tree within its budget, the samplers tell what they
    were answered and stay within bounds, the sweep spares its own process.

  Some properties state behaviour the authors would not want: C6 (a password with a colon is cut), C12 (a buffer with a
  negative limit panics when it is read before it is written), C26 (a
  mismatched capability makes an unreachable job); lemmas \<^verbatim>\<open>unclean_root_swept\<close> and \<^verbatim>\<open>check_panics\<close> do too.

  \<^bold>\<open>Bounds and fuel.\<close> \<^verbatim>\<open>run_loop\<close>, \<^verbatim>\<open>ensure_loop\<close>, \<^verbatim>\<open>sample_loop\<close>, \<^verbatim>\<open>present_loop\<close> and \<^verbatim>\<open>monitor_loop\<close> are the
  loops that run as long as the process; their first argument is the number of iterations, or the list of
  wake-ups. For the worker C37 shows that more iterations than turns suffice for it to return. The walk has
  no fuel: it terminates since each call either takes from its budget or from its list. Every other
  recursion is over the data. 64-bit values that may wrap or are checked by the code (attempts, durations, the
  TTL, lengths) carry the bound \<^verbatim>\<open>int64\<close>; values the code only adds within bounds are \<^verbatim>\<open>int\<close>.

  \<^bold>\<open>Not modelled.\<close>
  \<^item> Parameters, since they are not in the repository: the Redis server and client, gorilla's router and form
    decoder, promhttp, the registry client, \<^verbatim>\<open>os\<close> and \<^verbatim>\<open>os/exec\<close>, compression, the bytes of JSON and
    \<^verbatim>\<open>redis.ParseURL\<close>.
  \<^item> Logging, in every function. Texts of the errors of \<^verbatim>\<open>net/url\<close> and \<^verbatim>\<open>strconv\<close>.
  \<^item> Strings are bytes; \<^verbatim>\<open>ToLower\<close> and \<^verbatim>\<open>Fields\<close> are modelled for ASCII, counting runes for valid UTF-8. The
    numbers of an SBOM stay the literals they are. Durations and sizes given to Prometheus as float64 are
    integers. The order of iteration over a map is fixed where only one is possible to observe.
    A directory's entries are settled when it is opened.
  \<^item> The loop of \<^verbatim>\<open>net/http\<close>; \<^verbatim>\<open>Lifecycle\<close> has what \<^verbatim>\<open>ListenAndServe\<close> and \<^verbatim>\<open>Shutdown\<close> promise. Its goroutines
    are the names of parts whose work is in the theories above: that work and the steps of \<^verbatim>\<open>Lifecycle\<close> are
    not one transition system. After an error of the listener nothing waits for the connections that are
    still served, in the code and in the model.
  \<^item> The heartbeat of the worker is part of \<^verbatim>\<open>turns\<close>. \<^verbatim>\<open>RegisterRedis\<close> is not a step of \<^verbatim>\<open>adapter_run\<close>: its
    metrics are read from the client, not kept by the recorder.
  \<^item> Mocks and test helpers, the connection hooks of \<^verbatim>\<open>pkg/redisx\<close>, which only log, and reading the environment
    into the configuration, which is a library's.

  What is left of the implementation beyond these is imports, comments, logging and struct tags.
\<close>

end
